(* ===== verification/Prelude.thy ===== *)
theory Prelude
  imports Complex_Main
begin

text \<open>
  Shared ground of the development: Python's exceptions and strings as the code uses them,
  the keyed tables that stand for SQLite tables and for dictionaries whose order matters,
  and the generic lemma that an invariant kept by every step holds along every run.

  Conventions of all theories.  A call that may raise returns \<open>exn + 'a\<close> (\<open>Inl\<close> the
  exception); a method of an object returns that result together with the object's new
  state.  Instants are values of type \<open>real\<close> (the code's float seconds) passed as arguments
  where the code reads \<open>time.time()\<close>; fresh identifiers and tokens (\<open>uuid4\<close>,
  \<open>token_hex\<close>) are arguments too.  Tests of the form \<open>type(x) is t\<close> or
  \<open>isinstance(x, t)\<close> hold by the HOL types of the arguments and are left out, except where
  the type of a value decides what the code does.
\<close>

section \<open>Exceptions\<close>

datatype exn_class =
    ValueError | TypeError | KeyError | PermissionError | RuntimeError | FileNotFoundError
  | InvalidTransition | StaleDispatch | BudgetExceeded | QaTestIntegrityError
  | LedgerIntegrityError | ReplayConflict | IntegrityError
  | MigrationConflictError | MigrationIntegrityError | OSError | SkillIntegrityError
  | AttributeError | AssertionError

type_synonym exn = "exn_class \<times> string"

text \<open>The direct base classes, as the \<open>class\<close> statements of the code and Python declare them.\<close>

fun base_class :: "exn_class \<Rightarrow> exn_class" where
  "base_class InvalidTransition = ValueError"
| "base_class StaleDispatch = ValueError"
| "base_class BudgetExceeded = RuntimeError"
| "base_class QaTestIntegrityError = PermissionError"
| "base_class LedgerIntegrityError = RuntimeError"
| "base_class ReplayConflict = RuntimeError"
| "base_class MigrationConflictError = RuntimeError"
| "base_class MigrationIntegrityError = RuntimeError"
| "base_class SkillIntegrityError = PermissionError"
| "base_class c = c"

definition caught_by :: "exn_class list \<Rightarrow> exn \<Rightarrow> bool" where
  "caught_by cs e \<longleftrightarrow> fst e \<in> set cs \<or> base_class (fst e) \<in> set cs"

abbreviation raise :: "exn_class \<Rightarrow> string \<Rightarrow> exn + 'a" where
  "raise c msg \<equiv> Inl (c, msg)"

abbreviation ok :: "'a \<Rightarrow> exn + 'a" where
  "ok x \<equiv> Inr x"

definition is_ok :: "'e + 'a \<Rightarrow> bool" where
  "is_ok r = (case r of Inl _ \<Rightarrow> False | Inr _ \<Rightarrow> True)"

lemma is_ok_simps [simp]: "is_ok (Inr x)" "\<not> is_ok (Inl e)"
  by (simp_all add: is_ok_def)

lemma is_ok_iff: "is_ok r \<longleftrightarrow> (\<exists>x. r = Inr x)"
  by (cases r) auto

lemma not_is_ok_iff: "\<not> is_ok r \<longleftrightarrow> (\<exists>e. r = Inl e)"
  by (cases r) auto

text \<open>One statement that may raise, then the rest.\<close>

definition and_then :: "exn + 'a \<Rightarrow> ('a \<Rightarrow> exn + 'b) \<Rightarrow> exn + 'b" where
  "and_then r f = (case r of Inl e \<Rightarrow> Inl e | Inr x \<Rightarrow> f x)"

lemma and_then_simps [simp]: "and_then (Inl e) f = Inl e" "and_then (Inr x) f = f x"
  by (simp_all add: and_then_def)

lemma and_then_ok_iff: "and_then r f = Inr y \<longleftrightarrow> (\<exists>x. r = Inr x \<and> f x = Inr y)"
  by (cases r) simp_all

section \<open>Strings\<close>

text \<open>
  A Python string is a \<open>string\<close>: a list of characters, each a code point below 256.
  \<open>py_isspace\<close> is \<open>str.isspace\<close> of one such code point; \<open>py_strip\<close> is \<open>str.strip()\<close>.
\<close>

definition py_isspace :: "char \<Rightarrow> bool" where
  "py_isspace c \<longleftrightarrow> (let n = of_char c :: nat in
     9 \<le> n \<and> n \<le> 13 \<or> 28 \<le> n \<and> n \<le> 32 \<or> n = 133 \<or> n = 160)"

definition py_strip :: "string \<Rightarrow> string" where
  "py_strip s = rev (dropWhile py_isspace (rev (dropWhile py_isspace s)))"

definition blank :: "string \<Rightarrow> bool" where
  "blank s \<longleftrightarrow> py_strip s = []"

text \<open>The test \<open>ord(ch) < 32 or ord(ch) == 127\<close> that several validators apply.\<close>

definition is_control :: "char \<Rightarrow> bool" where
  "is_control c \<longleftrightarrow> (of_char c :: nat) < 32 \<or> (of_char c :: nat) = 127"

lemma blank_iff: "blank s \<longleftrightarrow> list_all py_isspace s"
proof
  assume "blank s"
  then have "list_all py_isspace (dropWhile py_isspace s)"
    by (simp add: blank_def py_strip_def dropWhile_eq_Nil_conv list_all_iff)
  then show "list_all py_isspace s"
    by (induction s) (auto split: if_splits)
next
  assume "list_all py_isspace s"
  then have "dropWhile py_isspace s = []"
    by (simp add: dropWhile_eq_Nil_conv list_all_iff)
  then show "blank s"
    by (simp only: blank_def py_strip_def rev.simps dropWhile.simps)
qed

lemma blank_Nil [simp]: "blank []"
  by (simp add: blank_iff)

lemma blank_Cons [simp]: "blank (c # s) \<longleftrightarrow> py_isspace c \<and> blank s"
  by (simp add: blank_iff)

lemma not_blank_nonempty: "\<not> blank s \<Longrightarrow> s \<noteq> []"
  by auto

text \<open>Length of the UTF-8 encoding of a string whose code points are below 256.\<close>

definition utf8_len :: "string \<Rightarrow> nat" where
  "utf8_len s = sum_list (map (\<lambda>c. if (of_char c :: nat) < 128 then 1 else 2) s)"

lemma length_le_utf8_len: "length s \<le> utf8_len s"
  by (induction s) (auto simp: utf8_len_def)

section \<open>Keyed tables\<close>

text \<open>
  A table is the list of its rows in insertion order.  \<open>row_at\<close> is a lookup by primary key,
  \<open>upsert\<close> is \<open>INSERT ... ON CONFLICT(key) DO UPDATE\<close> with \<open>merge old new\<close> as the updated
  row, \<open>update_where\<close> is \<open>UPDATE ... WHERE\<close>.
\<close>

definition row_at :: "('r \<Rightarrow> 'k) \<Rightarrow> 'k \<Rightarrow> 'r list \<Rightarrow> 'r option" where
  "row_at key k rows = find (\<lambda>r. key r = k) rows"

definition has_row :: "('r \<Rightarrow> 'k) \<Rightarrow> 'k \<Rightarrow> 'r list \<Rightarrow> bool" where
  "has_row key k rows \<longleftrightarrow> row_at key k rows \<noteq> None"

definition update_where :: "('r \<Rightarrow> bool) \<Rightarrow> ('r \<Rightarrow> 'r) \<Rightarrow> 'r list \<Rightarrow> 'r list" where
  "update_where p f rows = map (\<lambda>r. if p r then f r else r) rows"

definition upsert :: "('r \<Rightarrow> 'k) \<Rightarrow> ('r \<Rightarrow> 'r \<Rightarrow> 'r) \<Rightarrow> 'r \<Rightarrow> 'r list \<Rightarrow> 'r list" where
  "upsert key merge new rows =
     (if has_row key (key new) rows
      then update_where (\<lambda>r. key r = key new) (\<lambda>r. merge r new) rows
      else rows @ [new])"

definition keys_distinct :: "('r \<Rightarrow> 'k) \<Rightarrow> 'r list \<Rightarrow> bool" where
  "keys_distinct key rows \<longleftrightarrow> distinct (map key rows)"

lemma row_at_simps [simp]:
  "row_at key k [] = None"
  "row_at key k (r # rows) = (if key r = k then Some r else row_at key k rows)"
  by (simp_all add: row_at_def)

lemma row_at_append:
  "row_at key k (xs @ ys) = (case row_at key k xs of None \<Rightarrow> row_at key k ys | Some r \<Rightarrow> Some r)"
  by (induction xs) auto

lemma row_at_SomeD: "row_at key k rows = Some r \<Longrightarrow> r \<in> set rows \<and> key r = k"
  by (induction rows) (auto split: if_splits)

lemma row_at_None_iff: "row_at key k rows = None \<longleftrightarrow> k \<notin> key ` set rows"
  by (induction rows) auto

lemma has_row_iff: "has_row key k rows \<longleftrightarrow> k \<in> key ` set rows"
  by (auto simp: has_row_def row_at_None_iff)

lemma row_at_Some_iff:
  assumes "keys_distinct key rows"
  shows "row_at key k rows = Some r \<longleftrightarrow> r \<in> set rows \<and> key r = k"
  using assms by (induction rows) (auto simp: keys_distinct_def)

lemma row_at_update_where:
  assumes "\<And>r. p r \<Longrightarrow> key (f r) = key r"
  shows "row_at key k (update_where p f rows) =
           map_option (\<lambda>r. if p r then f r else r) (row_at key k rows)"
  using assms by (induction rows) (auto simp: update_where_def)

lemma keys_update_where:
  assumes "\<And>r. p r \<Longrightarrow> key (f r) = key r"
  shows "map key (update_where p f rows) = map key rows"
  using assms by (induction rows) (auto simp: update_where_def)

lemma set_update_where: "set (update_where p f rows) = (\<lambda>r. if p r then f r else r) ` set rows"
  by (simp add: update_where_def)

lemma keys_distinct_update_where [intro]:
  assumes "keys_distinct key rows" "\<And>r. p r \<Longrightarrow> key (f r) = key r"
  shows "keys_distinct key (update_where p f rows)"
  using assms by (simp add: keys_distinct_def keys_update_where)

lemma keys_distinct_snoc [intro]:
  assumes "keys_distinct key rows" "row_at key (key r) rows = None"
  shows "keys_distinct key (rows @ [r])"
  using assms by (auto simp: keys_distinct_def row_at_None_iff)

lemma keys_distinct_filter [intro]: "keys_distinct key rows \<Longrightarrow> keys_distinct key (filter p rows)"
  by (auto simp: keys_distinct_def distinct_map_filter)

lemma keys_distinct_Nil [simp]: "keys_distinct key []"
  by (simp add: keys_distinct_def)

text \<open>
  The contract of an upsert: the conflict clause never changes the primary key and, run twice
  with the same row, changes nothing the second time, provided the row is one the code inserts
  (\<open>good\<close>).  Every table with an \<open>ON CONFLICT\<close> clause interprets this locale on its own key
  and merge functions.
\<close>

locale upsert_table =
  fixes key :: "'r \<Rightarrow> 'k"
    and merge :: "'r \<Rightarrow> 'r \<Rightarrow> 'r"
    and good :: "'r \<Rightarrow> bool"
  assumes key_merge: "key old = key new \<Longrightarrow> key (merge old new) = key old"
    and merge_idem: "key old = key new \<Longrightarrow> merge (merge old new) new = merge old new"
    and merge_self: "good new \<Longrightarrow> merge new new = new"
begin

lemma distinct_upsert:
  assumes "keys_distinct key rows"
  shows "keys_distinct key (upsert key merge new rows)"
  using assms by (auto simp: upsert_def has_row_def key_merge)

lemma row_at_upsert:
  "row_at key k (upsert key merge new rows) =
     (if k = key new
      then Some (case row_at key k rows of None \<Rightarrow> new | Some old \<Rightarrow> merge old new)
      else row_at key k rows)"
proof (cases "has_row key (key new) rows")
  case True
  let ?p = "\<lambda>r. key r = key new" and ?f = "\<lambda>r. merge r new"
  have eq: "row_at key k (upsert key merge new rows) =
      map_option (\<lambda>r. if ?p r then ?f r else r) (row_at key k rows)"
    using True row_at_update_where [of ?p key ?f k rows] by (simp add: upsert_def key_merge)
  show ?thesis
  proof (cases "row_at key k rows")
    case None
    then show ?thesis using eq True by (auto simp: has_row_def)
  next
    case (Some r)
    then have "key r = k" by (auto dest: row_at_SomeD)
    then show ?thesis using eq Some by (auto simp: key_merge)
  qed
next
  case False
  then show ?thesis by (auto simp: upsert_def has_row_def row_at_append split: option.splits)
qed

lemma upsert_twice:
  assumes "good new"
  shows "upsert key merge new (upsert key merge new rows) = upsert key merge new rows"
proof (cases "has_row key (key new) rows")
  case True
  then have "has_row key (key new) (upsert key merge new rows)"
    by (simp add: has_row_def row_at_upsert)
  then show ?thesis using True
    by (simp add: upsert_def update_where_def key_merge merge_idem)
next
  case False
  then have fresh: "\<forall>r \<in> set rows. key r \<noteq> key new"
    by (metis has_row_iff imageI)
  have "has_row key (key new) (rows @ [new])"
    by (auto simp: has_row_iff)
  then have "upsert key merge new (rows @ [new]) =
      update_where (\<lambda>r. key r = key new) (\<lambda>r. merge r new) (rows @ [new])"
    by (simp add: upsert_def)
  also have "\<dots> = rows @ [new]"
    using fresh by (auto simp: update_where_def merge_self [OF assms] intro: map_idI)
  finally show ?thesis using False by (simp add: upsert_def)
qed

lemma upsert_keys: "key ` set (upsert key merge new rows) = insert (key new) (key ` set rows)"
proof -
  have "k \<in> key ` set (upsert key merge new rows) \<longleftrightarrow> k = key new \<or> k \<in> key ` set rows" for k
    using row_at_upsert [of k new rows]
    by (metis option.distinct(1) row_at_None_iff)
  then show ?thesis by blast
qed

end

section \<open>Runs\<close>

text \<open>
  A component whose every operation keeps an invariant keeps it along every sequence of
  operations: \<open>step s e\<close> is the state after the operation \<open>e\<close>, whether it raised or not.
\<close>

locale invariant_machine =
  fixes step :: "'s \<Rightarrow> 'e \<Rightarrow> 's"
    and inv :: "'s \<Rightarrow> bool"
  assumes step_inv: "inv s \<Longrightarrow> inv (step s e)"
begin

lemma run_inv: "inv s \<Longrightarrow> inv (foldl step s es)"
  by (induction es arbitrary: s) (auto intro: step_inv)

lemma run_prefix_inv: "inv s \<Longrightarrow> inv (foldl step s (take n es))"
  by (rule run_inv)

end

text \<open>A measure that no operation decreases does not decrease along a run.\<close>

locale monotone_machine =
  fixes step :: "'s \<Rightarrow> 'e \<Rightarrow> 's"
    and obs :: "'s \<Rightarrow> 'a :: order"
  assumes step_mono: "obs s \<le> obs (step s e)"
begin

lemma run_mono: "obs s \<le> obs (foldl step s es)"
proof (induction es arbitrary: s)
  case (Cons e es)
  then show ?case using order_trans [OF step_mono Cons.IH] by simp
qed simp

end

section \<open>Grants\<close>

text \<open>
  What a run grants: \<open>grants s e\<close> is the name of the permission that the operation \<open>e\<close> grants
  in state \<open>s\<close>, if it grants one.
\<close>

fun granted_in :: "('s \<Rightarrow> 'e \<Rightarrow> 's) \<Rightarrow> ('s \<Rightarrow> 'e \<Rightarrow> 'a option) \<Rightarrow> 's \<Rightarrow> 'e list \<Rightarrow> 'a list" where
  "granted_in step grants s [] = []"
| "granted_in step grants s (e # es) =
     (case grants s e of
        None \<Rightarrow> granted_in step grants (step s e) es
      | Some a \<Rightarrow> a # granted_in step grants (step s e) es)"

text \<open>An authority that spends what it grants grants each thing once.\<close>

locale single_use_authority = invariant_machine step inv
  for step :: "'s \<Rightarrow> 'e \<Rightarrow> 's" and inv :: "'s \<Rightarrow> bool" +
  fixes grants :: "'s \<Rightarrow> 'e \<Rightarrow> 'a option"
    and spent :: "'s \<Rightarrow> 'a set"
  assumes grants_unspent: "inv s \<Longrightarrow> grants s e = Some a \<Longrightarrow> a \<notin> spent s"
    and grants_spends: "inv s \<Longrightarrow> grants s e = Some a \<Longrightarrow> a \<in> spent (step s e)"
    and spent_mono: "inv s \<Longrightarrow> spent s \<subseteq> spent (step s e)"
begin

lemma granted_unspent: "inv s \<Longrightarrow> set (granted_in step grants s es) \<inter> spent s = {}"
proof (induction es arbitrary: s)
  case (Cons e es)
  have "set (granted_in step grants (step s e) es) \<inter> spent (step s e) = {}"
    using Cons step_inv by blast
  then show ?case using spent_mono [OF Cons.prems, of e] grants_unspent [OF Cons.prems, of e]
    by (fastforce split: option.splits)
qed simp

lemma granted_once: "inv s \<Longrightarrow> distinct (granted_in step grants s es)"
proof (induction es arbitrary: s)
  case (Cons e es)
  have "inv (step s e)" using Cons.prems by (rule step_inv)
  then show ?case using Cons.IH grants_spends [OF Cons.prems, of e] granted_unspent [of "step s e" es]
    by (auto split: option.splits)
qed simp

end

end
