(* ===== verification/Contracts.thy ===== *)
theory Contracts
  imports Prelude
begin

text \<open>
  \<open>src/subagentbridge/domain/contracts.py\<close>: the frozen dataclasses of the domain and the
  validation their \<open>__post_init__\<close> methods run.  A dataclass is a record; its constructor is
  the function \<open>mk_...\<close>, which returns the exception that validation raises or the record.
  The lemmas state what a constructed value satisfies.
\<close>

definition schema_version_current :: int where
  "schema_version_current = 1"

text \<open>\<open>_identity\<close>: bounded printable text.\<close>

definition valid_identity :: "string \<Rightarrow> bool" where
  "valid_identity v \<longleftrightarrow> \<not> (blank v \<or> length v > 4096 \<or> list_ex is_control v)"

definition identity_check :: "string \<Rightarrow> exn + unit" where
  "identity_check v =
     (if blank v \<or> length v > 4096 \<or> list_ex is_control v
      then raise ValueError ''must be bounded printable text'' else ok ())"

text \<open>The loop \<open>for key in (...): _identity(getattr(self, key), label=key)\<close>.\<close>

fun identities_check :: "string list \<Rightarrow> exn + unit" where
  "identities_check [] = ok ()"
| "identities_check (v # vs) =
     (case identity_check v of Inl e \<Rightarrow> Inl e | Inr _ \<Rightarrow> identities_check vs)"

lemma identity_check_eq:
  "identity_check v =
     (if valid_identity v then Inr () else Inl (ValueError, ''must be bounded printable text''))"
  by (auto simp: identity_check_def valid_identity_def)

lemma identities_check_eq:
  "identities_check vs =
     (if list_all valid_identity vs then Inr ()
      else Inl (ValueError, ''must be bounded printable text''))"
  by (induction vs) (auto simp: identity_check_eq)

lemma valid_identity_nonempty: "valid_identity v \<Longrightarrow> v \<noteq> []"
  by (auto simp: valid_identity_def)

section \<open>Enumerations\<close>

datatype role = PM | DEVELOPER | QA | SPECIALIST | EXECUTOR

datatype task_state =
    CREATED | FROZEN | DISPATCHED | PROCESS_SUCCEEDED | QA_VERIFIED | VERIFIED | BLOCKED
  | RECOVERY_REQUIRED

section \<open>Run and task\<close>

record run =
  r_run_id :: string
  r_project_id :: string
  r_policy_revision :: string
  r_schema_version :: int

definition mk_run :: "string \<Rightarrow> string \<Rightarrow> string \<Rightarrow> int \<Rightarrow> exn + run" where
  "mk_run run_id project_id policy_revision schema_version =
     (case identities_check [run_id, project_id, policy_revision] of
        Inl e \<Rightarrow> Inl e
      | Inr _ \<Rightarrow>
          if schema_version \<noteq> schema_version_current
          then raise ValueError ''unsupported schema version''
          else ok \<lparr>r_run_id = run_id, r_project_id = project_id,
                   r_policy_revision = policy_revision, r_schema_version = schema_version\<rparr>)"

record task =
  t_task_id :: string
  t_run_id :: string
  t_acceptance_criteria :: "string list"
  t_tree_sha :: string
  t_policy_revision :: string
  t_schema_version :: int

definition valid_criteria :: "string list \<Rightarrow> bool" where
  "valid_criteria criteria \<longleftrightarrow>
     \<not> (criteria = [] \<or> list_ex (\<lambda>x. blank x \<or> length x > 4096) criteria \<or> \<not> distinct criteria)"

definition mk_task ::
  "string \<Rightarrow> string \<Rightarrow> string list \<Rightarrow> string \<Rightarrow> string \<Rightarrow> int \<Rightarrow> exn + task" where
  "mk_task task_id run_id criteria tree_sha policy_revision schema_version =
     (case identities_check [task_id, run_id, tree_sha, policy_revision] of
        Inl e \<Rightarrow> Inl e
      | Inr _ \<Rightarrow>
          if \<not> valid_criteria criteria
          then raise ValueError ''nonempty, unique frozen acceptance criteria required''
          else if schema_version \<noteq> schema_version_current
          then raise ValueError ''unsupported schema version''
          else ok \<lparr>t_task_id = task_id, t_run_id = run_id, t_acceptance_criteria = criteria,
                   t_tree_sha = tree_sha, t_policy_revision = policy_revision,
                   t_schema_version = schema_version\<rparr>)"

definition task_ok :: "task \<Rightarrow> bool" where
  "task_ok t \<longleftrightarrow>
     list_all valid_identity [t_task_id t, t_run_id t, t_tree_sha t, t_policy_revision t] \<and>
     valid_criteria (t_acceptance_criteria t) \<and> t_schema_version t = schema_version_current"

lemma mk_task_ok_iff:
  "mk_task tid rid cs tree pol sv = Inr t \<longleftrightarrow>
     t = \<lparr>t_task_id = tid, t_run_id = rid, t_acceptance_criteria = cs, t_tree_sha = tree,
          t_policy_revision = pol, t_schema_version = sv\<rparr> \<and> task_ok t"
  by (auto simp: mk_task_def task_ok_def identities_check_eq)

lemma mk_task_error: "mk_task tid rid cs tree pol sv = Inl e \<Longrightarrow> fst e = ValueError"
  by (auto simp: mk_task_def identities_check_eq split: if_splits)

text \<open>\<open>Task(task.task_id, task.run_id, task.acceptance_criteria, tree, task.policy_revision)\<close>,
  the copy with another tree that the task engine builds.\<close>

definition task_with_tree :: "task \<Rightarrow> string \<Rightarrow> exn + task" where
  "task_with_tree t tree =
     mk_task (t_task_id t) (t_run_id t) (t_acceptance_criteria t) tree (t_policy_revision t)
       schema_version_current"

lemma task_with_tree_ok_iff:
  assumes "task_ok t"
  shows "task_with_tree t tree = Inr t' \<longleftrightarrow> valid_identity tree \<and> t' = t\<lparr>t_tree_sha := tree\<rparr>"
  using assms by (cases t) (auto simp: task_with_tree_def mk_task_ok_iff task_ok_def)

lemma task_with_tree_task_ok: "task_with_tree t tree = Inr t' \<Longrightarrow> task_ok t'"
  by (auto simp: task_with_tree_def mk_task_ok_iff)

section \<open>Dispatch, message, approval\<close>

record dispatch =
  d_dispatch_id :: string
  d_task_id :: string
  d_attempt :: int
  d_idempotency_key :: string
  d_tree_sha :: string
  d_policy_revision :: string

definition mk_dispatch ::
  "string \<Rightarrow> string \<Rightarrow> int \<Rightarrow> string \<Rightarrow> string \<Rightarrow> string \<Rightarrow> exn + dispatch" where
  "mk_dispatch dispatch_id task_id attempt key tree_sha policy_revision =
     (case identities_check [dispatch_id, task_id, key, tree_sha, policy_revision] of
        Inl e \<Rightarrow> Inl e
      | Inr _ \<Rightarrow>
          if attempt < 1
          then raise ValueError ''attempt must be positive and policy revision nonempty''
          else ok \<lparr>d_dispatch_id = dispatch_id, d_task_id = task_id, d_attempt = attempt,
                   d_idempotency_key = key, d_tree_sha = tree_sha,
                   d_policy_revision = policy_revision\<rparr>)"

lemma mk_dispatch_ok_iff:
  "mk_dispatch did tid n key tree pol = Inr d \<longleftrightarrow>
     d = \<lparr>d_dispatch_id = did, d_task_id = tid, d_attempt = n, d_idempotency_key = key,
          d_tree_sha = tree, d_policy_revision = pol\<rparr> \<and>
     list_all valid_identity [did, tid, key, tree, pol] \<and> 1 \<le> n"
  by (auto simp: mk_dispatch_def identities_check_eq)

lemma mk_dispatch_error: "mk_dispatch did tid n key tree pol = Inl e \<Longrightarrow> fst e = ValueError"
  by (auto simp: mk_dispatch_def identities_check_eq split: if_splits)

record message =
  m_message_id :: string
  m_from_principal :: string
  m_to_principal :: string
  m_task_id :: string
  m_dispatch_id :: string
  m_payload :: string

definition mk_message ::
  "string \<Rightarrow> string \<Rightarrow> string \<Rightarrow> string \<Rightarrow> string \<Rightarrow> string \<Rightarrow> exn + message" where
  "mk_message message_id from_principal to_principal task_id dispatch_id payload =
     (case identities_check [message_id, from_principal, to_principal, task_id, dispatch_id] of
        Inl e \<Rightarrow> Inl e
      | Inr _ \<Rightarrow> ok \<lparr>m_message_id = message_id, m_from_principal = from_principal,
                  m_to_principal = to_principal, m_task_id = task_id,
                  m_dispatch_id = dispatch_id, m_payload = payload\<rparr>)"

record approval =
  a_decision_id :: string
  a_operation_fingerprint :: string
  a_policy_revision :: string
  a_human_principal_id :: "string option"
  a_approved :: "bool option"

definition mk_approval ::
  "string \<Rightarrow> string \<Rightarrow> string \<Rightarrow> string option \<Rightarrow> bool option \<Rightarrow> exn + approval" where
  "mk_approval decision_id fp policy_revision human approved =
     (case identities_check ([decision_id, fp, policy_revision] @
             (case human of None \<Rightarrow> [] | Some h \<Rightarrow> [h])) of
        Inl e \<Rightarrow> Inl e
      | Inr _ \<Rightarrow> ok \<lparr>a_decision_id = decision_id, a_operation_fingerprint = fp,
                  a_policy_revision = policy_revision, a_human_principal_id = human,
                  a_approved = approved\<rparr>)"

section \<open>Capability, budget, evidence\<close>

record capability =
  c_name :: string
  c_allowed_roles :: "role set"
  c_enforcement_class :: string

definition mk_capability :: "string \<Rightarrow> role set \<Rightarrow> string \<Rightarrow> exn + capability" where
  "mk_capability name allowed enforcement =
     (if blank name \<or> allowed = {} then raise ValueError ''capability and roles required''
      else ok \<lparr>c_name = name, c_allowed_roles = allowed, c_enforcement_class = enforcement\<rparr>)"

record budget =
  b_max_tokens :: int
  b_max_attempts :: int
  b_max_cost_microunits :: int

definition mk_budget :: "int \<Rightarrow> int \<Rightarrow> int \<Rightarrow> exn + budget" where
  "mk_budget max_tokens max_attempts max_cost =
     (if max_tokens < 0 \<or> max_cost < 0 \<or> max_attempts < 1
      then raise ValueError ''budget ceilings must be nonnegative; attempts >= 1''
      else ok \<lparr>b_max_tokens = max_tokens, b_max_attempts = max_attempts,
               b_max_cost_microunits = max_cost\<rparr>)"

record evidence =
  e_evidence_id :: string
  e_receipt_id :: string
  e_task_id :: string
  e_dispatch_id :: string
  e_tree_sha :: string

end
