(* ===== verification/Registry.thy ===== *)
theory Registry
  imports Contracts
begin

text \<open>
  \<open>src/subagentbridge/domain/registry.py\<close>: who a principal is (\<open>IdentityRegistry\<close>), which
  executions were receipted, which receipts became evidence, which verdicts QA issued over the
  evidence (\<open>ReceiptIssuerRegistry\<close>), and which messages were admitted (\<open>MessageRegistry\<close>).
  Dictionaries are maps; the secrets of \<open>token_bytes\<close> and the identifiers of \<open>uuid4\<close> are
  arguments.  The main result is provenance: in every state the operations can reach, a verdict
  that \<open>require_verdict\<close> accepts rests on receipts that registered executors issued, with exit
  code 0, for that very task, dispatch and tree.
\<close>

section \<open>Principals and identities\<close>

record principal =
  p_principal_id :: string
  p_role :: role
  p_secret :: string

type_synonym identities = "string \<rightharpoonup> role \<times> string"

definition register_principal ::
  "identities \<Rightarrow> string \<Rightarrow> role \<Rightarrow> string \<Rightarrow> (exn + principal) \<times> identities" where
  "register_principal ids pid r secret =
     (if pid = [] then (raise ValueError ''valid principal identity and role required'', ids)
      else if pid \<in> dom ids
      then (raise ValueError ''principal cannot be re-registered or change roles'', ids)
      else (ok \<lparr>p_principal_id = pid, p_role = r, p_secret = secret\<rparr>, ids(pid \<mapsto> (r, secret))))"

definition require_identity :: "identities \<Rightarrow> principal \<Rightarrow> role \<Rightarrow> exn + unit" where
  "require_identity ids p r =
     (case ids (p_principal_id p) of
        None \<Rightarrow> raise PermissionError ''registered identity is required''
      | Some (r', secret) \<Rightarrow>
          if r' \<noteq> r \<or> p_role p \<noteq> r \<or> p_secret p \<noteq> secret
          then raise PermissionError ''registered identity is required'' else ok ())"

lemma require_identity_ok:
  "require_identity ids p r = Inr u \<longleftrightarrow>
     ids (p_principal_id p) = Some (r, p_secret p) \<and> p_role p = r"
  by (auto simp: require_identity_def split: option.splits)

lemma require_identity_error: "require_identity ids p r = Inl e \<Longrightarrow> fst e = PermissionError"
  by (auto simp: require_identity_def split: option.splits if_splits)

lemma register_principal_mono:
  "ids pid = Some x \<Longrightarrow> snd (register_principal ids pid' r s) pid = Some x"
  by (auto simp: register_principal_def)

section \<open>Receipts, evidence, verdicts\<close>

record receipt =
  x_receipt_id :: string
  x_issuer_id :: string
  x_task_id :: string
  x_dispatch_id :: string
  x_tree_sha :: string
  x_exit_code :: int

record verdict =
  v_verdict_id :: string
  v_qa_principal_id :: string
  v_task_id :: string
  v_dispatch_id :: string
  v_tree_sha :: string
  v_receipt_ids :: "string list"
  v_accepted :: bool

record registry =
  g_receipts :: "string \<rightharpoonup> receipt"
  g_evidence :: "string \<rightharpoonup> evidence"
  g_verdicts :: "string \<rightharpoonup> verdict"

definition empty_registry :: registry where
  "empty_registry = \<lparr>g_receipts = Map.empty, g_evidence = Map.empty, g_verdicts = Map.empty\<rparr>"

text \<open>The triple the code compares as \<open>(r.task_id, r.dispatch_id, r.tree_sha)\<close>.\<close>

definition receipt_binding :: "receipt \<Rightarrow> string \<times> string \<times> string" where
  "receipt_binding x = (x_task_id x, x_dispatch_id x, x_tree_sha x)"

definition evidence_binding :: "evidence \<Rightarrow> string \<times> string \<times> string" where
  "evidence_binding e = (e_task_id e, e_dispatch_id e, e_tree_sha e)"

definition verdict_binding :: "verdict \<Rightarrow> string \<times> string \<times> string" where
  "verdict_binding v = (v_task_id v, v_dispatch_id v, v_tree_sha v)"

lemmas binding_defs = receipt_binding_def evidence_binding_def verdict_binding_def

definition issue_receipt ::
  "identities \<Rightarrow> registry \<Rightarrow> principal \<Rightarrow> string \<times> string \<times> string \<Rightarrow> int \<Rightarrow> string
   \<Rightarrow> (exn + receipt) \<times> registry" where
  "issue_receipt ids g executor bind exit_code fresh =
     (case bind of (task_id, dispatch_id, tree_sha) \<Rightarrow>
        case require_identity ids executor EXECUTOR of
          Inl e \<Rightarrow> (Inl e, g)
        | Inr _ \<Rightarrow>
            if task_id = [] \<or> dispatch_id = [] \<or> tree_sha = []
            then (raise ValueError ''receipt requires task/dispatch/tree identity and exit code'', g)
            else let x = \<lparr>x_receipt_id = fresh, x_issuer_id = p_principal_id executor,
                          x_task_id = task_id, x_dispatch_id = dispatch_id,
                          x_tree_sha = tree_sha, x_exit_code = exit_code\<rparr>
                 in (ok x, g\<lparr>g_receipts := (g_receipts g)(fresh \<mapsto> x)\<rparr>))"

definition create_evidence ::
  "registry \<Rightarrow> string \<Rightarrow> string \<times> string \<times> string \<Rightarrow> string \<Rightarrow> (exn + evidence) \<times> registry" where
  "create_evidence g receipt_id bind fresh =
     (case g_receipts g receipt_id of
        None \<Rightarrow> (raise PermissionError ''unissued receipt is not evidence'', g)
      | Some x \<Rightarrow>
          if receipt_binding x \<noteq> bind
          then (raise PermissionError ''receipt does not match task, dispatch, and tree'', g)
          else if x_exit_code x \<noteq> 0
          then (raise PermissionError ''failed execution cannot serve as success evidence'', g)
          else (case bind of (task_id, dispatch_id, tree_sha) \<Rightarrow>
            let e = \<lparr>e_evidence_id = fresh, e_receipt_id = receipt_id, e_task_id = task_id,
                     e_dispatch_id = dispatch_id, e_tree_sha = tree_sha\<rparr>
            in (ok e, g\<lparr>g_evidence := (g_evidence g)(fresh \<mapsto> e)\<rparr>)))"

text \<open>The loop over the evidence inside \<open>create_qa_verdict\<close>.\<close>

fun check_evidence_items ::
  "registry \<Rightarrow> string \<times> string \<times> string \<Rightarrow> evidence list \<Rightarrow> exn + unit" where
  "check_evidence_items g bind [] = ok ()"
| "check_evidence_items g bind (item # items) =
     (if g_evidence g (e_evidence_id item) \<noteq> Some item
      then raise PermissionError ''unregistered or mutated evidence object''
      else if evidence_binding item \<noteq> bind
      then raise PermissionError ''cross-task, stale dispatch or wrong-tree evidence''
      else case g_receipts g (e_receipt_id item) of
             None \<Rightarrow> raise PermissionError ''unissued or mismatched receipt''
           | Some x \<Rightarrow>
               if receipt_binding x \<noteq> bind \<or> x_exit_code x \<noteq> 0
               then raise PermissionError ''unissued or mismatched receipt''
               else check_evidence_items g bind items)"

definition create_qa_verdict ::
  "identities \<Rightarrow> registry \<Rightarrow> principal \<Rightarrow> evidence list \<Rightarrow> string \<times> string \<times> string \<Rightarrow> bool
   \<Rightarrow> string \<Rightarrow> (exn + verdict) \<times> registry" where
  "create_qa_verdict ids g qa ev bind accepted fresh =
     (case require_identity ids qa QA of
        Inl e \<Rightarrow> (Inl e, g)
      | Inr _ \<Rightarrow>
          if ev = []
          then (raise PermissionError ''QA verdict requires executor-issued receipt evidence'', g)
          else if \<not> distinct (map e_evidence_id ev)
          then (raise PermissionError ''duplicate evidence cannot be counted twice'', g)
          else case check_evidence_items g bind ev of
                 Inl e \<Rightarrow> (Inl e, g)
               | Inr _ \<Rightarrow>
                   (case bind of (task_id, dispatch_id, tree_sha) \<Rightarrow>
                      let v = \<lparr>v_verdict_id = fresh, v_qa_principal_id = p_principal_id qa,
                               v_task_id = task_id, v_dispatch_id = dispatch_id,
                               v_tree_sha = tree_sha, v_receipt_ids = map e_receipt_id ev,
                               v_accepted = accepted\<rparr>
                      in (ok v, g\<lparr>g_verdicts := (g_verdicts g)(fresh \<mapsto> v)\<rparr>)))"

definition require_verdict ::
  "registry \<Rightarrow> verdict \<Rightarrow> string \<times> string \<times> string \<Rightarrow> exn + unit" where
  "require_verdict g v bind =
     (if g_verdicts g (v_verdict_id v) \<noteq> Some v
      then raise PermissionError ''QA verdict is not from a registered issuer''
      else if verdict_binding v \<noteq> bind
      then raise PermissionError ''QA verdict does not bind this dispatch and tree''
      else if \<not> v_accepted v then raise PermissionError ''QA rejected the change''
      else if v_receipt_ids v = [] \<or> list_ex (\<lambda>i. g_receipts g i = None) (v_receipt_ids v)
      then raise PermissionError ''missing executor-issued receipt'' else ok ())"

text \<open>A receipt that backs a success claim for a binding: issued by a registered executor.\<close>

definition good_receipt :: "identities \<Rightarrow> registry \<Rightarrow> string \<times> string \<times> string \<Rightarrow> string \<Rightarrow> bool" where
  "good_receipt ids g bind i \<longleftrightarrow>
     (\<exists>x s. g_receipts g i = Some x \<and> receipt_binding x = bind \<and> x_exit_code x = 0 \<and>
            ids (x_issuer_id x) = Some (EXECUTOR, s))"

lemma check_evidence_items_ok:
  assumes "check_evidence_items g bind ev = Inr u" "item \<in> set ev"
  shows "evidence_binding item = bind \<and>
         (\<exists>x. g_receipts g (e_receipt_id item) = Some x \<and> receipt_binding x = bind \<and>
              x_exit_code x = 0)"
  using assms by (induction ev) (auto split: option.splits if_splits)

lemma check_evidence_items_error:
  "check_evidence_items g bind ev = Inl e \<Longrightarrow> fst e = PermissionError"
  by (induction ev) (auto split: option.splits if_splits)

lemma create_qa_verdict_error:
  "create_qa_verdict ids g qa ev bind acc fresh = (Inl e, g') \<Longrightarrow> fst e = PermissionError \<and> g' = g"
  by (auto simp: create_qa_verdict_def Let_def split: sum.splits if_splits prod.splits
      dest: require_identity_error check_evidence_items_error)

lemma require_verdict_ok:
  assumes "require_verdict g v bind = Inr u"
  shows "g_verdicts g (v_verdict_id v) = Some v" "verdict_binding v = bind" "v_accepted v"
    "v_receipt_ids v \<noteq> []"
  using assms by (auto simp: require_verdict_def split: if_splits)

section \<open>Provenance\<close>

text \<open>The registry invariant.\<close>

definition registry_inv :: "identities \<times> registry \<Rightarrow> bool" where
  "registry_inv s = (case s of (ids, g) \<Rightarrow>
     (\<forall>i x. g_receipts g i = Some x \<longrightarrow>
        x_receipt_id x = i \<and> (\<exists>sec. ids (x_issuer_id x) = Some (EXECUTOR, sec))) \<and>
     (\<forall>i e. g_evidence g i = Some e \<longrightarrow>
        e_evidence_id e = i \<and> good_receipt ids g (evidence_binding e) (e_receipt_id e)) \<and>
     (\<forall>i v. g_verdicts g i = Some v \<longrightarrow>
        v_verdict_id v = i \<and> v_receipt_ids v \<noteq> [] \<and>
        (\<exists>sec. ids (v_qa_principal_id v) = Some (QA, sec)) \<and>
        (\<forall>r \<in> set (v_receipt_ids v). good_receipt ids g (verdict_binding v) r)))"

text \<open>The operations as events; \<open>event_ok\<close> says that \<open>uuid4\<close> returned an unused receipt id.\<close>

datatype registry_event =
    Register string role string
  | Issue principal "string \<times> string \<times> string" int string
  | AddEvidence string "string \<times> string \<times> string" string
  | AddVerdict principal "evidence list" "string \<times> string \<times> string" bool string

fun registry_step :: "identities \<times> registry \<Rightarrow> registry_event \<Rightarrow> identities \<times> registry" where
  "registry_step (ids, g) (Register pid r sec) = (snd (register_principal ids pid r sec), g)"
| "registry_step (ids, g) (Issue p bind code fresh) =
     (ids, snd (issue_receipt ids g p bind code fresh))"
| "registry_step (ids, g) (AddEvidence rid bind fresh) = (ids, snd (create_evidence g rid bind fresh))"
| "registry_step (ids, g) (AddVerdict qa ev bind acc fresh) =
     (ids, snd (create_qa_verdict ids g qa ev bind acc fresh))"

fun event_fresh :: "identities \<times> registry \<Rightarrow> registry_event \<Rightarrow> bool" where
  "event_fresh (ids, g) (Issue p bind code fresh) \<longleftrightarrow> g_receipts g fresh = None"
| "event_fresh s e \<longleftrightarrow> True"

inductive registry_reachable :: "identities \<times> registry \<Rightarrow> bool" where
  reg_init: "registry_reachable (Map.empty, empty_registry)"
| reg_step: "registry_reachable s \<Longrightarrow> event_fresh s e \<Longrightarrow> registry_reachable (registry_step s e)"

lemma good_receipt_register:
  "good_receipt ids g b i \<Longrightarrow> good_receipt (snd (register_principal ids pid r sec)) g b i"
  unfolding good_receipt_def by (metis register_principal_mono)

lemma registry_inv_register:
  assumes "registry_inv (ids, g)"
  shows "registry_inv (snd (register_principal ids pid r sec), g)"
  using assms unfolding registry_inv_def prod.case
  by (meson good_receipt_register register_principal_mono)

lemma good_receipt_add:
  assumes "g_receipts g fresh = None" "good_receipt ids g b i"
  shows "good_receipt ids (g\<lparr>g_receipts := (g_receipts g)(fresh \<mapsto> x)\<rparr>) b i"
  using assms by (auto simp: good_receipt_def)

lemma good_receipt_other [simp]:
  "good_receipt ids (g\<lparr>g_evidence := m\<rparr>) b i = good_receipt ids g b i"
  "good_receipt ids (g\<lparr>g_verdicts := m'\<rparr>) b i = good_receipt ids g b i"
  by (simp_all add: good_receipt_def)

lemma registry_inv_issue:
  assumes inv: "registry_inv (ids, g)" and fresh: "g_receipts g fresh = None"
  shows "registry_inv (ids, snd (issue_receipt ids g p bind code fresh))"
proof (cases "snd (issue_receipt ids g p bind code fresh) = g")
  case True
  then show ?thesis using inv by simp
next
  case False
  then obtain x where x: "snd (issue_receipt ids g p bind code fresh) =
      g\<lparr>g_receipts := (g_receipts g)(fresh \<mapsto> x)\<rparr>" "x_receipt_id x = fresh"
      "x_issuer_id x = p_principal_id p" "require_identity ids p EXECUTOR = Inr ()"
    by (auto simp: issue_receipt_def Let_def split: sum.splits if_splits prod.splits)
  then have "\<exists>sec. ids (x_issuer_id x) = Some (EXECUTOR, sec)"
    by (auto simp: require_identity_ok)
  then show ?thesis using inv x(1,2) good_receipt_add [OF fresh, of ids _ _ x]
    by (simp add: registry_inv_def)
qed

lemma registry_inv_evidence:
  assumes inv: "registry_inv (ids, g)"
  shows "registry_inv (ids, snd (create_evidence g rid bind fresh))"
proof (cases "snd (create_evidence g rid bind fresh) = g")
  case True
  then show ?thesis using inv by simp
next
  case False
  then obtain x e where x: "g_receipts g rid = Some x" "receipt_binding x = bind" "x_exit_code x = 0"
    and e: "snd (create_evidence g rid bind fresh) =
        g\<lparr>g_evidence := (g_evidence g)(fresh \<mapsto> e)\<rparr>" "e_evidence_id e = fresh"
        "e_receipt_id e = rid" "evidence_binding e = bind"
    by (auto simp: create_evidence_def evidence_binding_def Let_def
        split: option.splits if_splits prod.splits)
  then have "good_receipt ids g (evidence_binding e) (e_receipt_id e)"
    using inv by (auto simp: good_receipt_def registry_inv_def)
  then show ?thesis using inv e(1,2) by (simp add: registry_inv_def)
qed

lemma create_qa_verdict_cases:
  assumes "snd (create_qa_verdict ids g qa ev bind acc fresh) \<noteq> g"
  obtains v where
    "snd (create_qa_verdict ids g qa ev bind acc fresh) =
       g\<lparr>g_verdicts := (g_verdicts g)(fresh \<mapsto> v)\<rparr>"
    "v_verdict_id v = fresh" "v_qa_principal_id v = p_principal_id qa" "verdict_binding v = bind"
    "v_receipt_ids v = map e_receipt_id ev" "ev \<noteq> []"
    "require_identity ids qa QA = Inr ()" "check_evidence_items g bind ev = Inr ()"
  using assms by (auto simp: create_qa_verdict_def verdict_binding_def Let_def
      split: sum.splits if_splits prod.splits)

lemma registry_inv_verdict:
  assumes inv: "registry_inv (ids, g)"
  shows "registry_inv (ids, snd (create_qa_verdict ids g qa ev bind acc fresh))"
proof (cases "snd (create_qa_verdict ids g qa ev bind acc fresh) = g")
  case True
  then show ?thesis using inv by simp
next
  case False
  then obtain v where
    v: "snd (create_qa_verdict ids g qa ev bind acc fresh) =
       g\<lparr>g_verdicts := (g_verdicts g)(fresh \<mapsto> v)\<rparr>"
    "v_verdict_id v = fresh" "v_qa_principal_id v = p_principal_id qa" "verdict_binding v = bind"
    "v_receipt_ids v = map e_receipt_id ev" "ev \<noteq> []"
    "require_identity ids qa QA = Inr ()" "check_evidence_items g bind ev = Inr ()"
    by (rule create_qa_verdict_cases)
  have good: "good_receipt ids g bind r" if "r \<in> set (v_receipt_ids v)" for r
  proof -
    from that v(5) obtain item where "item \<in> set ev" "r = e_receipt_id item" by auto
    with check_evidence_items_ok [OF v(8)] inv show ?thesis
      by (fastforce simp: good_receipt_def registry_inv_def)
  qed
  moreover have "\<exists>sec. ids (v_qa_principal_id v) = Some (QA, sec)"
    using v(3,7) by (auto simp: require_identity_ok)
  moreover have "v_receipt_ids v \<noteq> []" using v(5,6) by simp
  ultimately show ?thesis using inv v(1,2,4) by (simp add: registry_inv_def)
qed

lemma registry_step_inv:
  assumes "registry_inv s" "event_fresh s e"
  shows "registry_inv (registry_step s e)"
  using assms by (cases s; cases e)
    (simp_all add: registry_inv_register registry_inv_issue registry_inv_evidence
      registry_inv_verdict)

lemma registry_reachable_inv: "registry_reachable s \<Longrightarrow> registry_inv s"
proof (induction rule: registry_reachable.induct)
  case reg_init
  show ?case by (simp add: registry_inv_def empty_registry_def)
next
  case (reg_step s e)
  then show ?case by (blast intro: registry_step_inv)
qed

text \<open>What a registry in the invariant promises its clients about an accepted verdict.\<close>

lemma require_verdict_backed:
  assumes "registry_inv (ids, g)" "require_verdict g v bind = Inr u"
  shows "v_accepted v \<and> verdict_binding v = bind \<and> v_receipt_ids v \<noteq> [] \<and>
         (\<exists>sec. ids (v_qa_principal_id v) = Some (QA, sec)) \<and>
         (\<forall>r \<in> set (v_receipt_ids v). good_receipt ids g bind r)"
  using require_verdict_ok [OF assms(2)] assms(1) unfolding registry_inv_def prod.case
  by blast

text \<open>Later states of the registry keep what a verdict was backed by.\<close>

lemma good_receipt_step:
  assumes "event_fresh s e" "good_receipt (fst s) (snd s) b i"
  shows "good_receipt (fst (registry_step s e)) (snd (registry_step s e)) b i"
proof -
  obtain ids g where s: "s = (ids, g)" by (cases s)
  show ?thesis
  proof (cases e)
    case (Register pid r sec)
    then show ?thesis using assms s good_receipt_register by simp
  next
    case (Issue p bind code fresh)
    then show ?thesis using assms s
      by (auto simp: issue_receipt_def Let_def good_receipt_add split: sum.splits prod.splits)
  next
    case (AddEvidence rid bind fresh)
    then show ?thesis using assms s
      by (auto simp: create_evidence_def Let_def split: option.splits prod.splits)
  next
    case (AddVerdict qa ev bind acc fresh)
    then show ?thesis using assms s
      by (cases "snd (create_qa_verdict ids g qa ev bind acc fresh) = g")
        (auto elim: create_qa_verdict_cases)
  qed
qed

lemma identity_step:
  "fst s pid = Some x \<Longrightarrow> fst (registry_step s e) pid = Some x"
  by (cases s; cases e) (simp_all add: register_principal_mono)

section \<open>Messages\<close>

type_synonym message_registry = "string \<rightharpoonup> message"

definition record_message ::
  "message_registry \<Rightarrow> message \<Rightarrow> string \<Rightarrow> string \<Rightarrow> (exn + bool) \<times> message_registry" where
  "record_message mr m task_id dispatch_id =
     (if (m_task_id m, m_dispatch_id m) \<noteq> (task_id, dispatch_id)
      then (raise PermissionError ''stale or cross-task message denied'', mr)
      else if m_to_principal m = ''*'' \<or> m_from_principal m = ''*''
      then (raise PermissionError ''no implicit broadcast'', mr)
      else case mr (m_message_id m) of
             Some old \<Rightarrow>
               if old \<noteq> m
               then (raise ValueError ''conflicting message id cannot be replayed'', mr)
               else (ok False, mr)
           | None \<Rightarrow> (ok True, mr(m_message_id m \<mapsto> m)))"

definition recorded_count :: "message_registry \<Rightarrow> nat" where
  "recorded_count mr = card (dom mr)"

lemma record_message_keeps:
  "mr i = Some m0 \<Longrightarrow> snd (record_message mr m t d) i = Some m0"
  by (auto simp: record_message_def split: option.splits)

end
