(* ===== verification/Engine.thy ===== *)
theory Engine
  imports Registry
begin

text \<open>
  \<open>src/subagentbridge/domain/engine.py\<close>: \<open>TaskAggregate\<close>, the state machine of one task.  The
  registries a task aggregate is given are the arguments \<open>idr\<close> (\<open>identities.require\<close>) and
  \<open>rv\<close> (\<open>receipts.require_verdict\<close>) of the operations that call them.  An operation that may
  raise returns its result with the new aggregate: \<open>dispatch\<close> really changes the aggregate
  before it can raise.  The locale \<open>task_authorities\<close> is the interface the aggregate relies on;
  the registry of theory Registry interprets it.
\<close>

record agg =
  g_task :: task
  g_state :: task_state
  g_active :: "dispatch option"
  g_verified_tree :: "string option"
  g_verdict :: "verdict option"
  g_used_keys :: "string set"
  g_attempt :: int

definition new_agg :: "task \<Rightarrow> agg" where
  "new_agg t = \<lparr>g_task = t, g_state = CREATED, g_active = None, g_verified_tree = None,
               g_verdict = None, g_used_keys = {}, g_attempt = 0\<rparr>"

type_synonym identity_check = "principal \<Rightarrow> role \<Rightarrow> exn + unit"
type_synonym verdict_check = "verdict \<Rightarrow> string \<times> string \<times> string \<Rightarrow> exn + unit"

definition agg_freeze :: "identity_check \<Rightarrow> principal \<Rightarrow> agg \<Rightarrow> (exn + unit) \<times> agg" where
  "agg_freeze idr pm a =
     (case idr pm PM of
        Inl e \<Rightarrow> (Inl e, a)
      | Inr _ \<Rightarrow>
          if g_state a \<notin> {CREATED, BLOCKED}
          then (raise InvalidTransition ''freeze requires CREATED or BLOCKED'', a)
          else (ok (), a\<lparr>g_state := FROZEN\<rparr>))"

definition agg_dispatch ::
  "identity_check \<Rightarrow> principal \<Rightarrow> string \<Rightarrow> string \<Rightarrow> agg \<Rightarrow> (exn + dispatch) \<times> agg" where
  "agg_dispatch idr pm key fresh a =
     (case idr pm PM of
        Inl e \<Rightarrow> (Inl e, a)
      | Inr _ \<Rightarrow>
          if g_state a \<noteq> FROZEN then (raise InvalidTransition ''a frozen task is required'', a)
          else if key = [] \<or> key \<in> g_used_keys a
          then (raise InvalidTransition ''duplicate or missing idempotency key'', a)
          else
            let a1 = a\<lparr>g_used_keys := insert key (g_used_keys a), g_attempt := g_attempt a + 1\<rparr>;
                t = g_task a
            in case mk_dispatch fresh (t_task_id t) (g_attempt a1) key (t_tree_sha t)
                      (t_policy_revision t) of
                 Inl e \<Rightarrow> (Inl e, a1)
               | Inr d \<Rightarrow> (ok d, a1\<lparr>g_active := Some d, g_state := DISPATCHED\<rparr>))"

definition require_current :: "string \<Rightarrow> string \<Rightarrow> agg \<Rightarrow> exn + unit" where
  "require_current dispatch_id tree_sha a =
     (case g_active a of
        None \<Rightarrow> raise StaleDispatch ''stale or cross-tree dispatch ignored''
      | Some d \<Rightarrow>
          if d_dispatch_id d \<noteq> dispatch_id \<or> d_tree_sha d \<noteq> tree_sha
             \<or> tree_sha \<noteq> t_tree_sha (g_task a)
          then raise StaleDispatch ''stale or cross-tree dispatch ignored'' else ok ())"

definition agg_process_succeeded :: "string \<Rightarrow> string \<Rightarrow> agg \<Rightarrow> (exn + unit) \<times> agg" where
  "agg_process_succeeded dispatch_id tree_sha a =
     (case require_current dispatch_id tree_sha a of
        Inl e \<Rightarrow> (Inl e, a)
      | Inr _ \<Rightarrow>
          if g_state a \<noteq> DISPATCHED
          then (raise InvalidTransition ''PROCESS_SUCCEEDED requires DISPATCHED'', a)
          else (ok (), a\<lparr>g_state := PROCESS_SUCCEEDED\<rparr>))"

definition agg_qa_verified ::
  "identity_check \<Rightarrow> verdict_check \<Rightarrow> principal \<Rightarrow> verdict \<Rightarrow> agg \<Rightarrow> (exn + unit) \<times> agg" where
  "agg_qa_verified idr rv qa v a =
     (case idr qa QA of
        Inl e \<Rightarrow> (Inl e, a)
      | Inr _ \<Rightarrow>
          if g_state a \<noteq> PROCESS_SUCCEEDED
          then (raise InvalidTransition ''QA_VERIFIED requires PROCESS_SUCCEEDED'', a)
          else (case g_active a of
             None \<Rightarrow> (raise InvalidTransition ''QA_VERIFIED requires PROCESS_SUCCEEDED'', a)
           | Some d \<Rightarrow>
               (case rv v (t_task_id (g_task a), d_dispatch_id d, t_tree_sha (g_task a)) of
                  Inl e \<Rightarrow> (Inl e, a)
                | Inr _ \<Rightarrow>
                    if v_qa_principal_id v \<noteq> p_principal_id qa
                    then (raise PermissionError
                            ''QA verdict cannot be presented by a different principal'', a)
                    else (ok (), a\<lparr>g_verdict := Some v, g_state := QA_VERIFIED\<rparr>))))"

definition agg_mark_verified :: "identity_check \<Rightarrow> principal \<Rightarrow> agg \<Rightarrow> (exn + unit) \<times> agg" where
  "agg_mark_verified idr qa a =
     (case idr qa QA of
        Inl e \<Rightarrow> (Inl e, a)
      | Inr _ \<Rightarrow>
          if g_state a \<noteq> QA_VERIFIED
          then (raise InvalidTransition ''VERIFIED requires QA_VERIFIED plus verdict'', a)
          else (case g_verdict a of
             None \<Rightarrow> (raise InvalidTransition ''VERIFIED requires QA_VERIFIED plus verdict'', a)
           | Some v \<Rightarrow>
               if v_qa_principal_id v \<noteq> p_principal_id qa
               then (raise PermissionError ''only verdict-issuing QA can finalize'', a)
               else (ok (), a\<lparr>g_state := VERIFIED,
                             g_verified_tree := Some (t_tree_sha (g_task a))\<rparr>)))"

definition agg_change_tree :: "string \<Rightarrow> agg \<Rightarrow> (exn + unit) \<times> agg" where
  "agg_change_tree new_tree a =
     (if new_tree = [] then (raise ValueError ''new tree cannot be empty'', a)
      else if new_tree = t_tree_sha (g_task a) then (ok (), a)
      else if g_state a = RECOVERY_REQUIRED
      then (raise InvalidTransition ''cannot change tree while task is in RECOVERY_REQUIRED'', a)
      else case task_with_tree (g_task a) new_tree of
             Inl e \<Rightarrow> (Inl e, a)
           | Inr t \<Rightarrow> (ok (), a\<lparr>g_task := t, g_state := FROZEN, g_verified_tree := None,
                              g_verdict := None, g_active := None\<rparr>))"

definition agg_reconcile ::
  "identity_check \<Rightarrow> principal \<Rightarrow> string option \<Rightarrow> agg \<Rightarrow> (exn + unit) \<times> agg" where
  "agg_reconcile idr pm new_tree a =
     (case idr pm PM of
        Inl e \<Rightarrow> (Inl e, a)
      | Inr _ \<Rightarrow>
          if g_state a \<noteq> RECOVERY_REQUIRED
          then (raise InvalidTransition ''reconcile requires RECOVERY_REQUIRED'', a)
          else
            let tree = (case new_tree of
                          None \<Rightarrow> t_tree_sha (g_task a)
                        | Some s \<Rightarrow> if s = [] then t_tree_sha (g_task a) else s)
            in case task_with_tree (g_task a) tree of
                 Inl e \<Rightarrow> (Inl e, a)
               | Inr t \<Rightarrow> (ok (), a\<lparr>g_task := t, g_state := FROZEN, g_active := None,
                                  g_verified_tree := None, g_verdict := None\<rparr>))"

definition agg_block :: "agg \<Rightarrow> agg" where
  "agg_block a = a\<lparr>g_state := BLOCKED, g_verdict := None, g_verified_tree := None\<rparr>"

definition agg_recover_unknown :: "agg \<Rightarrow> agg" where
  "agg_recover_unknown a =
     a\<lparr>g_state := RECOVERY_REQUIRED, g_verdict := None, g_verified_tree := None\<rparr>"

lemmas agg_op_defs =
  agg_freeze_def agg_dispatch_def agg_process_succeeded_def agg_qa_verified_def
  agg_mark_verified_def agg_change_tree_def agg_reconcile_def agg_block_def
  agg_recover_unknown_def

section \<open>Invariant\<close>

text \<open>
  \<open>live\<close> are the states in which a dispatch for the current tree is in flight or was just
  adjudicated.
\<close>

definition live_states :: "task_state set" where
  "live_states = {DISPATCHED, PROCESS_SUCCEEDED, QA_VERIFIED, VERIFIED}"

definition current_dispatch :: "agg \<Rightarrow> dispatch \<Rightarrow> bool" where
  "current_dispatch a d \<longleftrightarrow>
     d_task_id d = t_task_id (g_task a) \<and> d_tree_sha d = t_tree_sha (g_task a) \<and>
     d_policy_revision d = t_policy_revision (g_task a) \<and> d_idempotency_key d \<in> g_used_keys a \<and>
     d_attempt d = g_attempt a"

definition agg_inv :: "agg \<Rightarrow> bool" where
  "agg_inv a \<longleftrightarrow>
     task_ok (g_task a) \<and>
     finite (g_used_keys a) \<and> g_attempt a = int (card (g_used_keys a)) \<and>
     (g_state a \<in> live_states \<longrightarrow> (\<exists>d. g_active a = Some d \<and> current_dispatch a d)) \<and>
     (g_verdict a \<noteq> None \<longleftrightarrow> g_state a \<in> {QA_VERIFIED, VERIFIED}) \<and>
     g_verified_tree a = (if g_state a = VERIFIED then Some (t_tree_sha (g_task a)) else None)"

lemma agg_inv_new: "task_ok t \<Longrightarrow> agg_inv (new_agg t)"
  by (simp add: agg_inv_def new_agg_def live_states_def)

text \<open>The operations as events, with the registries of the moment.\<close>

datatype agg_event =
    Freeze principal
  | DispatchTask principal string string
  | ProcessSucceeded string string
  | QaVerified principal verdict
  | MarkVerified principal
  | ChangeTree string
  | Reconcile principal "string option"
  | Block
  | RecoverUnknown

fun agg_step :: "identity_check \<Rightarrow> verdict_check \<Rightarrow> agg \<Rightarrow> agg_event \<Rightarrow> agg" where
  "agg_step idr rv a (Freeze pm) = snd (agg_freeze idr pm a)"
| "agg_step idr rv a (DispatchTask pm key fresh) = snd (agg_dispatch idr pm key fresh a)"
| "agg_step idr rv a (ProcessSucceeded did tree) = snd (agg_process_succeeded did tree a)"
| "agg_step idr rv a (QaVerified qa v) = snd (agg_qa_verified idr rv qa v a)"
| "agg_step idr rv a (MarkVerified qa) = snd (agg_mark_verified idr qa a)"
| "agg_step idr rv a (ChangeTree tree) = snd (agg_change_tree tree a)"
| "agg_step idr rv a (Reconcile pm tree) = snd (agg_reconcile idr pm tree a)"
| "agg_step idr rv a Block = agg_block a"
| "agg_step idr rv a RecoverUnknown = agg_recover_unknown a"

lemma agg_dispatch_cases:
  obtains
    (unchanged) e where "agg_dispatch idr pm key fresh a = (Inl e, a)"
  | (rejected) e where
      "agg_dispatch idr pm key fresh a =
        (Inl e, a\<lparr>g_used_keys := insert key (g_used_keys a), g_attempt := g_attempt a + 1\<rparr>)"
      "key \<notin> g_used_keys a" "g_state a = FROZEN" "fst e = ValueError"
  | (dispatched) d where
      "agg_dispatch idr pm key fresh a =
        (Inr d, a\<lparr>g_used_keys := insert key (g_used_keys a), g_attempt := g_attempt a + 1,
                  g_active := Some d, g_state := DISPATCHED\<rparr>)"
      "key \<notin> g_used_keys a" "g_state a = FROZEN"
      "d = \<lparr>d_dispatch_id = fresh, d_task_id = t_task_id (g_task a), d_attempt = g_attempt a + 1,
            d_idempotency_key = key, d_tree_sha = t_tree_sha (g_task a),
            d_policy_revision = t_policy_revision (g_task a)\<rparr>"
      "idr pm PM = Inr ()"
proof (cases "idr pm PM")
  case (Inl e)
  then show ?thesis using unchanged by (simp add: agg_dispatch_def)
next
  case (Inr u)
  show ?thesis
  proof (cases "g_state a = FROZEN \<and> key \<noteq> [] \<and> key \<notin> g_used_keys a")
    case False
    then have "\<exists>e. agg_dispatch idr pm key fresh a = (Inl e, a)"
      using Inr by (auto simp: agg_dispatch_def)
    then show ?thesis using unchanged by blast
  next
    case True
    then show ?thesis using rejected dispatched Inr
      by (cases "mk_dispatch fresh (t_task_id (g_task a)) (g_attempt a + 1) key
            (t_tree_sha (g_task a)) (t_policy_revision (g_task a))")
        (auto simp: agg_dispatch_def Let_def mk_dispatch_ok_iff dest: mk_dispatch_error)
  qed
qed

lemma agg_inv_dispatch:
  assumes "agg_inv a"
  shows "agg_inv (snd (agg_dispatch idr pm key fresh a))"
proof (cases rule: agg_dispatch_cases [of idr pm key fresh a])
  case (unchanged e)
  then show ?thesis using assms by simp
next
  case (rejected e)
  then show ?thesis using assms by (simp add: agg_inv_def live_states_def current_dispatch_def)
next
  case (dispatched d)
  then show ?thesis using assms by (simp add: agg_inv_def live_states_def current_dispatch_def)
qed

lemma agg_inv_freeze: "agg_inv a \<Longrightarrow> agg_inv (snd (agg_freeze idr pm a))"
  by (auto simp: agg_freeze_def agg_inv_def live_states_def split: sum.splits)

lemma agg_inv_process: "agg_inv a \<Longrightarrow> agg_inv (snd (agg_process_succeeded did tree a))"
  by (auto simp: agg_process_succeeded_def agg_inv_def live_states_def current_dispatch_def
      split: sum.splits)

lemma agg_qa_verified_cases:
  obtains
    (refused) e where "agg_qa_verified idr rv qa v a = (Inl e, a)"
  | (accepted) d where
      "agg_qa_verified idr rv qa v a = (Inr (), a\<lparr>g_verdict := Some v, g_state := QA_VERIFIED\<rparr>)"
      "g_state a = PROCESS_SUCCEEDED" "g_active a = Some d" "idr qa QA = Inr ()"
      "rv v (t_task_id (g_task a), d_dispatch_id d, t_tree_sha (g_task a)) = Inr ()"
      "v_qa_principal_id v = p_principal_id qa"
proof -
  have "(\<exists>e. agg_qa_verified idr rv qa v a = (Inl e, a)) \<or>
      (\<exists>d. agg_qa_verified idr rv qa v a = (Inr (), a\<lparr>g_verdict := Some v, g_state := QA_VERIFIED\<rparr>) \<and>
           g_state a = PROCESS_SUCCEEDED \<and> g_active a = Some d \<and> idr qa QA = Inr () \<and>
           rv v (t_task_id (g_task a), d_dispatch_id d, t_tree_sha (g_task a)) = Inr () \<and>
           v_qa_principal_id v = p_principal_id qa)"
    by (auto simp: agg_qa_verified_def split: sum.splits option.splits)
  then show ?thesis using that by blast
qed

lemma agg_inv_qa: "agg_inv a \<Longrightarrow> agg_inv (snd (agg_qa_verified idr rv qa v a))"
  by (cases rule: agg_qa_verified_cases [of idr rv qa v a])
    (auto simp: agg_inv_def live_states_def current_dispatch_def)

lemma agg_mark_verified_cases:
  obtains
    (refused) e where "agg_mark_verified idr qa a = (Inl e, a)"
  | (marked) v where
      "agg_mark_verified idr qa a =
         (Inr (), a\<lparr>g_state := VERIFIED, g_verified_tree := Some (t_tree_sha (g_task a))\<rparr>)"
      "g_state a = QA_VERIFIED" "g_verdict a = Some v" "v_qa_principal_id v = p_principal_id qa"
proof -
  have "(\<exists>e. agg_mark_verified idr qa a = (Inl e, a)) \<or>
      (\<exists>v. agg_mark_verified idr qa a =
              (Inr (), a\<lparr>g_state := VERIFIED, g_verified_tree := Some (t_tree_sha (g_task a))\<rparr>) \<and>
           g_state a = QA_VERIFIED \<and> g_verdict a = Some v \<and>
           v_qa_principal_id v = p_principal_id qa)"
    by (auto simp: agg_mark_verified_def split: sum.splits option.splits)
  then show ?thesis using that by blast
qed

lemma agg_inv_mark: "agg_inv a \<Longrightarrow> agg_inv (snd (agg_mark_verified idr qa a))"
  by (cases rule: agg_mark_verified_cases [of idr qa a])
    (auto simp: agg_inv_def live_states_def current_dispatch_def)

lemma agg_inv_change_tree: "agg_inv a \<Longrightarrow> agg_inv (snd (agg_change_tree tree a))"
  by (auto simp: agg_change_tree_def agg_inv_def live_states_def task_with_tree_task_ok
      split: sum.splits)

lemma agg_inv_reconcile: "agg_inv a \<Longrightarrow> agg_inv (snd (agg_reconcile idr pm tree a))"
  by (auto simp: agg_reconcile_def agg_inv_def live_states_def Let_def task_with_tree_task_ok
      split: sum.splits)

lemma agg_inv_block: "agg_inv a \<Longrightarrow> agg_inv (agg_block a)"
  by (auto simp: agg_block_def agg_inv_def live_states_def)

lemma agg_inv_recover: "agg_inv a \<Longrightarrow> agg_inv (agg_recover_unknown a)"
  by (auto simp: agg_recover_unknown_def agg_inv_def live_states_def)

lemma agg_step_inv: "agg_inv a \<Longrightarrow> agg_inv (agg_step idr rv a e)"
  by (cases e) (simp_all add: agg_inv_freeze agg_inv_dispatch agg_inv_process agg_inv_qa
    agg_inv_mark agg_inv_change_tree agg_inv_reconcile agg_inv_block agg_inv_recover)

interpretation agg_machine: invariant_machine "agg_step idr rv" agg_inv
  by unfold_locales (rule agg_step_inv)

section \<open>The authorities a task relies on\<close>

text \<open>
  A world \<open>w\<close> is the state of the authorities; \<open>later w w'\<close> says that \<open>w'\<close> comes after \<open>w\<close>.
  \<open>backed w v b\<close> is what the issuer of verdicts vouches for.  Whatever the authorities are,
  the verdict a task holds comes from a registered QA principal and is backed for the task, its
  active dispatch and its current tree.
\<close>

locale task_authorities =
  fixes idr :: "'w \<Rightarrow> identity_check"
    and rv :: "'w \<Rightarrow> verdict_check"
    and valid :: "'w \<Rightarrow> bool"
    and later :: "'w \<Rightarrow> 'w \<Rightarrow> bool"
    and registered :: "'w \<Rightarrow> string \<Rightarrow> role \<Rightarrow> bool"
    and backed :: "'w \<Rightarrow> verdict \<Rightarrow> string \<times> string \<times> string \<Rightarrow> bool"
  assumes idr_registered: "idr w p r = Inr () \<Longrightarrow> registered w (p_principal_id p) r"
    and rv_backed: "valid w \<Longrightarrow> rv w v b = Inr () \<Longrightarrow> backed w v b"
    and registered_later: "later w w' \<Longrightarrow> registered w pid r \<Longrightarrow> registered w' pid r"
    and backed_later: "later w w' \<Longrightarrow> backed w v b \<Longrightarrow> backed w' v b"
begin

definition vouched :: "'w \<Rightarrow> agg \<Rightarrow> bool" where
  "vouched w a \<longleftrightarrow> agg_inv a \<and>
     (\<forall>v. g_verdict a = Some v \<longrightarrow> registered w (v_qa_principal_id v) QA \<and>
       (\<exists>d. g_active a = Some d \<and>
            backed w v (t_task_id (g_task a), d_dispatch_id d, t_tree_sha (g_task a))))"

lemma vouched_new: "task_ok t \<Longrightarrow> vouched w (new_agg t)"
  using agg_inv_new by (simp add: vouched_def new_agg_def)

lemma vouched_later: "later w w' \<Longrightarrow> vouched w a \<Longrightarrow> vouched w' a"
  unfolding vouched_def by (meson registered_later backed_later)

lemma vouched_step:
  assumes "valid w" "vouched w a"
  shows "vouched w (agg_step (idr w) (rv w) a e)"
proof -
  have inv: "agg_inv (agg_step (idr w) (rv w) a e)"
    using assms agg_step_inv by (simp add: vouched_def)
  show ?thesis
  proof (cases e)
    case (QaVerified qa v)
    then show ?thesis using assms inv idr_registered [of w qa QA] rv_backed [of w v]
      by (cases rule: agg_qa_verified_cases [of "idr w" "rv w" qa v a]) (auto simp: vouched_def)
  next
    case (DispatchTask pm key fresh)
    have "g_state a = FROZEN \<Longrightarrow> g_verdict a = None"
      using assms by (auto simp: vouched_def agg_inv_def)
    then show ?thesis using DispatchTask assms inv
      by (cases rule: agg_dispatch_cases [of "idr w" pm key fresh a]) (auto simp: vouched_def)
  next
    case (MarkVerified qa)
    then show ?thesis using assms inv
      by (cases rule: agg_mark_verified_cases [of "idr w" qa a]) (auto simp: vouched_def)
  qed (use assms inv in \<open>auto simp: vouched_def agg_freeze_def agg_process_succeeded_def
        agg_change_tree_def agg_reconcile_def agg_block_def agg_recover_unknown_def Let_def
        split: sum.splits if_splits option.splits\<close>)
qed

lemma vouched_verified:
  assumes "vouched w a" "g_state a = VERIFIED"
  shows "\<exists>v d. g_verdict a = Some v \<and> g_active a = Some d \<and>
           registered w (v_qa_principal_id v) QA \<and>
           backed w v (t_task_id (g_task a), d_dispatch_id d, t_tree_sha (g_task a)) \<and>
           current_dispatch a d \<and> g_verified_tree a = Some (t_tree_sha (g_task a))"
  using assms by (auto simp: vouched_def agg_inv_def live_states_def)

end

text \<open>The registry as the authority: what it vouches for is the provenance of the receipts.\<close>

definition verdict_backed ::
  "identities \<times> registry \<Rightarrow> verdict \<Rightarrow> string \<times> string \<times> string \<Rightarrow> bool" where
  "verdict_backed w v b \<longleftrightarrow> v_accepted v \<and> verdict_binding v = b \<and> v_receipt_ids v \<noteq> [] \<and>
     (\<forall>r \<in> set (v_receipt_ids v). good_receipt (fst w) (snd w) b r)"

definition registry_next :: "identities \<times> registry \<Rightarrow> identities \<times> registry \<Rightarrow> bool" where
  "registry_next w w' \<longleftrightarrow> (\<exists>e. event_fresh w e \<and> w' = registry_step w e)"

interpretation registry_authorities: task_authorities
  "\<lambda>w. require_identity (fst w)" "\<lambda>w. require_verdict (snd w)" registry_inv registry_next
  "\<lambda>w pid r. \<exists>s. fst w pid = Some (r, s)" verdict_backed
proof unfold_locales
  fix w v b
  assume "registry_inv w" "require_verdict (snd w) v b = Inr ()"
  then show "verdict_backed w v b"
    using require_verdict_backed [of "fst w" "snd w" v b "()"] by (auto simp: verdict_backed_def)
next
  fix w w' v b
  assume "registry_next w w'" "verdict_backed w v b"
  then show "verdict_backed w' v b"
    unfolding registry_next_def verdict_backed_def by (metis good_receipt_step)
next
  fix w w' pid r
  assume "registry_next w w'" "\<exists>s. fst w pid = Some (r, s)"
  then show "\<exists>s. fst w' pid = Some (r, s)"
    unfolding registry_next_def by (metis identity_step)
qed (auto simp: require_identity_ok)

text \<open>A task and the registry side by side: any interleaving of their operations.\<close>

type_synonym task_world = "(identities \<times> registry) \<times> agg"

fun system_step :: "task_world \<Rightarrow> registry_event + agg_event \<Rightarrow> task_world" where
  "system_step (w, a) (Inl e) = (registry_step w e, a)"
| "system_step (w, a) (Inr e) =
     (w, agg_step (require_identity (fst w)) (require_verdict (snd w)) a e)"

fun system_fresh :: "task_world \<Rightarrow> registry_event + agg_event \<Rightarrow> bool" where
  "system_fresh (w, a) (Inl e) = event_fresh w e"
| "system_fresh (w, a) (Inr e) = True"

inductive task_system :: "task \<Rightarrow> task_world \<Rightarrow> bool" for t where
  sys_init: "task_system t ((Map.empty, empty_registry), new_agg t)"
| sys_step: "task_system t s \<Longrightarrow> system_fresh s e \<Longrightarrow> task_system t (system_step s e)"

fun system_run :: "task_world \<Rightarrow> (registry_event + agg_event) list \<Rightarrow> task_world option" where
  "system_run s [] = Some s"
| "system_run s (e # es) = (if system_fresh s e then system_run (system_step s e) es else None)"

lemma system_run_reachable:
  "task_system t s \<Longrightarrow> system_run s es = Some s' \<Longrightarrow> task_system t s'"
proof (induction es arbitrary: s)
  case (Cons e es)
  then show ?case using task_system.sys_step [of t s e] by (simp split: if_splits)
qed simp

lemma task_system_inv:
  assumes "task_system t s" "task_ok t"
  shows "registry_inv (fst s) \<and> registry_authorities.vouched (fst s) (snd s)"
  using assms(1)
proof (induction rule: task_system.induct)
  case sys_init
  show ?case using assms(2) registry_authorities.vouched_new registry_reachable_inv [OF reg_init]
    by simp
next
  case (sys_step s e)
  obtain w a where s: "s = (w, a)" by (cases s)
  show ?case
  proof (cases e)
    case (Inl r)
    then have "registry_next w (registry_step w r)"
      using sys_step.hyps s by (auto simp: registry_next_def)
    then show ?thesis using sys_step s Inl
      using registry_authorities.vouched_later registry_step_inv by simp
  next
    case (Inr r)
    then show ?thesis using sys_step s registry_authorities.vouched_step by simp
  qed
qed

section \<open>The abstract state machine\<close>

text \<open>
  What a task promises, without aggregates and exceptions.  A \<open>phase\<close> is what an observer sees of
  a task: its stage, its tree, the active dispatch with the tree it is for, the principal whose
  verdict it holds and the idempotency keys used.  \<open>moves\<close> are the permitted transitions, each
  labelled with the operation that makes it and guarded by everything this operation requires:
  the role of the caller, the stage it starts from, and what it checks of its arguments.
\<close>

record phase =
  ph_stage :: task_state
  ph_tree :: string
  ph_dispatch :: "(string \<times> string) option"
  ph_judge :: "string option"
  ph_keys :: "string set"

definition phase_of :: "agg \<Rightarrow> phase" where
  "phase_of a = \<lparr>ph_stage = g_state a, ph_tree = t_tree_sha (g_task a),
     ph_dispatch = map_option (\<lambda>d. (d_dispatch_id d, d_tree_sha d)) (g_active a),
     ph_judge = map_option v_qa_principal_id (g_verdict a), ph_keys = g_used_keys a\<rparr>"

inductive moves ::
  "identity_check \<Rightarrow> verdict_check \<Rightarrow> string \<Rightarrow> agg_event \<Rightarrow> phase \<Rightarrow> phase \<Rightarrow> bool"
  for idr rv task_id where
  mv_freeze:
    "idr pm PM = Inr () \<Longrightarrow> ph_stage p \<in> {CREATED, BLOCKED} \<Longrightarrow>
     moves idr rv task_id (Freeze pm) p (p\<lparr>ph_stage := FROZEN\<rparr>)"
| mv_dispatch:
    "idr pm PM = Inr () \<Longrightarrow> ph_stage p = FROZEN \<Longrightarrow> valid_identity key \<Longrightarrow> key \<notin> ph_keys p \<Longrightarrow>
     valid_identity fresh \<Longrightarrow>
     moves idr rv task_id (DispatchTask pm key fresh) p
       (p\<lparr>ph_stage := DISPATCHED, ph_dispatch := Some (fresh, ph_tree p),
          ph_keys := insert key (ph_keys p)\<rparr>)"
| mv_report:
    "ph_stage p = DISPATCHED \<Longrightarrow> ph_dispatch p = Some (did, ph_tree p) \<Longrightarrow>
     moves idr rv task_id (ProcessSucceeded did (ph_tree p)) p (p\<lparr>ph_stage := PROCESS_SUCCEEDED\<rparr>)"
| mv_adjudicate:
    "idr qa QA = Inr () \<Longrightarrow> ph_stage p = PROCESS_SUCCEEDED \<Longrightarrow> ph_dispatch p = Some (did, tree) \<Longrightarrow>
     rv v (task_id, did, ph_tree p) = Inr () \<Longrightarrow> v_qa_principal_id v = p_principal_id qa \<Longrightarrow>
     moves idr rv task_id (QaVerified qa v) p
       (p\<lparr>ph_stage := QA_VERIFIED, ph_judge := Some (p_principal_id qa)\<rparr>)"
| mv_finalize:
    "idr qa QA = Inr () \<Longrightarrow> ph_stage p = QA_VERIFIED \<Longrightarrow> ph_judge p = Some (p_principal_id qa) \<Longrightarrow>
     moves idr rv task_id (MarkVerified qa) p (p\<lparr>ph_stage := VERIFIED\<rparr>)"
| mv_same_tree:
    "moves idr rv task_id (ChangeTree (ph_tree p)) p p"
| mv_new_tree:
    "ph_stage p \<noteq> RECOVERY_REQUIRED \<Longrightarrow> tree \<noteq> ph_tree p \<Longrightarrow> valid_identity tree \<Longrightarrow>
     moves idr rv task_id (ChangeTree tree) p
       (p\<lparr>ph_stage := FROZEN, ph_tree := tree, ph_dispatch := None, ph_judge := None\<rparr>)"
| mv_reconcile:
    "idr pm PM = Inr () \<Longrightarrow> ph_stage p = RECOVERY_REQUIRED \<Longrightarrow>
     tree = (if asked \<in> {None, Some []} then ph_tree p else the asked) \<Longrightarrow> valid_identity tree \<Longrightarrow>
     moves idr rv task_id (Reconcile pm asked) p
       (p\<lparr>ph_stage := FROZEN, ph_tree := tree, ph_dispatch := None, ph_judge := None\<rparr>)"
| mv_block:
    "moves idr rv task_id Block p (p\<lparr>ph_stage := BLOCKED, ph_judge := None\<rparr>)"
| mv_recover:
    "moves idr rv task_id RecoverUnknown p (p\<lparr>ph_stage := RECOVERY_REQUIRED, ph_judge := None\<rparr>)"

inductive_simps moves_simps:
  "moves idr rv task_id (Freeze pm) p q"
  "moves idr rv task_id (DispatchTask pm key fresh) p q"
  "moves idr rv task_id (ProcessSucceeded did tree) p q"
  "moves idr rv task_id (QaVerified qa v) p q"
  "moves idr rv task_id (MarkVerified qa) p q"
  "moves idr rv task_id (ChangeTree tree) p q"
  "moves idr rv task_id (Reconcile pm asked) p q"
  "moves idr rv task_id Block p q"
  "moves idr rv task_id RecoverUnknown p q"

text \<open>Whether an operation returns or raises.\<close>

fun agg_returns :: "identity_check \<Rightarrow> verdict_check \<Rightarrow> agg \<Rightarrow> agg_event \<Rightarrow> bool" where
  "agg_returns idr rv a (Freeze pm) = is_ok (fst (agg_freeze idr pm a))"
| "agg_returns idr rv a (DispatchTask pm key fresh) = is_ok (fst (agg_dispatch idr pm key fresh a))"
| "agg_returns idr rv a (ProcessSucceeded did tree) = is_ok (fst (agg_process_succeeded did tree a))"
| "agg_returns idr rv a (QaVerified qa v) = is_ok (fst (agg_qa_verified idr rv qa v a))"
| "agg_returns idr rv a (MarkVerified qa) = is_ok (fst (agg_mark_verified idr qa a))"
| "agg_returns idr rv a (ChangeTree tree) = is_ok (fst (agg_change_tree tree a))"
| "agg_returns idr rv a (Reconcile pm asked) = is_ok (fst (agg_reconcile idr pm asked a))"
| "agg_returns idr rv a Block = True"
| "agg_returns idr rv a RecoverUnknown = True"

text \<open>
  \<open>implements idr rv a e\<close>: the operation returns exactly when its transition is permitted, and
  has then made it; when it raises, everything but the used keys is as before.
\<close>

definition implements :: "identity_check \<Rightarrow> verdict_check \<Rightarrow> agg \<Rightarrow> agg_event \<Rightarrow> bool" where
  "implements idr rv a e \<longleftrightarrow>
     (\<forall>q. moves idr rv (t_task_id (g_task a)) e (phase_of a) q \<longleftrightarrow>
        agg_returns idr rv a e \<and> q = phase_of (agg_step idr rv a e)) \<and>
     (agg_returns idr rv a e \<or>
        (phase_of (agg_step idr rv a e))\<lparr>ph_keys := g_used_keys a\<rparr> = phase_of a)"

lemma implements_freeze: "implements idr rv a (Freeze pm)"
  by (auto simp: implements_def moves_simps agg_freeze_def phase_of_def split: sum.splits)

lemma implements_dispatch:
  assumes "agg_inv a"
  shows "implements idr rv a (DispatchTask pm key fresh)"
proof (cases "idr pm PM = Inr () \<and> g_state a = FROZEN \<and> key \<noteq> [] \<and> key \<notin> g_used_keys a")
  case False
  then have "snd (agg_dispatch idr pm key fresh a) = a" "\<not> is_ok (fst (agg_dispatch idr pm key fresh a))"
    by (auto simp: agg_dispatch_def split: sum.splits)
  then show ?thesis using False by (auto simp: implements_def moves_simps phase_of_def valid_identity_def)
next
  case True
  have d: "mk_dispatch fresh (t_task_id (g_task a)) (g_attempt a + 1) key (t_tree_sha (g_task a))
      (t_policy_revision (g_task a)) = Inr d \<longleftrightarrow>
    d = \<lparr>d_dispatch_id = fresh, d_task_id = t_task_id (g_task a), d_attempt = g_attempt a + 1,
         d_idempotency_key = key, d_tree_sha = t_tree_sha (g_task a),
         d_policy_revision = t_policy_revision (g_task a)\<rparr> \<and>
    valid_identity fresh \<and> valid_identity key" for d
    using assms by (auto simp: mk_dispatch_ok_iff agg_inv_def task_ok_def)
  show ?thesis
  proof (cases "mk_dispatch fresh (t_task_id (g_task a)) (g_attempt a + 1) key
      (t_tree_sha (g_task a)) (t_policy_revision (g_task a))")
    case (Inl e)
    then have "\<not> (valid_identity fresh \<and> valid_identity key)" using d by auto
    then show ?thesis using True Inl
      by (auto simp: implements_def moves_simps agg_dispatch_def phase_of_def Let_def)
  next
    case (Inr x)
    then show ?thesis using True d [of x]
      by (auto simp: implements_def moves_simps agg_dispatch_def phase_of_def Let_def)
  qed
qed

lemma implements_report: "implements idr rv a (ProcessSucceeded did tree)"
  by (auto simp: implements_def moves_simps agg_process_succeeded_def require_current_def
      phase_of_def split: sum.splits option.splits)

lemma implements_qa: "implements idr rv a (QaVerified qa v)"
  by (auto simp: implements_def moves_simps agg_qa_verified_def phase_of_def
      split: sum.splits option.splits)

lemma implements_mark: "implements idr rv a (MarkVerified qa)"
  by (auto simp: implements_def moves_simps agg_mark_verified_def phase_of_def
      split: sum.splits option.splits)

lemma task_with_tree_cases:
  assumes "agg_inv a"
  obtains
    (accepted) "valid_identity tree" "task_with_tree (g_task a) tree = Inr (g_task a\<lparr>t_tree_sha := tree\<rparr>)"
  | (refused) e where "\<not> valid_identity tree" "task_with_tree (g_task a) tree = Inl e"
proof -
  have "task_ok (g_task a)" using assms by (simp add: agg_inv_def)
  note iff = task_with_tree_ok_iff [OF this]
  show ?thesis
  proof (cases "task_with_tree (g_task a) tree")
    case (Inl e)
    then have "\<not> valid_identity tree" using iff [of tree "g_task a\<lparr>t_tree_sha := tree\<rparr>"] by auto
    then show ?thesis using Inl refused by blast
  next
    case (Inr t')
    then show ?thesis using iff accepted by simp
  qed
qed

lemma implements_change_tree:
  assumes "agg_inv a"
  shows "implements idr rv a (ChangeTree tree)"
proof -
  have "t_tree_sha (g_task a) \<noteq> []" "\<not> valid_identity []"
    using assms by (auto simp: agg_inv_def task_ok_def valid_identity_def)
  then show ?thesis
    by (cases rule: task_with_tree_cases [OF assms, of tree])
      (auto simp: implements_def moves_simps agg_change_tree_def phase_of_def)
qed

lemma implements_reconcile:
  assumes "agg_inv a"
  shows "implements idr rv a (Reconcile pm asked)"
proof -
  define tree where "tree = (if asked \<in> {None, Some []} then t_tree_sha (g_task a) else the asked)"
  have tree: "(case asked of None \<Rightarrow> t_tree_sha (g_task a)
      | Some s \<Rightarrow> if s = [] then t_tree_sha (g_task a) else s) = tree"
    by (cases asked) (auto simp: tree_def)
  have moves: "moves idr rv task_id (Reconcile pm asked) (phase_of a) q \<longleftrightarrow>
      idr pm PM = Inr () \<and> g_state a = RECOVERY_REQUIRED \<and> valid_identity tree \<and>
      q = (phase_of a)\<lparr>ph_stage := FROZEN, ph_tree := tree, ph_dispatch := None, ph_judge := None\<rparr>"
    for task_id q
    unfolding moves_simps tree_def by (auto simp: phase_of_def)
  show ?thesis unfolding implements_def moves
    by (cases rule: task_with_tree_cases [OF assms, of tree])
      (auto simp: agg_reconcile_def phase_of_def Let_def tree split: sum.splits)
qed

lemma agg_implements: "agg_inv a \<Longrightarrow> implements idr rv a e"
proof (cases e)
  case Block
  then show ?thesis by (auto simp: implements_def moves_simps agg_block_def phase_of_def)
next
  case RecoverUnknown
  then show ?thesis
    by (auto simp: implements_def moves_simps agg_recover_unknown_def phase_of_def)
qed (simp_all add: implements_freeze implements_dispatch implements_report implements_qa
    implements_mark implements_change_tree implements_reconcile)

text \<open>
  C9: in every interleaving of the registries and a task, an operation of the task returns
  exactly when the labelled state machine permits its transition to the caller, with these
  arguments and in this phase, and it has then made exactly this transition.  When it raises, the
  stage, the tree, the active dispatch and the verdict are as before.
\<close>

theorem agg_step_refines_stage:
  assumes "task_system t (w, a)" "task_ok t"
  shows "(moves (require_identity (fst w)) (require_verdict (snd w)) (t_task_id (g_task a)) e
            (phase_of a) q \<longleftrightarrow>
          agg_returns (require_identity (fst w)) (require_verdict (snd w)) a e \<and>
          q = phase_of (agg_step (require_identity (fst w)) (require_verdict (snd w)) a e)) \<and>
         (agg_returns (require_identity (fst w)) (require_verdict (snd w)) a e \<or>
          (phase_of (agg_step (require_identity (fst w)) (require_verdict (snd w)) a e))
             \<lparr>ph_keys := g_used_keys a\<rparr> = phase_of a)"
  using agg_implements [of a "require_identity (fst w)" "require_verdict (snd w)" e]
    task_system_inv [OF assms]
  by (simp add: implements_def registry_authorities.vouched_def)

section \<open>Properties of the task engine\<close>

text \<open>
  C1: however the operations of the registries and of a task interleave, a task that is
  VERIFIED holds an accepted verdict of a registered QA principal for exactly its own id, its
  active dispatch and its current tree, and every receipt of that verdict was issued by a
  registered executor for the same binding with exit code 0.
\<close>

theorem verified_task_provenance:
  assumes "task_system t (w, a)" "task_ok t" "g_state a = VERIFIED"
  shows "\<exists>v d. g_verdict a = Some v \<and> g_active a = Some d \<and> current_dispatch a d \<and>
           g_verified_tree a = Some (t_tree_sha (g_task a)) \<and>
           (\<exists>s. fst w (v_qa_principal_id v) = Some (QA, s)) \<and>
           verdict_backed w v (t_task_id (g_task a), d_dispatch_id d, t_tree_sha (g_task a))"
  using task_system_inv [OF assms(1,2)] registry_authorities.vouched_verified [of w a] assms(3)
  by auto

definition example_task :: task where
  "example_task = \<lparr>t_task_id = ''t1'', t_run_id = ''r1'', t_acceptance_criteria = [''builds''],
     t_tree_sha = ''tree'', t_policy_revision = ''v1'', t_schema_version = 1\<rparr>"

definition example_binding :: "string \<times> string \<times> string" where
  "example_binding = (''t1'', ''d1'', ''tree'')"

definition example_evidence :: evidence where
  "example_evidence = \<lparr>e_evidence_id = ''e1'', e_receipt_id = ''x1'', e_task_id = ''t1'',
     e_dispatch_id = ''d1'', e_tree_sha = ''tree''\<rparr>"

definition example_verdict :: verdict where
  "example_verdict = \<lparr>v_verdict_id = ''v1'', v_qa_principal_id = ''qa'', v_task_id = ''t1'',
     v_dispatch_id = ''d1'', v_tree_sha = ''tree'', v_receipt_ids = [''x1''], v_accepted = True\<rparr>"

definition example_principal :: "string \<Rightarrow> role \<Rightarrow> principal" where
  "example_principal pid r = \<lparr>p_principal_id = pid, p_role = r, p_secret = ''s''\<rparr>"

definition example_events :: "(registry_event + agg_event) list" where
  "example_events =
     [Inl (Register ''pm'' PM ''s''), Inl (Register ''qa'' QA ''s''),
      Inl (Register ''ex'' EXECUTOR ''s''),
      Inr (Freeze (example_principal ''pm'' PM)),
      Inr (DispatchTask (example_principal ''pm'' PM) ''key1'' ''d1''),
      Inl (Issue (example_principal ''ex'' EXECUTOR) example_binding 0 ''x1''),
      Inl (AddEvidence ''x1'' example_binding ''e1''),
      Inl (AddVerdict (example_principal ''qa'' QA) [example_evidence] example_binding True ''v1''),
      Inr (ProcessSucceeded ''d1'' ''tree''),
      Inr (QaVerified (example_principal ''qa'' QA) example_verdict),
      Inr (MarkVerified (example_principal ''qa'' QA))]"

lemmas example_defs = example_task_def example_binding_def example_evidence_def
  example_verdict_def example_principal_def example_events_def

lemma example_task_ok: "task_ok example_task"
  by (simp add: example_defs task_ok_def valid_identity_def valid_criteria_def
      schema_version_current_def is_control_def py_isspace_def)

lemma example_run:
  "\<exists>w a. task_system example_task (w, a) \<and> g_state a = VERIFIED"
proof -
  let ?s0 = "((Map.empty, empty_registry), new_agg example_task)"
  have "map_option (g_state \<circ> snd) (system_run ?s0 example_events) = Some VERIFIED"
    by code_simp
  then obtain s where "system_run ?s0 example_events = Some s" "g_state (snd s) = VERIFIED"
    by auto
  then show ?thesis
    using system_run_reachable [OF task_system.sys_init] by (metis prod.collapse)
qed

theorem verified_task_provenance_witness:
  "\<exists>w a v d. task_system example_task (w, a) \<and> g_state a = VERIFIED \<and>
     g_verdict a = Some v \<and> g_active a = Some d \<and>
     verdict_backed w v (t_task_id (g_task a), d_dispatch_id d, t_tree_sha (g_task a))"
proof -
  obtain w a where s: "task_system example_task (w, a)" "g_state a = VERIFIED"
    using example_run by blast
  with verified_task_provenance [OF s(1) example_task_ok s(2)] show ?thesis by blast
qed

theorem agg_step_refines_stage_witness:
  "\<exists>w a. task_system example_task (w, a) \<and>
     agg_returns (require_identity (fst w)) (require_verdict (snd w)) a Block \<and>
     moves (require_identity (fst w)) (require_verdict (snd w)) (t_task_id (g_task a)) Block
       (phase_of a)
       (phase_of (agg_step (require_identity (fst w)) (require_verdict (snd w)) a Block))"
proof -
  obtain w a where s: "task_system example_task (w, a)" using example_run by blast
  have "agg_returns (require_identity (fst w)) (require_verdict (snd w)) a Block" by simp
  with agg_step_refines_stage [OF s example_task_ok, of Block] s show ?thesis by blast
qed

text \<open>
  a success report is accepted exactly for the active dispatch, its tree being still the
  task's tree, in state DISPATCHED; every other report raises and changes nothing.
\<close>

theorem process_succeeded_iff:
  "((\<exists>d. g_active a = Some d \<and> d_dispatch_id d = did \<and> d_tree_sha d = tree \<and>
      tree = t_tree_sha (g_task a)) \<and> g_state a = DISPATCHED
   \<longleftrightarrow> agg_process_succeeded did tree a = (Inr (), a\<lparr>g_state := PROCESS_SUCCEEDED\<rparr>)) \<and>
   (is_ok (fst (agg_process_succeeded did tree a)) \<or> snd (agg_process_succeeded did tree a) = a)"
  by (auto simp: agg_process_succeeded_def require_current_def split: option.splits)

text \<open>Idempotency keys are only ever added.\<close>

lemma agg_step_used_keys: "g_used_keys a \<subseteq> g_used_keys (agg_step idr rv a e)"
proof (cases e)
  case (DispatchTask pm key fresh)
  then show ?thesis by (cases rule: agg_dispatch_cases [of idr pm key fresh a]) auto
next
  case (QaVerified qa v)
  then show ?thesis by (cases rule: agg_qa_verified_cases [of idr rv qa v a]) auto
next
  case (MarkVerified qa)
  then show ?thesis by (cases rule: agg_mark_verified_cases [of idr qa a]) auto
qed (auto simp: agg_freeze_def agg_process_succeeded_def agg_change_tree_def agg_reconcile_def
      agg_block_def agg_recover_unknown_def Let_def split: sum.splits)

interpretation key_machine: monotone_machine "agg_step idr rv" g_used_keys
  by unfold_locales (rule agg_step_used_keys)

text \<open>
  an idempotency key dispatches at most once in the life of a task.  After a dispatch with
  a key, whatever operations follow, dispatching with that key again raises and leaves the task
  as it is.
\<close>

theorem idempotency_key_single_use:
  assumes "agg_dispatch idr pm key fresh a = (Inr d, a1)"
    and "a2 = foldl (agg_step idr' rv') a1 es"
  shows "\<exists>e. agg_dispatch idr'' pm' key fresh' a2 = (Inl e, a2)"
proof -
  have "key \<in> g_used_keys a1"
    using assms(1) by (cases rule: agg_dispatch_cases [of idr pm key fresh a]) auto
  then have "key \<in> g_used_keys a2"
    using key_machine.run_mono [of a1 idr' rv' es] assms(2) by blast
  then show ?thesis by (cases rule: agg_dispatch_cases [of idr'' pm' key fresh' a2]) auto
qed

definition accept_all :: identity_check where
  "accept_all p r = Inr ()"

definition frozen_example :: agg where
  "frozen_example = (new_agg example_task)\<lparr>g_state := FROZEN\<rparr>"

lemma frozen_example_dispatch:
  "is_ok (fst (agg_dispatch accept_all p ''k'' ''d1'' frozen_example))"
  by (simp add: agg_dispatch_def accept_all_def frozen_example_def new_agg_def example_defs
      Let_def mk_dispatch_def identities_check_eq valid_identity_def is_control_def py_isspace_def)

theorem idempotency_key_single_use_witness:
  "\<exists>d a1 e.
     agg_dispatch accept_all (example_principal ''pm'' PM) ''k'' ''d1'' frozen_example = (Inr d, a1) \<and>
     agg_dispatch accept_all (example_principal ''pm'' PM) ''k'' ''d2'' (agg_block a1) =
       (Inl e, agg_block a1)"
proof -
  let ?p = "example_principal ''pm'' PM"
  obtain d a1 where d: "agg_dispatch accept_all ?p ''k'' ''d1'' frozen_example = (Inr d, a1)"
    using frozen_example_dispatch [of ?p] by (metis is_ok_iff prod.collapse)
  have "agg_block a1 = foldl (agg_step accept_all (\<lambda>_ _. Inr ())) a1 [Block]" by simp
  from idempotency_key_single_use [OF d this, of accept_all ?p "''d2''"] d show ?thesis by blast
qed

text \<open>
  the attempt counter is the number of idempotency keys used, the verdict is held in
  QA_VERIFIED and VERIFIED only, a verified tree is recorded in VERIFIED only and is then the
  current tree, and a dispatched, reported or adjudicated task has an active dispatch for its
  current tree, policy and attempt; in every state a valid task can reach.
\<close>

theorem agg_invariant_reachable:
  assumes "task_ok t"
  shows "agg_inv (foldl (agg_step idr rv) (new_agg t) es)"
  using agg_machine.run_inv agg_inv_new [OF assms] by blast

theorem agg_invariant_reachable_witness:
  "agg_inv (foldl (agg_step accept_all (\<lambda>_ _. Inr ())) (new_agg example_task)
     [Block, ChangeTree ''tree2'', RecoverUnknown])"
  by (rule agg_invariant_reachable [OF example_task_ok])

end
