(* ===== verification/Budget.thy ===== *)
theory Budget
  imports Prelude
begin

text \<open>
  \<open>src/subagentbridge/planner/budget.py\<close>: the in-memory \<open>BudgetLedger\<close> and the SQLite-backed
  \<open>DurableBudgetLedger\<close>.  The reservations of a ledger are its rows in insertion order.  Every
  method of either class runs under its lock, and the durable one inside one
  \<open>BEGIN IMMEDIATE\<close> transaction that an exception rolls back, so an operation is one step on
  the stored state.  The in-memory ledger is the specification; the locale \<open>budget_store\<close> states
  what it means to implement it, and the durable ledger interprets it for each ledger id.
\<close>

record reservation =
  rs_dispatch_id :: string
  rs_tokens :: int
  rs_cost :: int

record ledger =
  bl_tokens :: int
  bl_cost :: int
  bl_max_workers :: int
  bl_reservations :: "reservation list"

definition mk_ledger :: "int \<Rightarrow> int \<Rightarrow> int \<Rightarrow> exn + ledger" where
  "mk_ledger tokens cost max_workers =
     (if min tokens (min cost max_workers) < 0 \<or> max_workers = 0
      then raise ValueError ''nonnegative integer budgets and positive worker ceiling required''
      else ok \<lparr>bl_tokens = tokens, bl_cost = cost, bl_max_workers = max_workers,
               bl_reservations = []\<rparr>)"

definition ledger_reserve ::
  "string \<Rightarrow> int \<Rightarrow> int \<Rightarrow> ledger \<Rightarrow> (exn + reservation) \<times> ledger" where
  "ledger_reserve dispatch_id token_allowance cost l =
     (if blank dispatch_id \<or> min token_allowance cost < 0
      then (raise ValueError ''dispatch ID and nonnegative integer ceilings required'', l)
      else if has_row rs_dispatch_id dispatch_id (bl_reservations l)
      then (raise BudgetExceeded ''dispatch cannot reserve twice'', l)
      else if int (length (bl_reservations l)) \<ge> bl_max_workers l
              \<or> token_allowance > bl_tokens l \<or> cost > bl_cost l
      then (raise BudgetExceeded ''concurrency or token/cost ceiling exceeded'', l)
      else let r = \<lparr>rs_dispatch_id = dispatch_id, rs_tokens = token_allowance, rs_cost = cost\<rparr>
           in (ok r, l\<lparr>bl_tokens := bl_tokens l - token_allowance, bl_cost := bl_cost l - cost,
                      bl_reservations := bl_reservations l @ [r]\<rparr>))"

definition ledger_release :: "string \<Rightarrow> int \<Rightarrow> int \<Rightarrow> ledger \<Rightarrow> (exn + unit) \<times> ledger" where
  "ledger_release dispatch_id unused_tokens unused_cost l =
     (if unused_tokens < 0 \<or> unused_cost < 0
      then (raise ValueError ''refunds must be nonnegative integers'', l)
      else case row_at rs_dispatch_id dispatch_id (bl_reservations l) of
             None \<Rightarrow> (raise KeyError ''unknown dispatch'', l)
           | Some r \<Rightarrow>
               if \<not> (0 \<le> unused_tokens \<and> unused_tokens \<le> rs_tokens r)
                  \<or> \<not> (0 \<le> unused_cost \<and> unused_cost \<le> rs_cost r)
               then (raise ValueError ''refund not verified by reservation'', l)
               else (ok (), l\<lparr>bl_tokens := bl_tokens l + unused_tokens,
                             bl_cost := bl_cost l + unused_cost,
                             bl_reservations :=
                               filter (\<lambda>r. rs_dispatch_id r \<noteq> dispatch_id) (bl_reservations l)\<rparr>))"

definition ledger_snapshot :: "ledger \<Rightarrow> int \<times> int \<times> int" where
  "ledger_snapshot l = (bl_tokens l, bl_cost l, int (length (bl_reservations l)))"

section \<open>The durable ledger\<close>

record ledger_row =
  lr_ledger_id :: string
  lr_tokens_remaining :: int
  lr_cost_remaining :: int
  lr_max_workers :: int

record reservation_row =
  rr_ledger_id :: string
  rr_dispatch_id :: string
  rr_token_allowance :: int
  rr_cost_microunits :: int

record budget_db =
  bd_ledgers :: "ledger_row list"
  bd_reservations :: "reservation_row list"

text \<open>The constructor: existing rows of a ledger id are kept, its ceilings with them.\<close>

definition open_durable :: "string \<Rightarrow> int \<Rightarrow> int \<Rightarrow> int \<Rightarrow> budget_db \<Rightarrow> (exn + unit) \<times> budget_db" where
  "open_durable lid tokens cost max_workers db =
     (if min tokens (min cost max_workers) < 0 \<or> max_workers = 0
      then (raise ValueError ''nonnegative integer budgets and positive worker ceiling required'', db)
      else case row_at lr_ledger_id lid (bd_ledgers db) of
             Some _ \<Rightarrow> (ok (), db)
           | None \<Rightarrow> (ok (), db\<lparr>bd_ledgers := bd_ledgers db @
                [\<lparr>lr_ledger_id = lid, lr_tokens_remaining = tokens, lr_cost_remaining = cost,
                  lr_max_workers = max_workers\<rparr>]\<rparr>))"

definition reservations_of :: "string \<Rightarrow> budget_db \<Rightarrow> reservation_row list" where
  "reservations_of lid db = filter (\<lambda>r. rr_ledger_id r = lid) (bd_reservations db)"

definition set_remaining :: "string \<Rightarrow> int \<Rightarrow> int \<Rightarrow> ledger_row list \<Rightarrow> ledger_row list" where
  "set_remaining lid tokens cost rows =
     update_where (\<lambda>r. lr_ledger_id r = lid)
       (\<lambda>r. r\<lparr>lr_tokens_remaining := tokens, lr_cost_remaining := cost\<rparr>) rows"

definition durable_reserve ::
  "string \<Rightarrow> string \<Rightarrow> int \<Rightarrow> int \<Rightarrow> budget_db \<Rightarrow> (exn + reservation) \<times> budget_db" where
  "durable_reserve lid dispatch_id token_allowance cost db =
     (if blank dispatch_id \<or> min token_allowance cost < 0
      then (raise ValueError ''dispatch ID and nonnegative integer ceilings required'', db)
      else case row_at lr_ledger_id lid (bd_ledgers db) of
             None \<Rightarrow> (raise BudgetExceeded ''budget ledger not initialized'', db)
           | Some row \<Rightarrow>
               if row_at rr_dispatch_id dispatch_id (reservations_of lid db) \<noteq> None
               then (raise BudgetExceeded ''dispatch cannot reserve twice'', db)
               else if int (length (reservations_of lid db)) \<ge> lr_max_workers row
                       \<or> token_allowance > lr_tokens_remaining row \<or> cost > lr_cost_remaining row
               then (raise BudgetExceeded ''concurrency or token/cost ceiling exceeded'', db)
               else (ok \<lparr>rs_dispatch_id = dispatch_id, rs_tokens = token_allowance, rs_cost = cost\<rparr>,
                     db\<lparr>bd_ledgers := set_remaining lid (lr_tokens_remaining row - token_allowance)
                           (lr_cost_remaining row - cost) (bd_ledgers db),
                        bd_reservations := bd_reservations db @
                          [\<lparr>rr_ledger_id = lid, rr_dispatch_id = dispatch_id,
                            rr_token_allowance = token_allowance, rr_cost_microunits = cost\<rparr>]\<rparr>))"

definition durable_release ::
  "string \<Rightarrow> string \<Rightarrow> int \<Rightarrow> int \<Rightarrow> budget_db \<Rightarrow> (exn + unit) \<times> budget_db" where
  "durable_release lid dispatch_id unused_tokens unused_cost db =
     (if unused_tokens < 0 \<or> unused_cost < 0
      then (raise ValueError ''refunds must be nonnegative integers'', db)
      else case row_at rr_dispatch_id dispatch_id (reservations_of lid db) of
             None \<Rightarrow> (raise KeyError ''unknown dispatch'', db)
           | Some r \<Rightarrow>
               if \<not> (0 \<le> unused_tokens \<and> unused_tokens \<le> rr_token_allowance r)
                  \<or> \<not> (0 \<le> unused_cost \<and> unused_cost \<le> rr_cost_microunits r)
               then (raise ValueError ''refund not verified by reservation'', db)
               else (case row_at lr_ledger_id lid (bd_ledgers db) of
                       None \<Rightarrow> (raise TypeError ''cannot unpack non-iterable NoneType object'', db)
                     | Some row \<Rightarrow>
                         (ok (), db\<lparr>bd_ledgers :=
                              set_remaining lid (lr_tokens_remaining row + unused_tokens)
                                (lr_cost_remaining row + unused_cost) (bd_ledgers db),
                            bd_reservations :=
                              filter (\<lambda>r. \<not> (rr_ledger_id r = lid \<and> rr_dispatch_id r = dispatch_id))
                                (bd_reservations db)\<rparr>)))"

definition durable_snapshot :: "string \<Rightarrow> budget_db \<Rightarrow> int \<times> int \<times> int" where
  "durable_snapshot lid db =
     (case row_at lr_ledger_id lid (bd_ledgers db) of
        None \<Rightarrow> (0, 0, int (length (reservations_of lid db)))
      | Some row \<Rightarrow> (lr_tokens_remaining row, lr_cost_remaining row,
                     int (length (reservations_of lid db))))"

section \<open>Conservation\<close>

datatype budget_event = Reserve string int int | Release string int int

fun ledger_step :: "ledger \<Rightarrow> budget_event \<Rightarrow> ledger" where
  "ledger_step l (Reserve d t c) = snd (ledger_reserve d t c l)"
| "ledger_step l (Release d t c) = snd (ledger_release d t c l)"

definition held_tokens :: "ledger \<Rightarrow> int" where
  "held_tokens l = sum_list (map rs_tokens (bl_reservations l))"

definition held_cost :: "ledger \<Rightarrow> int" where
  "held_cost l = sum_list (map rs_cost (bl_reservations l))"

text \<open>Within the ceilings \<open>T\<close>, \<open>C\<close> and \<open>W\<close> the ledger was created with.\<close>

definition within_ceilings :: "int \<Rightarrow> int \<Rightarrow> int \<Rightarrow> ledger \<Rightarrow> bool" where
  "within_ceilings T C W l \<longleftrightarrow>
     0 \<le> bl_tokens l \<and> 0 \<le> bl_cost l \<and>
     bl_tokens l + held_tokens l \<le> T \<and> bl_cost l + held_cost l \<le> C \<and>
     bl_max_workers l = W \<and> int (length (bl_reservations l)) \<le> W \<and>
     keys_distinct rs_dispatch_id (bl_reservations l) \<and>
     (\<forall>r \<in> set (bl_reservations l). 0 \<le> rs_tokens r \<and> 0 \<le> rs_cost r)"

lemma mk_ledger_within: "mk_ledger T C W = Inr l \<Longrightarrow> within_ceilings T C W l"
  by (auto simp: mk_ledger_def within_ceilings_def held_tokens_def held_cost_def split: if_splits)

lemma ledger_reserve_within:
  "within_ceilings T C W l \<Longrightarrow> within_ceilings T C W (snd (ledger_reserve d t c l))"
  by (auto simp: ledger_reserve_def within_ceilings_def held_tokens_def held_cost_def Let_def has_row_def)

lemma sum_list_remove_key:
  fixes f :: "'r \<Rightarrow> int"
  assumes "keys_distinct key rows" "row_at key k rows = Some r"
  shows "sum_list (map f (filter (\<lambda>r. key r \<noteq> k) rows)) = sum_list (map f rows) - f r"
  using assms
proof (induction rows)
  case (Cons x rows)
  show ?case
  proof (cases "key x = k")
    case True
    then have "\<forall>y \<in> set rows. key y \<noteq> k"
      using Cons.prems(1) by (auto simp: keys_distinct_def) (metis imageI)
    then have "filter (\<lambda>r. key r \<noteq> k) rows = rows"
      by (simp add: filter_id_conv)
    then show ?thesis using True Cons.prems by simp
  next
    case False
    then show ?thesis using Cons by (simp add: keys_distinct_def)
  qed
qed simp

lemma ledger_release_within:
  assumes "within_ceilings T C W l"
  shows "within_ceilings T C W (snd (ledger_release d t c l))"
proof (cases "row_at rs_dispatch_id d (bl_reservations l)")
  case None
  then show ?thesis using assms by (simp add: ledger_release_def)
next
  case (Some r)
  let ?rest = "filter (\<lambda>r. rs_dispatch_id r \<noteq> d) (bl_reservations l)"
  have "keys_distinct rs_dispatch_id (bl_reservations l)"
    using assms by (simp add: within_ceilings_def)
  note eqs = sum_list_remove_key [OF this Some, of rs_tokens]
    sum_list_remove_key [OF this Some, of rs_cost]
  have "int (length ?rest) \<le> int (length (bl_reservations l))"
    by simp
  also have "\<dots> \<le> W"
    using assms by (simp add: within_ceilings_def)
  finally have "int (length ?rest) \<le> W" .
  then show ?thesis using assms Some eqs
    by (auto simp: ledger_release_def within_ceilings_def held_tokens_def held_cost_def)
qed

lemma ledger_step_within: "within_ceilings T C W l \<Longrightarrow> within_ceilings T C W (ledger_step l e)"
  by (cases e) (simp_all add: ledger_reserve_within ledger_release_within)

interpretation ledger_machine: invariant_machine ledger_step "within_ceilings T C W"
  by unfold_locales (rule ledger_step_within)

section \<open>Implementations of the ledger\<close>

text \<open>
  What an implementation promises: \<open>view s\<close> is the ledger its state stands for; each operation
  returns what the ledger returns and moves the view as the ledger moves.
\<close>

locale budget_store =
  fixes reserve :: "string \<Rightarrow> int \<Rightarrow> int \<Rightarrow> 's \<Rightarrow> (exn + reservation) \<times> 's"
    and release :: "string \<Rightarrow> int \<Rightarrow> int \<Rightarrow> 's \<Rightarrow> (exn + unit) \<times> 's"
    and view :: "'s \<Rightarrow> ledger option"
  assumes reserve_view: "view s = Some l \<Longrightarrow>
      fst (reserve d t c s) = fst (ledger_reserve d t c l) \<and>
      view (snd (reserve d t c s)) = Some (snd (ledger_reserve d t c l))"
    and release_view: "view s = Some l \<Longrightarrow>
      fst (release d t c s) = fst (ledger_release d t c l) \<and>
      view (snd (release d t c s)) = Some (snd (ledger_release d t c l))"
begin

fun store_step :: "'s \<Rightarrow> budget_event \<Rightarrow> 's" where
  "store_step s (Reserve d t c) = snd (reserve d t c s)"
| "store_step s (Release d t c) = snd (release d t c s)"

lemma store_step_view: "view s = Some l \<Longrightarrow> view (store_step s e) = Some (ledger_step l e)"
  by (cases e) (simp_all add: reserve_view release_view)

lemma run_view: "view s = Some l \<Longrightarrow> view (foldl store_step s es) = Some (foldl ledger_step l es)"
  by (induction es arbitrary: s l) (auto intro: store_step_view)

lemma run_within:
  "view s = Some l \<Longrightarrow> within_ceilings T C W l \<Longrightarrow>
     \<exists>l'. view (foldl store_step s es) = Some l' \<and> within_ceilings T C W l'"
  using run_view ledger_machine.run_inv by blast

end

interpretation memory_store: budget_store ledger_reserve ledger_release Some
  by unfold_locales simp_all

text \<open>The view of the durable store through one ledger id.\<close>

definition row_reservation :: "reservation_row \<Rightarrow> reservation" where
  "row_reservation r = \<lparr>rs_dispatch_id = rr_dispatch_id r, rs_tokens = rr_token_allowance r,
                        rs_cost = rr_cost_microunits r\<rparr>"

definition durable_view :: "string \<Rightarrow> budget_db \<Rightarrow> ledger option" where
  "durable_view lid db =
     map_option (\<lambda>row. \<lparr>bl_tokens = lr_tokens_remaining row, bl_cost = lr_cost_remaining row,
        bl_max_workers = lr_max_workers row,
        bl_reservations = map row_reservation (reservations_of lid db)\<rparr>)
       (row_at lr_ledger_id lid (bd_ledgers db))"

lemma row_at_map_reservation:
  "row_at rs_dispatch_id d (map row_reservation rows) =
     map_option row_reservation (row_at rr_dispatch_id d rows)"
  by (induction rows) (auto simp: row_reservation_def)

lemma row_at_set_remaining:
  "row_at lr_ledger_id k (set_remaining lid t c rows) =
     map_option (\<lambda>r. if lr_ledger_id r = lid
        then r\<lparr>lr_tokens_remaining := t, lr_cost_remaining := c\<rparr> else r) (row_at lr_ledger_id k rows)"
  unfolding set_remaining_def by (rule row_at_update_where) simp

lemma filter_map_reservation:
  "filter (\<lambda>r. rs_dispatch_id r \<noteq> d) (map row_reservation rows) =
     map row_reservation (filter (\<lambda>r. rr_dispatch_id r \<noteq> d) rows)"
  by (induction rows) (auto simp: row_reservation_def)

lemma row_at_set_remaining_other:
  "lid \<noteq> lid' \<Longrightarrow> row_at lr_ledger_id lid (set_remaining lid' t c rows) = row_at lr_ledger_id lid rows"
  by (auto simp: row_at_set_remaining map_option_case dest: row_at_SomeD split: option.splits)

text \<open>The DELETE of a release, seen from its own ledger id and from another one.\<close>

lemma reservations_of_delete:
  "reservations_of lid (db\<lparr>bd_ledgers := ls, bd_reservations :=
      filter (\<lambda>r. rr_ledger_id r = lid' \<longrightarrow> rr_dispatch_id r \<noteq> d) (bd_reservations db)\<rparr>) =
   (if lid = lid' then filter (\<lambda>r. rr_dispatch_id r \<noteq> d) (reservations_of lid db)
    else reservations_of lid db)"
  by (auto simp: reservations_of_def intro!: filter_cong)

lemma durable_reserve_view:
  assumes "durable_view lid db = Some l"
  shows "fst (durable_reserve lid d t c db) = fst (ledger_reserve d t c l) \<and>
         durable_view lid (snd (durable_reserve lid d t c db)) = Some (snd (ledger_reserve d t c l))"
proof -
  from assms obtain row where row: "row_at lr_ledger_id lid (bd_ledgers db) = Some row"
    and l: "l = \<lparr>bl_tokens = lr_tokens_remaining row, bl_cost = lr_cost_remaining row,
        bl_max_workers = lr_max_workers row,
        bl_reservations = map row_reservation (reservations_of lid db)\<rparr>"
    by (auto simp: durable_view_def)
  have "lr_ledger_id row = lid" using row by (auto dest: row_at_SomeD)
  then show ?thesis using row l
    by (auto simp: durable_reserve_def ledger_reserve_def durable_view_def has_row_def
        row_at_map_reservation row_at_set_remaining reservations_of_def row_reservation_def Let_def)
qed

lemma durable_release_view:
  assumes "durable_view lid db = Some l"
  shows "fst (durable_release lid d t c db) = fst (ledger_release d t c l) \<and>
         durable_view lid (snd (durable_release lid d t c db)) = Some (snd (ledger_release d t c l))"
proof -
  from assms obtain row where row: "row_at lr_ledger_id lid (bd_ledgers db) = Some row"
    and l: "l = \<lparr>bl_tokens = lr_tokens_remaining row, bl_cost = lr_cost_remaining row,
        bl_max_workers = lr_max_workers row,
        bl_reservations = map row_reservation (reservations_of lid db)\<rparr>"
    by (auto simp: durable_view_def)
  have "lr_ledger_id row = lid" using row by (auto dest: row_at_SomeD)
  then show ?thesis using row l
    by (auto simp: durable_release_def ledger_release_def durable_view_def row_at_map_reservation
        row_at_set_remaining reservations_of_delete filter_map_reservation split: option.splits)
      (auto simp: row_reservation_def)
qed

interpretation durable_store: budget_store "durable_reserve lid" "durable_release lid" "durable_view lid"
  by unfold_locales (simp_all add: durable_reserve_view durable_release_view)

lemma durable_reserve_other:
  "lid \<noteq> lid' \<Longrightarrow> durable_view lid (snd (durable_reserve lid' d t c db)) = durable_view lid db"
  by (auto simp: durable_reserve_def durable_view_def row_at_set_remaining_other reservations_of_def
      split: option.splits)

lemma durable_release_other:
  "lid \<noteq> lid' \<Longrightarrow> durable_view lid (snd (durable_release lid' d t c db)) = durable_view lid db"
  by (auto simp: durable_release_def durable_view_def row_at_set_remaining_other
      reservations_of_delete split: option.splits)

section \<open>Properties\<close>

text \<open>Operations on one database through any ledger ids, as other processes issue them.\<close>

fun durable_step :: "budget_db \<Rightarrow> string \<times> budget_event \<Rightarrow> budget_db" where
  "durable_step db (lid, Reserve d t c) = snd (durable_reserve lid d t c db)"
| "durable_step db (lid, Release d t c) = snd (durable_release lid d t c db)"

definition events_of :: "string \<Rightarrow> (string \<times> budget_event) list \<Rightarrow> budget_event list" where
  "events_of lid es = map snd (filter (\<lambda>e. fst e = lid) es)"

lemma durable_step_view:
  assumes "durable_view lid db = Some l"
  shows "durable_view lid (durable_step db e) = Some (if fst e = lid then ledger_step l (snd e) else l)"
proof -
  obtain k b where e: "e = (k, b)" by (cases e)
  show ?thesis using assms e
    by (cases "k = lid"; cases b)
      (simp_all add: durable_reserve_view durable_release_view durable_reserve_other
        durable_release_other)
qed

lemma durable_run_view:
  "durable_view lid db = Some l \<Longrightarrow>
     durable_view lid (foldl durable_step db es) = Some (foldl ledger_step l (events_of lid es))"
  by (induction es arbitrary: db l) (auto simp: events_of_def durable_step_view)

text \<open>
  C8: the SQLite ledger is a faithful implementation of the in-memory one, per ledger id and
  under any interleaving with other ledger ids of the same database: its stored state stands for
  the in-memory ledger that ran this id's operations alone, and the next operation returns what
  the in-memory one returns.
\<close>

theorem durable_refines_ledger:
  assumes "durable_view lid db = Some l"
    and "db' = foldl durable_step db es" and "l' = foldl ledger_step l (events_of lid es)"
  shows "durable_view lid db' = Some l' \<and>
         fst (durable_reserve lid d t c db') = fst (ledger_reserve d t c l') \<and>
         fst (durable_release lid d t c db') = fst (ledger_release d t c l') \<and>
         durable_snapshot lid db' = ledger_snapshot l'"
proof -
  have v: "durable_view lid db' = Some l'"
    using assms durable_run_view by simp
  then have "durable_snapshot lid db' = ledger_snapshot l'"
    by (auto simp: durable_view_def durable_snapshot_def ledger_snapshot_def)
  with v durable_reserve_view [OF v] durable_release_view [OF v] show ?thesis by simp
qed

definition example_budget_db :: budget_db where
  "example_budget_db = snd (open_durable ''a'' 100 50 2 \<lparr>bd_ledgers = [], bd_reservations = []\<rparr>)"

definition example_ledger :: ledger where
  "example_ledger = \<lparr>bl_tokens = 100, bl_cost = 50, bl_max_workers = 2, bl_reservations = []\<rparr>"

lemma example_budget_view: "durable_view ''a'' example_budget_db = Some example_ledger"
  by (simp add: example_budget_db_def open_durable_def durable_view_def example_ledger_def
      reservations_of_def)

theorem durable_refines_ledger_witness:
  "durable_view ''a'' (foldl durable_step example_budget_db
       [(''a'', Reserve ''d1'' 30 10), (''b'', Reserve ''d1'' 1 1), (''a'', Release ''d1'' 5 0)]) =
     Some (foldl ledger_step example_ledger [Reserve ''d1'' 30 10, Release ''d1'' 5 0])"
  using durable_refines_ledger [OF example_budget_view refl refl, where es =
      "[(''a'', Reserve ''d1'' 30 10), (''b'', Reserve ''d1'' 1 1), (''a'', Release ''d1'' 5 0)]"]
  by (simp add: events_of_def)

text \<open>
  C13: no sequence of reservations and releases, on a database other ledgers share, overdraws a
  durable ledger: what is left plus what active dispatches hold never exceeds the tokens and the
  cost it was opened with, neither goes negative, and the active dispatches never exceed its
  worker ceiling.
\<close>

theorem durable_budget_never_overdrawn:
  assumes "open_durable lid T C W db = (Inr (), db0)" "row_at lr_ledger_id lid (bd_ledgers db) = None"
    and "reservations_of lid db = []"
  shows "\<exists>l. durable_view lid (foldl durable_step db0 es) = Some l \<and> within_ceilings T C W l"
proof -
  let ?l0 = "\<lparr>bl_tokens = T, bl_cost = C, bl_max_workers = W, bl_reservations = []\<rparr>"
  have "durable_view lid db0 = Some ?l0"
    using assms by (auto simp: open_durable_def durable_view_def reservations_of_def
        row_at_append split: if_splits)
  moreover have "within_ceilings T C W ?l0"
    using assms(1) by (intro mk_ledger_within) (auto simp: mk_ledger_def open_durable_def
        split: if_splits)
  ultimately show ?thesis
    using durable_run_view ledger_machine.run_inv by blast
qed

theorem durable_budget_never_overdrawn_witness:
  "\<exists>l. durable_view ''a'' (foldl durable_step example_budget_db
          [(''a'', Reserve ''d1'' 30 10), (''a'', Reserve ''d2'' 90 0)]) = Some l \<and>
       within_ceilings 100 50 2 l"
proof (rule durable_budget_never_overdrawn)
  show "open_durable ''a'' 100 50 2 \<lparr>bd_ledgers = [], bd_reservations = []\<rparr> =
      (Inr (), example_budget_db)"
    by (simp add: example_budget_db_def open_durable_def)
qed (simp_all add: reservations_of_def)

text \<open>
  releasing a reservation with the full refund undoes it exactly; releasing it with a refund
  beyond what it holds, or releasing it a second time, raises and changes nothing.
\<close>

theorem reserve_release_roundtrip:
  assumes "ledger_reserve d t c l = (Inr r, l1)"
  shows "ledger_release d t c l1 = (Inr (), l) \<and>
         (t < t' \<or> c < c' \<longrightarrow> (\<exists>msg. ledger_release d t' c' l1 = (Inl (ValueError, msg), l1))) \<and>
         (0 \<le> t' \<and> 0 \<le> c' \<longrightarrow> (\<exists>msg. ledger_release d t' c' l = (Inl (KeyError, msg), l)))"
proof -
  have fresh: "row_at rs_dispatch_id d (bl_reservations l) = None"
    and l1: "l1 = l\<lparr>bl_tokens := bl_tokens l - t, bl_cost := bl_cost l - c,
        bl_reservations := bl_reservations l @ [\<lparr>rs_dispatch_id = d, rs_tokens = t, rs_cost = c\<rparr>]\<rparr>"
    and nonneg: "0 \<le> t" "0 \<le> c"
    using assms by (auto simp: ledger_reserve_def has_row_def Let_def split: if_splits)
  have "filter (\<lambda>r. rs_dispatch_id r \<noteq> d) (bl_reservations l) = bl_reservations l"
    using fresh by (auto simp: row_at_None_iff filter_id_conv)
  then show ?thesis using fresh nonneg unfolding l1
    by (auto simp: ledger_release_def row_at_append)
qed

theorem reserve_release_roundtrip_witness:
  "ledger_release ''d1'' 30 10 (snd (ledger_reserve ''d1'' 30 10 example_ledger)) =
     (Inr (), example_ledger)"
proof -
  have "\<exists>r. fst (ledger_reserve ''d1'' 30 10 example_ledger) = Inr r"
    by (simp add: ledger_reserve_def example_ledger_def has_row_def py_isspace_def Let_def)
  then obtain r where "ledger_reserve ''d1'' 30 10 example_ledger =
      (Inr r, snd (ledger_reserve ''d1'' 30 10 example_ledger))"
    by (metis prod.collapse)
  from reserve_release_roundtrip [OF this] show ?thesis by blast
qed

end
