(* ===== verification/TaskDag.thy ===== *)
theory TaskDag
  imports Prelude "HOL-Library.Char_ord" "HOL-Library.List_Lexorder"
begin

text \<open>
  \<open>validate_task_dag\<close> of \<open>src/subagentbridge/planner/budget.py\<close>: the checks of a frozen task
  plan and the iterative depth-first search that orders it.  The mappings are association lists
  in the dictionaries' order.  The search keeps its explicit stack of (node, leaving) pairs, the
  end of the Python list being the head of the HOL list; it terminates because each entry either
  leaves the stack or marks a task of the plan that was not marked before.  The result is proved
  to be a topological order of the plan, and to exist exactly when the plan has no cycle.
\<close>

type_synonym plan = "(string \<times> string list) list"

definition bad_task_id :: "string \<Rightarrow> bool" where
  "bad_task_id t \<longleftrightarrow> blank t \<or> length t > 256"

text \<open>The loops over the acceptance criteria and over the dependencies.\<close>

fun check_criteria :: "plan \<Rightarrow> exn + unit" where
  "check_criteria [] = ok ()"
| "check_criteria ((task, ac) # rest) =
     (if blank task \<or> ac = [] \<or> list_ex blank ac \<or> \<not> distinct ac
      then raise ValueError ''each task needs unique measurable AC'' else check_criteria rest)"

fun check_dependencies :: "string list \<Rightarrow> plan \<Rightarrow> exn + unit" where
  "check_dependencies tasks [] = ok ()"
| "check_dependencies tasks ((task, deps) # rest) =
     (if list_ex bad_task_id deps \<or> \<not> distinct deps
      then raise ValueError ''dependencies must have unique valid IDs''
      else if list_ex (\<lambda>d. d \<notin> set tasks) deps then raise ValueError ''unknown dependency''
      else check_dependencies tasks rest)"

definition check_plan :: "plan \<Rightarrow> plan \<Rightarrow> exn + unit" where
  "check_plan dependencies criteria =
     (if dependencies = [] \<or> set (map fst dependencies) \<noteq> set (map fst criteria)
      then raise ValueError ''complete task list and AC required''
      else if list_ex bad_task_id (map fst dependencies)
      then raise ValueError ''task IDs must be bounded nonempty text''
      else case check_criteria criteria of
             Inl e \<Rightarrow> Inl e
           | Inr _ \<Rightarrow> check_dependencies (map fst dependencies) dependencies)"

type_synonym dfs_state = "string set \<times> string set \<times> string list"

function dag_dfs ::
  "plan \<Rightarrow> (string \<times> bool) list \<Rightarrow> string set \<Rightarrow> string set \<Rightarrow> string list \<Rightarrow> exn + dfs_state" where
  "dag_dfs graph [] visiting visited result = ok (visiting, visited, result)"
| "dag_dfs graph ((node, leaving) # stack) visiting visited result =
     (if leaving then
        (if node \<notin> visiting then raise KeyError ''visiting.remove''
         else dag_dfs graph stack (visiting - {node}) (insert node visited) (result @ [node]))
      else if node \<in> visiting then raise ValueError ''dependency cycle''
      else if node \<in> visited then dag_dfs graph stack visiting visited result
      else (case map_of graph node of
              None \<Rightarrow> raise KeyError ''graph[node]''
            | Some deps \<Rightarrow>
                dag_dfs graph
                  (map (\<lambda>d. (d, False)) (filter (\<lambda>d. d \<notin> visited) deps) @ (node, True) # stack)
                  (insert node visiting) visited result))"
  by pat_completeness auto

lemma card_unmarked_less:
  assumes "map_of graph node = Some deps" "node \<notin> M"
  shows "card (set (map fst graph) - insert node M) < card (set (map fst graph) - M)"
proof (rule psubset_card_mono)
  have "node \<in> set (map fst graph)"
    using assms(1) by (auto dest: map_of_SomeD intro: rev_image_eqI)
  then show "set (map fst graph) - insert node M \<subset> set (map fst graph) - M"
    using assms(2) by auto
qed simp

lemma union_move: "n \<in> A \<Longrightarrow> (A - {n}) \<union> insert n B = A \<union> B"
  by auto

termination dag_dfs
  by (relation "measures
      [\<lambda>(graph, stack, visiting, visited, result). card (set (map fst graph) - (visiting \<union> visited)),
       \<lambda>(graph, stack, visiting, visited, result). length stack]")
    (auto simp del: Un_insert_right simp: union_move dest: card_unmarked_less)

declare dag_dfs.simps(2) [simp del]

text \<open>The loop over \<open>sorted(graph)\<close>.\<close>

fun dag_roots :: "plan \<Rightarrow> string list \<Rightarrow> dfs_state \<Rightarrow> exn + dfs_state" where
  "dag_roots graph [] s = ok s"
| "dag_roots graph (task # tasks) (visiting, visited, result) =
     (if task \<in> visited then dag_roots graph tasks (visiting, visited, result)
      else case dag_dfs graph [(task, False)] visiting visited result of
             Inl e \<Rightarrow> Inl e
           | Inr s \<Rightarrow> dag_roots graph tasks s)"

definition validate_task_dag :: "plan \<Rightarrow> plan \<Rightarrow> exn + string list" where
  "validate_task_dag dependencies criteria =
     (case check_plan dependencies criteria of
        Inl e \<Rightarrow> Inl e
      | Inr _ \<Rightarrow>
          (case dag_roots dependencies (sort (map fst dependencies)) ({}, {}, []) of
             Inl e \<Rightarrow> Inl e
           | Inr (_, _, result) \<Rightarrow> ok result))"

section \<open>The dependency graph and the search invariant\<close>

definition deps_of :: "plan \<Rightarrow> string \<Rightarrow> string list" where
  "deps_of graph u = (case map_of graph u of None \<Rightarrow> [] | Some ds \<Rightarrow> ds)"

definition depends :: "plan \<Rightarrow> (string \<times> string) set" where
  "depends graph = {(u, v). v \<in> set (deps_of graph u)}"

text \<open>Every task of the list comes after everything it depends on.\<close>

definition ordered :: "plan \<Rightarrow> string list \<Rightarrow> bool" where
  "ordered graph xs \<longleftrightarrow> distinct xs \<and>
     (\<forall>ys v zs. xs = ys @ v # zs \<longrightarrow> set (deps_of graph v) \<subseteq> set ys)"

lemma ordered_Nil [simp]: "ordered graph []"
  by (simp add: ordered_def)

lemma ordered_snoc:
  assumes "ordered graph xs" "v \<notin> set xs" "set (deps_of graph v) \<subseteq> set xs"
  shows "ordered graph (xs @ [v])"
  unfolding ordered_def
proof (intro conjI allI impI)
  show "distinct (xs @ [v])" using assms by (simp add: ordered_def)
  fix ys u zs
  assume eq: "xs @ [v] = ys @ u # zs"
  show "set (deps_of graph u) \<subseteq> set ys"
  proof (cases zs rule: rev_cases)
    case Nil
    then show ?thesis using eq assms(3) by simp
  next
    case (snoc zs' z)
    then show ?thesis using eq assms(1) by (auto simp: ordered_def)
  qed
qed

lemma takeWhile_until: "u \<notin> set ys \<Longrightarrow> takeWhile (\<lambda>x. x \<noteq> u) (ys @ u # zs) = ys"
  by (induction ys) auto

lemma ordered_acyclic:
  assumes "ordered graph xs" "set (map fst graph) \<subseteq> set xs"
  shows "acyclic (depends graph)"
proof (rule acyclicI_order)
  fix u v
  assume "(u, v) \<in> depends graph"
  then have v: "v \<in> set (deps_of graph u)" by (simp add: depends_def)
  then have "u \<in> set (map fst graph)"
    by (cases "map_of graph u") (auto simp: deps_of_def dest!: map_of_SomeD intro: rev_image_eqI)
  then obtain ys zs where xs: "xs = ys @ u # zs" "u \<notin> set ys"
    using assms(2) by (meson split_list_first subsetD)
  then have "v \<in> set ys" using assms(1) v by (auto simp: ordered_def)
  then have "length (takeWhile (\<lambda>x. x \<noteq> v) ys) < length ys"
    using \<open>v \<in> set ys\<close> by (metis (mono_tags, lifting) length_takeWhile_le nat_less_le
        takeWhile_eq_all_conv takeWhile_eq_take take_all_iff)
  moreover have "takeWhile (\<lambda>x. x \<noteq> v) xs = takeWhile (\<lambda>x. x \<noteq> v) ys"
    using xs \<open>v \<in> set ys\<close> by (simp add: takeWhile_append1)
  moreover have "takeWhile (\<lambda>x. x \<noteq> u) xs = ys"
    using xs takeWhile_until by simp
  ultimately show "length (takeWhile (\<lambda>x. x \<noteq> v) xs) < length (takeWhile (\<lambda>x. x \<noteq> u) xs)"
    by simp
qed

text \<open>
  The stack: the entries being left are the path of the search, each one a dependency of the
  next one below; an entry to visit is a dependency of the nearest path entry below it; and the
  dependencies of a path entry are visited or waiting above it.
\<close>

definition path_of :: "(string \<times> bool) list \<Rightarrow> string list" where
  "path_of stack = map fst (filter snd stack)"

fun wf_stack :: "plan \<Rightarrow> (string \<times> bool) list \<Rightarrow> bool" where
  "wf_stack graph [] \<longleftrightarrow> True"
| "wf_stack graph ((n, b) # s) \<longleftrightarrow>
     (path_of s \<noteq> [] \<longrightarrow> (hd (path_of s), n) \<in> depends graph) \<and> wf_stack graph s"

fun covered :: "plan \<Rightarrow> string set \<Rightarrow> (string \<times> bool) list \<Rightarrow> bool" where
  "covered graph S [] \<longleftrightarrow> True"
| "covered graph S ((n, b) # s) \<longleftrightarrow>
     (b \<longrightarrow> set (deps_of graph n) \<subseteq> S) \<and> covered graph (insert n S) s"

lemma path_of_simps [simp]:
  "path_of [] = []" "path_of ((n, True) # s) = n # path_of s" "path_of ((n, False) # s) = path_of s"
  "path_of (map (\<lambda>d. (d, False)) ds @ s) = path_of s"
  by (simp_all add: path_of_def filter_map comp_def)

lemma covered_mono: "covered graph S s \<Longrightarrow> S \<subseteq> T \<Longrightarrow> covered graph T s"
proof (induction graph S s arbitrary: T rule: covered.induct)
  case (2 graph S n b s)
  then have "covered graph (insert n T) s" by (auto intro: insert_mono)
  with 2 show ?case by auto
qed simp

lemma covered_push:
  "covered graph S (map (\<lambda>d. (d, False)) ds @ s) = covered graph (S \<union> set ds) s"
  by (induction ds arbitrary: S) (auto simp: insert_commute)

lemma wf_stack_push:
  assumes "wf_stack graph s" "path_of s = p # ps" "set ds \<subseteq> set (deps_of graph p)"
  shows "wf_stack graph (map (\<lambda>d. (d, False)) ds @ s)"
  using assms by (induction ds) (auto simp: depends_def)

lemma path_reaches:
  "wf_stack graph s \<Longrightarrow> m \<in> set (path_of s) \<Longrightarrow> (m, hd (path_of s)) \<in> (depends graph)\<^sup>*"
proof (induction s)
  case (Cons x s)
  obtain n b where x: "x = (n, b)" by (cases x)
  show ?case
  proof (cases "b \<and> m \<noteq> n")
    case True
    then have m: "m \<in> set (path_of s)" using Cons.prems x by auto
    then have "(hd (path_of s), n) \<in> depends graph" using Cons.prems x by auto
    moreover have "(m, hd (path_of s)) \<in> (depends graph)\<^sup>*" using Cons x m by simp
    ultimately show ?thesis using True x by simp
  next
    case False
    then show ?thesis using Cons x by (cases b) auto
  qed
qed simp

definition dfs_inv ::
  "plan \<Rightarrow> (string \<times> bool) list \<Rightarrow> string set \<Rightarrow> string set \<Rightarrow> string list \<Rightarrow> bool" where
  "dfs_inv graph stack visiting visited result \<longleftrightarrow>
     wf_stack graph stack \<and> covered graph visited stack \<and>
     distinct (path_of stack) \<and> set (path_of stack) = visiting \<and> visiting \<inter> visited = {} \<and>
     set result = visited \<and> ordered graph result \<and>
     fst ` set stack \<union> visited \<subseteq> set (map fst graph)"

text \<open>Dependencies stay inside the plan: the check that no dependency is unknown.\<close>

definition closed_plan :: "plan \<Rightarrow> bool" where
  "closed_plan graph \<longleftrightarrow> (\<forall>(u, v) \<in> depends graph. v \<in> set (map fst graph))"

definition cycle_error :: exn where
  "cycle_error = (ValueError, ''dependency cycle'')"

definition dfs_post :: "plan \<Rightarrow> string set \<Rightarrow> exn + dfs_state \<Rightarrow> bool" where
  "dfs_post graph goals r \<longleftrightarrow>
     (case r of
        Inl e \<Rightarrow> e = cycle_error \<and> \<not> acyclic (depends graph)
      | Inr (visiting, visited, result) \<Rightarrow>
          visiting = {} \<and> set result = visited \<and> ordered graph result \<and> goals \<subseteq> visited \<and>
          visited \<subseteq> set (map fst graph))"

lemma dfs_post_mono: "dfs_post graph A r \<Longrightarrow> B \<subseteq> A \<Longrightarrow> dfs_post graph B r"
  by (auto simp: dfs_post_def split: sum.splits)

lemma dag_dfs_post:
  assumes "closed_plan graph" "dfs_inv graph stack visiting visited result"
  shows "dfs_post graph (visited \<union> fst ` set stack) (dag_dfs graph stack visiting visited result)"
  using assms
proof (induction graph stack visiting visited result rule: dag_dfs.induct)
  case (1 graph visiting visited result)
  then show ?case by (auto simp: dfs_post_def dfs_inv_def)
next
  case (2 graph node leaving stack visiting visited result)
  note inv = "2.prems"(2) [unfolded dfs_inv_def]
  consider (leave) leaving | (cycle) "\<not> leaving" "node \<in> visiting"
    | (seen) "\<not> leaving" "node \<notin> visiting" "node \<in> visited"
    | (new) "\<not> leaving" "node \<notin> visiting" "node \<notin> visited" by blast
  then show ?case
  proof cases
    case leave
    then have node: "node \<in> visiting" "node \<notin> set (path_of stack)"
        "set (path_of stack) = visiting - {node}" "node \<notin> visited"
        "set (deps_of graph node) \<subseteq> visited"
      using inv by auto
    have "dfs_inv graph stack (visiting - {node}) (insert node visited) (result @ [node])"
      using inv leave node ordered_snoc [of graph result node] by (auto simp: dfs_inv_def)
    with "2.IH"(1) leave node "2.prems"(1) show ?thesis
      by (subst dag_dfs.simps) (auto elim: dfs_post_mono)
  next
    case cycle
    then have "node \<in> set (path_of stack)" using inv by auto
    then have "(node, hd (path_of stack)) \<in> (depends graph)\<^sup>*" "path_of stack \<noteq> []"
      using inv path_reaches by auto
    moreover have "(hd (path_of stack), node) \<in> depends graph"
      using inv calculation by auto
    ultimately have "(node, node) \<in> (depends graph)\<^sup>+" by simp
    then show ?thesis using cycle
      by (auto simp: dag_dfs.simps(2) dfs_post_def cycle_error_def acyclic_def)
  next
    case seen
    then have "dfs_inv graph stack visiting visited result"
      using inv by (auto simp: dfs_inv_def insert_absorb)
    with "2.IH"(2) seen "2.prems"(1) show ?thesis
      by (subst dag_dfs.simps) (auto elim: dfs_post_mono)
  next
    case new
    have "node \<in> set (map fst graph)" using inv by auto
    then obtain deps where deps: "map_of graph node = Some deps"
      by (cases "map_of graph node") (auto simp: map_of_eq_None_iff)
    let ?stack = "map (\<lambda>d. (d, False)) (filter (\<lambda>d. d \<notin> visited) deps) @ (node, True) # stack"
    have d: "deps_of graph node = deps" using deps by (simp add: deps_of_def)
    have "set deps \<subseteq> set (map fst graph)"
      using "2.prems"(1) d by (auto simp: closed_plan_def depends_def)
    moreover have "covered graph visited ?stack"
      using inv new d by (auto simp: covered_push elim!: covered_mono)
    moreover have "wf_stack graph ?stack"
      using inv new d by (intro wf_stack_push [where p = node]) auto
    ultimately have "dfs_inv graph ?stack (insert node visiting) visited result"
      using inv new by (auto simp: dfs_inv_def)
    then have post: "dfs_post graph (visited \<union> fst ` set ?stack)
        (dag_dfs graph ?stack (insert node visiting) visited result)"
      using "2.IH"(3) [OF new deps "2.prems"(1)] by simp
    have eq: "dag_dfs graph ((node, leaving) # stack) visiting visited result =
        dag_dfs graph ?stack (insert node visiting) visited result"
      using new deps by (simp add: dag_dfs.simps(2))
    have "visited \<union> fst ` set ((node, leaving) # stack) \<subseteq> visited \<union> fst ` set ?stack"
      by auto
    then show ?thesis unfolding eq by (rule dfs_post_mono [OF post])
  qed
qed

lemma dag_roots_post:
  assumes "closed_plan graph" "set tasks \<subseteq> set (map fst graph)"
    and "set result = visited" "ordered graph result" "visited \<subseteq> set (map fst graph)"
  shows "dfs_post graph (visited \<union> set tasks) (dag_roots graph tasks ({}, visited, result))"
  using assms(2-)
proof (induction tasks arbitrary: visited result)
  case Nil
  then show ?case by (simp add: dfs_post_def)
next
  case (Cons task tasks)
  show ?case
  proof (cases "task \<in> visited")
    case True
    then have "dfs_post graph (visited \<union> set tasks) (dag_roots graph tasks ({}, visited, result))"
      using Cons.IH [of result visited] Cons.prems by simp
    moreover have "visited \<union> set (task # tasks) = visited \<union> set tasks" using True by auto
    ultimately show ?thesis using True by simp
  next
    case False
    have "dfs_inv graph [(task, False)] {} visited result"
      using Cons.prems by (auto simp: dfs_inv_def)
    note post = dag_dfs_post [OF assms(1) this]
    show ?thesis
    proof (cases "dag_dfs graph [(task, False)] {} visited result")
      case (Inl e)
      then show ?thesis using post False by (simp add: dfs_post_def)
    next
      case (Inr s)
      obtain vi V r where s: "s = (vi, V, r)" by (cases s)
      then have r: "vi = {}" "set r = V" "ordered graph r" "insert task visited \<subseteq> V"
          "V \<subseteq> set (map fst graph)"
        using post Inr by (auto simp: dfs_post_def)
      then have "dfs_post graph (V \<union> set tasks) (dag_roots graph tasks ({}, V, r))"
        using Cons.IH [of r V] Cons.prems by simp
      then show ?thesis using False Inr s r by (auto elim: dfs_post_mono)
    qed
  qed
qed

section \<open>What the validation promises\<close>

lemma check_dependencies_closed:
  "check_dependencies tasks rest = Inr () \<Longrightarrow> (u, ds) \<in> set rest \<Longrightarrow> set ds \<subseteq> set tasks"
  by (induction rest) (auto split: if_splits simp: list_ex_iff)

lemma deps_of_entry: "v \<in> set (deps_of graph u) \<Longrightarrow> (u, deps_of graph u) \<in> set graph"
  by (auto simp: deps_of_def split: option.splits dest: map_of_SomeD)

lemma check_plan_closed:
  assumes "check_plan d c = Inr ()"
  shows "closed_plan d"
proof -
  have "check_dependencies (map fst d) d = Inr ()"
    using assms by (auto simp: check_plan_def split: if_splits sum.splits)
  then show ?thesis
    by (fastforce simp: closed_plan_def depends_def
        dest: deps_of_entry check_dependencies_closed)
qed

lemma validate_task_dag_post:
  assumes "check_plan d c = Inr ()"
  shows "case validate_task_dag d c of
           Inl e \<Rightarrow> e = cycle_error \<and> \<not> acyclic (depends d)
         | Inr order \<Rightarrow> ordered d order \<and> set order = set (map fst d)"
  using dag_roots_post [OF check_plan_closed [OF assms], of "sort (map fst d)" "[]" "{}"] assms
  by (auto simp: validate_task_dag_def dfs_post_def split: sum.splits)

text \<open>
  A frozen plan that \<open>validate_task_dag\<close> accepts is returned in an executable order: the
  result is a permutation of the plan's tasks and every task comes after all the tasks it depends on.
\<close>

theorem accepted_plan_is_ordered:
  assumes "validate_task_dag dependencies criteria = Inr order"
  shows "set order = set (map fst dependencies) \<and> distinct order \<and>
    (\<forall>before task after. order = before @ task # after \<longrightarrow>
       set (deps_of dependencies task) \<subseteq> set before)"
proof -
  have "check_plan dependencies criteria = Inr ()"
    using assms by (auto simp: validate_task_dag_def split: sum.splits)
  from validate_task_dag_post [OF this] show ?thesis
    using assms by (auto simp: ordered_def)
qed

definition sample_plan :: plan where
  "sample_plan = [(''c'', [''a'', ''b'']), (''a'', []), (''b'', [''a''])]"

definition sample_criteria :: plan where
  "sample_criteria = [(''a'', [''A'']), (''b'', [''B'']), (''c'', [''C''])]"

lemma sample_plan_ordered: "validate_task_dag sample_plan sample_criteria = Inr [''a'', ''b'', ''c'']"
  by code_simp

theorem accepted_plan_is_ordered_witness:
  "set [''a'', ''b'', ''c''] = set (map fst sample_plan) \<and>
   set (deps_of sample_plan ''c'') \<subseteq> set [''a'', ''b''] \<and> set (deps_of sample_plan ''b'') \<subseteq> set [''a'']"
  using accepted_plan_is_ordered [OF sample_plan_ordered, THEN conjunct1]
    accepted_plan_is_ordered [OF sample_plan_ordered, THEN conjunct2, THEN conjunct2, rule_format,
      of "[''a'', ''b'']" "''c''" "[]"]
    accepted_plan_is_ordered [OF sample_plan_ordered, THEN conjunct2, THEN conjunct2, rule_format,
      of "[''a'']" "''b''" "[''c'']"]
  by simp

text \<open>
  C7: For a plan that passes the field checks the search always answers, and answers exactly:
  an order when the dependency graph has no cycle, and the error \<open>dependency cycle\<close> (never a
  \<open>KeyError\<close> from its own bookkeeping) when it has one.
\<close>

theorem dag_search_decides_cycles:
  assumes "check_plan dependencies criteria = Inr ()"
  shows "if acyclic (depends dependencies)
         then \<exists>order. validate_task_dag dependencies criteria = Inr order
         else validate_task_dag dependencies criteria = Inl (ValueError, ''dependency cycle'')"
  using validate_task_dag_post [OF assms]
  by (cases "validate_task_dag dependencies criteria")
    (auto simp: cycle_error_def dest: ordered_acyclic)

definition cyclic_plan :: plan where
  "cyclic_plan = [(''a'', [''c'']), (''b'', [''a'']), (''c'', [''b''])]"

theorem dag_search_decides_cycles_witness:
  "check_plan cyclic_plan sample_criteria = Inr () \<and>
   validate_task_dag cyclic_plan sample_criteria = Inl (ValueError, ''dependency cycle'') \<and>
   \<not> acyclic (depends cyclic_plan)"
proof -
  have c: "check_plan cyclic_plan sample_criteria = Inr ()" by code_simp
  have "validate_task_dag cyclic_plan sample_criteria = Inl (ValueError, ''dependency cycle'')"
    by code_simp
  with dag_search_decides_cycles [OF c] c show ?thesis
    by (auto split: if_splits)
qed

end
