(* ===== verification/QaGate.thy ===== *)
theory QaGate
  imports Registry
begin

text \<open>
  \<open>src/subagentbridge/qa/test_pins.py\<close> and \<open>qa/adjudication.py\<close>: the syntactic check of a pinned
  QA test path, the probe that compares the files on disk with their pins, and the evidence gate
  that decides whether a reported change becomes QA_VERIFIED.  Mappings are association lists with
  distinct keys; the file system is a record of the probes the code makes (\<open>is_symlink\<close> and
  \<open>is_junction\<close>, \<open>is_file\<close>, the bytes read), and SHA-256 is an argument.
\<close>

type_synonym pins = "(string \<times> string) list"

section \<open>Test paths\<close>

text \<open>\<open>str.split('/')\<close>, and the \<open>parts\<close> of a \<open>PurePosixPath\<close>.\<close>

fun split_on :: "char \<Rightarrow> string \<Rightarrow> string list" where
  "split_on c [] = [[]]"
| "split_on c (x # s) =
     (if x = c then [] # split_on c s
      else case split_on c s of [] \<Rightarrow> [[x]] | p # ps \<Rightarrow> (x # p) # ps)"

definition slash :: char where "slash = CHR ''/''"

definition posix_absolute :: "string \<Rightarrow> bool" where
  "posix_absolute s \<longleftrightarrow> take 1 s = [slash]"

definition posix_parts :: "string \<Rightarrow> string list" where
  "posix_parts s = (if posix_absolute s then [[slash]] else []) @
     filter (\<lambda>p. p \<noteq> [] \<and> p \<noteq> ''.'') (split_on slash s)"

definition validate_qa_test_path :: "string \<Rightarrow> exn + unit" where
  "validate_qa_test_path relative =
     (if relative = [] \<or> CHR 0x5C \<in> set relative \<or> CHR '':'' \<in> set relative
         \<or> CHR 0x00 \<in> set relative
      then raise QaTestIntegrityError ''QA test path must use plain relative POSIX components''
      else if posix_absolute relative \<or> take 6 relative \<noteq> ''tests/''
              \<or> list_ex (\<lambda>piece. piece \<in> {[], ''.'', ''..''}) (split_on slash relative)
              \<or> length (posix_parts relative) < 2 \<or> hd (posix_parts relative) \<noteq> ''tests''
      then raise QaTestIntegrityError ''QA tests must be pinned under tests/ with no traversal''
      else ok ())"

definition sha256_hex :: "string \<Rightarrow> bool" where
  "sha256_hex digest \<longleftrightarrow>
     length digest = 64 \<and> list_all (\<lambda>c. c \<in> set ''0123456789abcdef'') digest"

text \<open>Lexical resolution of \<open>.\<close> and \<open>..\<close>, as an operating system resolves a path.\<close>

fun resolve_parts :: "string list \<Rightarrow> string list \<Rightarrow> string list" where
  "resolve_parts base [] = base"
| "resolve_parts base (p # ps) =
     (if p = [] \<or> p = ''.'' then resolve_parts base ps
      else if p = ''..'' then resolve_parts (butlast base) ps
      else resolve_parts (base @ [p]) ps)"

lemma resolve_plain:
  "list_all (\<lambda>p. p \<notin> {[], ''.'', ''..''}) ps \<Longrightarrow> resolve_parts base ps = base @ ps"
  by (induction ps arbitrary: base) auto

lemma filter_plain:
  "list_all (\<lambda>p. p \<notin> {[], ''.'', ''..''}) ps \<Longrightarrow> filter (\<lambda>p. p \<noteq> [] \<and> p \<noteq> ''.'') ps = ps"
  by (induction ps) auto

lemma valid_path_pieces:
  assumes "validate_qa_test_path relative = Inr ()"
  shows "list_all (\<lambda>p. p \<notin> {[], ''.'', ''..''}) (split_on slash relative)"
    "hd (split_on slash relative) = ''tests''" "2 \<le> length (split_on slash relative)"
proof -
  show pieces: "list_all (\<lambda>p. p \<notin> {[], ''.'', ''..''}) (split_on slash relative)"
    using assms by (auto simp: validate_qa_test_path_def list_ex_iff list_all_iff split: if_splits)
  have "\<not> posix_absolute relative" "2 \<le> length (posix_parts relative)"
      "hd (posix_parts relative) = ''tests''"
    using assms by (auto simp: validate_qa_test_path_def split: if_splits)
  then show "hd (split_on slash relative) = ''tests''" "2 \<le> length (split_on slash relative)"
    using filter_plain [OF pieces] by (simp_all add: posix_parts_def)
qed

section \<open>The probe of the checkout\<close>

record test_fs =
  fs_real_dir :: "string list \<Rightarrow> bool"
  fs_linked :: "string list \<Rightarrow> bool"
  fs_is_file :: "string list \<Rightarrow> bool"
  fs_read :: "string list \<Rightarrow> string"

definition MAX_QA_FILE_BYTES :: nat where "MAX_QA_FILE_BYTES = 8 * 1024 * 1024"

text \<open>The walk over the components: any link on the way refuses the file.\<close>

fun any_linked :: "test_fs \<Rightarrow> string list \<Rightarrow> string list \<Rightarrow> bool" where
  "any_linked fs path [] = False"
| "any_linked fs path (c # cs) = (fs_linked fs (path @ [c]) \<or> any_linked fs (path @ [c]) cs)"

definition verify_pin :: "(string \<Rightarrow> string) \<Rightarrow> test_fs \<Rightarrow> string list \<Rightarrow> string \<Rightarrow> string \<Rightarrow> exn + string"
  where
  "verify_pin sha fs checkout name expected =
     (case validate_qa_test_path name of
        Inl e \<Rightarrow> Inl e
      | Inr _ \<Rightarrow>
          if \<not> sha256_hex expected
          then raise QaTestIntegrityError ''SHA256 pin must be lowercase hex''
          else if any_linked fs checkout (split_on slash name)
          then raise QaTestIntegrityError ''QA test file or ancestor is linked''
          else let path = checkout @ split_on slash name in
            if \<not> fs_is_file fs path
            then raise QaTestIntegrityError ''QA test missing or not a regular file''
            else let blob = take (MAX_QA_FILE_BYTES + 1) (fs_read fs path) in
              if length blob > MAX_QA_FILE_BYTES
              then raise QaTestIntegrityError ''QA test exceeds read limit''
              else if sha blob \<noteq> expected
              then raise QaTestIntegrityError ''QA test file hash has changed''
              else ok (sha blob))"

fun verify_pins :: "(string \<Rightarrow> string) \<Rightarrow> test_fs \<Rightarrow> string list \<Rightarrow> pins \<Rightarrow> exn + pins" where
  "verify_pins sha fs checkout [] = ok []"
| "verify_pins sha fs checkout ((name, expected) # rest) =
     (case verify_pin sha fs checkout name expected of
        Inl e \<Rightarrow> Inl e
      | Inr actual \<Rightarrow>
          (case verify_pins sha fs checkout rest of
             Inl e \<Rightarrow> Inl e
           | Inr result \<Rightarrow> ok ((name, actual) # result)))"

definition verify_local_test_pins ::
  "(string \<Rightarrow> string) \<Rightarrow> test_fs \<Rightarrow> string list \<Rightarrow> pins \<Rightarrow> exn + pins" where
  "verify_local_test_pins sha fs checkout ps =
     (if \<not> fs_real_dir fs checkout \<or> fs_linked fs checkout
      then raise QaTestIntegrityError ''checkout checkout must be an existing real directory''
      else if ps = [] then raise QaTestIntegrityError ''at least one QA-owned test pin required''
      else verify_pins sha fs checkout ps)"

lemma any_linked_iff:
  "any_linked fs path cs \<longleftrightarrow> (\<exists>n < length cs. fs_linked fs (path @ take (Suc n) cs))"
proof (induction cs arbitrary: path)
  case (Cons c cs)
  have "(\<exists>n < length (c # cs). fs_linked fs (path @ take (Suc n) (c # cs))) \<longleftrightarrow>
      fs_linked fs (path @ [c]) \<or>
      (\<exists>n < length cs. fs_linked fs ((path @ [c]) @ take (Suc n) cs))"
    by (auto simp: less_Suc_eq_0_disj)
  then show ?case using Cons.IH by simp
qed simp

text \<open>What a verified pin means: a regular file reached without links, of bounded size, whose
  hash is the pin.\<close>

definition pin_holds :: "(string \<Rightarrow> string) \<Rightarrow> test_fs \<Rightarrow> string list \<Rightarrow> string \<times> string \<Rightarrow> bool" where
  "pin_holds sha fs checkout p = (case p of (name, digest) \<Rightarrow>
     (let cs = split_on slash name in
       validate_qa_test_path name = Inr () \<and> sha256_hex digest \<and>
       (\<forall>n < length cs. \<not> fs_linked fs (checkout @ take (Suc n) cs)) \<and>
       fs_is_file fs (checkout @ cs) \<and> length (fs_read fs (checkout @ cs)) \<le> MAX_QA_FILE_BYTES \<and>
       sha (fs_read fs (checkout @ cs)) = digest))"

lemma verify_pin_iff: "verify_pin sha fs checkout name d = Inr a \<longleftrightarrow> a = d \<and> pin_holds sha fs checkout (name, d)"
  by (auto simp: verify_pin_def pin_holds_def any_linked_iff Let_def split: sum.splits)

lemma verify_pin_exn: "verify_pin sha fs checkout name d = Inl e \<Longrightarrow> fst e = QaTestIntegrityError"
  by (auto simp: verify_pin_def validate_qa_test_path_def Let_def split: sum.splits if_splits)

lemma verify_pins_iff:
  "verify_pins sha fs checkout ps = Inr r \<longleftrightarrow> r = ps \<and> (\<forall>p \<in> set ps. pin_holds sha fs checkout p)"
proof (induction ps arbitrary: r)
  case (Cons p ps)
  obtain name d where p: "p = (name, d)" by (cases p)
  show ?case
  proof (cases "verify_pin sha fs checkout name d")
    case (Inl e)
    then have "\<not> pin_holds sha fs checkout (name, d)"
      using verify_pin_iff [of sha fs checkout name d d] by simp
    then show ?thesis using p Inl by simp
  next
    case (Inr a)
    then show ?thesis using p Cons.IH verify_pin_iff [of sha fs checkout name d a]
      by (auto split: sum.splits)
  qed
qed auto

section \<open>The evidence gate\<close>

record gate =
  gt_criteria :: "string list"
  gt_test_hashes :: pins

record decision =
  dc_status :: string
  dc_reason :: string

fun check_gate_pins :: "pins \<Rightarrow> exn + unit" where
  "check_gate_pins [] = ok ()"
| "check_gate_pins ((path, digest) # rest) =
     (case validate_qa_test_path path of
        Inl e \<Rightarrow> if caught_by [QaTestIntegrityError] e
                 then raise ValueError ''invalid QA-owned test path'' else Inl e
      | Inr _ \<Rightarrow>
          if \<not> sha256_hex digest then raise ValueError ''invalid QA-owned test SHA256 pin''
          else check_gate_pins rest)"

definition mk_gate :: "string list \<Rightarrow> pins \<Rightarrow> exn + gate" where
  "mk_gate frozen_criteria qa_test_hashes =
     (if frozen_criteria = [] \<or> list_ex blank frozen_criteria
      then raise ValueError ''frozen acceptance criteria required''
      else if qa_test_hashes = []
      then raise ValueError ''pinned QA-owned test paths/hashes required''
      else case check_gate_pins qa_test_hashes of
             Inl e \<Rightarrow> Inl e
           | Inr _ \<Rightarrow> ok \<lparr>gt_criteria = frozen_criteria, gt_test_hashes = qa_test_hashes\<rparr>)"

text \<open>Equality of two dictionaries, whatever their order.\<close>

definition dict_eq :: "pins \<Rightarrow> pins \<Rightarrow> bool" where
  "dict_eq a b \<longleftrightarrow>
     set (map fst a) = set (map fst b) \<and> list_all (\<lambda>k. map_of a k = map_of b k) (map fst a)"

lemma dict_eq_iff: "dict_eq a b \<longleftrightarrow> map_of a = map_of b"
proof
  assume eq: "dict_eq a b"
  show "map_of a = map_of b"
  proof
    fix k
    show "map_of a k = map_of b k"
    proof (cases "k \<in> fst ` set a")
      case True
      then show ?thesis using eq by (fastforce simp: dict_eq_def list_all_iff)
    next
      case False
      then have "k \<notin> fst ` set b" using eq by (simp add: dict_eq_def)
      with False show ?thesis by (metis map_of_eq_None_iff)
    qed
  qed
next
  assume eq: "map_of a = map_of b"
  then have "dom (map_of a) = dom (map_of b)" by simp
  then have "fst ` set a = fst ` set b" by (simp only: dom_map_of_conv_image_fst)
  then show "dict_eq a b" using eq by (simp add: dict_eq_def list_all_iff)
qed

text \<open>The arguments of \<open>check\<close> that describe the change under review.\<close>

record submission =
  sb_evidence :: "evidence list"
  sb_covered :: "string list"
  sb_test_hashes :: pins
  sb_actual_tree :: string
  sb_clean :: bool
  sb_fix_round :: int
  sb_waiver :: bool

definition unverified :: "string \<Rightarrow> decision" where
  "unverified reason = \<lparr>dc_status = ''UNVERIFIED'', dc_reason = reason\<rparr>"

definition exhausted :: decision where
  "exhausted = \<lparr>dc_status = ''BLOCKED'', dc_reason = ''three fix rounds exhausted: human required''\<rparr>"

definition admitted :: decision where
  "admitted = \<lparr>dc_status = ''QA_VERIFIED'',
     dc_reason = ''registered, matched evidence for frozen criteria''\<rparr>"

definition gate_check ::
  "identities \<Rightarrow> gate \<Rightarrow> principal \<Rightarrow> submission \<Rightarrow> string \<Rightarrow> string \<Rightarrow> string \<Rightarrow> string
   \<Rightarrow> registry \<Rightarrow> (exn + decision \<times> verdict option) \<times> registry" where
  "gate_check ids gate qa sb task_id dispatch_id expected_tree fresh g =
     (if sb_fix_round sb < 0 then (ok (unverified ''invalid fix-round counter'', None), g)
      else if sb_fix_round sb \<ge> 3 then (ok (exhausted, None), g)
      else if \<not> sb_clean sb \<or> expected_tree = [] \<or> sb_actual_tree sb \<noteq> expected_tree
      then (ok (unverified ''dirty checkout or wrong tree'', None), g)
      else if \<not> dict_eq (gt_test_hashes gate) (sb_test_hashes sb)
      then (ok (unverified ''QA tests changed, missing or substituted'', None), g)
      else if set (sb_covered sb) \<noteq> set (gt_criteria gate)
              \<or> length (sb_covered sb) \<noteq> length (gt_criteria gate)
      then (ok (unverified ''frozen acceptance criteria not fully covered'', None), g)
      else if sb_waiver sb then (ok (unverified ''human waiver is not QA evidence'', None), g)
      else if sb_evidence sb = [] then (ok (unverified ''executor receipts required'', None), g)
      else case create_qa_verdict ids g qa (sb_evidence sb) (task_id, dispatch_id, expected_tree)
                  True fresh of
             (Inl e, g') \<Rightarrow>
               if caught_by [PermissionError, ValueError, TypeError] e
               then (ok (unverified ''provenance rejected'', None), g') else (Inl e, g')
           | (Inr v, g') \<Rightarrow> (ok (admitted, Some v), g'))"

text \<open>
  The specification of the gate: what must hold of a submission, the registries and the gate for
  a change to become QA_VERIFIED.
\<close>

definition admissible ::
  "identities \<Rightarrow> registry \<Rightarrow> gate \<Rightarrow> principal \<Rightarrow> submission \<Rightarrow> string \<times> string \<times> string \<Rightarrow> bool" where
  "admissible ids g gate qa sb bind \<longleftrightarrow>
     0 \<le> sb_fix_round sb \<and> sb_fix_round sb < 3 \<and> \<not> sb_waiver sb \<and>
     sb_clean sb \<and> snd (snd bind) \<noteq> [] \<and> sb_actual_tree sb = snd (snd bind) \<and>
     map_of (sb_test_hashes sb) = map_of (gt_test_hashes gate) \<and>
     set (sb_covered sb) = set (gt_criteria gate) \<and>
     length (sb_covered sb) = length (gt_criteria gate) \<and>
     ids (p_principal_id qa) = Some (QA, p_secret qa) \<and> p_role qa = QA \<and>
     sb_evidence sb \<noteq> [] \<and> distinct (map e_evidence_id (sb_evidence sb)) \<and>
     (\<forall>item \<in> set (sb_evidence sb).
        g_evidence g (e_evidence_id item) = Some item \<and> evidence_binding item = bind \<and>
        (\<exists>x. g_receipts g (e_receipt_id item) = Some x \<and> receipt_binding x = bind \<and>
             x_exit_code x = 0))"

lemma check_evidence_items_iff:
  "check_evidence_items g bind ev = Inr () \<longleftrightarrow>
     (\<forall>item \<in> set ev. g_evidence g (e_evidence_id item) = Some item \<and>
        evidence_binding item = bind \<and>
        (\<exists>x. g_receipts g (e_receipt_id item) = Some x \<and> receipt_binding x = bind \<and>
             x_exit_code x = 0))"
  by (induction ev) (auto split: option.splits)

text \<open>The verdict the gate issues.\<close>

definition gate_verdict :: "principal \<Rightarrow> submission \<Rightarrow> string \<times> string \<times> string \<Rightarrow> string \<Rightarrow> verdict"
  where
  "gate_verdict qa sb bind fresh =
     \<lparr>v_verdict_id = fresh, v_qa_principal_id = p_principal_id qa, v_task_id = fst bind,
      v_dispatch_id = fst (snd bind), v_tree_sha = snd (snd bind),
      v_receipt_ids = map e_receipt_id (sb_evidence sb), v_accepted = True\<rparr>"

lemma create_qa_verdict_iff:
  "create_qa_verdict ids g qa ev bind acc fresh = (Inr v, g') \<longleftrightarrow>
     require_identity ids qa QA = Inr () \<and> ev \<noteq> [] \<and> distinct (map e_evidence_id ev) \<and>
     check_evidence_items g bind ev = Inr () \<and>
     v = \<lparr>v_verdict_id = fresh, v_qa_principal_id = p_principal_id qa, v_task_id = fst bind,
          v_dispatch_id = fst (snd bind), v_tree_sha = snd (snd bind),
          v_receipt_ids = map e_receipt_id ev, v_accepted = acc\<rparr> \<and>
     g' = g\<lparr>g_verdicts := (g_verdicts g)(fresh \<mapsto> v)\<rparr>"
  by (auto simp: create_qa_verdict_def Let_def split: sum.splits prod.splits)

lemma gate_check_cases:
  obtains (admits) "admissible ids g gate qa sb (t, d, tree)"
      "gate_check ids gate qa sb t d tree fresh g =
         (Inr (admitted, Some (gate_verdict qa sb (t, d, tree) fresh)),
          g\<lparr>g_verdicts := (g_verdicts g)(fresh \<mapsto> gate_verdict qa sb (t, d, tree) fresh)\<rparr>)"
  | (refuses) dec where "\<not> admissible ids g gate qa sb (t, d, tree)"
      "gate_check ids gate qa sb t d tree fresh g = (Inr (dec, None), g)"
      "dc_status dec \<in> {''UNVERIFIED'', ''BLOCKED''}"
proof (cases "admissible ids g gate qa sb (t, d, tree)")
  case True
  let ?v = "gate_verdict qa sb (t, d, tree) fresh"
  have "create_qa_verdict ids g qa (sb_evidence sb) (t, d, tree) True fresh =
      (Inr ?v, g\<lparr>g_verdicts := (g_verdicts g)(fresh \<mapsto> ?v)\<rparr>)"
    using True unfolding create_qa_verdict_iff
    by (auto simp: admissible_def check_evidence_items_iff require_identity_ok gate_verdict_def)
  then show ?thesis using True admits
    by (simp add: gate_check_def admissible_def dict_eq_iff)
next
  case False
  show ?thesis
  proof (cases "create_qa_verdict ids g qa (sb_evidence sb) (t, d, tree) True fresh")
    case (Pair r g')
    show ?thesis
    proof (cases r)
      case (Inl e)
      then have "g' = g" "fst e = PermissionError"
        using create_qa_verdict_error [of ids g qa "sb_evidence sb" "(t, d, tree)" True fresh e g']
          Pair by auto
      then have "\<exists>dec. gate_check ids gate qa sb t d tree fresh g = (Inr (dec, None), g) \<and>
          dc_status dec \<in> {''UNVERIFIED'', ''BLOCKED''}"
        using Pair Inl by (simp add: gate_check_def caught_by_def unverified_def exhausted_def)
      then show ?thesis using refuses False by blast
    next
      case (Inr v)
      then have "check_evidence_items g (t, d, tree) (sb_evidence sb) = Inr ()"
          "require_identity ids qa QA = Inr ()" "distinct (map e_evidence_id (sb_evidence sb))"
        using Pair create_qa_verdict_iff [of ids g qa "sb_evidence sb" "(t, d, tree)" True fresh v g']
        by auto
      then have "\<exists>dec. gate_check ids gate qa sb t d tree fresh g = (Inr (dec, None), g) \<and>
          dc_status dec \<in> {''UNVERIFIED'', ''BLOCKED''}"
        using False
        by (auto simp: gate_check_def admissible_def dict_eq_iff check_evidence_items_iff
            require_identity_ok unverified_def exhausted_def)
      then show ?thesis using refuses False by blast
    qed
  qed
qed

lemma gate_verdict_accepted:
  assumes "admissible ids g gate qa sb b"
  shows "require_verdict (g\<lparr>g_verdicts := (g_verdicts g)(fresh \<mapsto> gate_verdict qa sb b fresh)\<rparr>)
           (gate_verdict qa sb b fresh) b = Inr ()"
proof -
  have "list_ex (\<lambda>i. g_receipts g i = None) (map e_receipt_id (sb_evidence sb)) = False"
    using assms by (auto simp: admissible_def list_ex_iff)
  moreover have "sb_evidence sb \<noteq> []" using assms by (simp add: admissible_def)
  ultimately show ?thesis by (simp add: require_verdict_def gate_verdict_def verdict_binding_def)
qed

section \<open>Properties of the QA gate\<close>

text \<open>
  The gate admits a change exactly when it is admissible: fix round below three, a clean
  checkout of the expected tree, unchanged pinned tests, every frozen criterion covered, no human
  waiver, a registered QA principal, and distinct registered evidence whose receipts match the
  task, dispatch and tree with exit code 0.  Then it returns a verdict that the registry from then
  on accepts for that binding; in every other case it returns no verdict, does not raise, and
  leaves the registry as it was.
\<close>

theorem gate_admits_exactly_the_admissible:
  "case gate_check ids gate qa sb t d tree fresh g of (r, g') \<Rightarrow>
     (admissible ids g gate qa sb (t, d, tree) \<longleftrightarrow>
        (\<exists>v. r = Inr (admitted, Some v) \<and> require_verdict g' v (t, d, tree) = Inr () \<and>
             v_qa_principal_id v = p_principal_id qa)) \<and>
     (\<exists>dec. r = Inr (dec, None) \<and> dec \<noteq> admitted \<and> g' = g \<or>
        admissible ids g gate qa sb (t, d, tree))"
proof (cases rule: gate_check_cases [of ids g gate qa sb t d tree fresh])
  case admits
  then show ?thesis using gate_verdict_accepted [OF admits(1), of fresh]
    by (auto simp: gate_verdict_def)
next
  case refuses
  then show ?thesis by (auto simp: admitted_def)
qed

text \<open>
  An accepted QA test path stays inside the checkout's \<open>tests\<close> directory: resolving it
  lexically from any directory only appends plain components, the first of which is \<open>tests\<close>,
  with at least one more below it.
\<close>

theorem accepted_test_path_is_confined:
  assumes "validate_qa_test_path relative = Inr ()"
  shows "\<exists>name rest. resolve_parts base (split_on slash relative) = base @ ''tests'' # name # rest"
proof -
  note p = valid_path_pieces [OF assms]
  then obtain name rest where "split_on slash relative = ''tests'' # name # rest"
    by (cases "split_on slash relative"; cases "tl (split_on slash relative)") auto
  then show ?thesis using resolve_plain [OF p(1)] by simp
qed

theorem accepted_test_path_is_confined_witness:
  "\<exists>name rest. resolve_parts [''repo''] (split_on slash ''tests/unit/a.py'') =
     [''repo''] @ ''tests'' # name # rest"
proof -
  have "validate_qa_test_path ''tests/unit/a.py'' = Inr ()" by code_simp
  from accepted_test_path_is_confined [OF this] show ?thesis .
qed

text \<open>
  The probe of the pinned tests answers with the pins themselves exactly when the checkout is
  a real directory, there is at least one pin, and every pin holds on disk: a valid path, reached
  through no link, to a regular file of at most 8 MiB whose SHA-256 is the pinned one.  In every
  other case it raises an integrity error.
\<close>

theorem pin_probe_is_exact:
  "(if fs_real_dir fs checkout \<and> \<not> fs_linked fs checkout \<and> ps \<noteq> [] \<and>
       list_all (pin_holds sha fs checkout) ps
    then verify_local_test_pins sha fs checkout ps = Inr ps
    else \<exists>msg. verify_local_test_pins sha fs checkout ps = Inl (QaTestIntegrityError, msg))"
proof -
  have "verify_pins sha fs checkout ps = Inl e \<Longrightarrow> fst e = QaTestIntegrityError" for e
    by (induction ps) (auto split: sum.splits dest: verify_pin_exn)
  then have "\<exists>msg. verify_pins sha fs checkout ps = Inl (QaTestIntegrityError, msg)"
    if "\<not> list_all (pin_holds sha fs checkout) ps"
    using that verify_pins_iff [of sha fs checkout ps]
    by (cases "verify_pins sha fs checkout ps") (auto simp: list_all_iff)
  moreover have "verify_pins sha fs checkout ps = Inr ps" if "list_all (pin_holds sha fs checkout) ps"
    using that verify_pins_iff [of sha fs checkout ps ps] by (simp add: list_all_iff)
  ultimately show ?thesis by (auto simp: verify_local_test_pins_def)
qed

end
