(* ===== verification/Coordinator.thy ===== *)
theory Coordinator
  imports Engine Budget TaskDag QaGate
begin

text \<open>
  \<open>src/subagentbridge/team/coordinator.py\<close>: \<open>SupervisedCoordinator\<close>, which drives the task
  aggregates of a run through dispatch, report and review, reserving budget while a dispatch is in
  flight.  The dictionaries of tasks and dependencies are association lists in their order; the
  budget is the in-memory ledger of theory Budget, which the durable ledger refines.  A call is one
  step: the code's lock only guards the map of active dispatches.  The evidence gate writes its
  verdict to the registry, so \<open>qa_review\<close> takes and returns the registry too.
\<close>

record coord =
  co_run :: run
  co_order :: "string list"
  co_dependencies :: plan
  co_tasks :: "(string \<times> agg) list"
  co_budget :: ledger
  co_test_hashes :: pins
  co_active :: "string \<rightharpoonup> string"
  co_fix_rounds :: "string \<rightharpoonup> int"

record dispatch_plan =
  dp_task_id :: string
  dp_dispatch_id :: string
  dp_policy_revision :: string
  dp_tree_sha :: string
  dp_runtime_authorized :: bool

section \<open>Operations\<close>

definition mk_coordinator ::
  "run \<Rightarrow> (string \<times> task) list \<Rightarrow> plan \<Rightarrow> ledger \<Rightarrow> pins \<Rightarrow> exn + coord" where
  "mk_coordinator run tasks dependencies budget qa_test_hashes =
     (if tasks = [] \<or> set (map fst tasks) \<noteq> set (map fst dependencies)
      then raise ValueError ''run task and DAG identities must match''
      else if list_ex (\<lambda>(key, t). t_task_id t \<noteq> key \<or> t_run_id t \<noteq> r_run_id run
                 \<or> t_policy_revision t \<noteq> r_policy_revision run) tasks
      then raise ValueError ''task identity or policy revision mismatch''
      else case validate_task_dag dependencies
                  (map (\<lambda>(key, t). (key, t_acceptance_criteria t)) tasks) of
             Inl e \<Rightarrow> Inl e
           | Inr order \<Rightarrow>
               if qa_test_hashes = []
               then raise ValueError ''QA test hashes must be pinned before dispatch''
               else ok \<lparr>co_run = run, co_order = order, co_dependencies = dependencies,
                        co_tasks = map (\<lambda>(key, t). (key, new_agg t)) tasks, co_budget = budget,
                        co_test_hashes = qa_test_hashes, co_active = Map.empty,
                        co_fix_rounds = map_of (map (\<lambda>(key, t). (key, 0)) tasks)\<rparr>)"

definition get_task :: "coord \<Rightarrow> string \<Rightarrow> agg option" where
  "get_task c k = map_of (co_tasks c) k"

definition put_task :: "string \<Rightarrow> agg \<Rightarrow> coord \<Rightarrow> coord" where
  "put_task k a c = c\<lparr>co_tasks := map (\<lambda>(k', a'). (k', if k' = k then a else a')) (co_tasks c)\<rparr>"

definition co_state :: "coord \<Rightarrow> string \<Rightarrow> exn + task_state" where
  "co_state c k = (case get_task c k of None \<Rightarrow> raise KeyError k | Some a \<Rightarrow> ok (g_state a))"

definition co_freeze :: "identities \<Rightarrow> string \<Rightarrow> principal \<Rightarrow> coord \<Rightarrow> (exn + unit) \<times> coord" where
  "co_freeze ids k pm c =
     (case require_identity ids pm PM of
        Inl e \<Rightarrow> (Inl e, c)
      | Inr _ \<Rightarrow>
          (case get_task c k of
             None \<Rightarrow> (raise KeyError k, c)
           | Some a \<Rightarrow> (case agg_freeze (require_identity ids) pm a of (r, a') \<Rightarrow> (r, put_task k a' c))))"

text \<open>The test \<open>any(self._tasks[dep].state is not VERIFIED for dep in ...)\<close> of \<open>begin\<close>.\<close>

fun check_deps_verified :: "coord \<Rightarrow> string list \<Rightarrow> exn + unit" where
  "check_deps_verified c [] = ok ()"
| "check_deps_verified c (dep # deps) =
     (case get_task c dep of
        None \<Rightarrow> raise KeyError dep
      | Some a \<Rightarrow>
          if g_state a \<noteq> VERIFIED
          then raise InvalidTransition ''dependencies must be QA VERIFIED, not PROCESS_SUCCEEDED''
          else check_deps_verified c deps)"

text \<open>The checks of \<open>begin\<close> before the dispatch, in the code's order.\<close>

definition begin_checks ::
  "identities \<Rightarrow> string \<Rightarrow> principal \<Rightarrow> string \<Rightarrow> int \<Rightarrow> int \<Rightarrow> coord \<Rightarrow> exn + agg" where
  "begin_checks ids k pm key token_allowance cost c =
     (case require_identity ids pm PM of
        Inl e \<Rightarrow> Inl e
      | Inr _ \<Rightarrow>
          (case get_task c k of
             None \<Rightarrow> raise KeyError ''unknown task''
           | Some a \<Rightarrow>
               if g_state a \<noteq> FROZEN
               then raise InvalidTransition ''frozen task required for dispatch''
               else (case map_of (co_dependencies c) k of
                 None \<Rightarrow> raise KeyError k
               | Some deps \<Rightarrow>
                   (case check_deps_verified c deps of
                      Inl e \<Rightarrow> Inl e
                    | Inr _ \<Rightarrow>
                        if token_allowance < 0 \<or> cost < 0
                        then raise ValueError ''nonnegative integer reservation ceilings required''
                        else if key = [] then raise InvalidTransition ''missing idempotency key''
                        else (case ledger_snapshot (co_budget c) of (tokens, avail_cost, active) \<Rightarrow>
                          if active \<ge> bl_max_workers (co_budget c) \<or> token_allowance > tokens
                             \<or> cost > avail_cost
                          then raise BudgetExceeded ''budget or concurrency ceiling exceeded''
                          else ok a)))))"

definition co_begin ::
  "identities \<Rightarrow> string \<Rightarrow> principal \<Rightarrow> string \<Rightarrow> int \<Rightarrow> int \<Rightarrow> string \<Rightarrow> coord
   \<Rightarrow> (exn + dispatch_plan) \<times> coord" where
  "co_begin ids k pm key token_allowance cost fresh c =
     (case begin_checks ids k pm key token_allowance cost c of
        Inl e \<Rightarrow> (Inl e, c)
      | Inr a \<Rightarrow>
          (case agg_dispatch (require_identity ids) pm key fresh a of
             (Inl e, a') \<Rightarrow> (Inl e, put_task k a' c)
           | (Inr d, a') \<Rightarrow>
               (case ledger_reserve (d_dispatch_id d) token_allowance cost (co_budget c) of
                  (Inl e, l) \<Rightarrow> (Inl e, put_task k (agg_recover_unknown a') (c\<lparr>co_budget := l\<rparr>))
                | (Inr _, l) \<Rightarrow>
                    (ok \<lparr>dp_task_id = k, dp_dispatch_id = d_dispatch_id d,
                         dp_policy_revision = d_policy_revision d, dp_tree_sha = d_tree_sha d,
                         dp_runtime_authorized = False\<rparr>,
                     put_task k a' (c\<lparr>co_budget := l,
                       co_active := (co_active c)(k \<mapsto> d_dispatch_id d)\<rparr>)))))"

text \<open>Pop the active dispatch and release its reservation, exceptions of the release ignored.\<close>

definition release_dispatch :: "string \<Rightarrow> coord \<Rightarrow> coord" where
  "release_dispatch k c =
     (case co_active c k of
        None \<Rightarrow> c
      | Some d \<Rightarrow> c\<lparr>co_active := (co_active c)(k := None),
                    co_budget := snd (ledger_release d 0 0 (co_budget c))\<rparr>)"

definition report_process_succeeded ::
  "identities \<Rightarrow> principal \<Rightarrow> string \<Rightarrow> string \<Rightarrow> string \<Rightarrow> coord \<Rightarrow> (exn + unit) \<times> coord" where
  "report_process_succeeded ids developer k dispatch_id tree_sha c =
     (case require_identity ids developer DEVELOPER of
        Inl e \<Rightarrow> (Inl e, c)
      | Inr _ \<Rightarrow>
          (case get_task c k of
             None \<Rightarrow> (raise KeyError k, c)
           | Some a \<Rightarrow>
               (case agg_process_succeeded dispatch_id tree_sha a of
                  (r, a') \<Rightarrow> (r, put_task k a' c))))"

definition fix_round_of :: "coord \<Rightarrow> string \<Rightarrow> int" where
  "fix_round_of c k = (case co_fix_rounds c k of None \<Rightarrow> 0 | Some n \<Rightarrow> n)"

definition current_round :: "coord \<Rightarrow> string \<Rightarrow> submission \<Rightarrow> int" where
  "current_round c k sb =
     max (fix_round_of c k) (if sb_fix_round sb \<ge> 0 then sb_fix_round sb else 0)"

text \<open>The end of a review: the two branches after the gate.\<close>

definition review_admitted ::
  "identities \<Rightarrow> principal \<Rightarrow> string \<Rightarrow> decision \<Rightarrow> verdict \<Rightarrow> agg \<Rightarrow> registry \<times> coord
   \<Rightarrow> (exn + decision) \<times> registry \<times> coord" where
  "review_admitted ids qa k dec v a s =
     (case s of (g, c) \<Rightarrow>
       (case agg_qa_verified (require_identity ids) (require_verdict g) qa v a of
          (Inl e, a1) \<Rightarrow> (Inl e, g, put_task k a1 c)
        | (Inr _, a1) \<Rightarrow>
            (case agg_mark_verified (require_identity ids) qa a1 of
               (Inl e, a2) \<Rightarrow> (Inl e, g, put_task k a2 c)
             | (Inr _, a2) \<Rightarrow> (ok dec, g, release_dispatch k (put_task k a2 c)))))"

definition review_failed ::
  "string \<Rightarrow> decision \<Rightarrow> int \<Rightarrow> agg \<Rightarrow> registry \<times> coord
   \<Rightarrow> (exn + decision) \<times> registry \<times> coord" where
  "review_failed k dec rnd a s =
     (case s of (g, c) \<Rightarrow>
       let c1 = c\<lparr>co_fix_rounds := (co_fix_rounds c)(k \<mapsto> rnd + 1)\<rparr> in
       if rnd + 1 \<ge> 3 then (ok exhausted, g, release_dispatch k (put_task k (agg_block a) c1))
       else (ok dec, g, c1))"

definition qa_review ::
  "identities \<Rightarrow> principal \<Rightarrow> string \<Rightarrow> submission \<Rightarrow> string \<Rightarrow> registry \<times> coord
   \<Rightarrow> (exn + decision) \<times> registry \<times> coord" where
  "qa_review ids qa k sb fresh s =
     (case s of (g, c) \<Rightarrow>
       case require_identity ids qa QA of
         Inl e \<Rightarrow> (Inl e, s)
       | Inr _ \<Rightarrow>
           (case get_task c k of
              None \<Rightarrow> (raise KeyError ''unknown task'', s)
            | Some a \<Rightarrow>
                (case g_active a of
                   None \<Rightarrow> (raise InvalidTransition ''QA review requires PROCESS_SUCCEEDED'', s)
                 | Some d \<Rightarrow>
                     if g_state a \<noteq> PROCESS_SUCCEEDED
                     then (raise InvalidTransition ''QA review requires PROCESS_SUCCEEDED'', s)
                     else let rnd = current_round c k sb in
                       if rnd \<ge> 3
                       then (ok exhausted, g, release_dispatch k (put_task k (agg_block a) c))
                       else (case mk_gate (t_acceptance_criteria (g_task a)) (co_test_hashes c) of
                         Inl e \<Rightarrow> (Inl e, s)
                       | Inr gate \<Rightarrow>
                           (case gate_check ids gate qa (sb\<lparr>sb_fix_round := rnd\<rparr>) k
                                   (d_dispatch_id d) (t_tree_sha (g_task a)) fresh g of
                              (Inl e, g') \<Rightarrow> (Inl e, g', c)
                            | (Inr (dec, None), g') \<Rightarrow> review_failed k dec rnd a (g', c)
                            | (Inr (dec, Some v), g') \<Rightarrow>
                                if dc_status dec = ''QA_VERIFIED''
                                then review_admitted ids qa k dec v a (g', c)
                                else review_failed k dec rnd a (g', c))))))"

definition reconcile_recovery ::
  "identities \<Rightarrow> string \<Rightarrow> principal \<Rightarrow> string option \<Rightarrow> coord \<Rightarrow> (exn + unit) \<times> coord" where
  "reconcile_recovery ids k pm new_tree c =
     (case require_identity ids pm PM of
        Inl e \<Rightarrow> (Inl e, c)
      | Inr _ \<Rightarrow>
          (case get_task c k of
             None \<Rightarrow> (raise KeyError ''unknown task'', c)
           | Some a \<Rightarrow>
               if g_state a \<noteq> RECOVERY_REQUIRED
               then (raise InvalidTransition ''reconcile_recovery requires RECOVERY_REQUIRED'', c)
               else (case agg_reconcile (require_identity ids) pm new_tree a of
                       (r, a') \<Rightarrow> (r, put_task k a' (release_dispatch k c)))))"

definition update_one :: "string \<Rightarrow> agg \<Rightarrow> (exn + unit) \<times> agg" where
  "update_one new_tree a =
     (if t_tree_sha (g_task a) = new_tree then (ok (), a)
      else if g_state a \<in> {DISPATCHED, PROCESS_SUCCEEDED} then (ok (), agg_recover_unknown a)
      else if g_state a = RECOVERY_REQUIRED then (ok (), a)
      else if g_state a = CREATED
      then (case task_with_tree (g_task a) new_tree of
              Inl e \<Rightarrow> (Inl e, a)
            | Inr t \<Rightarrow> (ok (), a\<lparr>g_task := t\<rparr>))
      else agg_change_tree new_tree a)"

fun update_trees :: "string \<Rightarrow> (string \<times> agg) list \<Rightarrow> (exn + unit) \<times> (string \<times> agg) list" where
  "update_trees new_tree [] = (ok (), [])"
| "update_trees new_tree ((k, a) # rest) =
     (case update_one new_tree a of
        (Inl e, a') \<Rightarrow> (Inl e, (k, a') # rest)
      | (Inr _, a') \<Rightarrow> (case update_trees new_tree rest of (r, rest') \<Rightarrow> (r, (k, a') # rest')))"

definition update_tree :: "string \<Rightarrow> coord \<Rightarrow> (exn + unit) \<times> coord" where
  "update_tree new_tree c =
     (if new_tree = [] then (raise ValueError ''tree SHA is mandatory'', c)
      else case update_trees new_tree (co_tasks c) of (r, ts) \<Rightarrow> (r, c\<lparr>co_tasks := ts\<rparr>))"

definition co_snapshot :: "coord \<Rightarrow> string \<times> (string \<times> task_state) list \<times> int \<times> int \<times> int" where
  "co_snapshot c = (r_run_id (co_run c), map (\<lambda>(k, a). (k, g_state a)) (co_tasks c),
                    ledger_snapshot (co_budget c))"

section \<open>Invariant\<close>

lemma get_put [simp]:
  "get_task (put_task k a c) j = (if j = k then map_option (\<lambda>_. a) (get_task c k) else get_task c j)"
proof -
  have "map_of (map (\<lambda>(k', a'). (k', if k' = k then a else a')) ts) j =
      (if j = k then map_option (\<lambda>_. a) (map_of ts k) else map_of ts j)" for ts
    by (induction ts) auto
  then show ?thesis by (simp add: get_task_def put_task_def)
qed

lemma put_task_simps [simp]:
  "co_budget (put_task k a c) = co_budget c" "co_active (put_task k a c) = co_active c"
  "co_fix_rounds (put_task k a c) = co_fix_rounds c"
  "co_dependencies (put_task k a c) = co_dependencies c"
  by (simp_all add: put_task_def)

lemma get_task_simps [simp]:
  "get_task (c\<lparr>co_budget := l\<rparr>) j = get_task c j" "get_task (c\<lparr>co_active := m\<rparr>) j = get_task c j"
  "get_task (c\<lparr>co_fix_rounds := f\<rparr>) j = get_task c j"
  by (simp_all add: get_task_def)

text \<open>The stages in which a dispatch holds its reservation.\<close>

definition in_flight :: "task_state set" where
  "in_flight = {DISPATCHED, PROCESS_SUCCEEDED, RECOVERY_REQUIRED}"

definition coord_inv :: "int \<Rightarrow> int \<Rightarrow> int \<Rightarrow> coord \<Rightarrow> bool" where
  "coord_inv T C W c \<longleftrightarrow>
     within_ceilings T C W (co_budget c) \<and>
     (\<forall>k a. get_task c k = Some a \<longrightarrow> agg_inv a) \<and>
     rs_dispatch_id ` set (bl_reservations (co_budget c)) = ran (co_active c) \<and>
     inj_on (co_active c) (dom (co_active c)) \<and>
     (\<forall>k d. co_active c k = Some d \<longrightarrow>
        (\<exists>a. get_task c k = Some a \<and> g_state a \<in> in_flight)) \<and>
     (\<forall>k. 0 \<le> fix_round_of c k \<and> fix_round_of c k \<le> 3)"

lemma coord_inv_put:
  assumes "coord_inv T C W c" "agg_inv a'" "co_active c k \<noteq> None \<Longrightarrow> g_state a' \<in> in_flight"
  shows "coord_inv T C W (put_task k a' c)"
  using assms unfolding coord_inv_def by (auto simp: fix_round_of_def)

lemma release_dispatch_simps [simp]:
  "get_task (release_dispatch k c) j = get_task c j"
  "co_active (release_dispatch k c) = (co_active c)(k := None)"
  "co_fix_rounds (release_dispatch k c) = co_fix_rounds c"
  "release_dispatch k (put_task k' a c) = put_task k' a (release_dispatch k c)"
  by (auto simp: release_dispatch_def put_task_def split: option.splits)

lemma ledger_release_zero:
  assumes "within_ceilings T C W l" "d \<in> rs_dispatch_id ` set (bl_reservations l)"
  shows "bl_reservations (snd (ledger_release d 0 0 l)) =
           filter (\<lambda>r. rs_dispatch_id r \<noteq> d) (bl_reservations l)"
proof -
  obtain r where "row_at rs_dispatch_id d (bl_reservations l) = Some r"
    using assms(2) by (metis not_Some_eq row_at_None_iff)
  then show ?thesis using assms(1)
    by (auto simp: ledger_release_def within_ceilings_def dest: row_at_SomeD)
qed

lemma ran_delete:
  assumes "inj_on m (dom m)" "m k = Some d"
  shows "ran (m(k := None)) = ran m - {d}"
proof
  show "ran (m(k := None)) \<subseteq> ran m - {d}"
  proof
    fix x
    assume "x \<in> ran (m(k := None))"
    then obtain j where j: "j \<noteq> k" "m j = Some x" by (auto simp: ran_def split: if_splits)
    then have "x \<noteq> d" using inj_onD [OF assms(1), of j k] assms(2) by auto
    then show "x \<in> ran m - {d}" using j by (auto simp: ran_def)
  qed
  show "ran m - {d} \<subseteq> ran (m(k := None))"
  proof
    fix x
    assume "x \<in> ran m - {d}"
    then obtain j where "m j = Some x" "x \<noteq> d" by (auto simp: ran_def)
    then show "x \<in> ran (m(k := None))" using assms(2) by (auto simp: ran_def intro: exI [of _ j])
  qed
qed

lemma coord_inv_release:
  assumes inv: "coord_inv T C W c"
  shows "coord_inv T C W (release_dispatch k c)"
proof (cases "co_active c k")
  case None
  then show ?thesis using inv by (simp add: release_dispatch_def)
next
  case (Some d)
  let ?l = "snd (ledger_release d 0 0 (co_budget c))"
  have ran: "rs_dispatch_id ` set (bl_reservations (co_budget c)) = ran (co_active c)"
    using inv by (simp add: coord_inv_def)
  then have "d \<in> rs_dispatch_id ` set (bl_reservations (co_budget c))"
    using Some by (auto simp: ran_def)
  then have "bl_reservations ?l =
      filter (\<lambda>r. rs_dispatch_id r \<noteq> d) (bl_reservations (co_budget c))"
    using inv ledger_release_zero by (auto simp: coord_inv_def)
  then have "rs_dispatch_id ` set (bl_reservations ?l) = ran (co_active c) - {d}"
    unfolding ran [symmetric] by auto
  also have "\<dots> = ran ((co_active c)(k := None))"
    using inv Some by (intro ran_delete [symmetric]) (auto simp: coord_inv_def)
  finally have ids: "rs_dispatch_id ` set (bl_reservations ?l) = ran ((co_active c)(k := None))" .
  have "inj_on ((co_active c)(k := None)) (dom (co_active c) - {k})"
    using inv by (auto simp: coord_inv_def inj_on_def)
  moreover have "within_ceilings T C W ?l"
    using inv ledger_release_within by (simp add: coord_inv_def)
  ultimately show ?thesis using inv Some ids
    by (auto simp: coord_inv_def release_dispatch_def fix_round_of_def)
qed

lemma ledger_reserve_cases:
  obtains (refused) e where "ledger_reserve d t c l = (Inl e, l)"
  | (reserved) r where "fst (ledger_reserve d t c l) = Inr r"
      "bl_reservations (snd (ledger_reserve d t c l)) = bl_reservations l @ [r]"
      "rs_dispatch_id r = d" "d \<notin> rs_dispatch_id ` set (bl_reservations l)"
proof -
  have "(\<exists>e. ledger_reserve d t c l = (Inl e, l)) \<or>
    (\<exists>r. fst (ledger_reserve d t c l) = Inr r \<and>
      bl_reservations (snd (ledger_reserve d t c l)) = bl_reservations l @ [r] \<and>
      rs_dispatch_id r = d \<and> d \<notin> rs_dispatch_id ` set (bl_reservations l))"
    by (simp add: ledger_reserve_def Let_def has_row_iff)
  then show ?thesis using that by blast
qed

lemma coord_inv_reserve:
  assumes inv: "coord_inv T C W c" and k: "co_active c k = None"
    and task: "get_task c k = Some a" "agg_inv a'" "g_state a' \<in> in_flight"
    and res: "ledger_reserve d t m (co_budget c) = (Inr r, l)"
  shows "coord_inv T C W (put_task k a' (c\<lparr>co_budget := l, co_active := (co_active c)(k \<mapsto> d)\<rparr>))"
proof -
  have l: "bl_reservations l = bl_reservations (co_budget c) @ [r]" "rs_dispatch_id r = d"
      "d \<notin> ran (co_active c)"
    using res inv by (cases rule: ledger_reserve_cases [of d t m "co_budget c"];
        simp add: coord_inv_def)+
  have "within_ceilings T C W l"
    using inv ledger_reserve_within [of T C W "co_budget c" d t m] res by (simp add: coord_inv_def)
  moreover have "rs_dispatch_id ` set (bl_reservations l) = ran ((co_active c)(k \<mapsto> d))"
    using l inv k by (simp add: coord_inv_def)
  moreover have "inj_on ((co_active c)(k \<mapsto> d)) (insert k (dom (co_active c)))"
    using inv k l(3) by (auto simp: coord_inv_def inj_on_def ran_def dom_def)
  ultimately show ?thesis using inv task
    by (auto simp: coord_inv_def fix_round_of_def)
qed

section \<open>Every operation keeps the invariant\<close>

lemma get_task_inv: "coord_inv T C W c \<Longrightarrow> get_task c k = Some a \<Longrightarrow> agg_inv a"
  by (simp add: coord_inv_def)

lemma active_state:
  "coord_inv T C W c \<Longrightarrow> get_task c k = Some a \<Longrightarrow> co_active c k \<noteq> None \<Longrightarrow> g_state a \<in> in_flight"
  by (auto simp: coord_inv_def)

lemma active_task: "coord_inv T C W c \<Longrightarrow> co_active c k = Some d \<Longrightarrow> get_task c k \<noteq> None"
  by (auto simp: coord_inv_def)

text \<open>An operation of the aggregate that leaves a held dispatch in flight.\<close>

lemma coord_inv_agg_op:
  assumes "coord_inv T C W c" "get_task c k = Some a" "agg_inv a'"
    and "g_state a \<in> in_flight \<Longrightarrow> g_state a' \<in> in_flight"
  shows "coord_inv T C W (put_task k a' c)"
  using assms active_state by (intro coord_inv_put) blast+

lemma co_freeze_inv: "coord_inv T C W c \<Longrightarrow> coord_inv T C W (snd (co_freeze ids k pm c))"
proof (cases "get_task c k")
  case (Some a)
  assume inv: "coord_inv T C W c"
  have "g_state a \<in> in_flight \<Longrightarrow> g_state (snd (agg_freeze (require_identity ids) pm a)) \<in> in_flight"
    by (auto simp: agg_freeze_def in_flight_def split: sum.splits)
  then have "coord_inv T C W (put_task k (snd (agg_freeze (require_identity ids) pm a)) c)"
    using coord_inv_agg_op [OF inv Some] agg_inv_freeze get_task_inv [OF inv Some] by blast
  then show ?thesis using inv Some by (auto simp: co_freeze_def split: sum.splits prod.splits)
qed (auto simp: co_freeze_def split: sum.splits)

lemma report_inv:
  "coord_inv T C W c \<Longrightarrow> coord_inv T C W (snd (report_process_succeeded ids dev k did tree c))"
proof (cases "get_task c k")
  case (Some a)
  assume inv: "coord_inv T C W c"
  have "g_state a \<in> in_flight \<Longrightarrow> g_state (snd (agg_process_succeeded did tree a)) \<in> in_flight"
    by (auto simp: agg_process_succeeded_def in_flight_def split: sum.splits)
  then have "coord_inv T C W (put_task k (snd (agg_process_succeeded did tree a)) c)"
    using coord_inv_agg_op [OF inv Some] agg_inv_process get_task_inv [OF inv Some] by blast
  then show ?thesis using inv Some
    by (auto simp: report_process_succeeded_def split: sum.splits prod.splits)
qed (auto simp: report_process_succeeded_def split: sum.splits)

lemma begin_checks_ok:
  assumes "begin_checks ids k pm key t m c = Inr a"
  shows "get_task c k = Some a" "g_state a = FROZEN" "0 \<le> t" "0 \<le> m" "key \<noteq> []"
    "require_identity ids pm PM = Inr ()"
    "\<exists>deps. map_of (co_dependencies c) k = Some deps \<and> check_deps_verified c deps = Inr ()"
    "int (length (bl_reservations (co_budget c))) < bl_max_workers (co_budget c)"
    "t \<le> bl_tokens (co_budget c)" "m \<le> bl_cost (co_budget c)"
  using assms
  by (auto simp: begin_checks_def ledger_snapshot_def split: sum.splits option.splits if_splits)

lemma co_begin_inv:
  assumes inv: "coord_inv T C W c"
  shows "coord_inv T C W (snd (co_begin ids k pm key t m fresh c))"
proof (cases "begin_checks ids k pm key t m c")
  case (Inl e)
  then show ?thesis using inv by (simp add: co_begin_def)
next
  case (Inr a)
  note ok = begin_checks_ok [OF Inr]
  have none: "co_active c k = None"
    using active_state [OF inv ok(1)] ok(2) by (cases "co_active c k") (auto simp: in_flight_def)
  obtain r a' where d: "agg_dispatch (require_identity ids) pm key fresh a = (r, a')"
    by (cases "agg_dispatch (require_identity ids) pm key fresh a")
  then have a': "agg_inv a'"
    using agg_inv_dispatch [OF get_task_inv [OF inv ok(1)]] by (metis snd_conv)
  show ?thesis
  proof (cases r)
    case (Inl e)
    have "coord_inv T C W (put_task k a' c)" using inv a' none by (intro coord_inv_put) simp_all
    then show ?thesis using d Inl \<open>begin_checks ids k pm key t m c = Inr a\<close>
      by (simp add: co_begin_def)
  next
    case (Inr disp)
    have flight: "g_state a' \<in> in_flight"
      using d Inr by (cases rule: agg_dispatch_cases [of "require_identity ids" pm key fresh a])
        (auto simp: in_flight_def)
    obtain r' l where res: "ledger_reserve (d_dispatch_id disp) t m (co_budget c) = (r', l)"
      by (cases "ledger_reserve (d_dispatch_id disp) t m (co_budget c)")
    show ?thesis
    proof (cases r')
      case (Inl e)
      then have "l = co_budget c"
        using res by (cases rule: ledger_reserve_cases [of "d_dispatch_id disp" t m "co_budget c"]) auto
      moreover have "coord_inv T C W (put_task k (agg_recover_unknown a') c)"
        using inv agg_inv_recover [OF a'] none by (intro coord_inv_put) simp_all
      ultimately show ?thesis
        using d \<open>r = Inr disp\<close> res Inl \<open>begin_checks ids k pm key t m c = Inr a\<close>
        by (simp add: co_begin_def)
    next
      case (Inr r2)
      then show ?thesis
        using d \<open>r = Inr disp\<close> res \<open>begin_checks ids k pm key t m c = Inr a\<close>
          coord_inv_reserve [OF inv none ok(1) a' flight]
        by (simp add: co_begin_def)
    qed
  qed
qed

lemma reconcile_inv:
  assumes inv: "coord_inv T C W c"
  shows "coord_inv T C W (snd (reconcile_recovery ids k pm tree c))"
proof (cases "get_task c k")
  case (Some a)
  have "agg_inv (snd (agg_reconcile (require_identity ids) pm tree a))"
    using agg_inv_reconcile get_task_inv [OF inv Some] by blast
  then have "coord_inv T C W (put_task k (snd (agg_reconcile (require_identity ids) pm tree a))
      (release_dispatch k c))"
    using coord_inv_release [OF inv, of k] by (intro coord_inv_put) simp_all
  then show ?thesis using inv Some
    by (auto simp: reconcile_recovery_def split: sum.splits prod.splits)
qed (use inv in \<open>auto simp: reconcile_recovery_def split: sum.splits\<close>)

lemma coord_inv_fix_round:
  "coord_inv T C W c \<Longrightarrow> 0 \<le> n \<Longrightarrow> n \<le> 3 \<Longrightarrow>
   coord_inv T C W (c\<lparr>co_fix_rounds := (co_fix_rounds c)(k \<mapsto> n)\<rparr>)"
  by (simp add: coord_inv_def fix_round_of_def)

lemma coord_inv_put_release:
  "coord_inv T C W c \<Longrightarrow> agg_inv a' \<Longrightarrow> coord_inv T C W (put_task k a' (release_dispatch k c))"
  by (intro coord_inv_put coord_inv_release) auto

lemma blocked_inv:
  assumes "coord_inv T C W c" "get_task c k = Some a"
  shows "coord_inv T C W (release_dispatch k (put_task k (agg_block a) c))"
  using coord_inv_put_release [OF assms(1) agg_inv_block [OF get_task_inv [OF assms]]] by simp

lemma review_failed_inv:
  assumes "coord_inv T C W c" "get_task c k = Some a" "0 \<le> rnd" "rnd < 3"
  shows "coord_inv T C W (snd (snd (review_failed k dec rnd a (g, c))))"
proof -
  let ?c = "c\<lparr>co_fix_rounds := (co_fix_rounds c)(k \<mapsto> rnd + 1)\<rparr>"
  have "coord_inv T C W ?c" using assms by (intro coord_inv_fix_round) auto
  then show ?thesis using blocked_inv [of T C W ?c k a] assms(2)
    by (simp add: review_failed_def Let_def)
qed

text \<open>Once the gate has admitted a change the two aggregate calls either both succeed or the
  first one raises and changes nothing.\<close>

lemma review_admitted_cases:
  obtains (refused) e where "review_admitted ids qa k dec v a (g, c) = (Inl e, g, put_task k a c)"
  | (verified) d where
      "review_admitted ids qa k dec v a (g, c) =
        (Inr dec, g, release_dispatch k (put_task k
           (a\<lparr>g_verdict := Some v, g_state := VERIFIED,
              g_verified_tree := Some (t_tree_sha (g_task a))\<rparr>) c))"
      "g_state a = PROCESS_SUCCEEDED" "g_active a = Some d"
      "require_verdict g v (t_task_id (g_task a), d_dispatch_id d, t_tree_sha (g_task a)) = Inr ()"
proof (cases rule: agg_qa_verified_cases [of "require_identity ids" "require_verdict g" qa v a])
  case (refused e)
  then show ?thesis using that by (simp add: review_admitted_def)
next
  case (accepted d)
  then show ?thesis using that by (simp add: review_admitted_def agg_mark_verified_def)
qed

lemma review_admitted_inv:
  assumes inv: "coord_inv T C W c" and a: "get_task c k = Some a"
  shows "coord_inv T C W (snd (snd (review_admitted ids qa k dec v a (g, c))))"
proof (cases rule: review_admitted_cases [of ids qa k dec v a g c])
  case (refused e)
  then show ?thesis using coord_inv_agg_op [OF inv a] get_task_inv [OF inv a] by simp
next
  case (verified d)
  have "agg_inv (a\<lparr>g_verdict := Some v, g_state := VERIFIED,
      g_verified_tree := Some (t_tree_sha (g_task a))\<rparr>)"
    using get_task_inv [OF inv a] verified(2)
    by (auto simp: agg_inv_def live_states_def current_dispatch_def)
  then show ?thesis using verified coord_inv_put_release [OF inv] by simp
qed

lemma current_round_nonneg: "coord_inv T C W c \<Longrightarrow> 0 \<le> current_round c k sb"
  by (auto simp: current_round_def coord_inv_def le_max_iff_disj)

text \<open>The outcomes of a review, over the gate's two.\<close>

lemma qa_review_cases:
  obtains (stopped) e where "qa_review ids qa k sb fresh (g, c) = (Inl e, g, c)"
  | (blocked) a where "get_task c k = Some a" "g_state a = PROCESS_SUCCEEDED"
      "3 \<le> current_round c k sb"
      "qa_review ids qa k sb fresh (g, c) =
         (Inr exhausted, g, release_dispatch k (put_task k (agg_block a) c))"
  | (failed) a dec where "get_task c k = Some a" "g_state a = PROCESS_SUCCEEDED"
      "current_round c k sb < 3" "dc_status dec \<noteq> ''QA_VERIFIED''"
      "qa_review ids qa k sb fresh (g, c) =
         review_failed k dec (current_round c k sb) a (g, c)"
  | (passed) a d gate v g' where "get_task c k = Some a" "g_state a = PROCESS_SUCCEEDED"
      "g_active a = Some d" "mk_gate (t_acceptance_criteria (g_task a)) (co_test_hashes c) = Inr gate"
      "admissible ids g gate qa (sb\<lparr>sb_fix_round := current_round c k sb\<rparr>)
         (k, d_dispatch_id d, t_tree_sha (g_task a))"
      "v = gate_verdict qa (sb\<lparr>sb_fix_round := current_round c k sb\<rparr>)
         (k, d_dispatch_id d, t_tree_sha (g_task a)) fresh"
      "g' = g\<lparr>g_verdicts := (g_verdicts g)(fresh \<mapsto> v)\<rparr>"
      "qa_review ids qa k sb fresh (g, c) = review_admitted ids qa k admitted v a (g', c)"
proof (cases "\<exists>a d. require_identity ids qa QA = Inr () \<and> get_task c k = Some a \<and>
    g_active a = Some d \<and> g_state a = PROCESS_SUCCEEDED")
  case False
  then have "\<exists>e. qa_review ids qa k sb fresh (g, c) = (Inl e, g, c)"
    by (auto simp: qa_review_def split: sum.splits option.splits)
  then show ?thesis using stopped by blast
next
  case True
  then obtain a d where a: "require_identity ids qa QA = Inr ()" "get_task c k = Some a"
      "g_active a = Some d" "g_state a = PROCESS_SUCCEEDED" by blast
  show ?thesis
  proof (cases "3 \<le> current_round c k sb")
    case True
    then show ?thesis using a blocked [of a] by (simp add: qa_review_def)
  next
    case round: False
    show ?thesis
    proof (cases "mk_gate (t_acceptance_criteria (g_task a)) (co_test_hashes c)")
      case (Inl e)
      then show ?thesis using a round stopped by (simp add: qa_review_def Let_def)
    next
      case (Inr gate)
      show ?thesis
      proof (cases rule: gate_check_cases [of ids g gate qa
            "sb\<lparr>sb_fix_round := current_round c k sb\<rparr>" k "d_dispatch_id d" "t_tree_sha (g_task a)" fresh])
        case admits
        then show ?thesis using a round Inr passed [of a d gate]
          by (simp add: qa_review_def Let_def admitted_def)
      next
        case (refuses dec)
        then show ?thesis using a round Inr failed [of a dec]
          by (auto simp: qa_review_def Let_def)
      qed
    qed
  qed
qed

lemma qa_review_inv:
  assumes inv: "coord_inv T C W c"
  shows "coord_inv T C W (snd (snd (qa_review ids qa k sb fresh (g, c))))"
proof (cases rule: qa_review_cases [of ids qa k sb fresh g c])
  case (stopped e)
  then show ?thesis using inv by simp
next
  case (blocked a)
  then show ?thesis using blocked_inv [OF inv blocked(1)] by simp
next
  case (failed a dec)
  then show ?thesis
    using review_failed_inv [OF inv failed(1) current_round_nonneg [OF inv] failed(3)] by simp
next
  case (passed a d gate v g')
  then show ?thesis using review_admitted_inv [OF inv passed(1)] by simp
qed

lemma agg_inv_created:
  "agg_inv a \<Longrightarrow> g_state a = CREATED \<Longrightarrow> task_ok t \<Longrightarrow> agg_inv (a\<lparr>g_task := t\<rparr>)"
  by (simp add: agg_inv_def live_states_def)

lemma update_one_inv:
  assumes "agg_inv a"
  shows "agg_inv (snd (update_one tree a))"
proof (cases "t_tree_sha (g_task a) \<noteq> tree \<and> g_state a = CREATED")
  case True
  then show ?thesis using assms agg_inv_created [OF assms] task_with_tree_task_ok
    by (cases "task_with_tree (g_task a) tree") (simp_all add: update_one_def)
next
  case False
  then show ?thesis
    using assms agg_inv_recover [OF assms] agg_inv_change_tree [OF assms, of tree]
    by (auto simp: update_one_def)
qed

lemma update_one_in_flight: "g_state a \<in> in_flight \<Longrightarrow> g_state (snd (update_one tree a)) \<in> in_flight"
  by (auto simp: update_one_def in_flight_def agg_recover_unknown_def)

lemma update_trees_lookup:
  "map_of (snd (update_trees tree ts)) k = map_of ts k \<or>
   map_of (snd (update_trees tree ts)) k = map_option (\<lambda>a. snd (update_one tree a)) (map_of ts k)"
proof (induction ts)
  case (Cons x ts)
  obtain k' a where x: "x = (k', a)" by (cases x)
  obtain r a' where u: "update_one tree a = (r, a')" by (cases "update_one tree a")
  show ?case
  proof (cases r)
    case (Inl e)
    then show ?thesis using x u by simp
  next
    case (Inr u')
    then show ?thesis using x u Cons.IH by (auto split: prod.splits)
  qed
qed simp

lemma update_tree_inv:
  assumes inv: "coord_inv T C W c"
  shows "coord_inv T C W (snd (update_tree tree c))"
proof -
  let ?c = "c\<lparr>co_tasks := snd (update_trees tree (co_tasks c))\<rparr>"
  have look: "get_task ?c k = get_task c k \<or>
      get_task ?c k = map_option (\<lambda>a. snd (update_one tree a)) (get_task c k)" for k
    using update_trees_lookup [of tree "co_tasks c" k] by (simp add: get_task_def)
  have "get_task ?c k = Some a \<Longrightarrow> agg_inv a" for k a
    using look [of k] get_task_inv [OF inv, of k] update_one_inv
    by (cases "get_task c k") auto
  moreover have "co_active c k = Some d \<Longrightarrow> \<exists>a. get_task ?c k = Some a \<and> g_state a \<in> in_flight"
    for k d
    using look [of k] active_state [OF inv, of k] update_one_in_flight active_task [OF inv, of k d]
    by (cases "get_task c k") auto
  ultimately have "coord_inv T C W ?c" using inv by (auto simp: coord_inv_def fix_round_of_def)
  then show ?thesis using inv
    by (cases "update_trees tree (co_tasks c)") (simp add: update_tree_def)
qed

section \<open>Runs of the coordinator\<close>

text \<open>
  The calls as events.  \<open>Elsewhere\<close> is anything the rest of the program does to the shared
  registries between two calls: they may become anything at all.
\<close>

type_synonym coord_world = "(identities \<times> registry) \<times> coord"

datatype coord_event =
    CoFreeze string principal
  | CoBegin string principal string int int string
  | CoRelease string
  | CoReport principal string string string
  | CoReview principal string submission string
  | CoReconcile string principal "string option"
  | CoUpdateTree string
  | Elsewhere "identities \<times> registry"

fun coord_step :: "coord_world \<Rightarrow> coord_event \<Rightarrow> coord_world" where
  "coord_step (w, c) (CoFreeze k pm) = (w, snd (co_freeze (fst w) k pm c))"
| "coord_step (w, c) (CoBegin k pm key t m fresh) = (w, snd (co_begin (fst w) k pm key t m fresh c))"
| "coord_step (w, c) (CoRelease k) = (w, release_dispatch k c)"
| "coord_step (w, c) (CoReport dev k did tree) =
     (w, snd (report_process_succeeded (fst w) dev k did tree c))"
| "coord_step (w, c) (CoReview qa k sb fresh) =
     (let s = snd (qa_review (fst w) qa k sb fresh (snd w, c)) in ((fst w, fst s), snd s))"
| "coord_step (w, c) (CoReconcile k pm tree) = (w, snd (reconcile_recovery (fst w) k pm tree c))"
| "coord_step (w, c) (CoUpdateTree tree) = (w, snd (update_tree tree c))"
| "coord_step (w, c) (Elsewhere w') = (w', c)"

lemma coord_step_inv:
  "coord_inv T C W (snd s) \<Longrightarrow> coord_inv T C W (snd (coord_step s e))"
proof (cases s)
  case (Pair w c)
  assume "coord_inv T C W (snd s)"
  then have inv: "coord_inv T C W c" using Pair by simp
  show ?thesis
  proof (cases e)
    case (CoReview qa k sb fresh)
    then show ?thesis using Pair qa_review_inv [OF inv, of "fst w" qa k sb fresh "snd w"]
      by (simp add: Let_def)
  qed (use Pair inv in \<open>simp_all add: co_freeze_inv co_begin_inv coord_inv_release report_inv
         reconcile_inv update_tree_inv\<close>)
qed

interpretation coord_machine: invariant_machine coord_step "\<lambda>s. coord_inv T C W (snd s)"
  by unfold_locales (rule coord_step_inv)

lemma mk_coordinator_inv:
  assumes "mk_coordinator run tasks deps budget pins = Inr c" "mk_ledger T C W = Inr budget"
    and "\<forall>t \<in> snd ` set tasks. task_ok t"
  shows "coord_inv T C W c"
proof -
  have c: "co_tasks c = map (\<lambda>(key, t). (key, new_agg t)) tasks" "co_budget c = budget"
      "co_active c = Map.empty" "co_fix_rounds c = map_of (map (\<lambda>(key, t). (key, 0)) tasks)"
    using assms(1) by (auto simp: mk_coordinator_def split: if_splits sum.splits)
  have "fix_round_of c k = 0" for k
    unfolding fix_round_of_def c by (induction tasks) auto
  moreover have "agg_inv a" if "get_task c k = Some a" for k a
    using that assms(3) agg_inv_new by (force simp: get_task_def c dest!: map_of_SomeD)
  moreover have "bl_reservations budget = []"
    using assms(2) by (auto simp: mk_ledger_def split: if_splits)
  ultimately show ?thesis using c mk_ledger_within [OF assms(2)] by (simp add: coord_inv_def)
qed

text \<open>The fix rounds of a task never go down.\<close>

lemma fix_round_simps [simp]:
  "fix_round_of (put_task k' a c) k = fix_round_of c k"
  "fix_round_of (release_dispatch k' c) k = fix_round_of c k"
  "fix_round_of (c\<lparr>co_fix_rounds := (co_fix_rounds c)(k' \<mapsto> n)\<rparr>) k =
     (if k = k' then n else fix_round_of c k)"
  by (simp_all add: fix_round_of_def)

lemma fix_round_budget [simp]:
  "fix_round_of (c\<lparr>co_budget := l\<rparr>) k = fix_round_of c k"
  "fix_round_of (c\<lparr>co_active := m\<rparr>) k = fix_round_of c k"
  "fix_round_of (c\<lparr>co_tasks := ts\<rparr>) k = fix_round_of c k"
  by (simp_all add: fix_round_of_def)

lemma fix_rounds_begin: "fix_round_of (snd (co_begin ids j pm key t m fresh c)) k = fix_round_of c k"
proof (cases "begin_checks ids j pm key t m c")
  case (Inr a)
  obtain r a' where d: "agg_dispatch (require_identity ids) pm key fresh a = (r, a')" by fastforce
  show ?thesis
  proof (cases r)
    case disp: (Inr disp)
    obtain r' l where "ledger_reserve (d_dispatch_id disp) t m (co_budget c) = (r', l)" by fastforce
    then show ?thesis using Inr d disp by (cases r') (simp_all add: co_begin_def)
  qed (use Inr d in \<open>simp add: co_begin_def\<close>)
qed (simp add: co_begin_def)

lemma fix_rounds_others:
  "fix_round_of (snd (co_freeze ids j pm c)) k = fix_round_of c k"
  "fix_round_of (snd (report_process_succeeded ids dev j did tree c)) k = fix_round_of c k"
  "fix_round_of (snd (reconcile_recovery ids j pm new c)) k = fix_round_of c k"
  "fix_round_of (snd (update_tree tree c)) k = fix_round_of c k"
  by (auto simp: co_freeze_def report_process_succeeded_def reconcile_recovery_def
      update_tree_def split: sum.split option.split prod.split)

lemma fix_rounds_step: "fix_round_of (snd s) k \<le> fix_round_of (snd (coord_step s e)) k"
proof (cases s)
  case (Pair w c)
  show ?thesis
  proof (cases e)
    case (CoReview qa k' sb fresh)
    show ?thesis
    proof (cases rule: qa_review_cases [of "fst w" qa k' sb fresh "snd w" c])
      case (stopped e)
      then show ?thesis using Pair CoReview by (simp add: Let_def)
    next
      case (blocked a)
      then show ?thesis using Pair CoReview by (simp add: Let_def)
    next
      case (failed a dec)
      have "fix_round_of c k' \<le> current_round c k' sb" by (simp add: current_round_def)
      with failed show ?thesis using Pair CoReview by (auto simp: review_failed_def Let_def)
    next
      case (passed a d gate v g')
      then show ?thesis using Pair CoReview
        by (cases rule: review_admitted_cases [of "fst w" qa k' admitted v a g' c])
          (simp_all add: Let_def)
    qed
  qed (use Pair in \<open>simp_all add: fix_rounds_begin fix_rounds_others\<close>)
qed

interpretation fix_round_machine: monotone_machine coord_step "\<lambda>s. fix_round_of (snd s) k"
  by unfold_locales (rule fix_rounds_step)

section \<open>Properties of the coordinator\<close>

text \<open>
  C3: No reservation leaks.  In every state a coordinator with a fresh ledger can reach, whatever
  calls are made in whatever order, whichever of them raise, and whatever happens to the
  registries in between: the reservations of the ledger are exactly the active dispatches, no two
  tasks share one, each belongs to a task that is dispatched, reported or awaiting recovery, and
  the tokens and workers held stay within the ceilings of the run.
\<close>

theorem coordinator_reservations:
  assumes "mk_coordinator run tasks deps budget pins = Inr c0" "mk_ledger T C W = Inr budget"
    and "list_all (task_ok \<circ> snd) tasks"
  shows "case foldl coord_step (w0, c0) es of (w, c) \<Rightarrow>
    set (map rs_dispatch_id (bl_reservations (co_budget c))) = ran (co_active c) \<and>
    inj_on (co_active c) (dom (co_active c)) \<and>
    (\<forall>k d. co_active c k = Some d \<longrightarrow> (\<exists>a. get_task c k = Some a \<and>
       g_state a \<in> {DISPATCHED, PROCESS_SUCCEEDED, RECOVERY_REQUIRED})) \<and>
    0 \<le> bl_tokens (co_budget c) \<and> bl_tokens (co_budget c) + held_tokens (co_budget c) \<le> T \<and>
    0 \<le> bl_cost (co_budget c) \<and> bl_cost (co_budget c) + held_cost (co_budget c) \<le> C \<and>
    int (length (bl_reservations (co_budget c))) \<le> W"
proof -
  have "\<forall>t \<in> snd ` set tasks. task_ok t" using assms(3) by (auto simp: list_all_iff)
  then have "coord_inv T C W (snd (foldl coord_step (w0, c0) es))"
    using coord_machine.run_inv [of T C W "(w0, c0)" es] mk_coordinator_inv [OF assms(1,2)]
    by simp
  then show ?thesis
    by (cases "foldl coord_step (w0, c0) es")
      (simp add: coord_inv_def in_flight_def within_ceilings_def)
qed

text \<open>A run of one task to VERIFIED.\<close>

definition demo_run :: run where
  "demo_run = \<lparr>r_run_id = ''r1'', r_project_id = ''p1'', r_policy_revision = ''v1'',
     r_schema_version = 1\<rparr>"

definition demo_pins :: pins where
  "demo_pins = [(''tests/t.py'', concat (replicate 8 ''0123abcd''))]"

definition demo_ledger :: ledger where
  "demo_ledger = \<lparr>bl_tokens = 10, bl_cost = 10, bl_max_workers = 2, bl_reservations = []\<rparr>"

definition demo_coord :: coord where
  "demo_coord = \<lparr>co_run = demo_run, co_order = [''t1''], co_dependencies = [(''t1'', [])],
     co_tasks = [(''t1'', new_agg example_task)], co_budget = demo_ledger,
     co_test_hashes = demo_pins, co_active = Map.empty, co_fix_rounds = [''t1'' \<mapsto> 0]\<rparr>"

lemma demo_coord_made:
  "mk_coordinator demo_run [(''t1'', example_task)] [(''t1'', [])] demo_ledger demo_pins =
     Inr demo_coord"
proof -
  have "validate_task_dag [(''t1'', [])] [(''t1'', [''builds''])] = Inr [''t1'']" by code_simp
  then show ?thesis
    by (simp add: mk_coordinator_def demo_coord_def demo_run_def demo_pins_def example_task_def)
qed

lemma demo_ledger_made: "mk_ledger 10 10 2 = Inr demo_ledger"
  by (simp add: mk_ledger_def demo_ledger_def)

theorem coordinator_reservations_witness:
  "case foldl coord_step ((Map.empty, empty_registry), demo_coord)
      [CoFreeze ''t1'' (example_principal ''pm'' PM),
       CoBegin ''t1'' (example_principal ''pm'' PM) ''key'' 5 5 ''d1'', CoUpdateTree ''tree2''] of (w, c) \<Rightarrow>
    set (map rs_dispatch_id (bl_reservations (co_budget c))) = ran (co_active c) \<and>
    bl_tokens (co_budget c) + held_tokens (co_budget c) \<le> 10"
  using coordinator_reservations [OF demo_coord_made demo_ledger_made, where
      ?w0.0 = "(Map.empty, empty_registry)" and es = "[CoFreeze ''t1'' (example_principal ''pm'' PM),
       CoBegin ''t1'' (example_principal ''pm'' PM) ''key'' 5 5 ''d1'', CoUpdateTree ''tree2'']"]
    example_task_ok
  by (simp split: prod.split)

text \<open>
  A dispatch is begun exactly under its conditions.  When \<open>begin\<close> returns a plan, the caller
  was a registered PM, the task frozen, every dependency VERIFIED and the reservation within what
  the ledger had left; afterwards the task is DISPATCHED with the plan's dispatch active for its
  current tree, and the reservation is in the ledger under that dispatch.  When it raises, nothing
  is reserved and no dispatch becomes active.
\<close>

theorem begin_dispatches_only_ready_tasks:
  "case co_begin ids k pm key t m fresh c of
     (Inl e, c') \<Rightarrow> co_active c' = co_active c \<and> co_budget c' = co_budget c
   | (Inr p, c') \<Rightarrow>
       ids (p_principal_id pm) = Some (PM, p_secret pm) \<and>
       (\<exists>a deps. get_task c k = Some a \<and> g_state a = FROZEN \<and>
          map_of (co_dependencies c) k = Some deps \<and>
          list_all (\<lambda>dep. \<exists>b. get_task c dep = Some b \<and> g_state b = VERIFIED) deps \<and>
          dp_tree_sha p = t_tree_sha (g_task a)) \<and>
       (\<exists>a' d. get_task c' k = Some a' \<and> g_state a' = DISPATCHED \<and> g_active a' = Some d \<and>
          d_dispatch_id d = dp_dispatch_id p \<and> d_tree_sha d = t_tree_sha (g_task a')) \<and>
       co_active c' = (co_active c)(k \<mapsto> dp_dispatch_id p) \<and>
       bl_reservations (co_budget c') = bl_reservations (co_budget c) @
         [\<lparr>rs_dispatch_id = dp_dispatch_id p, rs_tokens = t, rs_cost = m\<rparr>] \<and>
       0 \<le> t \<and> t \<le> bl_tokens (co_budget c) \<and> 0 \<le> m \<and> m \<le> bl_cost (co_budget c) \<and>
       \<not> dp_runtime_authorized p"
proof (cases "begin_checks ids k pm key t m c")
  case (Inl e)
  then show ?thesis by (simp add: co_begin_def)
next
  case (Inr a)
  note ok = begin_checks_ok [OF Inr]
  show ?thesis
  proof (cases rule: agg_dispatch_cases [of "require_identity ids" pm key fresh a])
    case (unchanged e)
    then show ?thesis using Inr by (simp add: co_begin_def)
  next
    case (rejected e)
    then show ?thesis using Inr by (simp add: co_begin_def)
  next
    case (dispatched d)
    have deps: "check_deps_verified c ds = Inr () \<Longrightarrow>
        list_all (\<lambda>dep. \<exists>b. get_task c dep = Some b \<and> g_state b = VERIFIED) ds" for ds
      by (induction ds) (auto split: option.splits if_splits)
    show ?thesis using Inr dispatched ok deps
      by (auto simp: co_begin_def ledger_reserve_def Let_def require_identity_ok split: prod.splits)
  qed
qed

text \<open>
  C10: The fix-round cap cannot be reset.  Once a task has used up its three rounds, then after
  whatever further calls (unblocking, new trees, new dispatches, reviews that claim a smaller
  round) a review of that task either raises or answers BLOCKED; it never verifies the task.
\<close>

theorem fix_round_cap_is_final:
  assumes "fix_round_of c k \<ge> 3" "(w', c') = foldl coord_step (w, c) es"
  shows "case qa_review ids' qa k sb fresh (g', c') of
           (Inl e, g2, c2) \<Rightarrow> (g2, c2) = (g', c')
         | (Inr dec, g2, c2) \<Rightarrow> dec = exhausted \<and> co_active c2 k = None \<and>
             map_option g_state (get_task c2 k) = Some BLOCKED"
proof -
  have "fix_round_of c k \<le> fix_round_of c' k"
    using fix_round_machine.run_mono [of "(w, c)" k es] assms(2) by (metis snd_conv)
  then have "3 \<le> current_round c' k sb" using assms(1) by (simp add: current_round_def)
  then show ?thesis
  proof (cases rule: qa_review_cases [of ids' qa k sb fresh g' c'])
    case (passed a d gate v g'')
    then show ?thesis using \<open>3 \<le> current_round c' k sb\<close> by (simp add: admissible_def)
  qed (simp_all add: agg_block_def)
qed

definition demo_capped :: coord where
  "demo_capped = demo_coord\<lparr>co_fix_rounds := [''t1'' \<mapsto> 3]\<rparr>"

theorem fix_round_cap_is_final_witness:
  "\<exists>w c. (w, c) = foldl coord_step ((Map.empty, empty_registry), demo_capped) [CoUpdateTree ''x''] \<and>
     (\<forall>sb. case qa_review (fst w) (example_principal ''qa'' QA) ''t1'' sb ''v'' (snd w, c) of
        (Inl e, s) \<Rightarrow> True | (Inr dec, s) \<Rightarrow> dec = exhausted)"
proof -
  obtain ids g c where s: "((ids, g), c) =
      foldl coord_step ((Map.empty, empty_registry), demo_capped) [CoUpdateTree ''x'']"
    by (metis prod.exhaust)
  have "fix_round_of demo_capped ''t1'' \<ge> 3" by (simp add: fix_round_of_def demo_capped_def)
  note cap = fix_round_cap_is_final [OF this s]
  have "case qa_review ids (example_principal ''qa'' QA) ''t1'' sb ''v'' (g, c) of
        (Inl e, s) \<Rightarrow> True | (Inr dec, s) \<Rightarrow> dec = exhausted" for sb
    using cap [where ids' = ids and qa = "example_principal ''qa'' QA" and sb = sb
        and fresh = "''v''" and g' = g]
    by (auto split: prod.splits sum.splits)
  then show ?thesis using s by auto
qed

text \<open>
  C6: A review verifies a task exactly when the task is reported, its fix rounds are not used up
  and the submission, with the coordinator's own round counter, is admissible for the active
  dispatch and the current tree.  The task is then VERIFIED with a verdict of the reviewing
  principal, and its reservation is released.
\<close>

theorem review_verifies_exactly_the_admissible:
  assumes "get_task c k = Some a" "t_task_id (g_task a) = k"
    and "mk_gate (t_acceptance_criteria (g_task a)) (co_test_hashes c) = Inr gate"
  shows "(\<exists>d. g_state a = PROCESS_SUCCEEDED \<and> g_active a = Some d \<and>
            admissible ids g gate qa (sb\<lparr>sb_fix_round := current_round c k sb\<rparr>)
              (k, d_dispatch_id d, t_tree_sha (g_task a)))
         \<longleftrightarrow> (\<exists>g' c'. qa_review ids qa k sb fresh (g, c) = (Inr admitted, g', c') \<and>
               co_active c' k = None \<and>
               (\<exists>a' v. get_task c' k = Some a' \<and> g_state a' = VERIFIED \<and> g_verdict a' = Some v \<and>
                  v_qa_principal_id v = p_principal_id qa))"
    (is "?admissible \<longleftrightarrow> ?verified")
proof
  assume ?admissible
  then obtain d where d: "g_state a = PROCESS_SUCCEEDED" "g_active a = Some d"
      and adm: "admissible ids g gate qa (sb\<lparr>sb_fix_round := current_round c k sb\<rparr>)
              (k, d_dispatch_id d, t_tree_sha (g_task a))" by blast
  let ?v = "gate_verdict qa (sb\<lparr>sb_fix_round := current_round c k sb\<rparr>)
              (k, d_dispatch_id d, t_tree_sha (g_task a)) fresh"
  let ?g = "g\<lparr>g_verdicts := (g_verdicts g)(fresh \<mapsto> ?v)\<rparr>"
  have id: "require_identity ids qa QA = Inr ()" and rnd: "current_round c k sb < 3"
    using adm by (simp_all add: admissible_def require_identity_ok)
  have "gate_check ids gate qa (sb\<lparr>sb_fix_round := current_round c k sb\<rparr>) k (d_dispatch_id d)
      (t_tree_sha (g_task a)) fresh g = (Inr (admitted, Some ?v), ?g)"
    using adm by (cases rule: gate_check_cases [of ids g gate qa
        "sb\<lparr>sb_fix_round := current_round c k sb\<rparr>" k "d_dispatch_id d" "t_tree_sha (g_task a)" fresh])
      simp_all
  then have "qa_review ids qa k sb fresh (g, c) = review_admitted ids qa k admitted ?v a (?g, c)"
    using assms d id rnd by (simp add: qa_review_def Let_def admitted_def)
  moreover have "require_verdict ?g ?v (t_task_id (g_task a), d_dispatch_id d, t_tree_sha (g_task a))
      = Inr ()"
    using gate_verdict_accepted [OF adm, of fresh] assms(2) by simp
  then have "review_admitted ids qa k admitted ?v a (?g, c) = (Inr admitted, ?g,
      release_dispatch k (put_task k (a\<lparr>g_verdict := Some ?v, g_state := VERIFIED,
        g_verified_tree := Some (t_tree_sha (g_task a))\<rparr>) c))"
    using d id
    by (simp add: review_admitted_def agg_qa_verified_def agg_mark_verified_def gate_verdict_def)
  ultimately show ?verified using assms(1) by (simp add: gate_verdict_def)
next
  assume ?verified
  then obtain g' c' where res: "qa_review ids qa k sb fresh (g, c) = (Inr admitted, g', c')" by blast
  then show ?admissible
  proof (cases rule: qa_review_cases [of ids qa k sb fresh g c])
    case (failed b dec)
    then show ?thesis using res
      by (auto simp: review_failed_def Let_def exhausted_def admitted_def split: if_splits)
  next
    case (passed b d gate' v g')
    then show ?thesis using assms by auto
  qed (use res in \<open>simp_all add: exhausted_def admitted_def\<close>)
qed

definition demo_reported :: agg where
  "demo_reported = (new_agg example_task)\<lparr>g_state := PROCESS_SUCCEEDED, g_attempt := 1,
     g_active := Some \<lparr>d_dispatch_id = ''d1'', d_task_id = ''t1'', d_attempt = 1,
       d_idempotency_key = ''key'', d_tree_sha = ''tree'', d_policy_revision = ''v1''\<rparr>\<rparr>"

definition demo_review_coord :: coord where
  "demo_review_coord = demo_coord\<lparr>co_tasks := [(''t1'', demo_reported)]\<rparr>"

definition demo_registry :: registry where
  "demo_registry = \<lparr>g_receipts = [''x1'' \<mapsto> \<lparr>x_receipt_id = ''x1'', x_issuer_id = ''ex'',
       x_task_id = ''t1'', x_dispatch_id = ''d1'', x_tree_sha = ''tree'', x_exit_code = 0\<rparr>],
     g_evidence = [''e1'' \<mapsto> example_evidence], g_verdicts = Map.empty\<rparr>"

definition demo_submission :: submission where
  "demo_submission = \<lparr>sb_evidence = [example_evidence], sb_covered = [''builds''],
     sb_test_hashes = demo_pins, sb_actual_tree = ''tree'', sb_clean = True, sb_fix_round = 0,
     sb_waiver = False\<rparr>"

theorem review_verifies_exactly_the_admissible_witness:
  "\<exists>g' c'. qa_review [''qa'' \<mapsto> (QA, ''s'')] (example_principal ''qa'' QA) ''t1'' demo_submission ''v''
      (demo_registry, demo_review_coord) = (Inr admitted, g', c') \<and>
    (\<exists>a'. get_task c' ''t1'' = Some a' \<and> g_state a' = VERIFIED)"
proof -
  let ?c = demo_review_coord and ?a = demo_reported
  let ?gate = "\<lparr>gt_criteria = [''builds''], gt_test_hashes = demo_pins\<rparr>"
  let ?d = "\<lparr>d_dispatch_id = ''d1'', d_task_id = ''t1'', d_attempt = 1,
       d_idempotency_key = ''key'', d_tree_sha = ''tree'', d_policy_revision = ''v1''\<rparr>"
  have task: "get_task ?c ''t1'' = Some ?a" "t_task_id (g_task ?a) = ''t1''"
    by (simp_all add: get_task_def demo_review_coord_def demo_reported_def new_agg_def example_task_def)
  have "check_gate_pins demo_pins = Inr ()" by code_simp
  then have gate: "mk_gate (t_acceptance_criteria (g_task ?a)) (co_test_hashes ?c) = Inr ?gate"
    by (simp add: mk_gate_def demo_review_coord_def demo_coord_def demo_reported_def new_agg_def
        example_task_def demo_pins_def py_isspace_def)
  have "admissible [''qa'' \<mapsto> (QA, ''s'')] demo_registry ?gate (example_principal ''qa'' QA)
      (demo_submission\<lparr>sb_fix_round := current_round ?c ''t1'' demo_submission\<rparr>)
      (''t1'', d_dispatch_id ?d, t_tree_sha (g_task ?a))"
    by (simp add: admissible_def demo_registry_def example_defs demo_submission_def
        current_round_def fix_round_of_def demo_review_coord_def demo_coord_def demo_reported_def
        new_agg_def evidence_binding_def receipt_binding_def)
  then have "\<exists>d. g_state ?a = PROCESS_SUCCEEDED \<and> g_active ?a = Some d \<and>
      admissible [''qa'' \<mapsto> (QA, ''s'')] demo_registry ?gate (example_principal ''qa'' QA)
      (demo_submission\<lparr>sb_fix_round := current_round ?c ''t1'' demo_submission\<rparr>)
      (''t1'', d_dispatch_id d, t_tree_sha (g_task ?a))"
    by (intro exI [of _ ?d]) (simp add: demo_reported_def)
  with review_verifies_exactly_the_admissible [OF task gate, where fresh = "''v''"
      and ids = "[''qa'' \<mapsto> (QA, ''s'')]" and g = demo_registry
      and qa = "example_principal ''qa'' QA" and sb = demo_submission]
  show ?thesis by blast
qed

end
