(* ===== verification/Json.thy ===== *)
theory Json
  imports Prelude "HOL-Library.AList" "HOL-Library.Char_ord" "HOL-Library.List_Lexorder"
begin

text \<open>
  What the code uses of Python's \<open>json\<close>: \<open>dumps\<close> with its options (\<open>ensure_ascii\<close>, compact or
  spaced separators, \<open>sort_keys\<close>) and \<open>loads\<close>.  A number is its literal text, so the module is
  independent of how Python prints floats.  A dictionary is its list of items.  The main result is
  the round trip \<open>loads (dumps v) = v\<close>, from which two values with the same text are equal; the
  digests of the audit ledger and of the approvals rest on it.
\<close>

datatype json =
    JNull
  | JBool bool
  | JNum string
  | JStr string
  | JList "json list"
  | JObj "(string \<times> json) list"

section \<open>Printing\<close>

definition hex_digit :: "nat \<Rightarrow> char" where
  "hex_digit n = ''0123456789abcdef'' ! n"

definition code_of :: "char \<Rightarrow> nat" where
  "code_of c = of_char c"

definition quote_ch :: char where "quote_ch = CHR 0x22"
definition backslash :: char where "backslash = CHR 0x5C"

definition escape_char :: "bool \<Rightarrow> char \<Rightarrow> string" where
  "escape_char ascii c =
     (if c = quote_ch then [backslash, quote_ch]
      else if c = backslash then [backslash, backslash]
      else if c = CHR 0x0A then [backslash, CHR ''n'']
      else if c = CHR 0x0D then [backslash, CHR ''r'']
      else if c = CHR 0x09 then [backslash, CHR ''t'']
      else if c = CHR 0x0C then [backslash, CHR ''f'']
      else if c = CHR 0x08 then [backslash, CHR ''b'']
      else if code_of c < 32 \<or> ascii \<and> 127 \<le> code_of c
      then [backslash, CHR ''u'', CHR ''0'', CHR ''0'',
            hex_digit (code_of c div 16), hex_digit (code_of c mod 16)]
      else [c])"

definition dump_string :: "bool \<Rightarrow> string \<Rightarrow> string" where
  "dump_string ascii s = quote_ch # concat (map (escape_char ascii) s) @ [quote_ch]"

fun join :: "string \<Rightarrow> string list \<Rightarrow> string" where
  "join sep [] = []"
| "join sep [x] = x"
| "join sep (x # y # xs) = x @ sep @ join sep (y # xs)"

text \<open>\<open>sp\<close> is the text after a separator: empty for \<open>separators=(',', ':')\<close>, a blank by default.\<close>

fun dumps :: "bool \<Rightarrow> string \<Rightarrow> json \<Rightarrow> string" where
  "dumps ascii sp JNull = ''null''"
| "dumps ascii sp (JBool b) = (if b then ''true'' else ''false'')"
| "dumps ascii sp (JNum t) = t"
| "dumps ascii sp (JStr s) = dump_string ascii s"
| "dumps ascii sp (JList xs) = ''['' @ join ('','' @ sp) (map (dumps ascii sp) xs) @ '']''"
| "dumps ascii sp (JObj kvs) = ''{'' @ join ('','' @ sp)
     (map (\<lambda>(k, v). dump_string ascii k @ '':'' @ sp @ dumps ascii sp v) kvs) @ ''}''"

text \<open>\<open>sort_keys=True\<close>.\<close>

fun sort_keys :: "json \<Rightarrow> json" where
  "sort_keys (JList xs) = JList (map sort_keys xs)"
| "sort_keys (JObj kvs) = JObj (sort_key fst (map (\<lambda>(k, v). (k, sort_keys v)) kvs))"
| "sort_keys v = v"

section \<open>Reading\<close>

definition is_digit :: "char \<Rightarrow> bool" where
  "is_digit c \<longleftrightarrow> c \<in> set ''0123456789''"

text \<open>The characters a number can have, and a literal's grammar as a state machine.\<close>

definition num_char :: "char \<Rightarrow> bool" where
  "num_char c \<longleftrightarrow> c \<in> set ''0123456789+-.eE''"

fun exp_digits :: "string \<Rightarrow> bool" where
  "exp_digits s \<longleftrightarrow> s \<noteq> [] \<and> list_all is_digit s"

definition num_exponent :: "string \<Rightarrow> bool" where
  "num_exponent s \<longleftrightarrow> s = [] \<or>
     hd s \<in> {CHR ''e'', CHR ''E''} \<and>
     exp_digits (if tl s \<noteq> [] \<and> hd (tl s) \<in> {CHR ''+'', CHR ''-''} then tl (tl s) else tl s)"

definition num_fraction :: "string \<Rightarrow> bool" where
  "num_fraction s \<longleftrightarrow>
     (if s \<noteq> [] \<and> hd s = CHR ''.''
      then takeWhile is_digit (tl s) \<noteq> [] \<and> num_exponent (dropWhile is_digit (tl s))
      else num_exponent s)"

definition num_literal :: "string \<Rightarrow> bool" where
  "num_literal t \<longleftrightarrow>
     t \<noteq> [] \<and> list_all num_char t \<and>
     (let u = (if hd t = CHR ''-'' then tl t else t); ds = takeWhile is_digit u
      in ds \<noteq> [] \<and> (hd ds = CHR ''0'' \<longrightarrow> length ds = 1) \<and> num_fraction (dropWhile is_digit u))"

definition is_ws :: "char \<Rightarrow> bool" where
  "is_ws c \<longleftrightarrow> c \<in> {CHR 0x20, CHR 0x09, CHR 0x0A, CHR 0x0D}"

definition skip_ws :: "string \<Rightarrow> string" where
  "skip_ws s = dropWhile is_ws s"

definition hex_val :: "char \<Rightarrow> nat option" where
  "hex_val c = (let n = code_of c in
     if 48 \<le> n \<and> n \<le> 57 then Some (n - 48)
     else if 97 \<le> n \<and> n \<le> 102 then Some (n - 87)
     else if 65 \<le> n \<and> n \<le> 70 then Some (n - 55) else None)"

definition simple_escape :: "char \<Rightarrow> char option" where
  "simple_escape c =
     (if c = quote_ch then Some quote_ch
      else if c = backslash then Some backslash
      else if c = CHR ''/'' then Some (CHR ''/'')
      else if c = CHR ''n'' then Some (CHR 0x0A)
      else if c = CHR ''r'' then Some (CHR 0x0D)
      else if c = CHR ''t'' then Some (CHR 0x09)
      else if c = CHR ''f'' then Some (CHR 0x0C)
      else if c = CHR ''b'' then Some (CHR 0x08) else None)"

text \<open>A four-digit escape, of a code point below 256 (those a \<open>char\<close> has).\<close>

definition hex4 :: "char \<Rightarrow> char \<Rightarrow> char \<Rightarrow> char \<Rightarrow> char option" where
  "hex4 a b c d =
     (case (hex_val a, hex_val b, hex_val c, hex_val d) of
        (Some w, Some x, Some y, Some z) \<Rightarrow>
          if w = 0 \<and> x = 0 then Some (char_of (16 * y + z)) else None
      | _ \<Rightarrow> None)"

text \<open>The rest of a string literal, after its opening quote.\<close>

fun read_string :: "string \<Rightarrow> (string \<times> string) option" where
  "read_string [] = None"
| "read_string (c # r) =
     (if c = quote_ch then Some ([], r)
      else if c = backslash
      then (case r of
              [] \<Rightarrow> None
            | e # r1 \<Rightarrow>
                if e = CHR ''u''
                then (case r1 of
                        a # b # x # y # r2 \<Rightarrow>
                          (case hex4 a b x y of
                             None \<Rightarrow> None
                           | Some ch \<Rightarrow> map_option (\<lambda>(s, r'). (ch # s, r')) (read_string r2))
                      | _ \<Rightarrow> None)
                else (case simple_escape e of
                        None \<Rightarrow> None
                      | Some ch \<Rightarrow> map_option (\<lambda>(s, r'). (ch # s, r')) (read_string r1)))
      else if code_of c < 32 then None
      else map_option (\<lambda>(s, r'). (c # s, r')) (read_string r))"

text \<open>\<open>dict\<close> of a list of pairs: a repeated key keeps its place and takes the last value.\<close>

definition dict_of :: "(string \<times> json) list \<Rightarrow> (string \<times> json) list" where
  "dict_of kvs = fold (\<lambda>(k, v) d. AList.update k v d) kvs []"

fun read_value :: "nat \<Rightarrow> string \<Rightarrow> (json \<times> string) option"
  and read_elems :: "nat \<Rightarrow> string \<Rightarrow> (json list \<times> string) option"
  and read_items :: "nat \<Rightarrow> string \<Rightarrow> ((string \<times> json) list \<times> string) option"
where
  "read_value 0 s = None"
| "read_value (Suc n) s =
     (case skip_ws s of
        [] \<Rightarrow> None
      | c # r \<Rightarrow>
          if c = quote_ch then map_option (\<lambda>(t, r'). (JStr t, r')) (read_string r)
          else if c = CHR ''[''
          then (case skip_ws r of
                  [] \<Rightarrow> None
                | d # r1 \<Rightarrow> if d = CHR '']'' then Some (JList [], r1)
                           else map_option (\<lambda>(xs, r'). (JList xs, r')) (read_elems n r))
          else if c = CHR ''{''
          then (case skip_ws r of
                  [] \<Rightarrow> None
                | d # r1 \<Rightarrow> if d = CHR ''}'' then Some (JObj [], r1)
                           else map_option (\<lambda>(kvs, r'). (JObj (dict_of kvs), r')) (read_items n r))
          else if take 4 (c # r) = ''null'' then Some (JNull, drop 4 (c # r))
          else if take 4 (c # r) = ''true'' then Some (JBool True, drop 4 (c # r))
          else if take 5 (c # r) = ''false'' then Some (JBool False, drop 5 (c # r))
          else let t = takeWhile num_char (c # r) in
            if num_literal t then Some (JNum t, dropWhile num_char (c # r)) else None)"
| "read_elems 0 s = None"
| "read_elems (Suc n) s =
     (case read_value n s of
        None \<Rightarrow> None
      | Some (v, r) \<Rightarrow>
          (case skip_ws r of
             [] \<Rightarrow> None
           | c # r1 \<Rightarrow>
               if c = CHR '']'' then Some ([v], r1)
               else if c = CHR '','' then map_option (\<lambda>(vs, r'). (v # vs, r')) (read_elems n r1)
               else None))"
| "read_items 0 s = None"
| "read_items (Suc n) s =
     (case skip_ws s of
        [] \<Rightarrow> None
      | q # r0 \<Rightarrow>
          if q \<noteq> quote_ch then None
          else (case read_string r0 of
                  None \<Rightarrow> None
                | Some (k, r1) \<Rightarrow>
                    (case skip_ws r1 of
                       [] \<Rightarrow> None
                     | c # r2 \<Rightarrow>
                         if c \<noteq> CHR '':'' then None
                         else (case read_value n r2 of
                                 None \<Rightarrow> None
                               | Some (v, r3) \<Rightarrow>
                                   (case skip_ws r3 of
                                      [] \<Rightarrow> None
                                    | d # r4 \<Rightarrow>
                                        if d = CHR ''}'' then Some ([(k, v)], r4)
                                        else if d = CHR '',''
                                        then map_option (\<lambda>(kvs, r'). ((k, v) # kvs, r'))
                                               (read_items n r4)
                                        else None)))))"

text \<open>\<open>json.loads\<close>; the fuel bounds the number of values and items, each of which takes a character.\<close>

definition loads :: "string \<Rightarrow> json option" where
  "loads s = (case read_value (2 * length s + 2) s of
                None \<Rightarrow> None
              | Some (v, r) \<Rightarrow> if skip_ws r = [] then Some v else None)"

section \<open>Round trip\<close>

fun wf_json :: "json \<Rightarrow> bool" where
  "wf_json (JNum t) \<longleftrightarrow> num_literal t"
| "wf_json (JList xs) \<longleftrightarrow> (\<forall>x \<in> set xs. wf_json x)"
| "wf_json (JObj kvs) \<longleftrightarrow> distinct (map fst kvs) \<and> (\<forall>kv \<in> set kvs. wf_json (snd kv))"
| "wf_json JNull \<longleftrightarrow> True"
| "wf_json (JBool b) \<longleftrightarrow> True"
| "wf_json (JStr s) \<longleftrightarrow> True"

fun jsize :: "json \<Rightarrow> nat" where
  "jsize (JList xs) = 1 + sum_list (map (\<lambda>x. 1 + jsize x) xs)"
| "jsize (JObj kvs) = 1 + sum_list (map (\<lambda>kv. 1 + jsize (snd kv)) kvs)"
| "jsize _ = 1"

lemma code_of_less: "code_of c < 256"
  by (simp add: code_of_def)

lemma char_of_code [simp]: "char_of (code_of c) = c"
  by (simp add: code_of_def)

lemma hex_val_digit: "k < 16 \<Longrightarrow> hex_val (hex_digit k) = Some k"
proof -
  have "\<forall>k < 16. hex_val (hex_digit k) = Some k" by code_simp
  then show "k < 16 \<Longrightarrow> hex_val (hex_digit k) = Some k" by blast
qed

lemma hex4_code:
  "hex4 (CHR ''0'') (CHR ''0'') (hex_digit (code_of c div 16)) (hex_digit (code_of c mod 16)) = Some c"
proof -
  have "hex_val (CHR ''0'') = Some 0" by code_simp
  moreover have "code_of c div 16 < 16" using code_of_less [of c] by linarith
  ultimately show ?thesis by (simp add: hex4_def hex_val_digit)
qed

lemma escape_heads [simp]:
  "quote_ch \<noteq> backslash" "backslash \<noteq> quote_ch" "CHR ''n'' \<noteq> CHR ''u''"
  "quote_ch \<noteq> CHR ''u''" "backslash \<noteq> CHR ''u''"
  by (simp_all add: quote_ch_def backslash_def)

lemma read_escape:
  "read_string (escape_char ascii c @ rest) = map_option (\<lambda>(s, r'). (c # s, r')) (read_string rest)"
proof -
  consider "c = quote_ch" | "c = backslash" | "c \<in> {CHR 0x0A, CHR 0x0D, CHR 0x09, CHR 0x0C, CHR 0x08}"
    | (other) "c \<noteq> quote_ch" "c \<noteq> backslash"
        "c \<notin> {CHR 0x0A, CHR 0x0D, CHR 0x09, CHR 0x0C, CHR 0x08}" by blast
  then show ?thesis
  proof cases
    case other
    then show ?thesis
      by (cases "code_of c < 32 \<or> ascii \<and> 127 \<le> code_of c")
        (simp_all add: escape_char_def hex4_code)
  qed (auto simp: escape_char_def simple_escape_def quote_ch_def backslash_def)
qed

lemma read_dump_string:
  "read_string (concat (map (escape_char ascii) s) @ quote_ch # r) = Some (s, r)"
  by (induction s) (simp_all add: read_escape)

lemma skip_ws_append [simp]: "list_all is_ws w \<Longrightarrow> skip_ws (w @ s) = skip_ws s"
  by (induction w) (simp_all add: skip_ws_def)

lemma skip_ws_stop [simp]: "\<not> is_ws c \<Longrightarrow> skip_ws (c # s) = c # s"
  by (simp add: skip_ws_def)

lemma read_value_ws: "list_all is_ws w \<Longrightarrow> read_value n (w @ s) = read_value n s"
  by (cases n) (simp_all only: read_value.simps skip_ws_append)

lemma read_elems_ws: "list_all is_ws w \<Longrightarrow> read_elems n (w @ s) = read_elems n s"
  by (cases n) (simp_all only: read_elems.simps read_value_ws)

lemma read_items_ws: "list_all is_ws w \<Longrightarrow> read_items n (w @ s) = read_items n s"
  by (cases n) (simp_all only: read_items.simps skip_ws_append)

lemma num_literal_head:
  assumes "num_literal t"
  obtains c u where "t = c # u" "is_digit c \<or> c = CHR ''-''"
proof (cases t)
  case Nil
  then show ?thesis using assms by (simp add: num_literal_def)
next
  case (Cons c u)
  then show ?thesis using assms that
    by (auto simp: num_literal_def Let_def split: if_splits)
qed

lemma plain_chars [simp]:
  "\<not> is_ws quote_ch" "\<not> is_ws (CHR '','')" "\<not> is_ws (CHR '']'')" "\<not> is_ws (CHR ''}'')"
  "\<not> is_ws (CHR '':'')" "\<not> num_char (CHR '','')" "\<not> num_char (CHR '']'')" "\<not> num_char (CHR ''}'')"
  "\<not> is_ws (CHR ''['')" "\<not> is_ws (CHR ''{'')" "quote_ch \<noteq> CHR '']''" "quote_ch \<noteq> CHR ''}''"
  "CHR ''['' \<noteq> quote_ch" "CHR ''{'' \<noteq> quote_ch"
  by (simp_all add: is_ws_def quote_ch_def num_char_def)

lemma number_start:
  assumes "is_digit c \<or> c = CHR ''-''"
  shows "\<not> is_ws c" "c \<noteq> quote_ch" "c \<noteq> CHR ''[''" "c \<noteq> CHR ''{''" "c \<noteq> CHR '']''" "c \<noteq> CHR ''}''"
    "c \<noteq> CHR ''n''" "c \<noteq> CHR ''t''" "c \<noteq> CHR ''f''"
  using assms by (auto simp: is_digit_def is_ws_def quote_ch_def)

lemma dumps_head:
  assumes "wf_json v"
  obtains c u where "dumps ascii sp v = c # u" "\<not> is_ws c" "c \<noteq> CHR '']''" "c \<noteq> CHR ''}''"
proof (cases v)
  case (JNum t)
  then have "num_literal t" using assms by simp
  then obtain c u where "t = c # u" "is_digit c \<or> c = CHR ''-''" by (rule num_literal_head)
  then show ?thesis using JNum that [of c u] number_start by simp
next
  case (JBool b)
  then show ?thesis using that by (cases b) (auto simp: is_ws_def)
qed (use that in \<open>auto simp: dump_string_def is_ws_def quote_ch_def\<close>)

text \<open>Where a value ends: nothing that could continue a number.\<close>

definition stops :: "string \<Rightarrow> bool" where
  "stops r \<longleftrightarrow> r = [] \<or> \<not> num_char (hd r)"

lemma takeWhile_stop:
  "list_all p t \<Longrightarrow> r = [] \<or> \<not> p (hd r) \<Longrightarrow> takeWhile p (t @ r) = t \<and> dropWhile p (t @ r) = r"
  by (induction t) (auto simp: neq_Nil_conv takeWhile_eq_Nil_iff dropWhile_eq_self_iff)

lemma dict_of_distinct: "distinct (map fst kvs) \<Longrightarrow> dict_of kvs = kvs"
proof -
  have "distinct (map fst (d @ kvs)) \<Longrightarrow> fold (\<lambda>(k, v) d. AList.update k v d) kvs d = d @ kvs" for d
  proof (induction kvs arbitrary: d)
    case (Cons kv kvs)
    obtain k v where kv: "kv = (k, v)" by (cases kv)
    have "k \<notin> fst ` set d" using Cons.prems kv by auto
    then have "AList.update k v d = d @ [(k, v)]" by (induction d) auto
    then show ?case using Cons.IH [of "d @ [(k, v)]"] Cons.prems kv by simp
  qed simp
  from this [of "[]"] show "distinct (map fst kvs) \<Longrightarrow> dict_of kvs = kvs" by (simp add: dict_of_def)
qed

definition elem_text :: "bool \<Rightarrow> string \<Rightarrow> json list \<Rightarrow> string" where
  "elem_text ascii sp xs = join ('','' @ sp) (map (dumps ascii sp) xs)"

definition item_text :: "bool \<Rightarrow> string \<Rightarrow> (string \<times> json) list \<Rightarrow> string" where
  "item_text ascii sp kvs =
     join ('','' @ sp) (map (\<lambda>(k, v). dump_string ascii k @ '':'' @ sp @ dumps ascii sp v) kvs)"

lemma elem_text_simps:
  "elem_text ascii sp [x] = dumps ascii sp x"
  "elem_text ascii sp (x # y # xs) = dumps ascii sp x @ '','' @ sp @ elem_text ascii sp (y # xs)"
  by (simp_all add: elem_text_def)

lemma item_text_simps:
  "item_text ascii sp [(k, v)] = dump_string ascii k @ '':'' @ sp @ dumps ascii sp v"
  "item_text ascii sp ((k, v) # y # xs) =
     dump_string ascii k @ '':'' @ sp @ dumps ascii sp v @ '','' @ sp @ item_text ascii sp (y # xs)"
  by (simp_all add: item_text_def)

lemma stops_simps [simp]:
  "stops ('','' @ r)" "stops ('']'' @ r)" "stops (''}'' @ r)" "stops (CHR '','' # r)"
  "stops (CHR '']'' # r)" "stops (CHR ''}'' # r)" "stops []"
  by (simp_all add: stops_def)

lemma read_elems_text:
  assumes "\<And>x n r. x \<in> set xs \<Longrightarrow> jsize x \<le> n \<Longrightarrow> stops r \<Longrightarrow>
      read_value n (dumps ascii sp x @ r) = Some (x, r)"
    and "list_all is_ws sp" "xs \<noteq> []" "sum_list (map (\<lambda>x. 1 + jsize x) xs) \<le> n"
  shows "read_elems n (elem_text ascii sp xs @ '']'' @ r) = Some (xs, r)"
  using assms
proof (induction xs arbitrary: n)
  case (Cons x xs)
  obtain m where n: "n = Suc m" using Cons.prems(4) by (cases n) auto
  show ?case
  proof (cases xs)
    case Nil
    have "read_value m (dumps ascii sp x @ '']'' @ r) = Some (x, '']'' @ r)"
      using Cons.prems(4) n by (intro Cons.prems(1)) simp_all
    then show ?thesis using Nil n by (simp add: elem_text_simps)
  next
    case (Cons y ys)
    have "read_value m (dumps ascii sp x @ '','' @ sp @ elem_text ascii sp xs @ '']'' @ r) =
        Some (x, '','' @ sp @ elem_text ascii sp xs @ '']'' @ r)"
      using Cons.prems(4) n by (intro Cons.prems(1)) simp_all
    moreover have "read_elems m (elem_text ascii sp xs @ '']'' @ r) = Some (xs, r)"
      using Cons.prems n Cons by (intro Cons.IH) auto
    ultimately show ?thesis using Cons n Cons.prems(2) read_elems_ws [of sp m]
      by (simp add: elem_text_simps)
  qed
qed simp

lemma read_items_text:
  assumes "\<And>k v n r. (k, v) \<in> set kvs \<Longrightarrow> jsize v \<le> n \<Longrightarrow> stops r \<Longrightarrow>
      read_value n (dumps ascii sp v @ r) = Some (v, r)"
    and "list_all is_ws sp" "kvs \<noteq> []" "sum_list (map (\<lambda>kv. 1 + jsize (snd kv)) kvs) \<le> n"
  shows "read_items n (item_text ascii sp kvs @ ''}'' @ r) = Some (kvs, r)"
  using assms
proof (induction kvs arbitrary: n)
  case (Cons kv kvs)
  obtain k v where kv: "kv = (k, v)" by (cases kv)
  obtain m where n: "n = Suc m" using Cons.prems(4) by (cases n) auto
  show ?case
  proof (cases kvs)
    case Nil
    have "read_value m (dumps ascii sp v @ ''}'' @ r) = Some (v, ''}'' @ r)"
      using Cons.prems(4) n kv by (intro Cons.prems(1) [of k]) simp_all
    then show ?thesis using Nil n kv Cons.prems(2) read_value_ws [of sp m]
      by (simp add: item_text_simps dump_string_def read_dump_string)
  next
    case (Cons y ys)
    have "read_value m (dumps ascii sp v @ '','' @ sp @ item_text ascii sp kvs @ ''}'' @ r) =
        Some (v, '','' @ sp @ item_text ascii sp kvs @ ''}'' @ r)"
      using Cons.prems(4) n kv by (intro Cons.prems(1) [of k]) simp_all
    moreover have "read_items m (item_text ascii sp kvs @ ''}'' @ r) = Some (kvs, r)"
      using Cons.prems n Cons by (intro Cons.IH) auto
    ultimately show ?thesis
      using Cons n kv Cons.prems(2) read_value_ws [of sp m] read_items_ws [of sp m]
      by (simp add: item_text_simps dump_string_def read_dump_string)
  qed
qed simp

lemma read_number:
  assumes "num_literal t" "stops r"
  shows "read_value (Suc n) (t @ r) = Some (JNum t, r)"
proof -
  obtain c u where t: "t = c # u" "is_digit c \<or> c = CHR ''-''"
    using num_literal_head assms(1) by blast
  have "takeWhile num_char (t @ r) = t" "dropWhile num_char (t @ r) = r"
    using takeWhile_stop [of num_char t r] assms by (auto simp: num_literal_def stops_def)
  then show ?thesis using t number_start [OF t(2)] assms(1) by (auto simp: Let_def)
qed

lemma read_dumps:
  assumes "list_all is_ws sp"
  shows "wf_json v \<Longrightarrow> jsize v \<le> n \<Longrightarrow> stops r \<Longrightarrow> read_value n (dumps ascii sp v @ r) = Some (v, r)"
proof (induction v arbitrary: n r rule: wf_json.induct)
  case (1 t)
  then show ?case using read_number [of t r] by (cases n) simp_all
next
  case (2 xs)
  then obtain m where n: "n = Suc m" by (cases n) auto
  show ?case
  proof (cases xs)
    case Nil
    then show ?thesis using n by simp
  next
    case (Cons x ys)
    have elems: "read_elems m (elem_text ascii sp xs @ '']'' @ r) = Some (xs, r)"
      using 2 n Cons by (intro read_elems_text assms) auto
    have "wf_json x" using 2(2) Cons by simp
    then obtain c u where "dumps ascii sp x = c # u" "\<not> is_ws c" "c \<noteq> CHR '']''"
      by (rule dumps_head)
    then obtain u' where "elem_text ascii sp xs @ '']'' @ r = c # u'" "\<not> is_ws c" "c \<noteq> CHR '']''"
      using Cons by (cases ys) (auto simp: elem_text_def)
    then show ?thesis using n elems by (simp add: elem_text_def)
  qed
next
  case (3 kvs)
  then obtain m where n: "n = Suc m" by (cases n) auto
  show ?case
  proof (cases kvs)
    case Nil
    then show ?thesis using n by simp
  next
    case (Cons kv ys)
    have items: "read_items m (item_text ascii sp kvs @ ''}'' @ r) = Some (kvs, r)"
    proof (intro read_items_text assms)
      fix k v j q
      assume "(k, v) \<in> set kvs" "jsize v \<le> j" "stops q"
      then show "read_value j (dumps ascii sp v @ q) = Some (v, q)"
        using 3(1) [of "(k, v)" j q] 3(2) by fastforce
    qed (use 3 n Cons in auto)
    obtain u' where "item_text ascii sp kvs @ ''}'' @ r = quote_ch # u'"
      using Cons by (cases ys; cases kv) (auto simp: item_text_def dump_string_def)
    then show ?thesis using n items 3(2) dict_of_distinct by (simp add: item_text_def)
  qed
next
  case 4
  then show ?case by (cases n) (simp_all add: is_ws_def quote_ch_def)
next
  case (5 b)
  then show ?case by (cases n; cases b) (simp_all add: is_ws_def quote_ch_def)
next
  case (6 s)
  then show ?case by (cases n) (simp_all add: dump_string_def read_dump_string)
qed

lemma join_length: "length xs \<le> Suc (length (join (c # sep) xs)) \<and>
    sum_list (map length xs) + length xs \<le> Suc (length (join (c # sep) xs))"
proof (induction "c # sep" xs rule: join.induct)
  case (3 x y xs)
  then show ?case by simp
qed simp_all

lemma sum_jsize_le:
  assumes "\<And>x. x \<in> set xs \<Longrightarrow> sz x \<le> 2 * length (f x)"
  shows "sum_list (map (\<lambda>x. Suc (sz x)) xs) \<le> 2 * sum_list (map (length \<circ> f) xs) + length xs"
  using assms by (induction xs) force+

lemma jsize_le: "wf_json v \<Longrightarrow> jsize v \<le> 2 * length (dumps ascii sp v)"
proof (induction v rule: wf_json.induct)
  case (1 t)
  then show ?case by (cases t) (simp_all add: num_literal_def)
next
  case (2 xs)
  have "sum_list (map (\<lambda>x. Suc (jsize x)) xs) \<le>
      2 * sum_list (map (length \<circ> dumps ascii sp) xs) + length xs"
    using 2 by (intro sum_jsize_le) simp
  then show ?case using join_length [of "map (dumps ascii sp) xs" "CHR '',''" sp] by simp
next
  case (3 kvs)
  let ?f = "\<lambda>(k, v). dump_string ascii k @ '':'' @ sp @ dumps ascii sp v"
  have "jsize (snd kv) \<le> 2 * length (?f kv)" if "kv \<in> set kvs" for kv
    using 3(1) [OF that] 3(2) that by (cases kv) force
  then have "sum_list (map (\<lambda>kv. Suc (jsize (snd kv))) kvs) \<le>
      2 * sum_list (map (length \<circ> ?f) kvs) + length kvs"
    by (intro sum_jsize_le)
  then show ?case using join_length [of "map ?f kvs" "CHR '',''" sp] by simp
qed (simp_all add: dump_string_def)

lemma loads_dumps:
  assumes "wf_json v" "list_all is_ws sp"
  shows "loads (dumps ascii sp v) = Some v"
proof -
  have "read_value (2 * length (dumps ascii sp v) + 2) (dumps ascii sp v @ []) = Some (v, [])"
    using jsize_le [OF assms(1), of ascii sp] by (intro read_dumps assms) simp_all
  then show ?thesis by (simp add: loads_def skip_ws_def)
qed

lemma dumps_inj:
  assumes "wf_json v" "wf_json w" "list_all is_ws sp" "dumps ascii sp v = dumps ascii sp w"
  shows "v = w"
  using loads_dumps assms by (metis option.inject)

lemma wf_sort_keys: "wf_json v \<Longrightarrow> wf_json (sort_keys v)"
proof (induction v rule: wf_json.induct)
  case (3 kvs)
  let ?kvs = "map (\<lambda>(k, v). (k, sort_keys v)) kvs"
  have "map fst ?kvs = map fst kvs" by (simp add: comp_def case_prod_unfold)
  then have "distinct ?kvs" "inj_on fst (set ?kvs)"
    using 3(2) by (metis distinct_map wf_json.simps(3))+
  moreover have "\<forall>kv \<in> set ?kvs. wf_json (snd kv)"
  proof
    fix kv
    assume "kv \<in> set ?kvs"
    then obtain q where "q \<in> set kvs" "kv = (fst q, sort_keys (snd q))" by auto
    then show "wf_json (snd kv)" using 3 by simp
  qed
  ultimately show ?case by (simp add: distinct_map)
qed simp_all

text \<open>The text of a value with sorted keys, and its reading.\<close>

lemma loads_sorted:
  "wf_json v \<Longrightarrow> list_all is_ws sp \<Longrightarrow> loads (dumps ascii sp (sort_keys v)) = Some (sort_keys v)"
  using loads_dumps wf_sort_keys by blast

section \<open>Numbers\<close>

definition dec_digit :: "nat \<Rightarrow> char" where
  "dec_digit n = ''0123456789'' ! n"

fun show_nat :: "nat \<Rightarrow> string" where
  "show_nat n = (if n < 10 then [dec_digit n]
                 else show_nat (n div 10) @ [dec_digit (n mod 10)])"

declare show_nat.simps [simp del]

definition show_int :: "int \<Rightarrow> string" where
  "show_int i = (if i < 0 then CHR ''-'' # show_nat (nat (- i)) else show_nat (nat i))"

lemma digit_facts:
  "k < 10 \<Longrightarrow> is_digit (dec_digit k)" "k < 10 \<Longrightarrow> dec_digit k = CHR ''0'' \<longleftrightarrow> k = 0"
  "j < 10 \<Longrightarrow> k < 10 \<Longrightarrow> dec_digit j = dec_digit k \<longleftrightarrow> j = k"
proof -
  have "\<forall>k < 10. is_digit (dec_digit k) \<and> (dec_digit k = CHR ''0'' \<longleftrightarrow> k = 0) \<and>
      (\<forall>j < 10. dec_digit j = dec_digit k \<longleftrightarrow> j = k)" by code_simp
  then show "k < 10 \<Longrightarrow> is_digit (dec_digit k)"
    "k < 10 \<Longrightarrow> dec_digit k = CHR ''0'' \<longleftrightarrow> k = 0"
    "j < 10 \<Longrightarrow> k < 10 \<Longrightarrow> dec_digit j = dec_digit k \<longleftrightarrow> j = k" by auto
qed

lemma show_nat_digits: "show_nat n \<noteq> [] \<and> list_all is_digit (show_nat n)"
proof (induction n rule: show_nat.induct)
  case (1 n)
  then show ?case by (subst (1 2) show_nat.simps) (auto simp: digit_facts)
qed

lemma show_nat_head: "hd (show_nat n) = CHR ''0'' \<longleftrightarrow> n = 0"
proof (induction n rule: show_nat.induct)
  case (1 n)
  then show ?case using show_nat_digits [of "n div 10"]
    by (subst show_nat.simps) (auto simp: digit_facts)
qed

lemma show_nat_small: "n < 10 \<Longrightarrow> show_nat n = [dec_digit n]"
  by (simp add: show_nat.simps)

lemma show_nat_big: "\<not> n < 10 \<Longrightarrow> show_nat n = show_nat (n div 10) @ [dec_digit (n mod 10)]"
  by (subst show_nat.simps) simp

lemma show_nat_inj: "show_nat m = show_nat n \<Longrightarrow> m = n"
proof (induction m arbitrary: n rule: show_nat.induct)
  case (1 m)
  note IH = 1(1)
  have ne: "show_nat k \<noteq> []" for k using show_nat_digits by blast
  consider "m < 10" "n < 10" | "m < 10" "\<not> n < 10" | "\<not> m < 10" "n < 10" | "\<not> m < 10" "\<not> n < 10"
    by blast
  then show ?case
  proof cases
    case 1
    then show ?thesis using \<open>show_nat m = show_nat n\<close> by (simp add: show_nat_small digit_facts)
  next
    case 2
    then show ?thesis using \<open>show_nat m = show_nat n\<close> ne [of "n div 10"]
      unfolding show_nat_small [OF 2(1)] show_nat_big [OF 2(2)] by simp
  next
    case 3
    then show ?thesis using \<open>show_nat m = show_nat n\<close> ne [of "m div 10"]
      unfolding show_nat_big [OF 3(1)] show_nat_small [OF 3(2)] by simp
  next
    case 4
    have "show_nat (m div 10) = show_nat (n div 10)"
        "dec_digit (m mod 10) = dec_digit (n mod 10)"
      using \<open>show_nat m = show_nat n\<close> unfolding show_nat_big [OF 4(1)] show_nat_big [OF 4(2)]
      by simp_all
    then have "m div 10 = n div 10" "m mod 10 = n mod 10"
      using IH [OF 4(1)] digit_facts(3) [of "m mod 10" "n mod 10"] by simp_all
    then show ?thesis by (metis mult_div_mod_eq)
  qed
qed

lemma digit_num_char: "is_digit c \<Longrightarrow> num_char c"
  unfolding is_digit_def num_char_def by auto

lemma digit_not_minus: "is_digit c \<Longrightarrow> c \<noteq> CHR ''-''"
  unfolding is_digit_def by auto

lemma show_nat_not_minus: "hd (show_nat n) \<noteq> CHR ''-''"
  using show_nat_digits [of n] digit_not_minus by (metis list.pred_inject(2) list.exhaust_sel)

lemma show_nat_literal: "num_literal (show_nat n)"
proof -
  have d: "show_nat n \<noteq> []" "list_all is_digit (show_nat n)" using show_nat_digits by auto
  then have "takeWhile is_digit (show_nat n) = show_nat n" "dropWhile is_digit (show_nat n) = []"
    by (simp_all add: takeWhile_eq_all_conv dropWhile_eq_Nil_conv list_all_iff)
  moreover have "hd (show_nat n) \<noteq> CHR ''-''" by (rule show_nat_not_minus)
  moreover have "list_all num_char (show_nat n)"
    using d(2) by (rule list.pred_mono_strong) (rule digit_num_char)
  moreover have "length (show_nat n) = 1" if "hd (show_nat n) = CHR ''0''"
    using that show_nat_head [of n] by (subst show_nat.simps) simp
  ultimately show ?thesis using d
    by (simp add: num_literal_def num_fraction_def num_exponent_def Let_def
        del: takeWhile_eq_all_conv)
qed

lemma show_int_literal: "num_literal (show_int i)"
proof (cases "i < 0")
  case True
  have "num_literal (CHR ''-'' # show_nat n)" for n
  proof -
    have "num_char (CHR ''-'')" by (simp add: num_char_def)
    then show ?thesis
      using show_nat_literal [of n] show_nat_not_minus [of n]
      by (simp add: num_literal_def Let_def)
  qed
  then show ?thesis using True by (simp add: show_int_def)
qed (simp add: show_int_def show_nat_literal)

lemma show_int_inj: "show_int i = show_int j \<longleftrightarrow> i = j"
proof -
  have "show_nat n \<noteq> CHR ''-'' # s" for s n
    using show_nat_not_minus [of n] by (metis list.sel(1))
  moreover from this have "CHR ''-'' # s \<noteq> show_nat n" for s n by metis
  ultimately show ?thesis
    by (auto simp: show_int_def split: if_splits dest: show_nat_inj)
qed

end
