(* ===== verification/AuditLedger.thy ===== *)
theory AuditLedger
  imports Json
begin

text \<open>
  \<open>src/subagentbridge/storage/audit_ledger.py\<close>: the append-only SQLite ledger whose events are
  chained by SHA-256, stream by stream.  A table is its list of rows; an operation is one
  \<open>BEGIN IMMEDIATE\<close> transaction, so a step on the database, and an exception rolls it back.
  SHA-256 is the argument \<open>sha\<close>.  Statements about forgery do not assume that \<open>sha\<close> is injective:
  they exhibit the two texts among those of the chains at hand that it would have to map together.
\<close>

definition GENESIS :: string where
  "GENESIS = replicate 64 (CHR ''0'')"

definition SCHEMA_VERSION :: int where
  "SCHEMA_VERSION = 1"

section \<open>Payloads\<close>

text \<open>\<open>str.lower\<close> on code points below 256, and \<open>str.replace('-', '_')\<close>.\<close>

definition lower_char :: "char \<Rightarrow> char" where
  "lower_char c = (let n = code_of c in
     if 65 \<le> n \<and> n \<le> 90 \<or> 192 \<le> n \<and> n \<le> 222 \<and> n \<noteq> 215 then char_of (n + 32) else c)"

definition normal_key :: "string \<Rightarrow> string" where
  "normal_key k = map (\<lambda>c. if c = CHR ''-'' then CHR ''_'' else c) (map lower_char k)"

definition PRIVATE_KEYS :: "string set" where
  "PRIVATE_KEYS = {''api_key'', ''authorization'', ''access_token'', ''refresh_token'', ''secret'',
     ''password'', ''credential'', ''credentials'', ''private_key''}"

fun scrub :: "json \<Rightarrow> json" where
  "scrub (JObj kvs) = JObj (map (\<lambda>(k, v).
     (k, if normal_key k \<in> PRIVATE_KEYS then JStr ''[REDACTED]'' else scrub v)) kvs)"
| "scrub (JList xs) = JList (map scrub xs)"
| "scrub v = v"

definition canonical :: "json \<Rightarrow> string" where
  "canonical v = dumps False [] (sort_keys v)"

text \<open>What a digest is taken of, and the digest.\<close>

definition digest_text ::
  "string \<Rightarrow> int \<Rightarrow> string \<Rightarrow> string \<Rightarrow> string \<Rightarrow> string \<Rightarrow> string" where
  "digest_text stream seq key kind payload_json prev_sha =
     canonical (JList [JNum (show_int SCHEMA_VERSION), JStr stream, JNum (show_int seq), JStr key,
                       JStr kind, JStr payload_json, JStr prev_sha])"

definition digest ::
  "(string \<Rightarrow> string) \<Rightarrow> string \<Rightarrow> int \<Rightarrow> string \<Rightarrow> string \<Rightarrow> string \<Rightarrow> string \<Rightarrow> string" where
  "digest sha stream seq key kind payload_json prev_sha =
     sha (digest_text stream seq key kind payload_json prev_sha)"

section \<open>The tables and the operations\<close>

record audit_row =
  ar_stream :: string
  ar_seq :: int
  ar_key :: string
  ar_kind :: string
  ar_payload_json :: string
  ar_prev_sha :: string
  ar_event_sha :: string

datatype recovery_mark = MARK_RECOVERY_REQUIRED | MARK_RECONCILED_CLOSED

record recovery_row =
  rv_stream :: string
  rv_session_id :: string
  rv_state :: recovery_mark
  rv_cause :: string

record audit_db =
  ad_version :: "int option"
  ad_events :: "audit_row list"
  ad_recovery :: "recovery_row list"

record audit_event =
  ev_stream :: string
  ev_seq :: int
  ev_key :: string
  ev_kind :: string
  ev_payload :: json
  ev_prev_sha :: string
  ev_sha :: string

definition empty_audit_db :: audit_db where
  "empty_audit_db = \<lparr>ad_version = None, ad_events = [], ad_recovery = []\<rparr>"

definition open_audit_ledger :: "audit_db \<Rightarrow> (exn + unit) \<times> audit_db" where
  "open_audit_ledger db =
     (case ad_version db of
        None \<Rightarrow> (ok (), db\<lparr>ad_version := Some SCHEMA_VERSION\<rparr>)
      | Some v \<Rightarrow>
          if v \<noteq> SCHEMA_VERSION
          then (raise LedgerIntegrityError ''unsupported audit ledger schema version'', db)
          else (ok (), db))"

definition stream_rows :: "string \<Rightarrow> audit_db \<Rightarrow> audit_row list" where
  "stream_rows stream db = sort_key ar_seq (filter (\<lambda>r. ar_stream r = stream) (ad_events db))"

fun check_chain :: "(string \<Rightarrow> string) \<Rightarrow> string \<Rightarrow> int \<Rightarrow> string \<Rightarrow> audit_row list \<Rightarrow> exn + string" where
  "check_chain sha stream expected prev [] = ok prev"
| "check_chain sha stream expected prev (r # rows) =
     (if ar_seq r \<noteq> expected \<or> ar_prev_sha r \<noteq> prev
         \<or> digest sha stream (ar_seq r) (ar_key r) (ar_kind r) (ar_payload_json r) prev
             \<noteq> ar_event_sha r
      then raise LedgerIntegrityError ''audit chain integrity mismatch''
      else check_chain sha stream (expected + 1) (ar_event_sha r) rows)"

definition check_rows :: "(string \<Rightarrow> string) \<Rightarrow> string \<Rightarrow> audit_row list \<Rightarrow> exn + string" where
  "check_rows sha stream rows = check_chain sha stream 1 GENESIS rows"

text \<open>\<open>INSERT INTO audit_events\<close>, with the table's \<open>CHECK\<close> and \<open>UNIQUE\<close> constraints.\<close>

definition insert_event :: "audit_row \<Rightarrow> audit_db \<Rightarrow> (exn + unit) \<times> audit_db" where
  "insert_event r db =
     (if ar_seq r \<le> 0 then (raise IntegrityError ''CHECK constraint failed'', db)
      else if list_ex (\<lambda>r'. ar_stream r' = ar_stream r
                 \<and> (ar_seq r' = ar_seq r \<or> ar_key r' = ar_key r)) (ad_events db)
      then (raise IntegrityError ''UNIQUE constraint failed'', db)
      else (ok (), db\<lparr>ad_events := ad_events db @ [r]\<rparr>))"

definition find_key :: "string \<Rightarrow> string \<Rightarrow> audit_db \<Rightarrow> audit_row option" where
  "find_key stream key db = find (\<lambda>r. ar_stream r = stream \<and> ar_key r = key) (ad_events db)"

definition next_row ::
  "(string \<Rightarrow> string) \<Rightarrow> string \<Rightarrow> string \<Rightarrow> string \<Rightarrow> string \<Rightarrow> audit_row list \<Rightarrow> audit_row" where
  "next_row sha stream key kind payload_json existing =
     (let seq = int (length existing) + 1;
          prev = (if existing = [] then GENESIS else ar_event_sha (last existing))
      in \<lparr>ar_stream = stream, ar_seq = seq, ar_key = key, ar_kind = kind,
          ar_payload_json = payload_json, ar_prev_sha = prev,
          ar_event_sha = digest sha stream seq key kind payload_json prev\<rparr>)"

definition append_once ::
  "(string \<Rightarrow> string) \<Rightarrow> string \<Rightarrow> string \<Rightarrow> string \<Rightarrow> (string \<times> json) list \<Rightarrow> audit_db
   \<Rightarrow> (exn + audit_event \<times> bool) \<times> audit_db" where
  "append_once sha stream key kind payload db =
     (if blank stream \<or> blank key \<or> blank kind
      then (raise ValueError ''nonempty stream, key and event type required'', db)
      else
        let data = scrub (JObj payload); payload_json = canonical data;
            existing = stream_rows stream db
        in case check_rows sha stream existing of
             Inl e \<Rightarrow> (Inl e, db)
           | Inr _ \<Rightarrow>
               (case find_key stream key db of
                  Some r \<Rightarrow>
                    if ar_kind r \<noteq> kind \<or> ar_payload_json r \<noteq> payload_json
                    then (raise ReplayConflict ''idempotency key reused for a different event'', db)
                    else (ok (\<lparr>ev_stream = stream, ev_seq = ar_seq r, ev_key = key, ev_kind = kind,
                               ev_payload = data, ev_prev_sha = ar_prev_sha r,
                               ev_sha = ar_event_sha r\<rparr>, False), db)
                | None \<Rightarrow>
                    (let r = next_row sha stream key kind payload_json existing
                     in case insert_event r db of
                          (Inl e, _) \<Rightarrow> (Inl e, db)
                        | (Inr _, db') \<Rightarrow>
                            (ok (\<lparr>ev_stream = stream, ev_seq = ar_seq r, ev_key = key,
                                  ev_kind = kind, ev_payload = data, ev_prev_sha = ar_prev_sha r,
                                  ev_sha = ar_event_sha r\<rparr>, True), db'))))"

definition append ::
  "(string \<Rightarrow> string) \<Rightarrow> string \<Rightarrow> string \<Rightarrow> string \<Rightarrow> (string \<times> json) list \<Rightarrow> audit_db
   \<Rightarrow> (exn + audit_event) \<times> audit_db" where
  "append sha stream key kind payload db =
     (case append_once sha stream key kind payload db of
        (Inl e, db') \<Rightarrow> (Inl e, db')
      | (Inr (ev, _), db') \<Rightarrow> (ok ev, db'))"

definition verify ::
  "(string \<Rightarrow> string) \<Rightarrow> string \<Rightarrow> string option \<Rightarrow> audit_db \<Rightarrow> exn + string" where
  "verify sha stream expected_tail db =
     (case check_rows sha stream (stream_rows stream db) of
        Inl e \<Rightarrow> Inl e
      | Inr tail \<Rightarrow>
          if expected_tail \<noteq> None \<and> expected_tail \<noteq> Some tail
          then raise LedgerIntegrityError ''stream tail no longer matches external checkpoint''
          else ok tail)"

fun parse_rows :: "audit_row list \<Rightarrow> exn + audit_event list" where
  "parse_rows [] = ok []"
| "parse_rows (r # rows) =
     (case loads (ar_payload_json r) of
        None \<Rightarrow> raise ValueError ''JSONDecodeError''
      | Some v \<Rightarrow>
          (case parse_rows rows of
             Inl e \<Rightarrow> Inl e
           | Inr evs \<Rightarrow> ok (\<lparr>ev_stream = ar_stream r, ev_seq = ar_seq r, ev_key = ar_key r,
                 ev_kind = ar_kind r, ev_payload = v, ev_prev_sha = ar_prev_sha r,
                 ev_sha = ar_event_sha r\<rparr> # evs)))"

definition read_events ::
  "(string \<Rightarrow> string) \<Rightarrow> string \<Rightarrow> string \<Rightarrow> audit_db \<Rightarrow> exn + audit_event list" where
  "read_events sha stream reader_stream db =
     (if stream \<noteq> reader_stream then raise PermissionError ''cross-stream audit read denied''
      else case check_rows sha stream (stream_rows stream db) of
             Inl e \<Rightarrow> Inl e
           | Inr _ \<Rightarrow> parse_rows (stream_rows stream db))"

section \<open>Recovery marks\<close>

definition recovery_key :: "recovery_row \<Rightarrow> string \<times> string" where
  "recovery_key r = (rv_stream r, rv_session_id r)"

definition merge_recovery :: "recovery_row \<Rightarrow> recovery_row \<Rightarrow> recovery_row" where
  "merge_recovery old new = old\<lparr>rv_state := MARK_RECOVERY_REQUIRED, rv_cause := rv_cause new\<rparr>"

definition note_unreconciled ::
  "string \<Rightarrow> string \<Rightarrow> string \<Rightarrow> audit_db \<Rightarrow> (exn + unit) \<times> audit_db" where
  "note_unreconciled stream session_id cause db =
     (if stream = [] \<or> session_id = [] \<or> cause = []
      then (raise ValueError ''recovery identity and cause required'', db)
      else (ok (), db\<lparr>ad_recovery := upsert recovery_key merge_recovery
              \<lparr>rv_stream = stream, rv_session_id = session_id, rv_state = MARK_RECOVERY_REQUIRED,
               rv_cause = cause\<rparr> (ad_recovery db)\<rparr>))"

definition recovery_state :: "string \<Rightarrow> string \<Rightarrow> audit_db \<Rightarrow> recovery_mark option" where
  "recovery_state stream session_id db =
     map_option rv_state (row_at recovery_key (stream, session_id) (ad_recovery db))"

definition reconcile_event_key :: "string \<Rightarrow> string \<Rightarrow> string" where
  "reconcile_event_key session_id evidence_key =
     ''recovery:'' @ show_int (int (length session_id)) @ '':'' @ session_id @ '':'' @ evidence_key"

definition reconcile_closed ::
  "(string \<Rightarrow> string) \<Rightarrow> string \<Rightarrow> string \<Rightarrow> string \<Rightarrow> audit_db \<Rightarrow> (exn + unit) \<times> audit_db" where
  "reconcile_closed sha stream session_id evidence_key db =
     (if stream = [] \<or> session_id = [] \<or> evidence_key = []
      then (raise ValueError ''reconciliation needs scoped stream/session/evidence'', db)
      else if recovery_state stream session_id db \<noteq> Some MARK_RECOVERY_REQUIRED
      then (raise ValueError ''no unresolved recovery checkpoint'', db)
      else let existing = stream_rows stream db in
        case check_rows sha stream existing of
          Inl e \<Rightarrow> (Inl e, db)
        | Inr _ \<Rightarrow>
            let key = reconcile_event_key session_id evidence_key in
            if find_key stream key db \<noteq> None
            then (raise ReplayConflict ''reconciliation key already used'', db)
            else
              let payload_json = canonical (JObj [(''session_id'', JStr session_id),
                    (''evidence_key'', JStr evidence_key)]);
                  r = next_row sha stream key ''RECOVERY_RECONCILED'' payload_json existing
              in case insert_event r db of
                   (Inl e, _) \<Rightarrow> (Inl e, db)
                 | (Inr _, db') \<Rightarrow>
                     (ok (), db'\<lparr>ad_recovery := update_where
                        (\<lambda>q. recovery_key q = (stream, session_id))
                        (\<lambda>q. q\<lparr>rv_state := MARK_RECONCILED_CLOSED\<rparr>) (ad_recovery db')\<rparr>))"

interpretation recovery_table: upsert_table recovery_key merge_recovery
  "\<lambda>r. rv_state r = MARK_RECOVERY_REQUIRED"
  by unfold_locales (auto simp: recovery_key_def merge_recovery_def)

section \<open>Chains\<close>

lemma insort_snoc: "f x \<le> f r \<Longrightarrow> insort_key f x (ys @ [r]) = insort_key f x ys @ [r]"
  by (induction ys) auto

lemma sort_key_snoc: "\<forall>x \<in> set xs. f x \<le> f r \<Longrightarrow> sort_key f (xs @ [r]) = sort_key f xs @ [r]"
  by (induction xs) (auto simp: insort_snoc)

lemma check_chain_tail:
  "check_chain sha s n p rows = Inr t \<Longrightarrow> t = (if rows = [] then p else ar_event_sha (last rows))"
  by (induction rows arbitrary: n p) (auto split: if_splits)

lemma check_chain_seq:
  "check_chain sha s n p rows = Inr t \<Longrightarrow> r \<in> set rows \<Longrightarrow> n \<le> ar_seq r \<and> ar_seq r < n + int (length rows)"
  by (induction rows arbitrary: n p) (fastforce split: if_splits)+

lemma check_chain_snoc:
  "check_chain sha s n p (rows @ [r]) =
     (case check_chain sha s n p rows of
        Inl e \<Rightarrow> Inl e
      | Inr t \<Rightarrow> check_chain sha s (n + int (length rows)) t [r])"
proof (induction rows arbitrary: n p)
  case (Cons a rows)
  show ?case
    using Cons [of "n + 1" "ar_event_sha a"]
    by (cases "check_chain sha s (n + 1) (ar_event_sha a) rows") (simp_all add: add.assoc)
qed simp

lemma check_chain_error:
  "check_chain sha s n p rows = Inl e \<Longrightarrow> fst e = LedgerIntegrityError"
  by (induction rows arbitrary: n p) (auto split: if_splits)

definition chained :: "(string \<Rightarrow> string) \<Rightarrow> string \<Rightarrow> audit_db \<Rightarrow> bool" where
  "chained sha stream db \<longleftrightarrow> is_ok (check_rows sha stream (stream_rows stream db))"

lemma chainedD:
  assumes "chained sha stream db"
  shows "\<exists>t. check_rows sha stream (stream_rows stream db) = Inr t"
  using assms by (simp add: chained_def is_ok_iff)

lemma set_stream_rows: "set (stream_rows stream db) = {r \<in> set (ad_events db). ar_stream r = stream}"
  by (auto simp: stream_rows_def)

lemma stream_rows_add:
  "stream_rows s (db\<lparr>ad_events := ad_events db @ [r]\<rparr>) =
     (if ar_stream r = s then sort_key ar_seq (filter (\<lambda>r. ar_stream r = s) (ad_events db) @ [r])
      else stream_rows s db)"
  by (simp add: stream_rows_def)

lemma stream_rows_other [simp]: "stream_rows s (db\<lparr>ad_recovery := rs\<rparr>) = stream_rows s db"
  by (simp add: stream_rows_def)

lemma find_key_None_iff:
  "find_key s k db = None \<longleftrightarrow> (\<forall>r \<in> set (ad_events db). \<not> (ar_stream r = s \<and> ar_key r = k))"
  by (auto simp: find_key_def find_None_iff)

lemma find_key_add:
  "find_key s k (db\<lparr>ad_events := ad_events db @ [r]\<rparr>) =
     (case find_key s k db of
        Some x \<Rightarrow> Some x | None \<Rightarrow> if ar_stream r = s \<and> ar_key r = k then Some r else None)"
proof -
  have "find p (xs @ [r]) = (case find p xs of Some x \<Rightarrow> Some x | None \<Rightarrow> if p r then Some r else None)"
    for p and xs :: "audit_row list"
    by (induction xs) auto
  then show ?thesis by (simp add: find_key_def)
qed

text \<open>The row an append adds always passes the table's constraints and extends the chain.\<close>

lemma insert_next_row:
  fixes kind body :: string
  assumes "check_rows sha stream (stream_rows stream db) = Inr t" "find_key stream key db = None"
  defines "r \<equiv> next_row sha stream key kind body (stream_rows stream db)"
  defines "db' \<equiv> db\<lparr>ad_events := ad_events db @ [r]\<rparr>"
  shows "insert_event r db = (Inr (), db')"
    "stream_rows stream db' = stream_rows stream db @ [r]"
    "check_rows sha stream (stream_rows stream db') = Inr (ar_event_sha r)"
proof -
  let ?rows = "stream_rows stream db"
  have r: "ar_stream r = stream" "ar_key r = key" "ar_seq r = int (length ?rows) + 1"
      "ar_prev_sha r = (if ?rows = [] then GENESIS else ar_event_sha (last ?rows))"
      "ar_event_sha r = digest sha stream (ar_seq r) (ar_key r) (ar_kind r) (ar_payload_json r)
         (ar_prev_sha r)"
    by (simp_all add: r_def next_row_def Let_def)
  have less: "ar_seq x < ar_seq r" if "x \<in> set (ad_events db)" "ar_stream x = stream" for x
    using that assms(1) check_chain_seq [of sha stream 1 GENESIS ?rows t x] r(3)
    by (simp add: check_rows_def set_stream_rows)
  then show "insert_event r db = (Inr (), db')"
    using assms(2) r by (force simp: insert_event_def db'_def find_key_None_iff list_ex_iff)
  have "sort_key ar_seq (filter (\<lambda>r. ar_stream r = stream) (ad_events db) @ [r]) = ?rows @ [r]"
    unfolding stream_rows_def using less by (intro sort_key_snoc) fastforce
  then show rows: "stream_rows stream db' = ?rows @ [r]"
    using r(1) by (simp add: db'_def stream_rows_add)
  show "check_rows sha stream (stream_rows stream db') = Inr (ar_event_sha r)"
    using assms(1) check_chain_tail [of sha stream 1 GENESIS ?rows t] r(3-5)
    unfolding rows by (simp add: check_rows_def check_chain_snoc split: if_splits)
qed

text \<open>The outcomes of an append on a stream whose chain holds.\<close>

definition event_of :: "string \<Rightarrow> audit_row \<Rightarrow> json \<Rightarrow> audit_event" where
  "event_of stream r data = \<lparr>ev_stream = stream, ev_seq = ar_seq r, ev_key = ar_key r,
     ev_kind = ar_kind r, ev_payload = data, ev_prev_sha = ar_prev_sha r, ev_sha = ar_event_sha r\<rparr>"

lemma append_once_cases:
  assumes "chained sha stream db" "\<not> blank stream" "\<not> blank key" "\<not> blank kind"
  obtains (replay) r where "find_key stream key db = Some r" "ar_kind r = kind"
      "ar_payload_json r = canonical (scrub (JObj payload))"
      "append_once sha stream key kind payload db =
         (Inr (event_of stream r (scrub (JObj payload)), False), db)"
  | (conflict) r e where "find_key stream key db = Some r"
      "ar_kind r \<noteq> kind \<or> ar_payload_json r \<noteq> canonical (scrub (JObj payload))"
      "append_once sha stream key kind payload db = (Inl e, db)" "fst e = ReplayConflict"
  | (created) r where "find_key stream key db = None"
      "r = next_row sha stream key kind (canonical (scrub (JObj payload))) (stream_rows stream db)"
      "append_once sha stream key kind payload db =
         (Inr (event_of stream r (scrub (JObj payload)), True),
          db\<lparr>ad_events := ad_events db @ [r]\<rparr>)"
proof -
  obtain t where t: "check_rows sha stream (stream_rows stream db) = Inr t"
    using chainedD [OF assms(1)] by blast
  show ?thesis
  proof (cases "find_key stream key db")
    case None
    show ?thesis
      by (rule created [OF None refl])
        (use None t assms insert_next_row(1) [OF t None] in
          \<open>simp add: append_once_def event_of_def Let_def next_row_def\<close>)
  next
    case (Some r)
    then have "ar_key r = key" by (auto simp: find_key_def find_Some_iff)
    then show ?thesis using Some t assms replay [OF Some] conflict [OF Some]
      by (cases "ar_kind r = kind \<and> ar_payload_json r = canonical (scrub (JObj payload))")
        (auto simp: append_once_def event_of_def Let_def)
  qed
qed

section \<open>What a client relies on\<close>

text \<open>
  A log that writes each key once: \<open>rep c\<close> is what the log keeps of a content \<open>c\<close>.  A key that
  is unused is created; the same content again is a replay and changes nothing; other content
  under a used key is an error.
\<close>

locale idempotent_log =
  fixes append :: "string \<Rightarrow> 'c \<Rightarrow> 's \<Rightarrow> (exn + bool) \<times> 's"
    and lookup :: "string \<Rightarrow> 's \<Rightarrow> 'd option"
    and rep :: "'c \<Rightarrow> 'd"
    and valid :: "'s \<Rightarrow> bool"
    and usable :: "string \<Rightarrow> 'c \<Rightarrow> bool"
  assumes append_new: "valid s \<Longrightarrow> usable k c \<Longrightarrow> lookup k s = None \<Longrightarrow>
      fst (append k c s) = Inr True \<and> valid (snd (append k c s)) \<and>
      (\<forall>j. lookup j (snd (append k c s)) = (if j = k then Some (rep c) else lookup j s))"
    and append_replay: "valid s \<Longrightarrow> usable k c \<Longrightarrow> lookup k s = Some (rep c) \<Longrightarrow>
      append k c s = (Inr False, s)"
    and append_conflict: "valid s \<Longrightarrow> usable k c \<Longrightarrow> lookup k s = Some d \<Longrightarrow> d \<noteq> rep c \<Longrightarrow>
      \<exists>e. append k c s = (Inl e, s)"
    and append_unusable: "\<not> usable k c \<Longrightarrow> \<exists>e. append k c s = (Inl e, s)"
begin

definition log_step :: "'s \<Rightarrow> string \<times> 'c \<Rightarrow> 's" where
  "log_step s kc = snd (append (fst kc) (snd kc) s)"

lemma step_valid: "valid s \<Longrightarrow> valid (log_step s kc)"
  unfolding log_step_def
  by (metis append_conflict append_new append_replay append_unusable not_None_eq snd_conv)

lemma step_lookup: "valid s \<Longrightarrow> lookup k s = Some d \<Longrightarrow> lookup k (log_step s kc) = Some d"
  unfolding log_step_def
  by (metis append_conflict append_new append_replay append_unusable not_None_eq option.distinct(1)
      snd_conv)

lemma run_valid: "valid s \<Longrightarrow> valid (foldl log_step s es)"
  by (induction es arbitrary: s) (simp_all add: step_valid)

lemma run_lookup: "valid s \<Longrightarrow> lookup k s = Some d \<Longrightarrow> lookup k (foldl log_step s es) = Some d"
  by (induction es arbitrary: s) (simp_all add: step_valid step_lookup)

lemma append_ok_lookup:
  assumes "valid s" "fst (append k c s) = Inr b"
  shows "usable k c \<and> lookup k (snd (append k c s)) = Some (rep c)"
  using assms
  by (metis append_conflict append_new append_replay append_unusable not_None_eq fst_conv snd_conv
      Inl_Inr_False)

text \<open>After a successful append, however the log grows, the key answers as already written.\<close>

lemma append_exactly_once:
  assumes "valid s" "fst (append k c s) = Inr b"
    and "s' = foldl log_step (snd (append k c s)) es"
  shows "append k c s' = (Inr False, s') \<and> (rep c' \<noteq> rep c \<longrightarrow> (\<exists>e. append k c' s' = (Inl e, s')))"
proof -
  have "valid (log_step s (k, c))" using assms(1) by (rule step_valid)
  then have v: "valid s'" using run_valid assms(3) by (simp add: log_step_def)
  have "lookup k s' = Some (rep c)"
    using append_ok_lookup [OF assms(1,2)] run_lookup \<open>valid (log_step s (k, c))\<close> assms(3)
    by (simp add: log_step_def)
  then show ?thesis
    using v append_ok_lookup [OF assms(1,2)] append_replay append_conflict append_unusable by metis
qed

end

definition stream_append ::
  "(string \<Rightarrow> string) \<Rightarrow> string \<Rightarrow> string \<Rightarrow> string \<times> (string \<times> json) list \<Rightarrow> audit_db
   \<Rightarrow> (exn + bool) \<times> audit_db" where
  "stream_append sha stream key c db =
     (case append_once sha stream key (fst c) (snd c) db of
        (Inl e, db') \<Rightarrow> (Inl e, db') | (Inr (_, created), db') \<Rightarrow> (ok created, db'))"

definition stored_content :: "string \<Rightarrow> string \<Rightarrow> audit_db \<Rightarrow> (string \<times> string) option" where
  "stored_content stream key db =
     map_option (\<lambda>r. (ar_kind r, ar_payload_json r)) (find_key stream key db)"

definition content_rep :: "string \<times> (string \<times> json) list \<Rightarrow> string \<times> string" where
  "content_rep c = (fst c, canonical (scrub (JObj (snd c))))"

lemma stream_append_unusable:
  "\<not> (\<not> blank stream \<and> \<not> blank k \<and> \<not> blank (fst c)) \<Longrightarrow> \<exists>e. stream_append sha stream k c db = (Inl e, db)"
  by (auto simp: stream_append_def append_once_def)

interpretation audit_log: idempotent_log
  "stream_append sha stream" "stored_content stream" content_rep "chained sha stream"
  "\<lambda>k c. \<not> blank stream \<and> \<not> blank k \<and> \<not> blank (fst c)"
proof unfold_locales
  fix s k and c :: "string \<times> (string \<times> json) list"
  assume valid: "chained sha stream s" and u: "\<not> blank stream \<and> \<not> blank k \<and> \<not> blank (fst c)"
    and "stored_content stream k s = None"
  then have none: "find_key stream k s = None" by (simp add: stored_content_def)
  obtain t where t: "check_rows sha stream (stream_rows stream s) = Inr t"
    using chainedD [OF valid] by blast
  let ?r = "next_row sha stream k (fst c) (canonical (scrub (JObj (snd c)))) (stream_rows stream s)"
  let ?s = "s\<lparr>ad_events := ad_events s @ [?r]\<rparr>"
  have "append_once sha stream k (fst c) (snd c) s =
      (Inr (event_of stream ?r (scrub (JObj (snd c))), True), ?s)"
    using u none by (cases rule: append_once_cases [OF valid, of k "fst c" "snd c"]) auto
  moreover have "chained sha stream ?s"
    using insert_next_row(3) [OF t none] by (simp add: chained_def)
  moreover have "stored_content stream j ?s =
      (if j = k then Some (content_rep c) else stored_content stream j s)" for j
    using none
    by (auto simp: stored_content_def find_key_add next_row_def Let_def content_rep_def
        split: option.splits)
  ultimately show "fst (stream_append sha stream k c s) = Inr True \<and>
      chained sha stream (snd (stream_append sha stream k c s)) \<and>
      (\<forall>j. stored_content stream j (snd (stream_append sha stream k c s)) =
         (if j = k then Some (content_rep c) else stored_content stream j s))"
    by (simp add: stream_append_def)
next
  fix s k and c :: "string \<times> (string \<times> json) list"
  assume a: "chained sha stream s" "\<not> blank stream \<and> \<not> blank k \<and> \<not> blank (fst c)"
    "stored_content stream k s = Some (content_rep c)"
  then show "stream_append sha stream k c s = (Inr False, s)"
    by (cases rule: append_once_cases [OF a(1), of k "fst c" "snd c"])
      (auto simp: stream_append_def stored_content_def content_rep_def)
next
  fix s k d and c :: "string \<times> (string \<times> json) list"
  assume a: "chained sha stream s" "\<not> blank stream \<and> \<not> blank k \<and> \<not> blank (fst c)"
    "stored_content stream k s = Some d" "d \<noteq> content_rep c"
  then show "\<exists>e. stream_append sha stream k c s = (Inl e, s)"
    by (cases rule: append_once_cases [OF a(1), of k "fst c" "snd c"])
      (auto simp: stream_append_def stored_content_def content_rep_def)
qed (rule stream_append_unusable)

section \<open>Every database the operations write\<close>

datatype audit_op =
    OpOpen
  | OpAppend string string string "(string \<times> json) list"
  | OpNote string string string
  | OpReconcile string string string

fun audit_step :: "(string \<Rightarrow> string) \<Rightarrow> audit_db \<Rightarrow> audit_op \<Rightarrow> audit_db" where
  "audit_step sha db OpOpen = snd (open_audit_ledger db)"
| "audit_step sha db (OpAppend stream key kind payload) =
     snd (append_once sha stream key kind payload db)"
| "audit_step sha db (OpNote stream session cause) = snd (note_unreconciled stream session cause db)"
| "audit_step sha db (OpReconcile stream session evidence) =
     snd (reconcile_closed sha stream session evidence db)"

text \<open>No private key holds anything but the redaction mark.\<close>

fun redacted :: "json \<Rightarrow> bool" where
  "redacted (JObj kvs) \<longleftrightarrow> (\<forall>kv \<in> set kvs.
     if normal_key (fst kv) \<in> PRIVATE_KEYS then snd kv = JStr ''[REDACTED]'' else redacted (snd kv))"
| "redacted (JList xs) \<longleftrightarrow> (\<forall>x \<in> set xs. redacted x)"
| "redacted v \<longleftrightarrow> True"

lemma redacted_scrub: "redacted (scrub v)"
  by (induction v rule: scrub.induct) auto

lemma redacted_sort: "redacted v \<Longrightarrow> redacted (sort_keys v)"
proof (induction v rule: redacted.induct)
  case (1 kvs)
  then show ?case by (fastforce split: if_splits)
qed simp_all

lemma wf_scrub: "wf_json v \<Longrightarrow> wf_json (scrub v)"
proof (induction v rule: scrub.induct)
  case (1 kvs)
  let ?f = "\<lambda>(k, v). (k, if normal_key k \<in> PRIVATE_KEYS then JStr ''[REDACTED]'' else scrub v)"
  have "distinct (map fst (map ?f kvs))"
    using 1(2) by (simp add: comp_def case_prod_unfold)
  moreover have "wf_json (snd (?f kv))" if "kv \<in> set kvs" for kv
    using 1(1) [OF that] 1(2) that by (cases kv) force
  ultimately show ?case by simp
qed simp_all

definition good_payload :: "string \<Rightarrow> bool" where
  "good_payload t \<longleftrightarrow> (\<exists>v. loads t = Some v \<and> redacted v)"

lemma good_payload_canonical: "wf_json v \<Longrightarrow> redacted v \<Longrightarrow> good_payload (canonical v)"
  using loads_sorted [of v "[]" False] redacted_sort by (auto simp: good_payload_def canonical_def)

fun op_wf :: "audit_op \<Rightarrow> bool" where
  "op_wf (OpAppend stream key kind payload) \<longleftrightarrow> wf_json (JObj payload)"
| "op_wf _ \<longleftrightarrow> True"

definition audit_inv :: "(string \<Rightarrow> string) \<Rightarrow> audit_db \<Rightarrow> bool" where
  "audit_inv sha db \<longleftrightarrow> (\<forall>stream. chained sha stream db) \<and>
     (\<forall>r \<in> set (ad_events db). good_payload (ar_payload_json r))"

lemma audit_inv_empty: "audit_inv sha empty_audit_db"
  by (simp add: audit_inv_def chained_def stream_rows_def check_rows_def empty_audit_db_def)

lemma audit_inv_add:
  assumes inv: "audit_inv sha db" and new: "find_key stream key db = None" and body: "good_payload body"
  shows "audit_inv sha (db\<lparr>ad_events := ad_events db @
           [next_row sha stream key kind body (stream_rows stream db)]\<rparr>)"
proof -
  let ?r = "next_row sha stream key kind body (stream_rows stream db)"
  let ?db = "db\<lparr>ad_events := ad_events db @ [?r]\<rparr>"
  obtain t where t: "check_rows sha stream (stream_rows stream db) = Inr t"
    using inv chainedD [of sha stream db] by (auto simp: audit_inv_def)
  have "chained sha s ?db" for s
  proof (cases "s = stream")
    case True
    then show ?thesis using insert_next_row(3) [OF t new, of kind body] by (simp add: chained_def)
  next
    case False
    then have "stream_rows s ?db = stream_rows s db"
      by (auto simp: stream_rows_add next_row_def Let_def)
    then show ?thesis using inv by (simp add: audit_inv_def chained_def)
  qed
  then show ?thesis using inv body by (simp add: audit_inv_def next_row_def Let_def)
qed

lemma audit_inv_recovery: "audit_inv sha db \<Longrightarrow> audit_inv sha (db\<lparr>ad_recovery := rs\<rparr>)"
  by (simp add: audit_inv_def chained_def)

text \<open>The outcomes of closing a recovery mark on a stream whose chain holds.\<close>

lemma reconcile_closed_cases:
  assumes "chained sha stream db"
  obtains (refused) e where "reconcile_closed sha stream session evidence db = (Inl e, db)"
      "recovery_state stream session db \<noteq> Some MARK_RECOVERY_REQUIRED \<or> stream = [] \<or> session = [] \<or>
       evidence = [] \<or> find_key stream (reconcile_event_key session evidence) db \<noteq> None"
  | (closed) r rs where "find_key stream (reconcile_event_key session evidence) db = None"
      "recovery_state stream session db = Some MARK_RECOVERY_REQUIRED"
      "r = next_row sha stream (reconcile_event_key session evidence) ''RECOVERY_RECONCILED''
         (canonical (JObj [(''session_id'', JStr session), (''evidence_key'', JStr evidence)]))
         (stream_rows stream db)"
      "rs = update_where (\<lambda>q. recovery_key q = (stream, session))
         (\<lambda>q. q\<lparr>rv_state := MARK_RECONCILED_CLOSED\<rparr>) (ad_recovery db)"
      "reconcile_closed sha stream session evidence db =
         (Inr (), db\<lparr>ad_events := ad_events db @ [r], ad_recovery := rs\<rparr>)"
proof -
  let ?key = "reconcile_event_key session evidence"
  obtain t where t: "check_rows sha stream (stream_rows stream db) = Inr t"
    using chainedD [OF assms] by blast
  show ?thesis
  proof (cases "recovery_state stream session db = Some MARK_RECOVERY_REQUIRED \<and> stream \<noteq> [] \<and>
      session \<noteq> [] \<and> evidence \<noteq> [] \<and> find_key stream ?key db = None")
    case False
    then have "\<exists>e. reconcile_closed sha stream session evidence db = (Inl e, db)"
      using t by (auto simp: reconcile_closed_def Let_def)
    then show ?thesis using False refused by blast
  next
    case True
    then have none: "find_key stream ?key db = None" by simp
    show ?thesis
      by (rule closed [OF none _ refl refl])
        (use True t insert_next_row(1) [OF t none] in \<open>simp_all add: reconcile_closed_def Let_def\<close>)
  qed
qed

lemma audit_step_inv:
  assumes inv: "audit_inv sha db" and wf: "op_wf op"
  shows "audit_inv sha (audit_step sha db op)"
proof (cases op)
  case OpOpen
  then show ?thesis using inv
    by (auto simp: open_audit_ledger_def audit_inv_def chained_def stream_rows_def split: option.splits)
next
  case (OpAppend stream key kind payload)
  have ch: "chained sha stream db" using inv by (simp add: audit_inv_def)
  have body: "good_payload (canonical (scrub (JObj payload)))"
    using wf OpAppend wf_scrub [of "JObj payload"] redacted_scrub [of "JObj payload"]
    by (intro good_payload_canonical) (simp_all only: op_wf.simps)
  show ?thesis
  proof (cases "blank stream \<or> blank key \<or> blank kind")
    case True
    then show ?thesis using inv OpAppend by (auto simp: append_once_def)
  next
    case False
    then have nb: "\<not> blank stream" "\<not> blank key" "\<not> blank kind" by auto
    from ch nb show ?thesis
    proof (cases rule: append_once_cases [where payload = payload])
      case (created r)
      then show ?thesis using OpAppend audit_inv_add [OF inv created(1) body] by simp
    qed (use inv OpAppend in simp_all)
  qed
next
  case (OpNote stream session cause)
  then show ?thesis using inv audit_inv_recovery by (simp add: note_unreconciled_def)
next
  case (OpReconcile stream session evidence)
  have ch: "chained sha stream db" using inv by (simp add: audit_inv_def)
  have body: "good_payload (canonical (JObj [(''session_id'', JStr session), (''evidence_key'', JStr evidence)]))"
    by (intro good_payload_canonical) (auto simp: normal_key_def PRIVATE_KEYS_def lower_char_def)
  from ch show ?thesis
  proof (cases rule: reconcile_closed_cases [where session = session and evidence = evidence])
    case (closed r rs)
    then show ?thesis
      using OpReconcile audit_inv_recovery [OF audit_inv_add [OF inv closed(1) body], where rs = rs] by simp
  qed (use inv OpReconcile in simp)
qed

lemma audit_run_inv:
  "list_all op_wf ops \<Longrightarrow> audit_inv sha db \<Longrightarrow> audit_inv sha (foldl (audit_step sha) db ops)"
  by (induction ops arbitrary: db) (simp_all add: audit_step_inv)

lemma stream_rows_next:
  fixes kind body :: string
  assumes inv: "audit_inv sha db" and new: "find_key stream key db = None"
  defines "r \<equiv> next_row sha stream key kind body (stream_rows stream db)"
  shows "\<exists>new. stream_rows s (db\<lparr>ad_events := ad_events db @ [r]\<rparr>) = stream_rows s db @ new"
proof (cases "s = stream")
  case True
  obtain t where t: "check_rows sha stream (stream_rows stream db) = Inr t"
    using inv chainedD [of sha stream db] by (auto simp: audit_inv_def)
  show ?thesis using True insert_next_row(2) [OF t new, of kind body] unfolding r_def by blast
next
  case False
  then show ?thesis by (auto simp: stream_rows_add r_def next_row_def Let_def)
qed

lemma audit_step_grows:
  assumes inv: "audit_inv sha db"
  shows "\<exists>new. stream_rows s (audit_step sha db op) = stream_rows s db @ new"
proof (cases op)
  case OpOpen
  then show ?thesis by (auto simp: open_audit_ledger_def stream_rows_def split: option.splits)
next
  case (OpAppend stream key kind payload)
  have ch: "chained sha stream db" using inv by (simp add: audit_inv_def)
  show ?thesis
  proof (cases "blank stream \<or> blank key \<or> blank kind")
    case True
    then show ?thesis using OpAppend by (auto simp: append_once_def)
  next
    case False
    then have nb: "\<not> blank stream" "\<not> blank key" "\<not> blank kind" by auto
    from ch nb show ?thesis
      by (cases rule: append_once_cases [where payload = payload])
        (use OpAppend stream_rows_next [OF inv] in auto)
  qed
next
  case (OpNote stream session cause)
  then show ?thesis by (simp add: note_unreconciled_def)
next
  case (OpReconcile stream session evidence)
  have ch: "chained sha stream db" using inv by (simp add: audit_inv_def)
  have upd: "stream_rows s (db\<lparr>ad_events := es, ad_recovery := rs\<rparr>) =
      stream_rows s (db\<lparr>ad_events := es\<rparr>)" for es rs by (simp add: stream_rows_def)
  from ch show ?thesis
    by (cases rule: reconcile_closed_cases [where session = session and evidence = evidence])
      (use OpReconcile stream_rows_next [OF inv] upd in auto)
qed

lemma audit_run_grows:
  assumes "list_all op_wf ops" "audit_inv sha db"
  shows "\<exists>new. stream_rows s (foldl (audit_step sha) db ops) = stream_rows s db @ new"
  using assms
proof (induction ops arbitrary: db)
  case (Cons op ops)
  then have "audit_inv sha (audit_step sha db op)" by (simp add: audit_step_inv)
  then obtain new where "stream_rows s (foldl (audit_step sha) (audit_step sha db op) ops) =
      stream_rows s (audit_step sha db op) @ new"
    using Cons by auto
  then show ?case using Cons.prems audit_step_grows [of sha db s op] by auto
qed simp

lemma check_chain_seqs:
  "check_chain sha s n p rows = Inr t \<Longrightarrow> map ar_seq rows = map (\<lambda>i. n + int i) [0..<length rows]"
proof (induction rows arbitrary: n p)
  case (Cons r rows)
  then have "ar_seq r = n" "map ar_seq rows = map (\<lambda>i. n + 1 + int i) [0..<length rows]"
    by (auto split: if_splits)
  then show ?case by (simp add: upt_conv_Cons map_Suc_upt [symmetric] comp_def del: upt_Suc)
qed simp

lemma parse_rows_good:
  assumes "\<forall>r \<in> set rows. good_payload (ar_payload_json r)"
  shows "\<exists>evs. parse_rows rows = Inr evs \<and> map ev_seq evs = map ar_seq rows \<and>
           (\<forall>e \<in> set evs. redacted (ev_payload e))"
  using assms by (induction rows) (auto simp: good_payload_def)

lemma parse_rows_append:
  "parse_rows xs = Inr as \<Longrightarrow> parse_rows (xs @ ys) = Inr cs \<Longrightarrow> \<exists>bs. cs = as @ bs"
proof (induction xs arbitrary: as cs)
  case (Cons r xs)
  then obtain e as' cs' where "parse_rows xs = Inr as'" "parse_rows (xs @ ys) = Inr cs'"
      and eq: "as = e # as'" "cs = e # cs'"
    by (auto split: option.splits sum.splits)
  then obtain bs where "cs' = as' @ bs" using Cons.IH by blast
  then show ?case using eq by simp
qed simp

lemma read_events_inv:
  assumes inv: "audit_inv sha db"
  shows "\<exists>evs. read_events sha s s db = Inr evs \<and> parse_rows (stream_rows s db) = Inr evs \<and>
           map ev_seq evs = map (\<lambda>i. 1 + int i) [0..<length evs] \<and>
           (\<forall>e \<in> set evs. redacted (ev_payload e))"
proof -
  obtain t where t: "check_rows sha s (stream_rows s db) = Inr t"
    using inv chainedD [of sha s db] by (auto simp: audit_inv_def)
  have "\<forall>r \<in> set (stream_rows s db). good_payload (ar_payload_json r)"
    using inv by (auto simp: audit_inv_def set_stream_rows)
  then obtain evs where evs: "parse_rows (stream_rows s db) = Inr evs"
      "map ev_seq evs = map ar_seq (stream_rows s db)" "\<forall>e \<in> set evs. redacted (ev_payload e)"
    using parse_rows_good by blast
  moreover have "length evs = length (stream_rows s db)" using evs(2) by (metis length_map)
  ultimately show ?thesis
    using t check_chain_seqs [of sha s 1 GENESIS "stream_rows s db" t]
    by (auto simp: read_events_def check_rows_def)
qed

section \<open>Properties of the audit ledger\<close>

text \<open>
  C5: History only grows.  In every database the operations write, with any hash function, each
  stream can be read; after any further operations what was read is an unchanged prefix of what is
  read; the sequence numbers are 1, 2, 3 and so on without a gap; and no private key of any payload
  holds anything but the redaction mark.
\<close>

theorem ledger_history_only_grows:
  assumes "list_all op_wf (before @ after)"
    and "db1 = foldl (audit_step sha) empty_audit_db before" "db2 = foldl (audit_step sha) db1 after"
  shows "\<exists>old new. read_events sha s s db1 = Inr old \<and> read_events sha s s db2 = Inr (old @ new) \<and>
           map ev_seq (old @ new) = map (\<lambda>i. 1 + int i) [0..<length (old @ new)] \<and>
           (\<forall>e \<in> set (old @ new). redacted (ev_payload e))"
proof -
  have inv1: "audit_inv sha db1" and inv2: "audit_inv sha db2"
    using assms audit_run_inv audit_inv_empty by (auto simp: list_all_append)
  obtain new where "stream_rows s db2 = stream_rows s db1 @ new"
    using audit_run_grows [OF _ inv1, of after s] assms by (auto simp: list_all_append)
  then show ?thesis
    using read_events_inv [OF inv1, of s] read_events_inv [OF inv2, of s] parse_rows_append by metis
qed

theorem ledger_history_only_grows_witness:
  "\<exists>old new. read_events id ''s'' ''s'' (snd (append_once id ''s'' ''k'' ''t''
       [(''Api-Key'', JStr ''x'')] empty_audit_db)) = Inr (old @ new) \<and>
     (\<forall>e \<in> set (old @ new). redacted (ev_payload e))"
  using ledger_history_only_grows [of "[]" "[OpAppend ''s'' ''k'' ''t'' [(''Api-Key'', JStr ''x'')]]"
      "foldl (audit_step id) empty_audit_db []" id _ "''s''", OF _ refl refl]
  by auto

text \<open>The texts whose hashes a chain holds, and a collision between two chains.\<close>

definition chain_texts :: "string \<Rightarrow> audit_row list \<Rightarrow> string set" where
  "chain_texts s rows = (\<lambda>r. digest_text s (ar_seq r) (ar_key r) (ar_kind r) (ar_payload_json r)
     (ar_prev_sha r)) ` set rows"

definition forged ::
  "(string \<Rightarrow> string) \<Rightarrow> string \<Rightarrow> audit_row list \<Rightarrow> audit_row list \<Rightarrow> bool" where
  "forged sha s rows rows' \<longleftrightarrow>
     (\<exists>x \<in> chain_texts s rows. \<exists>y \<in> chain_texts s rows'. x \<noteq> y \<and> sha x = sha y) \<or>
     (\<exists>x \<in> chain_texts s rows \<union> chain_texts s rows'. sha x = GENESIS)"

lemma digest_text_inj:
  assumes "digest_text s n k t b p = digest_text s n' k' t' b' p'"
  shows "n = n' \<and> k = k' \<and> t = t' \<and> b = b' \<and> p = p'"
proof -
  let ?l = "\<lambda>n k t b p. JList [JNum (show_int SCHEMA_VERSION), JStr s, JNum (show_int n), JStr k,
      JStr t, JStr b, JStr p]"
  have "?l n k t b p = ?l n' k' t' b' p'"
    using assms by (intro dumps_inj [of _ _ "[]" False])
      (simp_all add: digest_text_def canonical_def show_int_literal)
  then show ?thesis by (simp add: show_int_inj)
qed

lemma forged_mono:
  "forged sha s rows rows' \<Longrightarrow> forged sha s (rows @ [r]) (rows' @ [r'])"
  unfolding forged_def chain_texts_def by (simp add: image_Un) blast

lemma chain_unique:
  assumes "check_chain sha s n GENESIS rows = Inr t" "check_chain sha s n GENESIS rows' = Inr t"
    and "\<forall>r \<in> set rows \<union> set rows'. ar_stream r = s"
  shows "rows = rows' \<or> forged sha s rows rows'"
  using assms
proof (induction rows arbitrary: rows' t rule: rev_induct)
  case Nil
  show ?case
  proof (cases rows' rule: rev_cases)
    case (snoc xs x)
    then show ?thesis using Nil
      by (auto simp: check_chain_snoc forged_def chain_texts_def digest_def split: sum.splits if_splits)
  qed simp
next
  case (snoc r rows)
  show ?case
  proof (cases rows' rule: rev_cases)
    case Nil
    then show ?thesis using snoc.prems
      by (auto simp: check_chain_snoc forged_def chain_texts_def digest_def split: sum.splits if_splits)
  next
    case (snoc xs x)
    let ?text = "\<lambda>r. digest_text s (ar_seq r) (ar_key r) (ar_kind r) (ar_payload_json r) (ar_prev_sha r)"
    have a: "check_chain sha s n GENESIS rows = Inr (ar_prev_sha r)" "sha (?text r) = t"
        "ar_event_sha r = t"
      using snoc.prems(1) by (auto simp: check_chain_snoc digest_def split: sum.splits if_splits)
    have b: "check_chain sha s n GENESIS xs = Inr (ar_prev_sha x)" "sha (?text x) = t"
        "ar_event_sha x = t"
      using snoc.prems(2) snoc by (auto simp: check_chain_snoc digest_def split: sum.splits if_splits)
    show ?thesis
    proof (cases "?text r = ?text x")
      case False
      then show ?thesis using a b snoc by (force simp: forged_def chain_texts_def)
    next
      case True
      note eq = digest_text_inj [OF True]
      have "ar_stream r = s" "ar_stream x = s" using snoc.prems(3) snoc by auto
      then have "r = x" using eq a b by simp
      have xs: "check_chain sha s n GENESIS xs = Inr (ar_prev_sha r)" using b(1) eq by metis
      have "\<forall>q \<in> set rows \<union> set xs. ar_stream q = s"
        using snoc.prems(3) unfolding snoc by simp
      then have "rows = xs \<or> forged sha s rows xs" by (rule snoc.IH [OF a(1) xs])
      then show ?thesis unfolding snoc \<open>r = x\<close> using forged_mono by blast
    qed
  qed
qed

text \<open>
  C4: Tampering with the file is evident to whoever kept the tail.  Whatever two databases hold,
  if both verify a stream against the same external tail checkpoint, then the stream's rows are
  the same in both, or the two chains exhibit a collision of the hash (two different texts among
  those they hash with the same hash) or a text that hashes to the genesis value.
\<close>

theorem tail_checkpoint_detects_tampering:
  assumes "verify sha s (Some tail) db = Inr t" "verify sha s (Some tail) db' = Inr t'"
  shows "stream_rows s db = stream_rows s db' \<or> forged sha s (stream_rows s db) (stream_rows s db')"
proof (rule chain_unique)
  show "check_chain sha s 1 GENESIS (stream_rows s db) = Inr tail"
    "check_chain sha s 1 GENESIS (stream_rows s db') = Inr tail"
    using assms by (auto simp: verify_def check_rows_def split: sum.splits if_splits)
qed (auto simp: set_stream_rows)

text \<open>Two ledgers that differ, under a hash that maps everything to one value.\<close>

definition demo_audit_db :: "string \<Rightarrow> audit_db" where
  "demo_audit_db n =
     snd (append_once (\<lambda>_. ''h'') ''s'' ''k1'' ''t'' [(''a'', JNum n)] empty_audit_db)"

theorem tail_checkpoint_detects_tampering_witness:
  "stream_rows ''s'' (demo_audit_db ''1'') \<noteq> stream_rows ''s'' (demo_audit_db ''2'') \<and>
   forged (\<lambda>_. ''h'') ''s'' (stream_rows ''s'' (demo_audit_db ''1''))
     (stream_rows ''s'' (demo_audit_db ''2''))"
proof -
  have "verify (\<lambda>_. ''h'') ''s'' (Some ''h'') (demo_audit_db ''1'') = Inr ''h''" by code_simp
  moreover have "verify (\<lambda>_. ''h'') ''s'' (Some ''h'') (demo_audit_db ''2'') = Inr ''h''" by code_simp
  moreover have "map ar_payload_json (stream_rows ''s'' (demo_audit_db ''1'')) \<noteq>
      map ar_payload_json (stream_rows ''s'' (demo_audit_db ''2''))" by code_simp
  then have "stream_rows ''s'' (demo_audit_db ''1'') \<noteq> stream_rows ''s'' (demo_audit_db ''2'')"
    by metis
  ultimately show ?thesis
    using tail_checkpoint_detects_tampering [of "\<lambda>_. ''h''" "''s''" "''h''" "demo_audit_db ''1''"
        "''h''" "demo_audit_db ''2''" "''h''"] by blast
qed

text \<open>
  C12: Closing a recovery mark is atomic and happens once.  On a stream whose chain holds, the call
  succeeds exactly when all three identifiers are nonempty, the session is marked
  RECOVERY_REQUIRED and this evidence was never used for it before.  Then the receipt is the last
  row of the stream, the chain still holds, the mark is RECONCILED_CLOSED, and repeating the call
  fails; otherwise it raises and the database is unchanged.
\<close>

theorem reconciliation_is_atomic:
  assumes "chained sha stream db"
  shows "if stream \<noteq> [] \<and> session \<noteq> [] \<and> evidence \<noteq> [] \<and>
            recovery_state stream session db = Some MARK_RECOVERY_REQUIRED \<and>
            find_key stream (reconcile_event_key session evidence) db = None
         then \<exists>db' r. reconcile_closed sha stream session evidence db = (Inr (), db') \<and>
                chained sha stream db' \<and> stream_rows stream db' = stream_rows stream db @ [r] \<and>
                ar_key r = reconcile_event_key session evidence \<and>
                recovery_state stream session db' = Some MARK_RECONCILED_CLOSED \<and>
                (\<exists>e. reconcile_closed sha stream session evidence db' = (Inl e, db'))
         else \<exists>e. reconcile_closed sha stream session evidence db = (Inl e, db)"
  using assms
proof (cases rule: reconcile_closed_cases [where session = session and evidence = evidence])
  case (refused e)
  then show ?thesis by auto
next
  case (closed r rs)
  let ?db = "db\<lparr>ad_events := ad_events db @ [r], ad_recovery := rs\<rparr>"
  obtain t where t: "check_rows sha stream (stream_rows stream db) = Inr t"
    using chainedD [OF assms] by blast
  have "stream_rows stream (db\<lparr>ad_events := ad_events db @ [r]\<rparr>) = stream_rows stream db @ [r]"
    "chained sha stream (db\<lparr>ad_events := ad_events db @ [r]\<rparr>)"
    using insert_next_row(2,3) [OF t closed(1)] closed(3) by (simp_all add: chained_def)
  then have rows: "stream_rows stream ?db = stream_rows stream db @ [r]" and ch: "chained sha stream ?db"
    by (simp_all add: chained_def stream_rows_def)
  obtain z where z: "row_at recovery_key (stream, session) (ad_recovery db) = Some z"
    using closed(2) by (auto simp: recovery_state_def)
  then have "recovery_key z = (stream, session)" by (auto dest: row_at_SomeD)
  then have "row_at recovery_key (stream, session) rs = Some (z\<lparr>rv_state := MARK_RECONCILED_CLOSED\<rparr>)"
    unfolding closed(4) using z by (subst row_at_update_where) (simp_all add: recovery_key_def)
  then have mark: "recovery_state stream session ?db = Some MARK_RECONCILED_CLOSED"
    by (simp add: recovery_state_def)
  then have "\<exists>e. reconcile_closed sha stream session evidence ?db = (Inl e, ?db)"
    using ch by (auto simp: reconcile_closed_def)
  moreover have "ar_key r = reconcile_event_key session evidence"
    using closed(3) by (simp add: next_row_def Let_def)
  moreover have "stream \<noteq> [] \<and> session \<noteq> [] \<and> evidence \<noteq> []"
    using closed(5) by (auto simp: reconcile_closed_def split: if_splits)
  ultimately show ?thesis using closed(1,2,5) rows ch mark by auto
qed

definition demo_marked_db :: audit_db where
  "demo_marked_db = snd (note_unreconciled ''s'' ''w1'' ''crash'' empty_audit_db)"

theorem reconciliation_is_atomic_witness:
  "\<exists>db' r. reconcile_closed id ''s'' ''w1'' ''ev'' demo_marked_db = (Inr (), db') \<and>
     stream_rows ''s'' db' = [r] \<and> recovery_state ''s'' ''w1'' db' = Some MARK_RECONCILED_CLOSED"
proof -
  have ch: "chained id ''s'' demo_marked_db" by code_simp
  have rows: "stream_rows ''s'' demo_marked_db = []" by code_simp
  have "recovery_state ''s'' ''w1'' demo_marked_db = Some MARK_RECOVERY_REQUIRED" by code_simp
  moreover have "find_key ''s'' (reconcile_event_key ''w1'' ''ev'') demo_marked_db = None"
    by (simp add: find_key_def demo_marked_db_def note_unreconciled_def empty_audit_db_def)
  ultimately show ?thesis using reconciliation_is_atomic [OF ch, of "''w1''" "''ev''"] rows
    by auto
qed

end
