(* ===== verification/MessageBus.thy ===== *)
theory MessageBus
  imports Contracts AuditLedger
begin

text \<open>
  \<open>src/subagentbridge/messaging/bus.py\<close>: \<open>DurableMessageBus\<close>, which queues and acknowledges
  messages as events of one stream of the audit ledger.  It relies on the ledger as an
  \<open>idempotent_log\<close>; the exactly-once facts of that locale, interpreted in theory AuditLedger,
  give the bus's.
\<close>

definition mk_bus :: "string \<Rightarrow> exn + string" where
  "mk_bus stream = (if stream = [] then raise ValueError ''run stream required'' else ok stream)"

text \<open>\<open>dataclasses.asdict(message)\<close>.\<close>

definition message_payload :: "message \<Rightarrow> (string \<times> json) list" where
  "message_payload m =
     [(''message_id'', JStr (m_message_id m)), (''from_principal'', JStr (m_from_principal m)),
      (''to_principal'', JStr (m_to_principal m)), (''task_id'', JStr (m_task_id m)),
      (''dispatch_id'', JStr (m_dispatch_id m)), (''payload'', JStr (m_payload m))]"

definition message_key :: "string \<Rightarrow> string" where
  "message_key message_id = ''message:'' @ message_id"

definition enqueue ::
  "(string \<Rightarrow> string) \<Rightarrow> string \<Rightarrow> message \<Rightarrow> string \<Rightarrow> string \<Rightarrow> audit_db \<Rightarrow> (exn + bool) \<times> audit_db"
  where
  "enqueue sha stream m active_task_id active_dispatch_id db =
     (if (m_task_id m, m_dispatch_id m) \<noteq> (active_task_id, active_dispatch_id)
      then (raise PermissionError ''cross-dispatch or stale message denied'', db)
      else if m_from_principal m = ''*'' \<or> m_to_principal m = ''*''
      then (raise PermissionError ''worker broadcast not available'', db)
      else if utf8_len (m_payload m) > 65536
      then (raise ValueError ''message payload must be bounded UTF-8 text'', db)
      else case append_once sha stream (message_key (m_message_id m)) ''MESSAGE_QUEUED''
                  (message_payload m) db of
             (Inl e, db') \<Rightarrow> (Inl e, db')
           | (Inr (_, created), db') \<Rightarrow> (ok created, db'))"

text \<open>\<open>x.payload[k]\<close> of a payload that was read back.\<close>

definition payload_field :: "string \<Rightarrow> json \<Rightarrow> json option" where
  "payload_field k v = (case v of JObj kvs \<Rightarrow> map_of kvs k | _ \<Rightarrow> None)"

definition payload_get :: "string \<Rightarrow> json \<Rightarrow> exn + json" where
  "payload_get k v =
     (case v of
        JObj kvs \<Rightarrow> (case map_of kvs k of None \<Rightarrow> raise KeyError k | Some x \<Rightarrow> ok x)
      | _ \<Rightarrow> raise TypeError ''payload is no dictionary'')"

text \<open>The list comprehension of \<open>ack\<close>: the first queued event without a message id raises.\<close>

fun queued_messages :: "string \<Rightarrow> audit_event list \<Rightarrow> exn + audit_event list" where
  "queued_messages message_id [] = ok []"
| "queued_messages message_id (ev # events) =
     (if ev_kind ev \<noteq> ''MESSAGE_QUEUED'' then queued_messages message_id events
      else and_then (payload_get ''message_id'' (ev_payload ev)) (\<lambda>v.
        and_then (queued_messages message_id events) (\<lambda>found.
          ok (if v = JStr message_id then ev # found else found))))"

definition queued_message :: "string \<Rightarrow> audit_event \<Rightarrow> bool" where
  "queued_message message_id ev \<longleftrightarrow> ev_kind ev = ''MESSAGE_QUEUED'' \<and>
     payload_field ''message_id'' (ev_payload ev) = Some (JStr message_id)"

lemma payload_get_ok: "payload_get k v = Inr x \<longleftrightarrow> payload_field k v = Some x"
  by (auto simp: payload_get_def payload_field_def split: json.splits option.splits)

lemma queued_messages_ok:
  "queued_messages i events = Inr found \<Longrightarrow> found = filter (queued_message i) events"
  by (induction events arbitrary: found)
    (auto simp: and_then_ok_iff payload_get_ok queued_message_def split: if_splits)

definition ack_key :: "string \<Rightarrow> string \<Rightarrow> string" where
  "ack_key message_id recipient_id =
     ''ack:'' @ show_int (int (length message_id)) @ '':'' @ message_id @ '':'' @ recipient_id"

definition ack ::
  "(string \<Rightarrow> string) \<Rightarrow> string \<Rightarrow> string \<Rightarrow> string \<Rightarrow> audit_db \<Rightarrow> (exn + bool) \<times> audit_db" where
  "ack sha stream message_id recipient_id db =
     (if message_id = [] \<or> recipient_id = []
      then (raise ValueError ''message and recipient required'', db)
      else case read_events sha stream stream db of
             Inl e \<Rightarrow> (Inl e, db)
           | Inr events \<Rightarrow>
               (case queued_messages message_id events of
                  Inl e \<Rightarrow> (Inl e, db)
                | Inr [ev] \<Rightarrow>
                    (case payload_get ''to_principal'' (ev_payload ev) of
                       Inl e \<Rightarrow> (Inl e, db)
                     | Inr v \<Rightarrow>
                         if v \<noteq> JStr recipient_id
                         then (raise PermissionError ''ack target mismatch'', db)
                         else (case append_once sha stream (ack_key message_id recipient_id) ''MESSAGE_ACK''
                                 [(''message_id'', JStr message_id), (''recipient_id'', JStr recipient_id)] db of
                               (Inl e, db') \<Rightarrow> (Inl e, db')
                             | (Inr (_, created), db') \<Rightarrow> (ok created, db')))
                | Inr _ \<Rightarrow> (raise PermissionError ''ack target mismatch'', db)))"

section \<open>The bus on the log\<close>

datatype bus_op = Enqueue message string string | Ack string string

fun bus_step :: "(string \<Rightarrow> string) \<Rightarrow> string \<Rightarrow> audit_db \<Rightarrow> bus_op \<Rightarrow> audit_db" where
  "bus_step sha stream db (Enqueue m t d) = snd (enqueue sha stream m t d db)"
| "bus_step sha stream db (Ack i r) = snd (ack sha stream i r db)"

definition message_content :: "message \<Rightarrow> string \<times> (string \<times> json) list" where
  "message_content m = (''MESSAGE_QUEUED'', message_payload m)"

lemma enqueue_cases:
  obtains (refused) e where "enqueue sha stream m t d db = (Inl e, db)"
      "\<not> ((m_task_id m, m_dispatch_id m) = (t, d) \<and> m_from_principal m \<noteq> ''*'' \<and>
          m_to_principal m \<noteq> ''*'' \<and> utf8_len (m_payload m) \<le> 65536)"
  | (queued) "enqueue sha stream m t d db =
        stream_append sha stream (message_key (m_message_id m)) (message_content m) db"
      "(m_task_id m, m_dispatch_id m) = (t, d)" "m_from_principal m \<noteq> ''*''"
      "m_to_principal m \<noteq> ''*''" "utf8_len (m_payload m) \<le> 65536"
proof (cases "(m_task_id m, m_dispatch_id m) = (t, d) \<and> m_from_principal m \<noteq> ''*'' \<and>
          m_to_principal m \<noteq> ''*'' \<and> utf8_len (m_payload m) \<le> 65536")
  case True
  then show ?thesis using queued
    by (simp add: enqueue_def stream_append_def message_content_def)
next
  case False
  then have "\<exists>e. enqueue sha stream m t d db = (Inl e, db)" by (auto simp: enqueue_def)
  then show ?thesis using False refused by blast
qed

lemma ack_cases:
  obtains (refused) e where "ack sha stream i r db = (Inl e, db)"
  | (acked) events ev where
      "read_events sha stream stream db = Inr events" "filter (queued_message i) events = [ev]"
      "payload_field ''to_principal'' (ev_payload ev) = Some (JStr r)"
      "ack sha stream i r db = stream_append sha stream (ack_key i r)
         (''MESSAGE_ACK'', [(''message_id'', JStr i), (''recipient_id'', JStr r)]) db"
proof -
  have "(\<exists>e. ack sha stream i r db = (Inl e, db)) \<or>
    (\<exists>events ev. read_events sha stream stream db = Inr events \<and>
       filter (queued_message i) events = [ev] \<and>
       payload_field ''to_principal'' (ev_payload ev) = Some (JStr r) \<and>
       ack sha stream i r db = stream_append sha stream (ack_key i r)
         (''MESSAGE_ACK'', [(''message_id'', JStr i), (''recipient_id'', JStr r)]) db)"
    by (auto simp: ack_def stream_append_def payload_get_ok split: sum.splits list.splits
        dest!: queued_messages_ok)
  then show ?thesis using that by blast
qed

text \<open>A call of the bus is a step of the log or changes nothing, so a run of the bus is one of the log.\<close>

lemma log_step_eq:
  "snd (stream_append sha stream k c db) = audit_log.log_step sha stream db (k, c)"
  by (simp add: audit_log.log_step_def)

lemma bus_step_log:
  "bus_step sha stream db op = db \<or> (\<exists>kc. bus_step sha stream db op = audit_log.log_step sha stream db kc)"
proof (cases op)
  case (Enqueue m t d)
  show ?thesis
  proof (cases rule: enqueue_cases [of sha stream m t d db])
    case queued
    then have "bus_step sha stream db op = audit_log.log_step sha stream db
        (message_key (m_message_id m), message_content m)"
      by (simp only: Enqueue bus_step.simps log_step_eq)
    then show ?thesis by blast
  qed (simp add: Enqueue)
next
  case (Ack i r)
  show ?thesis
  proof (cases rule: ack_cases [of sha stream i r db])
    case (acked events ev)
    then have "bus_step sha stream db op = audit_log.log_step sha stream db (ack_key i r,
        (''MESSAGE_ACK'', [(''message_id'', JStr i), (''recipient_id'', JStr r)]))"
      by (simp only: Ack bus_step.simps log_step_eq)
    then show ?thesis by blast
  qed (simp add: Ack)
qed

lemma bus_run_log:
  "\<exists>kcs. foldl (bus_step sha stream) db ops = foldl (audit_log.log_step sha stream) db kcs"
proof (induction ops arbitrary: db)
  case Nil
  show ?case by (intro exI [of _ "[]"]) simp
next
  case (Cons op ops)
  from bus_step_log [of sha stream db op] show ?case
  proof
    assume "bus_step sha stream db op = db"
    then show ?thesis using Cons [of db] by simp
  next
    assume "\<exists>kc. bus_step sha stream db op = audit_log.log_step sha stream db kc"
    then obtain kc where kc: "bus_step sha stream db op = audit_log.log_step sha stream db kc" by blast
    obtain kcs where "foldl (bus_step sha stream) (audit_log.log_step sha stream db kc) ops =
        foldl (audit_log.log_step sha stream) (audit_log.log_step sha stream db kc) kcs"
      using Cons by blast
    then show ?thesis using kc by (intro exI [of _ "kc # kcs"]) simp
  qed
qed

lemma plain_message_keys [simp]:
  "normal_key ''message_id'' \<notin> PRIVATE_KEYS" "normal_key ''from_principal'' \<notin> PRIVATE_KEYS"
  "normal_key ''to_principal'' \<notin> PRIVATE_KEYS" "normal_key ''task_id'' \<notin> PRIVATE_KEYS"
  "normal_key ''dispatch_id'' \<notin> PRIVATE_KEYS" "normal_key ''payload'' \<notin> PRIVATE_KEYS"
  by code_simp+

lemma scrub_message: "scrub (JObj (message_payload m)) = JObj (message_payload m)"
  by (simp add: message_payload_def)

lemma wf_message: "wf_json (JObj (message_payload m))"
  by (simp add: message_payload_def)

lemma sorted_message:
  "\<exists>kvs. sort_keys (JObj (message_payload m)) = JObj kvs \<and> set kvs = set (message_payload m) \<and>
     distinct (map fst kvs)"
proof -
  have "wf_json (sort_keys (JObj (message_payload m)))" using wf_sort_keys wf_message by blast
  moreover have "map (\<lambda>(k, v). (k, sort_keys v)) (message_payload m) = message_payload m"
    by (simp add: message_payload_def)
  ultimately show ?thesis
    by (intro exI [of _ "sort_key fst (message_payload m)"]) simp
qed

lemma read_message:
  "\<exists>kvs. loads (canonical (JObj (message_payload m))) = Some (JObj kvs) \<and>
     set kvs = set (message_payload m) \<and> distinct (map fst kvs)"
  using loads_sorted [OF wf_message, of "[]" False m] sorted_message [of m]
  by (auto simp: canonical_def)

lemma message_rep_inj:
  assumes "content_rep (message_content m) = content_rep (message_content m')"
  shows "m = m'"
proof -
  have "canonical (JObj (message_payload m)) = canonical (JObj (message_payload m'))"
    using assms by (simp add: content_rep_def message_content_def scrub_message del: scrub.simps)
  then have "set (message_payload m) = set (message_payload m')"
    using read_message [of m] read_message [of m'] by auto
  then have eq: "x \<in> set (message_payload m) \<Longrightarrow> x \<in> set (message_payload m')" for x by simp
  show ?thesis
    using eq [of "(''message_id'', JStr (m_message_id m))"]
      eq [of "(''from_principal'', JStr (m_from_principal m))"]
      eq [of "(''to_principal'', JStr (m_to_principal m))"]
      eq [of "(''task_id'', JStr (m_task_id m))"] eq [of "(''dispatch_id'', JStr (m_dispatch_id m))"]
      eq [of "(''payload'', JStr (m_payload m))"]
    by (cases m; cases m') (simp add: message_payload_def)
qed

section \<open>Properties of the bus\<close>

text \<open>
  C11: A message is queued once.  After an enqueue that succeeds on a stream whose chain holds,
  whatever the bus does next, enqueueing the same message again is a replay that answers False and
  writes nothing, and another message under the same id is refused and writes nothing.
\<close>

theorem message_queued_exactly_once:
  assumes "chained sha stream db" "enqueue sha stream m t d db = (Inr b, db1)"
    and "db2 = foldl (bus_step sha stream) db1 ops"
  shows "enqueue sha stream m t d db2 = (Inr False, db2) \<and>
    (\<forall>m' t' d'. m_message_id m' = m_message_id m \<longrightarrow> m' \<noteq> m \<longrightarrow>
       (\<exists>e. enqueue sha stream m' t' d' db2 = (Inl e, db2)))"
proof -
  let ?k = "message_key (m_message_id m)"
  have q: "stream_append sha stream ?k (message_content m) db = (Inr b, db1)"
      "(m_task_id m, m_dispatch_id m) = (t, d)" "m_from_principal m \<noteq> ''*''"
      "m_to_principal m \<noteq> ''*''" "utf8_len (m_payload m) \<le> 65536"
    using assms(2) by (cases rule: enqueue_cases [of sha stream m t d db]; simp)+
  obtain kcs where "db2 = foldl (audit_log.log_step sha stream)
      (snd (stream_append sha stream ?k (message_content m) db)) kcs"
    using bus_run_log assms(3) q(1) by (metis snd_conv)
  note once = audit_log.append_exactly_once [OF assms(1) _ this, of b]
  have same: "stream_append sha stream ?k (message_content m) db2 = (Inr False, db2)"
    using once q(1) by simp
  have other: "\<exists>e. stream_append sha stream ?k (message_content m') db2 = (Inl e, db2)" if "m' \<noteq> m" for m'
    using once [of "message_content m'"] q(1) message_rep_inj [of m' m] that by auto
  have "enqueue sha stream m t d db2 = (Inr False, db2)"
    using q same by (cases rule: enqueue_cases [of sha stream m t d db2]) auto
  moreover have "\<exists>e. enqueue sha stream m' t' d' db2 = (Inl e, db2)"
    if "m_message_id m' = m_message_id m" "m' \<noteq> m" for m' t' d'
    using other [OF that(2)] that(1) by (cases rule: enqueue_cases [of sha stream m' t' d' db2]) auto
  ultimately show ?thesis by blast
qed

definition demo_message :: message where
  "demo_message = \<lparr>m_message_id = ''m1'', m_from_principal = ''pm'', m_to_principal = ''dev'',
     m_task_id = ''t1'', m_dispatch_id = ''d1'', m_payload = ''go''\<rparr>"

theorem message_queued_exactly_once_witness:
  "fst (enqueue id ''s'' demo_message ''t1'' ''d1'' empty_audit_db) = Inr True \<and>
   fst (enqueue id ''s'' demo_message ''t1'' ''d1''
     (bus_step id ''s'' (snd (enqueue id ''s'' demo_message ''t1'' ''d1'' empty_audit_db))
       (Ack ''m1'' ''dev''))) = Inr False"
proof -
  have ch: "chained id ''s'' empty_audit_db"
    using audit_inv_empty by (simp add: audit_inv_def)
  obtain r db where e: "enqueue id ''s'' demo_message ''t1'' ''d1'' empty_audit_db = (r, db)"
    by fastforce
  have r: "r = Inr True"
  proof (cases rule: enqueue_cases [of id "''s''" demo_message "''t1''" "''d1''" empty_audit_db])
    case (refused x)
    then show ?thesis by (simp add: demo_message_def utf8_len_def)
  next
    case queued
    have "stored_content ''s'' (message_key ''m1'') empty_audit_db = None"
      by (simp add: stored_content_def find_key_def empty_audit_db_def)
    then show ?thesis using queued e audit_log.append_new [OF ch, of "message_key ''m1''" "message_content demo_message"]
      by (simp add: demo_message_def message_content_def message_key_def py_isspace_def)
  qed
  from message_queued_exactly_once [OF ch e [unfolded r], of
      "bus_step id ''s'' db (Ack ''m1'' ''dev'')" "[Ack ''m1'' ''dev'']"]
  show ?thesis using e r by simp
qed

text \<open>What the bus writes: every queued row of its stream holds a message it was given.\<close>

definition queued_from :: "string \<Rightarrow> message set \<Rightarrow> audit_db \<Rightarrow> bool" where
  "queued_from stream M db \<longleftrightarrow>
     (\<forall>r \<in> set (ad_events db). ar_stream r = stream \<longrightarrow> ar_kind r = ''MESSAGE_QUEUED'' \<longrightarrow>
        (\<exists>m \<in> M. ar_payload_json r = canonical (JObj (message_payload m))))"

lemma stream_append_events:
  "set (ad_events (snd (stream_append sha stream k c db))) \<subseteq>
     insert (next_row sha stream k (fst c) (canonical (scrub (JObj (snd c)))) (stream_rows stream db))
       (set (ad_events db))"
  by (auto simp: stream_append_def append_once_def insert_event_def Let_def
      split: sum.splits option.splits if_splits)

lemma queued_from_append:
  assumes "queued_from stream M db"
    and "fst c = ''MESSAGE_QUEUED'' \<Longrightarrow> \<exists>m \<in> M'. canonical (scrub (JObj (snd c))) = canonical (JObj (message_payload m))"
    and "M \<subseteq> M'"
  shows "queued_from stream M' (snd (stream_append sha stream k c db))"
proof -
  let ?r = "next_row sha stream k (fst c) (canonical (scrub (JObj (snd c)))) (stream_rows stream db)"
  have "ar_kind ?r = fst c" "ar_payload_json ?r = canonical (scrub (JObj (snd c)))"
    by (simp_all add: next_row_def Let_def)
  then show ?thesis
    using assms stream_append_events [of sha stream k c db] unfolding queued_from_def by fastforce
qed

lemma queued_from_mono: "queued_from stream M db \<Longrightarrow> M \<subseteq> M' \<Longrightarrow> queued_from stream M' db"
  by (auto simp: queued_from_def)

definition sent :: "bus_op list \<Rightarrow> message set" where
  "sent ops = {m. \<exists>t d. Enqueue m t d \<in> set ops \<and> (m_task_id m, m_dispatch_id m) = (t, d)}"

lemma queued_from_run:
  assumes "queued_from stream {} db"
  shows "queued_from stream (sent ops) (foldl (bus_step sha stream) db ops)"
proof (induction ops rule: rev_induct)
  case Nil
  show ?case using assms by (simp add: sent_def)
next
  case (snoc op ops)
  let ?db = "foldl (bus_step sha stream) db ops"
  have sub: "sent ops \<subseteq> sent (ops @ [op])" by (auto simp: sent_def)
  show ?case
  proof (cases op)
    case (Enqueue m t d)
    show ?thesis
    proof (cases rule: enqueue_cases [of sha stream m t d ?db])
      case (refused e)
      then show ?thesis using Enqueue snoc queued_from_mono [OF _ sub] by simp
    next
      case queued
      then have "m \<in> sent (ops @ [op])" using Enqueue by (auto simp: sent_def)
      moreover have "canonical (scrub (JObj (snd (message_content m)))) = canonical (JObj (message_payload m))"
        by (simp add: message_content_def scrub_message del: scrub.simps)
      ultimately have "queued_from stream (sent (ops @ [op])) (snd (stream_append sha stream
          (message_key (m_message_id m)) (message_content m) ?db))"
        by (intro queued_from_append [OF snoc _ sub]) blast
      then show ?thesis using Enqueue queued(1) by simp
    qed
  next
    case (Ack i r)
    show ?thesis
    proof (cases rule: ack_cases [of sha stream i r ?db])
      case (refused e)
      then show ?thesis using Ack snoc queued_from_mono [OF _ sub] by simp
    next
      case (acked events ev)
      have "queued_from stream (sent (ops @ [op])) (snd (stream_append sha stream (ack_key i r)
          (''MESSAGE_ACK'', [(''message_id'', JStr i), (''recipient_id'', JStr r)]) ?db))"
        by (intro queued_from_append [OF snoc _ sub]) simp
      then show ?thesis using Ack acked(4) by simp
    qed
  qed
qed

lemma parse_rows_mem:
  "parse_rows rows = Inr evs \<Longrightarrow> e \<in> set evs \<Longrightarrow>
     \<exists>r \<in> set rows. ev_kind e = ar_kind r \<and> loads (ar_payload_json r) = Some (ev_payload e)"
  by (induction rows arbitrary: evs) (fastforce split: option.splits sum.splits)+

text \<open>
  Only the addressee acknowledges.  On a stream that only the bus writes, an acknowledgement
  succeeds only for the recipient of a message with that id that was sent on the bus for its own
  task and dispatch.
\<close>

theorem only_addressee_acknowledges:
  assumes "stream_rows stream db0 = []" "db = foldl (bus_step sha stream) db0 ops"
    and "ack sha stream message_id recipient db = (Inr b, db')"
  shows "\<exists>m t d. Enqueue m t d \<in> set ops \<and> (m_task_id m, m_dispatch_id m) = (t, d) \<and>
           m_message_id m = message_id \<and> m_to_principal m = recipient"
proof -
  have "queued_from stream {} db0"
    using assms(1) set_stream_rows [of stream db0] by (auto simp: queued_from_def)
  then have q: "queued_from stream (sent ops) db" using queued_from_run assms(2) by blast
  obtain events ev where ev: "read_events sha stream stream db = Inr events"
      "filter (queued_message message_id) events = [ev]"
      "payload_field ''to_principal'' (ev_payload ev) = Some (JStr recipient)"
    using assms(3) by (cases rule: ack_cases [of sha stream message_id recipient db]) auto
  have "ev \<in> set (filter (queued_message message_id) events)" unfolding ev(2) by simp
  then have mem: "ev \<in> set events" "queued_message message_id ev" by simp_all
  have "parse_rows (stream_rows stream db) = Inr events"
    using ev(1) by (auto simp: read_events_def split: sum.splits)
  then obtain r where r: "r \<in> set (stream_rows stream db)" "ev_kind ev = ar_kind r"
      "loads (ar_payload_json r) = Some (ev_payload ev)"
    using parse_rows_mem mem(1) by blast
  then obtain m where m: "m \<in> sent ops" "ar_payload_json r = canonical (JObj (message_payload m))"
    using q mem(2) by (auto simp: queued_from_def set_stream_rows queued_message_def)
  obtain kvs where kvs: "ev_payload ev = JObj kvs" "set kvs = set (message_payload m)"
      "distinct (map fst kvs)"
    using read_message [of m] r(3) m(2) by auto
  have "(''message_id'', JStr message_id) \<in> set kvs" "(''to_principal'', JStr recipient) \<in> set kvs"
    using mem(2) ev(3) kvs(1) by (auto simp: queued_message_def payload_field_def dest: map_of_SomeD)
  then have "m_message_id m = message_id" "m_to_principal m = recipient"
    unfolding kvs(2) by (auto simp: message_payload_def)
  then show ?thesis using m(1) by (auto simp: sent_def)
qed

lemma snd_stream_append:
  "snd (stream_append sha stream k c db) = snd (append_once sha stream k (fst c) (snd c) db)"
  by (auto simp: stream_append_def split: prod.splits sum.splits)

text \<open>A stream with one queued message.\<close>

definition demo_bus_db :: audit_db where
  "demo_bus_db = foldl (bus_step (\<lambda>_. ''h'') ''s'') empty_audit_db [Enqueue demo_message ''t1'' ''d1'']"

definition demo_bus_row :: audit_row where
  "demo_bus_row = next_row (\<lambda>_. ''h'') ''s'' (message_key ''m1'') ''MESSAGE_QUEUED''
     (canonical (JObj (message_payload demo_message))) []"

lemma demo_bus_rows: "ad_events demo_bus_db = [demo_bus_row]"
proof -
  have rows: "stream_rows ''s'' empty_audit_db = []"
    by (simp add: stream_rows_def empty_audit_db_def)
  then have ch: "chained (\<lambda>_. ''h'') ''s'' empty_audit_db" by (simp add: chained_def check_rows_def)
  have ok: "\<not> blank ''s''" "\<not> blank (message_key ''m1'')" "\<not> blank ''MESSAGE_QUEUED''"
    by (simp_all add: py_isspace_def message_key_def)
  have "find_key ''s'' (message_key ''m1'') empty_audit_db = None"
    by (simp add: find_key_def empty_audit_db_def)
  then have "ad_events (snd (append_once (\<lambda>_. ''h'') ''s'' (message_key ''m1'') ''MESSAGE_QUEUED''
      (message_payload demo_message) empty_audit_db)) = [demo_bus_row]"
    using rows by (cases rule: append_once_cases [OF ch ok, of "message_payload demo_message"])
      (auto simp: demo_bus_row_def scrub_message empty_audit_db_def simp del: scrub.simps)
  moreover have "snd (enqueue (\<lambda>_. ''h'') ''s'' demo_message ''t1'' ''d1'' empty_audit_db) =
      snd (append_once (\<lambda>_. ''h'') ''s'' (message_key ''m1'') ''MESSAGE_QUEUED''
        (message_payload demo_message) empty_audit_db)"
    by (cases rule: enqueue_cases [of "\<lambda>_. ''h''" "''s''" demo_message "''t1''" "''d1''" empty_audit_db])
      (simp_all add: demo_message_def utf8_len_def message_content_def snd_stream_append)
  ultimately show ?thesis by (simp add: demo_bus_db_def)
qed

lemma demo_bus_ack: "fst (ack (\<lambda>_. ''h'') ''s'' ''m1'' ''dev'' demo_bus_db) = Inr True"
proof -
  obtain kvs where kvs: "loads (canonical (JObj (message_payload demo_message))) = Some (JObj kvs)"
      "set kvs = set (message_payload demo_message)" "distinct (map fst kvs)"
    using read_message by blast
  have row: "ar_stream demo_bus_row = ''s''" "ar_seq demo_bus_row = 1" "ar_prev_sha demo_bus_row = GENESIS"
      "ar_event_sha demo_bus_row = ''h''" "ar_kind demo_bus_row = ''MESSAGE_QUEUED''"
      "ar_key demo_bus_row = message_key ''m1''"
      "ar_payload_json demo_bus_row = canonical (JObj (message_payload demo_message))"
    by (simp_all add: demo_bus_row_def next_row_def Let_def digest_def)
  have rows: "stream_rows ''s'' demo_bus_db = [demo_bus_row]"
    using row(1) by (simp add: stream_rows_def demo_bus_rows)
  have chk: "check_rows (\<lambda>_. ''h'') ''s'' [demo_bus_row] = Inr ''h''"
    using row by (simp add: check_rows_def digest_def)
  have fields: "map_of kvs ''message_id'' = Some (JStr ''m1'')" "map_of kvs ''to_principal'' = Some (JStr ''dev'')"
    using kvs(2,3) by (simp_all add: map_of_eq_Some_iff message_payload_def demo_message_def)
  have "find_key ''s'' (ack_key ''m1'' ''dev'') demo_bus_db = None"
    using row(6) by (simp add: find_key_def demo_bus_rows ack_key_def message_key_def)
  moreover have "chained (\<lambda>_. ''h'') ''s'' demo_bus_db" using rows chk by (simp add: chained_def)
  ultimately have "fst (stream_append (\<lambda>_. ''h'') ''s'' (ack_key ''m1'' ''dev'')
      (''MESSAGE_ACK'', [(''message_id'', JStr ''m1''), (''recipient_id'', JStr ''dev'')]) demo_bus_db) = Inr True"
    using audit_log.append_new [of "\<lambda>_. ''h''" "''s''" demo_bus_db "ack_key ''m1'' ''dev''"
        "(''MESSAGE_ACK'', [(''message_id'', JStr ''m1''), (''recipient_id'', JStr ''dev'')])"]
    by (simp add: stored_content_def py_isspace_def ack_key_def)
  then show ?thesis
    using rows chk kvs(1) fields row(5,7)
    by (simp add: ack_def read_events_def payload_get_def stream_append_def
        split: prod.splits sum.splits)
qed

theorem only_addressee_acknowledges_witness:
  "fst (ack (\<lambda>_. ''h'') ''s'' ''m1'' ''dev'' demo_bus_db) = Inr True \<and>
   (\<exists>m t d. Enqueue m t d \<in> set [Enqueue demo_message ''t1'' ''d1''] \<and>
      m_message_id m = ''m1'' \<and> m_to_principal m = ''dev'')"
proof -
  have none: "stream_rows ''s'' empty_audit_db = []"
    by (simp add: stream_rows_def empty_audit_db_def)
  obtain db' where "ack (\<lambda>_. ''h'') ''s'' ''m1'' ''dev'' demo_bus_db = (Inr True, db')"
    using demo_bus_ack by (metis prod.collapse)
  from only_addressee_acknowledges [OF none demo_bus_db_def this] show ?thesis
    using demo_bus_ack by blast
qed

end
