(* ===== verification/Classification.thy ===== *)
theory Classification
  imports Json
begin

text \<open>
  \<open>src/subagentbridge/policy/classification.py\<close>: the validation of an operation request, its
  fingerprint, and the conservative classifier that decides whether a human gate is required.
\<close>

datatype gate_category =
    AUTH | DEPENDENCY | CI_DEPLOY | DESTRUCTIVE | PUSH | EGRESS | OUTSIDE_WORKSPACE
  | QA_CHANGE | WAIVER | BUDGET_OVERRIDE | TRADEOFF | READ | UNKNOWN

record operation_request =
  or_task_id :: string
  or_dispatch_id :: string
  or_policy_revision :: string
  or_operation :: string
  or_argv :: "string list"
  or_resource :: string

definition printable_text :: "nat \<Rightarrow> string \<Rightarrow> bool" where
  "printable_text limit value \<longleftrightarrow> \<not> (blank value \<or> length value > limit \<or> list_ex is_control value)"

definition valid_argument :: "string \<Rightarrow> bool" where
  "valid_argument x \<longleftrightarrow> x \<noteq> [] \<and> length x \<le> 4096 \<and> \<not> list_ex is_control x"

definition mk_operation_request ::
  "string \<Rightarrow> string \<Rightarrow> string \<Rightarrow> string \<Rightarrow> string list \<Rightarrow> string \<Rightarrow> exn + operation_request" where
  "mk_operation_request task_id dispatch_id policy_revision operation argv resource =
     (if \<not> printable_text 256 task_id then raise ValueError ''task_id must be bounded printable text''
      else if \<not> printable_text 256 dispatch_id
      then raise ValueError ''dispatch_id must be bounded printable text''
      else if \<not> printable_text 256 policy_revision
      then raise ValueError ''policy_revision must be bounded printable text''
      else if \<not> printable_text 256 operation
      then raise ValueError ''operation must be bounded printable text''
      else if \<not> printable_text 4096 resource
      then raise ValueError ''resource must be bounded printable text''
      else if length argv > 64 \<or> \<not> list_all valid_argument argv
      then raise ValueError ''argv must be bounded printable argument strings''
      else ok \<lparr>or_task_id = task_id, or_dispatch_id = dispatch_id,
               or_policy_revision = policy_revision, or_operation = operation,
               or_argv = argv, or_resource = resource\<rparr>)"

definition fingerprint_text :: "operation_request \<Rightarrow> string" where
  "fingerprint_text r =
     dumps False [] (JList [JNum ''1'', JStr (or_task_id r), JStr (or_dispatch_id r),
       JStr (or_policy_revision r), JStr (or_operation r), JList (map JStr (or_argv r)),
       JStr (or_resource r)])"

definition fingerprint :: "(string \<Rightarrow> string) \<Rightarrow> operation_request \<Rightarrow> string" where
  "fingerprint sha r = sha (fingerprint_text r)"

definition RULES :: "(string \<times> gate_category) list" where
  "RULES =
     [(''auth.change'', AUTH), (''secret.read'', AUTH), (''credential.write'', AUTH),
      (''dependency.install'', DEPENDENCY), (''dependency.change'', DEPENDENCY),
      (''ci.modify'', CI_DEPLOY), (''deploy'', CI_DEPLOY),
      (''file.delete'', DESTRUCTIVE), (''branch.delete'', DESTRUCTIVE), (''data.migrate'', DESTRUCTIVE),
      (''git.push'', PUSH), (''git.force_push'', PUSH), (''git.rewrite'', PUSH),
      (''network.new_host'', EGRESS), (''file.write_outside_workspace'', OUTSIDE_WORKSPACE),
      (''qa.tests.modify'', QA_CHANGE), (''qa.criteria.modify'', QA_CHANGE), (''qa.waive'', WAIVER),
      (''budget.override'', BUDGET_OVERRIDE), (''retry.limit_exceeded'', BUDGET_OVERRIDE),
      (''tradeoff.material'', TRADEOFF), (''file.read'', READ), (''task.inspect'', READ)]"

definition INSPECTION_ARGV :: "string list list" where
  "INSPECTION_ARGV =
     [[''git'', ''status'', ''--porcelain''], [''git'', ''rev-parse'', ''HEAD''],
      [''git'', ''rev-parse'', ''HEAD^{tree}'']]"

record gate_decision =
  gd_category :: gate_category
  gd_human_gate_required :: bool
  gd_execution_authorized :: bool
  gd_reason :: string

definition no_executor :: string where
  "no_executor = ''No broker/ToolExecutor installed: operation NOT authorized''"

definition mk_gate_decision :: "gate_category \<Rightarrow> bool \<Rightarrow> string \<Rightarrow> gate_decision" where
  "mk_gate_decision cat human reason =
     \<lparr>gd_category = cat, gd_human_gate_required = human, gd_execution_authorized = False,
      gd_reason = reason\<rparr>"

definition classify :: "operation_request \<Rightarrow> gate_decision" where
  "classify r =
     (let cat = (case map_of RULES (or_operation r) of None \<Rightarrow> UNKNOWN | Some c \<Rightarrow> c) in
      if cat = READ \<and> or_operation r = ''file.read'' \<and> or_argv r \<noteq> []
      then mk_gate_decision UNKNOWN True ''file.read cannot execute argv''
      else if cat = READ \<and> or_operation r = ''task.inspect'' \<and> or_argv r \<noteq> []
              \<and> or_argv r \<notin> set INSPECTION_ARGV
      then mk_gate_decision UNKNOWN True ''inspection argv is not allowlisted''
      else mk_gate_decision cat (cat \<noteq> READ) no_executor)"

section \<open>Properties\<close>

lemma read_operations:
  "map_of RULES op = Some READ \<longleftrightarrow> op = ''file.read'' \<or> op = ''task.inspect''"
  by (simp add: RULES_def)

text \<open>
  C14: The classifier fails closed.  No request is ever authorized to execute; and a human gate is
  waived for exactly the reads without arguments and the inspections with no arguments or one of
  the allow-listed command lines.  Whatever else is requested, or claimed to be a read, needs a
  human.
\<close>

theorem classifier_fails_closed:
  "\<not> gd_execution_authorized (classify r) \<and>
   (\<not> gd_human_gate_required (classify r) \<longleftrightarrow>
      or_operation r = ''file.read'' \<and> or_argv r = [] \<or>
      or_operation r = ''task.inspect'' \<and>
        (or_argv r = [] \<or> or_argv r = [''git'', ''status'', ''--porcelain''] \<or>
         or_argv r = [''git'', ''rev-parse'', ''HEAD''] \<or>
         or_argv r = [''git'', ''rev-parse'', ''HEAD^{tree}'']))"
proof (cases "map_of RULES (or_operation r) = Some READ")
  case True
  then have "or_operation r = ''file.read'' \<or> or_operation r = ''task.inspect''"
    by (simp add: read_operations)
  then show ?thesis using True
    by (auto simp: classify_def Let_def mk_gate_decision_def INSPECTION_ARGV_def)
next
  case False
  then have "(case map_of RULES (or_operation r) of None \<Rightarrow> UNKNOWN | Some c \<Rightarrow> c) \<noteq> READ"
    by (auto split: option.splits)
  moreover have "or_operation r \<noteq> ''file.read''" "or_operation r \<noteq> ''task.inspect''"
    using False by (auto simp: read_operations)
  ultimately show ?thesis by (auto simp: classify_def Let_def mk_gate_decision_def)
qed

text \<open>
  A fingerprint identifies the whole request.  Two requests with the same fingerprint agree in
  task, dispatch, policy, operation, arguments and resource, or their two fingerprinted texts are
  different texts with the same hash; so no choice of names and arguments makes one request pass
  for another.
\<close>

theorem fingerprint_identifies_request:
  fixes r r' :: operation_request
  shows "fingerprint sha r = fingerprint sha r' \<longleftrightarrow>
    r = r' \<or> (fingerprint_text r \<noteq> fingerprint_text r' \<and>
              sha (fingerprint_text r) = sha (fingerprint_text r'))"
proof -
  have "r = r'" if "fingerprint_text r = fingerprint_text r'"
  proof -
    let ?j = "\<lambda>r. JList [JNum ''1'', JStr (or_task_id r), JStr (or_dispatch_id r),
       JStr (or_policy_revision r), JStr (or_operation r), JList (map JStr (or_argv r)),
       JStr (or_resource r)]"
    have "num_literal ''1''" by code_simp
    then have "?j r = ?j r'"
      using that by (intro dumps_inj [of "?j r" "?j r'" "[]" False]) (auto simp: fingerprint_text_def)
    then show ?thesis
      by (cases r; cases r') (simp add: inj_map_eq_map inj_def)
  qed
  then show ?thesis by (auto simp: fingerprint_def)
qed

end
