(* ===== verification/DispatchTracker.thy ===== *)
theory DispatchTracker
  imports Prelude
begin

text \<open>
  \<open>src/subagentbridge/domain/dispatch.py\<close>: \<open>DispatchIdempotencyTracker\<close>, which lets only the
  latest dispatch attempt of a task complete.  The dictionary of active attempts is a map, the
  history a list.
\<close>

datatype dispatch_status = INITIALIZED | ACTIVE | COMPLETED | FAILED | SUPERSEDED

record attempt =
  at_dispatch_id :: string
  at_task_id :: string
  at_run_id :: string
  at_number :: int
  at_tree_sha :: string
  at_policy_revision :: string
  at_status :: dispatch_status

record tracker =
  tr_active :: "string \<rightharpoonup> attempt"
  tr_history :: "attempt list"

definition empty_tracker :: tracker where
  "empty_tracker = \<lparr>tr_active = Map.empty, tr_history = []\<rparr>"

definition start_dispatch ::
  "string \<Rightarrow> string \<Rightarrow> string \<Rightarrow> string \<Rightarrow> string \<Rightarrow> tracker \<Rightarrow> attempt \<times> tracker" where
  "start_dispatch dispatch_id task_id run_id tree_sha policy_revision tr =
     (let prior = tr_active tr task_id;
          attempt_num = (case prior of Some p \<Rightarrow> at_number p + 1 | None \<Rightarrow> 1);
          history = (case prior of
              Some p \<Rightarrow> if at_status p = ACTIVE
                        then tr_history tr @ [p\<lparr>at_status := SUPERSEDED\<rparr>] else tr_history tr
            | None \<Rightarrow> tr_history tr);
          a = \<lparr>at_dispatch_id = dispatch_id, at_task_id = task_id, at_run_id = run_id,
               at_number = attempt_num, at_tree_sha = tree_sha,
               at_policy_revision = policy_revision, at_status = ACTIVE\<rparr>
      in (a, \<lparr>tr_active = (tr_active tr)(task_id \<mapsto> a), tr_history = history\<rparr>))"

definition validate_active_dispatch :: "string \<Rightarrow> string \<Rightarrow> tracker \<Rightarrow> exn + attempt" where
  "validate_active_dispatch task_id dispatch_id tr =
     (case tr_active tr task_id of
        None \<Rightarrow> raise KeyError ''no active dispatch for task''
      | Some a \<Rightarrow>
          if at_dispatch_id a \<noteq> dispatch_id
          then raise PermissionError ''stale dispatch cannot complete task''
          else if at_status a \<noteq> ACTIVE then raise PermissionError ''dispatch is already finished''
          else ok a)"

definition complete_dispatch ::
  "string \<Rightarrow> string \<Rightarrow> bool \<Rightarrow> tracker \<Rightarrow> (exn + attempt) \<times> tracker" where
  "complete_dispatch task_id dispatch_id success tr =
     (case validate_active_dispatch task_id dispatch_id tr of
        Inl e \<Rightarrow> (Inl e, tr)
      | Inr a \<Rightarrow>
          let c = a\<lparr>at_status := (if success then COMPLETED else FAILED)\<rparr>
          in (ok c, \<lparr>tr_active = (tr_active tr)(task_id \<mapsto> c), tr_history = tr_history tr @ [c]\<rparr>))"

datatype tracker_event =
    Start string string string string string
  | Complete string string bool

fun tracker_step :: "tracker \<Rightarrow> tracker_event \<Rightarrow> tracker" where
  "tracker_step tr (Start did tid rid tree pol) = snd (start_dispatch did tid rid tree pol tr)"
| "tracker_step tr (Complete tid did success) = snd (complete_dispatch tid did success tr)"

text \<open>
  The invariant: an entry is filed under its task; the attempts of a task in the history are
  numbered 1, 2, ... without gap or repetition, up to the current attempt when that one is
  finished and up to its predecessor while it is active; nothing in the history is active.
\<close>

definition task_history :: "string \<Rightarrow> tracker \<Rightarrow> int list" where
  "task_history tid tr = map at_number (filter (\<lambda>a. at_task_id a = tid) (tr_history tr))"

definition finished_upto :: "string \<Rightarrow> tracker \<Rightarrow> int" where
  "finished_upto tid tr =
     (case tr_active tr tid of
        None \<Rightarrow> 0
      | Some a \<Rightarrow> if at_status a = ACTIVE then at_number a - 1 else at_number a)"

definition tracker_inv :: "tracker \<Rightarrow> bool" where
  "tracker_inv tr \<longleftrightarrow>
     (\<forall>tid a. tr_active tr tid = Some a \<longrightarrow> at_task_id a = tid \<and> 1 \<le> at_number a) \<and>
     (\<forall>tid. task_history tid tr = [1..finished_upto tid tr]) \<and>
     (\<forall>a \<in> set (tr_history tr). at_status a \<noteq> ACTIVE)"

lemmas tracker_defs = start_dispatch_def complete_dispatch_def validate_active_dispatch_def
  task_history_def finished_upto_def

lemma tracker_inv_empty: "tracker_inv empty_tracker"
  by (simp add: tracker_inv_def empty_tracker_def task_history_def finished_upto_def)

lemma upto_snoc: "1 \<le> n \<Longrightarrow> [1..n] = [1..n - 1] @ [n]" for n :: int
  by (simp add: upto_rec2)

lemma tracker_inv_start:
  assumes inv: "tracker_inv tr"
  shows "tracker_inv (snd (start_dispatch did tid rid tree pol tr))"
proof (cases "tr_active tr tid")
  case None
  then show ?thesis using inv by (auto simp: tracker_inv_def tracker_defs Let_def)
next
  case (Some p)
  then have p: "at_task_id p = tid" "1 \<le> at_number p" using inv by (auto simp: tracker_inv_def)
  have "0 \<le> at_number p" using p(2) by simp
  then show ?thesis using inv Some upto_snoc [OF p(2)] p(1)
    by (auto simp: tracker_inv_def tracker_defs Let_def)
qed

lemma tracker_inv_complete:
  assumes inv: "tracker_inv tr"
  shows "tracker_inv (snd (complete_dispatch tid did success tr))"
proof (cases "validate_active_dispatch tid did tr")
  case (Inl e)
  then show ?thesis using inv by (simp add: complete_dispatch_def)
next
  case (Inr a)
  then have a: "tr_active tr tid = Some a" "at_status a = ACTIVE"
    by (auto simp: validate_active_dispatch_def split: option.splits if_splits)
  then have "at_task_id a = tid" "1 \<le> at_number a" using inv by (auto simp: tracker_inv_def)
  then show ?thesis using inv Inr a upto_snoc [of "at_number a"]
    by (auto simp: tracker_inv_def complete_dispatch_def task_history_def finished_upto_def Let_def)
qed

lemma tracker_step_inv: "tracker_inv tr \<Longrightarrow> tracker_inv (tracker_step tr e)"
  by (cases e) (simp_all add: tracker_inv_start tracker_inv_complete)

interpretation tracker_machine: invariant_machine tracker_step tracker_inv
  by unfold_locales (rule tracker_step_inv)

section \<open>Properties\<close>

text \<open>
  whatever dispatches were started and completed, the history lists the finished attempts
  of each task exactly once, numbered 1, 2, 3, ... in order, none of them active: an attempt is
  never completed or superseded twice and none is lost.
\<close>

theorem tracker_history_gapless:
  "task_history tid (foldl tracker_step empty_tracker es) =
     [1..finished_upto tid (foldl tracker_step empty_tracker es)]"
  using tracker_machine.run_inv [OF tracker_inv_empty, of es] by (simp add: tracker_inv_def)

text \<open>
  a dispatch that a later dispatch of the same task replaced can no longer complete: the
  attempt raises PermissionError and changes nothing.
\<close>

theorem stale_dispatch_cannot_complete:
  assumes "start_dispatch did2 tid rid tree pol tr = (a, tr')" "did1 \<noteq> did2"
  shows "\<exists>msg. complete_dispatch tid did1 success tr' = (Inl (PermissionError, msg), tr')"
  using assms by (auto simp: tracker_defs Let_def)

theorem stale_dispatch_cannot_complete_witness:
  "\<exists>msg. complete_dispatch ''t'' ''d1'' True
       (snd (start_dispatch ''d2'' ''t'' ''r'' ''tree'' ''v1'' empty_tracker)) =
     (Inl (PermissionError, msg), snd (start_dispatch ''d2'' ''t'' ''r'' ''tree'' ''v1'' empty_tracker))"
  by (rule stale_dispatch_cannot_complete
      [OF prod.collapse [symmetric], of "''d1''" "''d2''", simplified])

end
