(* ===== verification/Broker.thy ===== *)
theory Broker
  imports Prelude Json
begin

text \<open>
  \<open>src/subagentbridge/approval/broker.py\<close>: \<open>ApprovalBroker\<close>, the in-process store of human
  approvals.  Its dictionary of actions is a keyed table in insertion order; SHA-256 is the argument
  \<open>sha\<close>, the random token of an action id is an argument, and so is the instant of each clock
  reading.  The results are the life cycle of an action and the gate: nothing becomes APPROVED
  except by a call that carries the broker's secret, before the action's deadline.
\<close>

datatype broker_state = BLOCKED | APPROVED | REJECTED | EXPIRED

record approval_action =
  aa_action_id :: string
  aa_session_id :: string
  aa_operation :: string
  aa_resource :: string
  aa_fingerprint :: string
  aa_state :: broker_state
  aa_reason :: string
  aa_expires_at :: real

record broker =
  bk_ttl_seconds :: real
  bk_secret :: string
  bk_actions :: "approval_action list"
  bk_consumed_fingerprints :: "string set"

definition mk_broker :: "string option \<Rightarrow> string \<Rightarrow> real \<Rightarrow> exn + broker" where
  "mk_broker broker_secret fresh ttl =
     (if \<not> (0 < ttl \<and> ttl \<le> 86400)
      then raise ValueError ''approval_ttl_seconds must be within (0, 86400]''
      else ok \<lparr>bk_ttl_seconds = ttl,
               bk_secret = (case broker_secret of
                              None \<Rightarrow> fresh | Some s \<Rightarrow> if s = [] then fresh else s),
               bk_actions = [], bk_consumed_fingerprints = {}\<rparr>)"

definition put_action :: "approval_action \<Rightarrow> broker \<Rightarrow> broker" where
  "put_action a b = b\<lparr>bk_actions := upsert aa_action_id (\<lambda>old new. new) a (bk_actions b)\<rparr>"

definition find_action :: "string \<Rightarrow> broker \<Rightarrow> approval_action option" where
  "find_action i b = row_at aa_action_id i (bk_actions b)"

interpretation action_table: upsert_table aa_action_id "\<lambda>old new. new" "\<lambda>_. True"
  by unfold_locales simp_all

definition new_action_id ::
  "(string \<Rightarrow> string) \<Rightarrow> string \<Rightarrow> string \<Rightarrow> string \<Rightarrow> string \<Rightarrow> string" where
  "new_action_id sha token session_id operation resource =
     ''act_'' @ take 16 (sha (session_id @ '':'' @ operation @ '':'' @ resource @ '':'' @ token))"

definition create_action ::
  "(string \<Rightarrow> string) \<Rightarrow> string \<Rightarrow> real \<Rightarrow> string \<Rightarrow> string \<Rightarrow> string \<Rightarrow> broker
   \<Rightarrow> (exn + approval_action) \<times> broker" where
  "create_action sha token now session_id operation resource b =
     (if session_id = [] \<or> operation = []
      then (raise ValueError ''session_id and operation required'', b)
      else let i = new_action_id sha token session_id operation resource;
               a = \<lparr>aa_action_id = i, aa_session_id = session_id, aa_operation = operation,
                    aa_resource = resource,
                    aa_fingerprint = sha (i @ '':'' @ operation @ '':'' @ resource),
                    aa_state = BLOCKED, aa_reason = [],
                    aa_expires_at = now + bk_ttl_seconds b\<rparr>
           in (ok a, put_action a b))"

definition expired_form :: "real \<Rightarrow> approval_action \<Rightarrow> approval_action" where
  "expired_form now a =
     (if aa_state a \<in> {BLOCKED, APPROVED} \<and> now \<ge> aa_expires_at a
      then a\<lparr>aa_state := EXPIRED, aa_reason := ''Approval deadline expired''\<rparr> else a)"

definition expire_if_needed :: "real \<Rightarrow> approval_action \<Rightarrow> broker \<Rightarrow> approval_action \<times> broker" where
  "expire_if_needed now a b =
     (if aa_state a \<in> {BLOCKED, APPROVED} \<and> now \<ge> aa_expires_at a
      then let e = a\<lparr>aa_state := EXPIRED, aa_reason := ''Approval deadline expired''\<rparr>
           in (e, put_action e b)
      else (a, b))"

text \<open>\<open>compare_digest\<close> of two strings: it raises for a string that is not ASCII.\<close>

definition is_ascii :: "string \<Rightarrow> bool" where
  "is_ascii s \<longleftrightarrow> list_all (\<lambda>c. code_of c < 128) s"

definition compare_digest :: "string \<Rightarrow> string \<Rightarrow> exn + bool" where
  "compare_digest s t =
     (if is_ascii s \<and> is_ascii t then ok (s = t)
      else raise TypeError ''comparing strings with non-ASCII characters is not supported'')"

definition resolve_by_human ::
  "real \<Rightarrow> string \<Rightarrow> bool \<Rightarrow> string \<Rightarrow> string \<Rightarrow> broker \<Rightarrow> (exn + approval_action) \<times> broker" where
  "resolve_by_human now action_id approved auth_token reason b =
     (case compare_digest auth_token (bk_secret b) of
        Inl e \<Rightarrow> (Inl e, b)
      | Inr same \<Rightarrow>
          if \<not> same
          then (raise PermissionError ''unauthorized caller cannot resolve human approval'', b)
          else (case find_action action_id b of
             None \<Rightarrow> (raise KeyError ''unknown action'', b)
           | Some stored \<Rightarrow>
               (case expire_if_needed now stored b of
                  (a, b1) \<Rightarrow>
                    if aa_state a \<noteq> BLOCKED
                    then (raise PermissionError ''action is already resolved and cannot be modified'', b1)
                    else if aa_fingerprint a \<in> bk_consumed_fingerprints b1
                    then (raise PermissionError
                            ''one-time approval already consumed (replay prevented)'', b1)
                    else let u = a\<lparr>aa_state := (if approved then APPROVED else REJECTED),
                                  aa_reason := reason\<rparr>
                         in (ok u, (put_action u b1)\<lparr>bk_consumed_fingerprints :=
                                     insert (aa_fingerprint a) (bk_consumed_fingerprints b1)\<rparr>))))"

definition broker_get_action :: "real \<Rightarrow> string \<Rightarrow> broker \<Rightarrow> approval_action option \<times> broker" where
  "broker_get_action now action_id b =
     (case find_action action_id b of
        None \<Rightarrow> (None, b)
      | Some a \<Rightarrow> (case expire_if_needed now a b of (a', b') \<Rightarrow> (Some a', b')))"

definition list_blocked :: "real \<Rightarrow> broker \<Rightarrow> approval_action list \<times> broker" where
  "list_blocked now b =
     (let rows = map (expired_form now) (bk_actions b)
      in (filter (\<lambda>a. aa_state a = BLOCKED) rows, b\<lparr>bk_actions := rows\<rparr>))"

section \<open>The life cycle of an action\<close>

lemma find_put_action:
  "find_action j (put_action a b) = (if j = aa_action_id a then Some a else find_action j b)"
  by (auto simp: put_action_def find_action_def action_table.row_at_upsert split: option.splits)

lemma put_action_simps [simp]:
  "bk_secret (put_action a b) = bk_secret b"
  "bk_consumed_fingerprints (put_action a b) = bk_consumed_fingerprints b"
  "find_action j (b\<lparr>bk_consumed_fingerprints := f\<rparr>) = find_action j b"
  by (simp_all add: put_action_def find_action_def)

lemma find_action_id: "find_action i b = Some a \<Longrightarrow> aa_action_id a = i"
  by (auto simp: find_action_def dest: row_at_SomeD)

lemma expire_if_needed_eq:
  assumes "find_action i b = Some a"
  shows "fst (expire_if_needed now a b) = expired_form now a"
    "find_action j (snd (expire_if_needed now a b)) =
       (if j = i then Some (expired_form now a) else find_action j b)"
    "bk_secret (snd (expire_if_needed now a b)) = bk_secret b"
    "bk_consumed_fingerprints (snd (expire_if_needed now a b)) = bk_consumed_fingerprints b"
  using find_action_id [OF assms] assms
  by (auto simp: expire_if_needed_def expired_form_def Let_def find_put_action)

text \<open>The operations as events.\<close>

datatype broker_event =
    Create string real string string string
  | Resolve real string bool string string
  | Look real string
  | ListBlocked real

fun broker_step :: "(string \<Rightarrow> string) \<Rightarrow> broker \<Rightarrow> broker_event \<Rightarrow> broker" where
  "broker_step sha b (Create token now session operation resource) =
     snd (create_action sha token now session operation resource b)"
| "broker_step sha b (Resolve now i approved token reason) =
     snd (resolve_by_human now i approved token reason b)"
| "broker_step sha b (Look now i) = snd (broker_get_action now i b)"
| "broker_step sha b (ListBlocked now) = snd (list_blocked now b)"

text \<open>The specification: what may happen to an action, and what never changes.\<close>

inductive action_stage :: "broker_state \<Rightarrow> broker_state \<Rightarrow> bool" where
  as_approve: "action_stage BLOCKED APPROVED"
| as_reject: "action_stage BLOCKED REJECTED"
| as_lapse: "action_stage BLOCKED EXPIRED"
| as_expire: "action_stage APPROVED EXPIRED"

inductive_simps action_stage_from_final: "action_stage REJECTED s" "action_stage EXPIRED s"

definition same_context :: "approval_action \<Rightarrow> approval_action \<Rightarrow> bool" where
  "same_context a a' \<longleftrightarrow>
     aa_action_id a' = aa_action_id a \<and> aa_session_id a' = aa_session_id a \<and>
     aa_operation a' = aa_operation a \<and> aa_resource a' = aa_resource a \<and>
     aa_fingerprint a' = aa_fingerprint a \<and> aa_expires_at a' = aa_expires_at a"

lemma same_context_refl [simp]: "same_context a a"
  by (simp add: same_context_def)

definition approves :: "broker \<Rightarrow> broker_event \<Rightarrow> string \<Rightarrow> real \<Rightarrow> bool" where
  "approves b e i deadline \<longleftrightarrow>
     (\<exists>now reason. e = Resolve now i True (bk_secret b) reason \<and> now < deadline)"

lemma expired_form_stage:
  "same_context a (expired_form now a)"
  "aa_state (expired_form now a) = aa_state a \<or> action_stage (aa_state a) (aa_state (expired_form now a))"
  "aa_state (expired_form now a) = APPROVED \<Longrightarrow> aa_state a = APPROVED"
  "aa_state (expired_form now a) \<in> {BLOCKED, APPROVED} \<Longrightarrow> now < aa_expires_at a"
  by (auto simp: expired_form_def same_context_def intro: action_stage.intros split: if_splits)

definition creates :: "(string \<Rightarrow> string) \<Rightarrow> broker_event \<Rightarrow> string option" where
  "creates sha e =
     (case e of Create token now s op r \<Rightarrow> Some (new_action_id sha token s op r) | _ \<Rightarrow> None)"

lemma row_at_map:
  assumes "\<And>r. key (f r) = key r"
  shows "row_at key k (map f rows) = map_option f (row_at key k rows)"
  using assms by (induction rows) auto

lemma list_blocked_find:
  "find_action i (snd (list_blocked now b)) = map_option (expired_form now) (find_action i b)"
proof -
  have "aa_action_id (expired_form now r) = aa_action_id r" for r by (simp add: expired_form_def)
  then show ?thesis by (simp add: list_blocked_def Let_def find_action_def row_at_map)
qed

lemma resolve_cases:
  obtains (refused) e where "resolve_by_human now i appr token reason b = (Inl e, b)"
  | (late) a e where "find_action i b = Some a"
      "resolve_by_human now i appr token reason b = (Inl e, snd (expire_if_needed now a b))"
  | (resolved) a where "token = bk_secret b" "find_action i b = Some a" "aa_state a = BLOCKED"
      "now < aa_expires_at a"
      "resolve_by_human now i appr token reason b =
         (Inr (a\<lparr>aa_state := (if appr then APPROVED else REJECTED), aa_reason := reason\<rparr>),
          (put_action (a\<lparr>aa_state := (if appr then APPROVED else REJECTED), aa_reason := reason\<rparr>) b)
            \<lparr>bk_consumed_fingerprints := insert (aa_fingerprint a) (bk_consumed_fingerprints b)\<rparr>)"
proof (cases "compare_digest token (bk_secret b) = Inr True")
  case False
  then have "\<exists>e. resolve_by_human now i appr token reason b = (Inl e, b)"
    by (auto simp: resolve_by_human_def split: sum.splits)
  then show ?thesis using refused by auto
next
  case True
  then have tok: "token = bk_secret b" by (auto simp: compare_digest_def split: if_splits)
  show ?thesis
  proof (cases "find_action i b")
    case None
    then show ?thesis using True refused by (simp add: resolve_by_human_def)
  next
    case (Some a)
    show ?thesis
    proof (cases "aa_state a = BLOCKED \<and> now < aa_expires_at a \<and>
        aa_fingerprint a \<notin> bk_consumed_fingerprints b")
      case ok: True
      then have "expire_if_needed now a b = (a, b)" by (simp add: expire_if_needed_def)
      then show ?thesis using True tok Some ok resolved by (simp add: resolve_by_human_def Let_def)
    next
      case bad: False
      then have "\<exists>e. resolve_by_human now i appr token reason b = (Inl e, snd (expire_if_needed now a b))"
        using True Some by (auto simp: resolve_by_human_def expire_if_needed_def Let_def)
      then show ?thesis using late Some by blast
    qed
  qed
qed

text \<open>
  The effect of any operation on a stored action, unless the operation is a creation that happens
  to draw the same action id.
\<close>

definition evolves :: "approval_action \<Rightarrow> approval_action \<Rightarrow> bool \<Rightarrow> bool" where
  "evolves a a' approval \<longleftrightarrow> same_context a a' \<and>
     (aa_state a' = aa_state a \<or> action_stage (aa_state a) (aa_state a')) \<and>
     (aa_state a' = APPROVED \<longrightarrow> aa_state a = APPROVED \<or> approval)"

lemma evolves_refl [simp]: "evolves a a x"
  by (simp add: evolves_def)

lemma evolves_expired: "evolves a (expired_form now a) x"
  using expired_form_stage [where a = a and now = now] by (auto simp: evolves_def)

lemma broker_step_action:
  assumes a: "find_action i b = Some a" and fresh: "creates sha e \<noteq> Some i"
  shows "\<exists>a'. find_action i (broker_step sha b e) = Some a' \<and>
           evolves a a' (approves b e i (aa_expires_at a))"
proof (cases e)
  case (Create token now s op r)
  then show ?thesis using assms
    by (auto simp: create_action_def Let_def find_put_action creates_def)
next
  case (Resolve now j appr token reason)
  show ?thesis
  proof (cases rule: resolve_cases [of now j appr token reason b])
    case (refused x)
    then show ?thesis using Resolve a by simp
  next
    case (late x y)
    then show ?thesis using Resolve a evolves_expired
      by (auto simp: expire_if_needed_eq(2) [OF late(1)])
  next
    case (resolved x)
    show ?thesis
    proof (cases "i = j")
      case True
      then have "x = a" using resolved(2) a by simp
      then show ?thesis using Resolve resolved True find_action_id [OF a]
        by (auto simp: find_put_action evolves_def same_context_def approves_def
            intro: action_stage.intros)
    next
      case False
      then show ?thesis using Resolve resolved a find_action_id [OF resolved(2)]
        by (auto simp: find_put_action)
    qed
  qed
next
  case (Look now j)
  show ?thesis
  proof (cases "find_action j b")
    case None
    then show ?thesis using Look a by (auto simp: broker_get_action_def)
  next
    case (Some x)
    have "broker_step sha b e = snd (expire_if_needed now x b)"
      using Look Some by (simp add: broker_get_action_def split: prod.splits)
    then show ?thesis using a Some evolves_expired
      by (auto simp: expire_if_needed_eq(2) [OF Some])
  qed
next
  case (ListBlocked now)
  then show ?thesis using a evolves_expired by (auto simp: list_blocked_find)
qed

lemma expire_secret [simp]: "bk_secret (snd (expire_if_needed now a b)) = bk_secret b"
  by (simp add: expire_if_needed_def Let_def)

lemma broker_step_secret: "bk_secret (broker_step sha b e) = bk_secret b"
proof (cases e)
  case (Resolve now j appr token reason)
  then show ?thesis by (cases rule: resolve_cases [of now j appr token reason b]) simp_all
qed (auto simp: create_action_def Let_def broker_get_action_def list_blocked_def case_prod_beta
      split: option.splits)

lemma broker_step_creates:
  assumes "creates sha e = Some i"
  shows "broker_step sha b e = b \<or> (\<exists>a. find_action i (broker_step sha b e) = Some a \<and> aa_state a = BLOCKED)"
  using assms
  by (cases e) (auto simp: creates_def create_action_def Let_def find_put_action)

lemma broker_step_absent:
  assumes none: "find_action i b = None" and fresh: "creates sha e \<noteq> Some i"
  shows "find_action i (broker_step sha b e) = None"
proof (cases e)
  case (Create token now s op r)
  then show ?thesis using assms by (auto simp: create_action_def Let_def find_put_action creates_def)
next
  case (Resolve now j appr token reason)
  show ?thesis
  proof (cases rule: resolve_cases [of now j appr token reason b])
    case (refused x)
    then show ?thesis using Resolve none by simp
  next
    case (late x y)
    then show ?thesis using Resolve none by (auto simp: expire_if_needed_eq(2) [OF late(1)])
  next
    case (resolved x)
    then show ?thesis using Resolve none find_action_id [OF resolved(2)]
      by (auto simp: find_put_action)
  qed
next
  case (Look now j)
  then show ?thesis using none
    by (cases "find_action j b") (auto simp: broker_get_action_def case_prod_beta expire_if_needed_eq(2))
next
  case (ListBlocked now)
  then show ?thesis using none by (simp add: list_blocked_find)
qed

lemma broker_run_secret: "bk_secret (foldl (broker_step sha) b es) = bk_secret b"
  by (induction es arbitrary: b) (simp_all add: broker_step_secret)

lemma approved_in_run:
  assumes "bk_actions b0 = []" "find_action i (foldl (broker_step sha) b0 es) = Some a"
    and "aa_state a = APPROVED"
  shows "\<exists>now reason. Resolve now i True (bk_secret b0) reason \<in> set es \<and> now < aa_expires_at a"
  using assms(2,3)
proof (induction es arbitrary: a rule: rev_induct)
  case Nil
  then show ?case using assms(1) by (simp add: find_action_def)
next
  case (snoc e es)
  let ?b = "foldl (broker_step sha) b0 es"
  have secret: "bk_secret ?b = bk_secret b0" by (rule broker_run_secret)
  show ?case
  proof (cases "creates sha e = Some i")
    case True
    then have "broker_step sha ?b e = ?b"
      using broker_step_creates [OF True, of ?b] snoc.prems by auto
    then show ?thesis using snoc by auto
  next
    case False
    obtain x where x: "find_action i ?b = Some x"
      using broker_step_absent [OF _ False, of ?b] snoc.prems(1) by fastforce
    have ev: "evolves x a (approves ?b e i (aa_expires_at x))"
      using broker_step_action [OF x False] snoc.prems(1) by auto
    then have exp: "aa_expires_at x = aa_expires_at a" by (simp add: evolves_def same_context_def)
    show ?thesis
    proof (cases "aa_state x = APPROVED")
      case True
      then show ?thesis using snoc.IH [OF x] exp by auto
    next
      case False
      then show ?thesis using ev snoc.prems(2) secret exp by (auto simp: evolves_def approves_def)
    qed
  qed
qed

section \<open>Properties of the broker\<close>

text \<open>
  Nothing is approved without a human.  Whatever calls are made on a new broker, an action that
  is APPROVED was approved by a call that named it, carried the broker's secret and came before
  the action's deadline.
\<close>

theorem approval_needs_the_secret:
  assumes "mk_broker secret fresh ttl = Inr b0"
    and "find_action i (foldl (broker_step sha) b0 es) = Some a" "aa_state a = APPROVED"
  shows "\<exists>now reason. Resolve now i True (bk_secret b0) reason \<in> set es \<and> now < aa_expires_at a"
  using approved_in_run [OF _ assms(2,3)] assms(1) by (auto simp: mk_broker_def split: if_splits)

definition demo_broker :: broker where
  "demo_broker = \<lparr>bk_ttl_seconds = 900, bk_secret = ''key'', bk_actions = [],
     bk_consumed_fingerprints = {}\<rparr>"

definition demo_sha :: "string \<Rightarrow> string" where
  "demo_sha s = ''h''"

definition demo_broker_events :: "broker_event list" where
  "demo_broker_events =
     [Create ''tok'' 0 ''w'' ''execute_command'' ''r'', Resolve 10 ''act_h'' True ''key'' ''fine'']"

lemma demo_broker_run:
  "\<exists>a. find_action ''act_h'' (foldl (broker_step demo_sha) demo_broker demo_broker_events) = Some a \<and>
     aa_state a = APPROVED \<and> aa_session_id a = ''w'' \<and> aa_expires_at a = 900"
proof -
  have "is_ascii ''key''" by code_simp
  then show ?thesis
    by (simp add: demo_broker_events_def demo_broker_def create_action_def Let_def new_action_id_def
        demo_sha_def resolve_by_human_def compare_digest_def find_put_action expire_if_needed_def)
qed

theorem approval_needs_the_secret_witness:
  "\<exists>now reason. Resolve now ''act_h'' True ''key'' reason \<in> set demo_broker_events \<and> now < 900"
proof -
  have "mk_broker (Some ''key'') ''x'' 900 = Inr demo_broker"
    by (simp add: mk_broker_def demo_broker_def)
  moreover obtain a where "find_action ''act_h''
      (foldl (broker_step demo_sha) demo_broker demo_broker_events) = Some a"
      "aa_state a = APPROVED" "aa_expires_at a = 900" using demo_broker_run by blast
  ultimately show ?thesis
    using approval_needs_the_secret [of "Some ''key''" "''x''" 900 demo_broker "''act_h''" demo_sha
        demo_broker_events a] by (simp add: demo_broker_def)
qed

text \<open>
  An action has one life.  Any operation, unless it creates an action under the same id, keeps
  a stored action with its context (session, operation, resource, fingerprint, deadline) and either
  leaves its state alone or moves it once along BLOCKED to APPROVED, REJECTED or EXPIRED, or
  APPROVED to EXPIRED; what is REJECTED or EXPIRED stays so.
\<close>

theorem action_has_one_life:
  assumes "find_action i b = Some a" "creates sha e \<noteq> Some i"
  shows "\<exists>a'. find_action i (broker_step sha b e) = Some a' \<and> same_context a a' \<and>
    (aa_state a' = aa_state a \<or> action_stage (aa_state a) (aa_state a')) \<and>
    (aa_state a \<in> {REJECTED, EXPIRED} \<longrightarrow> aa_state a' = aa_state a)"
proof -
  obtain a' where a': "find_action i (broker_step sha b e) = Some a'" "same_context a a'"
      "aa_state a' = aa_state a \<or> action_stage (aa_state a) (aa_state a')"
    using broker_step_action [OF assms] by (auto simp: evolves_def)
  moreover from a'(3) have "aa_state a \<in> {REJECTED, EXPIRED} \<longrightarrow> aa_state a' = aa_state a"
    by (cases "aa_state a") (simp_all add: action_stage_from_final)
  ultimately show ?thesis by blast
qed

theorem action_has_one_life_witness:
  "\<exists>a'. find_action ''act_h'' (broker_step demo_sha
      (foldl (broker_step demo_sha) demo_broker demo_broker_events) (Look 1000 ''act_h'')) = Some a' \<and>
    aa_session_id a' = ''w''"
proof -
  obtain a where "find_action ''act_h''
      (foldl (broker_step demo_sha) demo_broker demo_broker_events) = Some a" "aa_session_id a = ''w''"
    using demo_broker_run by blast
  moreover have "creates demo_sha (Look 1000 ''act_h'') \<noteq> Some ''act_h''" by (simp add: creates_def)
  ultimately show ?thesis
    using action_has_one_life [of "''act_h''" _ a demo_sha "Look 1000 ''act_h''"]
    by (auto simp: same_context_def)
qed

end
