(* ===== verification/TrustedAuthority.thy ===== *)
theory TrustedAuthority
  imports Broker
begin

text \<open>
  \<open>src/subagentbridge/approval/trusted_authority.py\<close>: the gate between a human approval and the
  execution of one command by one worker.  SHA-256 is the argument \<open>sha\<close>, HMAC-SHA-256 in
  hexadecimal the argument \<open>mac\<close>, and the rendering of a number with three decimals the argument
  \<open>fmt\<close>.  The expiry of a ticket comes from a JSON document and may be no proper number, so it is
  a \<open>ticket_time\<close>; missing fields of a ticket have their defaults, as the code reads them.
\<close>

definition resource_text :: "string list \<Rightarrow> string \<Rightarrow> string \<Rightarrow> string" where
  "resource_text command workspace_path task_id =
     dumps True '' '' (sort_keys (JObj [(''command'', JList (map JStr command)),
       (''workspace_path'', JStr workspace_path), (''task_id'', JStr task_id)]))"

definition compute_action_resource ::
  "(string \<Rightarrow> string) \<Rightarrow> string list \<Rightarrow> string \<Rightarrow> string \<Rightarrow> string" where
  "compute_action_resource sha command workspace_path task_id =
     sha (resource_text command workspace_path task_id)"

record authority =
  ta_broker :: broker
  ta_consumed_actions :: "string set"

definition mk_authority :: "broker \<Rightarrow> authority" where
  "mk_authority b = \<lparr>ta_broker = b, ta_consumed_actions = {}\<rparr>"

definition request_command_approval ::
  "(string \<Rightarrow> string) \<Rightarrow> string \<Rightarrow> real \<Rightarrow> string \<Rightarrow> string \<Rightarrow> string list \<Rightarrow> string \<Rightarrow> authority
   \<Rightarrow> (exn + approval_action) \<times> authority" where
  "request_command_approval sha token now worker_id task_id command workspace_path s =
     (case create_action sha token now worker_id ''execute_command''
             (compute_action_resource sha command workspace_path task_id) (ta_broker s) of
        (r, b) \<Rightarrow> (r, s\<lparr>ta_broker := b\<rparr>))"

definition approve_by_human ::
  "real \<Rightarrow> string \<Rightarrow> string \<Rightarrow> string \<Rightarrow> authority \<Rightarrow> (exn + approval_action) \<times> authority" where
  "approve_by_human now action_id auth_token reason s =
     (case resolve_by_human now action_id True auth_token reason (ta_broker s) of
        (r, b) \<Rightarrow> (r, s\<lparr>ta_broker := b\<rparr>))"

definition authority_get_action ::
  "real \<Rightarrow> string \<Rightarrow> authority \<Rightarrow> approval_action option \<times> authority" where
  "authority_get_action now action_id s =
     (if action_id = [] then (None, s)
      else case broker_get_action now action_id (ta_broker s) of (r, b) \<Rightarrow> (r, s\<lparr>ta_broker := b\<rparr>))"

definition is_action_for_context ::
  "(string \<Rightarrow> string) \<Rightarrow> approval_action \<Rightarrow> string \<Rightarrow> string \<Rightarrow> string list \<Rightarrow> string \<Rightarrow> bool" where
  "is_action_for_context sha a worker_id task_id command workspace_path \<longleftrightarrow>
     aa_session_id a = worker_id \<and>
     aa_resource a = compute_action_resource sha command workspace_path task_id"

definition is_action_consumed :: "string \<Rightarrow> authority \<Rightarrow> bool" where
  "is_action_consumed action_id s \<longleftrightarrow> action_id \<in> ta_consumed_actions s"

definition verify_and_consume ::
  "(string \<Rightarrow> string) \<Rightarrow> real \<Rightarrow> string \<Rightarrow> string \<Rightarrow> string \<Rightarrow> string list \<Rightarrow> string \<Rightarrow> authority
   \<Rightarrow> (bool \<times> string) \<times> authority" where
  "verify_and_consume sha now action_id worker_id task_id command workspace_path s =
     (if action_id = [] then ((False, ''DENIED: missing approval action_id''), s)
      else if action_id \<in> ta_consumed_actions s
      then ((False, ''DENIED: approval action already consumed (replay prevented)''), s)
      else case broker_get_action now action_id (ta_broker s) of
             (None, b) \<Rightarrow> ((False, ''DENIED: unknown approval action''), s\<lparr>ta_broker := b\<rparr>)
           | (Some a, b) \<Rightarrow>
               let s1 = s\<lparr>ta_broker := b\<rparr> in
               if aa_state a \<noteq> APPROVED
               then ((False, ''DENIED: human approval required''), s1)
               else if aa_session_id a \<noteq> worker_id
               then ((False, ''DENIED: action session does not match worker''), s1)
               else if aa_resource a \<noteq> compute_action_resource sha command workspace_path task_id
               then ((False, ''DENIED: command, task, or workspace mismatch with approved action''), s1)
               else ((True, ''APPROVED''),
                     s1\<lparr>ta_consumed_actions := insert action_id (ta_consumed_actions s1)\<rparr>))"

datatype ticket_time = Finite real | PosInf | NegInf | NotANumber | Malformed

record ticket =
  tk_action_id :: string
  tk_worker_id :: string
  tk_task_id :: string
  tk_resource :: string
  tk_expiry :: ticket_time
  tk_signature :: string

definition ticket_text ::
  "(ticket_time \<Rightarrow> string) \<Rightarrow> string \<Rightarrow> string \<Rightarrow> string \<Rightarrow> string \<Rightarrow> ticket_time \<Rightarrow> string" where
  "ticket_text fmt action_id worker_id task_id resource expiry =
     action_id @ '':'' @ worker_id @ '':'' @ task_id @ '':'' @ resource @ '':'' @ fmt expiry"

definition issue_execution_ticket ::
  "(string \<Rightarrow> string) \<Rightarrow> (string \<Rightarrow> string \<Rightarrow> string) \<Rightarrow> (ticket_time \<Rightarrow> string) \<Rightarrow> real \<Rightarrow> real
   \<Rightarrow> string \<Rightarrow> string \<Rightarrow> string \<Rightarrow> string list \<Rightarrow> string \<Rightarrow> string \<Rightarrow> ticket_time \<Rightarrow> authority
   \<Rightarrow> (bool \<times> string \<times> ticket option) \<times> authority" where
  "issue_execution_ticket sha mac fmt now now2 action_id worker_id task_id command workspace_path
       session_secret ttl s =
     (case ttl of
        Finite ttl_seconds \<Rightarrow>
          if \<not> (0 < ttl_seconds \<and> ttl_seconds \<le> 60)
          then ((False, ''DENIED: ticket TTL must be a finite number in (0, 60] seconds'', None), s)
          else (case verify_and_consume sha now action_id worker_id task_id command workspace_path s of
             ((valid, reason), s') \<Rightarrow>
               if \<not> valid then ((False, reason, None), s')
               else let resource = compute_action_resource sha command workspace_path task_id;
                        expiry = Finite (now2 + ttl_seconds)
                    in ((True, ''APPROVED'',
                         Some \<lparr>tk_action_id = action_id, tk_worker_id = worker_id,
                               tk_task_id = task_id, tk_resource = resource, tk_expiry = expiry,
                               tk_signature = mac session_secret
                                 (ticket_text fmt action_id worker_id task_id resource expiry)\<rparr>), s'))
      | _ \<Rightarrow> ((False, ''DENIED: ticket TTL must be a finite number in (0, 60] seconds'', None), s))"

text \<open>The comparisons of a clock reading with an expiry; those with NaN are false.\<close>

definition before_expiry :: "real \<Rightarrow> ticket_time \<Rightarrow> bool" where
  "before_expiry now t = (case t of Finite e \<Rightarrow> now < e | PosInf \<Rightarrow> True | _ \<Rightarrow> False)"

definition expiry_within :: "ticket_time \<Rightarrow> real \<Rightarrow> bool" where
  "expiry_within t limit = (case t of Finite e \<Rightarrow> e \<le> limit | NegInf \<Rightarrow> True | _ \<Rightarrow> False)"

definition verify_ticket_binding ::
  "(string \<Rightarrow> string) \<Rightarrow> (string \<Rightarrow> string \<Rightarrow> string) \<Rightarrow> (ticket_time \<Rightarrow> string) \<Rightarrow> real \<Rightarrow> ticket \<Rightarrow> string
   \<Rightarrow> string \<Rightarrow> string \<Rightarrow> string list \<Rightarrow> string \<Rightarrow> bool \<times> string" where
  "verify_ticket_binding sha mac fmt now tk session_secret worker_id task_id command workspace_path =
     (if tk_action_id tk = [] then (False, ''DENIED: ticket missing action_id'')
      else if tk_worker_id tk \<noteq> worker_id then (False, ''DENIED: ticket worker mismatch'')
      else if tk_task_id tk \<noteq> task_id then (False, ''DENIED: ticket task mismatch'')
      else if tk_expiry tk = Malformed then (False, ''DENIED: ticket expiry malformed'')
      else if length (tk_signature tk) \<noteq> 64 \<or> \<not> is_ascii (tk_signature tk)
      then (False, ''DENIED: ticket signature malformed'')
      else if \<not> (before_expiry now (tk_expiry tk) \<and> expiry_within (tk_expiry tk) (now + 60))
      then (if expiry_within (tk_expiry tk) now then (False, ''DENIED: ticket expired'')
            else (False, ''DENIED: ticket expiry malformed or exceeds maximum TTL''))
      else if tk_resource tk \<noteq> compute_action_resource sha command workspace_path task_id
      then (False, ''DENIED: ticket resource mismatch with command/task/workspace'')
      else if tk_signature tk \<noteq> mac session_secret (ticket_text fmt (tk_action_id tk)
                (tk_worker_id tk) (tk_task_id tk) (tk_resource tk) (tk_expiry tk))
      then (False, ''DENIED: ticket cryptographic signature invalid'')
      else (True, ''VALID''))"

section \<open>Runs of the authority\<close>

text \<open>
  The operations as events: everything that can be done to the broker, behind the authority or
  through it, and the two ways to spend an approval.
\<close>

datatype authority_event =
    BrokerOp broker_event
  | Consume real string string string "string list" string
  | Issue real real string string string "string list" string string ticket_time

fun authority_step ::
  "(string \<Rightarrow> string) \<Rightarrow> (string \<Rightarrow> string \<Rightarrow> string) \<Rightarrow> (ticket_time \<Rightarrow> string)
   \<Rightarrow> authority \<Rightarrow> authority_event \<Rightarrow> authority" where
  "authority_step sha mac fmt s (BrokerOp e) = s\<lparr>ta_broker := broker_step sha (ta_broker s) e\<rparr>"
| "authority_step sha mac fmt s (Consume now i w t cmd ws) = snd (verify_and_consume sha now i w t cmd ws s)"
| "authority_step sha mac fmt s (Issue now now2 i w t cmd ws secret ttl) =
     snd (issue_execution_ticket sha mac fmt now now2 i w t cmd ws secret ttl s)"

text \<open>The action an operation spends: by a positive answer or by a ticket.\<close>

fun authority_grants ::
  "(string \<Rightarrow> string) \<Rightarrow> (string \<Rightarrow> string \<Rightarrow> string) \<Rightarrow> (ticket_time \<Rightarrow> string)
   \<Rightarrow> authority \<Rightarrow> authority_event \<Rightarrow> string option" where
  "authority_grants sha mac fmt s (BrokerOp e) = None"
| "authority_grants sha mac fmt s (Consume now i w t cmd ws) =
     (if fst (fst (verify_and_consume sha now i w t cmd ws s)) then Some i else None)"
| "authority_grants sha mac fmt s (Issue now now2 i w t cmd ws secret ttl) =
     (if fst (fst (issue_execution_ticket sha mac fmt now now2 i w t cmd ws secret ttl s))
      then Some i else None)"

text \<open>What the authority wants of an action before it spends it.\<close>

definition spendable ::
  "(string \<Rightarrow> string) \<Rightarrow> real \<Rightarrow> string \<Rightarrow> string \<Rightarrow> string \<Rightarrow> string list \<Rightarrow> string \<Rightarrow> authority \<Rightarrow> bool" where
  "spendable sha now i worker task cmd ws s \<longleftrightarrow> i \<noteq> [] \<and> i \<notin> ta_consumed_actions s \<and>
     (case find_action i (ta_broker s) of
        None \<Rightarrow> False
      | Some a \<Rightarrow> aa_state a = APPROVED \<and> now < aa_expires_at a \<and>
                  is_action_for_context sha a worker task cmd ws)"

lemma expired_form_approved [simp]:
  "aa_state (expired_form now a) = APPROVED \<longleftrightarrow> aa_state a = APPROVED \<and> now < aa_expires_at a"
  "aa_session_id (expired_form now a) = aa_session_id a"
  "aa_resource (expired_form now a) = aa_resource a"
  by (auto simp: expired_form_def)

lemma broker_get_action_eq:
  assumes "find_action i b = Some a"
  shows "broker_get_action now i b = (Some (expired_form now a), broker_step sha b (Look now i))"
  using assms expire_if_needed_eq(1) [OF assms, of now]
  by (simp add: broker_get_action_def split: prod.splits) (metis fst_conv)

lemma verify_and_consume_cases:
  obtains (granted) "spendable sha now i w t cmd ws s"
      "verify_and_consume sha now i w t cmd ws s =
         ((True, ''APPROVED''), s\<lparr>ta_broker := broker_step sha (ta_broker s) (Look now i),
            ta_consumed_actions := insert i (ta_consumed_actions s)\<rparr>)"
  | (denied) m b where "\<not> spendable sha now i w t cmd ws s"
      "b = ta_broker s \<or> b = broker_step sha (ta_broker s) (Look now i)"
      "verify_and_consume sha now i w t cmd ws s = ((False, m), s\<lparr>ta_broker := b\<rparr>)"
proof (cases "i = [] \<or> i \<in> ta_consumed_actions s")
  case True
  then have "\<exists>m. verify_and_consume sha now i w t cmd ws s = ((False, m), s\<lparr>ta_broker := ta_broker s\<rparr>)"
    by (cases "i = []") (simp_all add: verify_and_consume_def)
  moreover have "\<not> spendable sha now i w t cmd ws s" using True by (auto simp: spendable_def)
  ultimately show ?thesis using denied by blast
next
  case False
  show ?thesis
  proof (cases "find_action i (ta_broker s)")
    case None
    then show ?thesis using False denied [of "ta_broker s"]
      by (auto simp: spendable_def verify_and_consume_def broker_get_action_def)
  next
    case (Some a)
    show ?thesis
    proof (cases "spendable sha now i w t cmd ws s")
      case True
      then have "aa_state (expired_form now a) = APPROVED" "aa_session_id a = w"
          "aa_resource a = compute_action_resource sha cmd ws t"
        using Some by (auto simp: spendable_def is_action_for_context_def)
      then have "verify_and_consume sha now i w t cmd ws s =
         ((True, ''APPROVED''), s\<lparr>ta_broker := broker_step sha (ta_broker s) (Look now i),
            ta_consumed_actions := insert i (ta_consumed_actions s)\<rparr>)"
        using False
        by (simp add: verify_and_consume_def broker_get_action_eq [OF Some, of now sha] Let_def
            del: expired_form_approved(1) broker_step.simps)
      then show ?thesis using True granted by blast
    next
      case bad: False
      let ?e = "expired_form now a"
      consider "aa_state ?e \<noteq> APPROVED" | "aa_state ?e = APPROVED" "aa_session_id ?e \<noteq> w"
        | "aa_state ?e = APPROVED" "aa_session_id ?e = w"
          "aa_resource ?e \<noteq> compute_action_resource sha cmd ws t"
        using bad False Some by (auto simp: spendable_def is_action_for_context_def)
      then have "\<exists>m. verify_and_consume sha now i w t cmd ws s =
          ((False, m), s\<lparr>ta_broker := broker_step sha (ta_broker s) (Look now i)\<rparr>)"
        using False by cases
          (simp_all add: verify_and_consume_def broker_get_action_eq [OF Some, of now sha] Let_def
             del: expired_form_approved(1) broker_step.simps)
      then show ?thesis using bad denied by blast
    qed
  qed
qed

lemma verify_and_consume_iff:
  "fst (fst (verify_and_consume sha now i w t cmd ws s)) \<longleftrightarrow> spendable sha now i w t cmd ws s"
  by (cases rule: verify_and_consume_cases [of sha now i w t cmd ws s]) simp_all

lemma issue_execution_ticket_cases:
  obtains (refused) m where
      "issue_execution_ticket sha mac fmt now now2 i w t cmd ws secret ttl s = ((False, m, None), s)"
  | (asked) d where "ttl = Finite d" "0 < d" "d \<le> 60"
      "issue_execution_ticket sha mac fmt now now2 i w t cmd ws secret ttl s =
         (case verify_and_consume sha now i w t cmd ws s of ((valid, reason), s') \<Rightarrow>
            if \<not> valid then ((False, reason, None), s')
            else ((True, ''APPROVED'',
              Some \<lparr>tk_action_id = i, tk_worker_id = w, tk_task_id = t,
                tk_resource = compute_action_resource sha cmd ws t, tk_expiry = Finite (now2 + d),
                tk_signature = mac secret (ticket_text fmt i w t
                  (compute_action_resource sha cmd ws t) (Finite (now2 + d)))\<rparr>), s'))"
proof (cases "\<exists>d. ttl = Finite d \<and> 0 < d \<and> d \<le> 60")
  case True
  then obtain d where "ttl = Finite d" "0 < d" "d \<le> 60" by blast
  then show ?thesis using asked by (simp only: issue_execution_ticket_def Let_def ticket_time.case) simp
next
  case False
  then show ?thesis using refused
    by (cases ttl) (auto simp: issue_execution_ticket_def split: if_splits)
qed

lemma authority_grants_spendable:
  assumes "authority_grants sha mac fmt s e = Some i"
  shows "(\<exists>now w t cmd ws. (e = Consume now i w t cmd ws \<or>
            (\<exists>now2 secret ttl. e = Issue now now2 i w t cmd ws secret ttl)) \<and>
          spendable sha now i w t cmd ws s) \<and>
     i \<notin> ta_consumed_actions s \<and> i \<in> ta_consumed_actions (authority_step sha mac fmt s e)"
proof (cases e)
  case (BrokerOp x)
  then show ?thesis using assms by simp
next
  case (Consume now j w t cmd ws)
  then show ?thesis using assms
    by (cases rule: verify_and_consume_cases [of sha now j w t cmd ws s])
      (auto simp: spendable_def split: if_splits)
next
  case (Issue now now2 j w t cmd ws secret ttl)
  show ?thesis
  proof (cases rule: issue_execution_ticket_cases [of sha mac fmt now now2 j w t cmd ws secret ttl s])
    case (refused m)
    then show ?thesis using assms Issue by simp
  next
    case (asked d)
    then show ?thesis using assms Issue
      by (cases rule: verify_and_consume_cases [of sha now j w t cmd ws s])
        (auto simp: spendable_def split: if_splits)
  qed
qed

lemma issue_step:
  "snd (issue_execution_ticket sha mac fmt now now2 i w t cmd ws secret ttl s) \<in>
     {s, snd (verify_and_consume sha now i w t cmd ws s)}"
  by (cases rule: issue_execution_ticket_cases [of sha mac fmt now now2 i w t cmd ws secret ttl s])
    (simp_all split: prod.splits)

lemma verify_and_consume_step:
  "ta_consumed_actions s \<subseteq> ta_consumed_actions (snd (verify_and_consume sha now i w t cmd ws s)) \<and>
   (ta_broker (snd (verify_and_consume sha now i w t cmd ws s)) \<in>
      {ta_broker s, broker_step sha (ta_broker s) (Look now i)})"
  by (cases rule: verify_and_consume_cases [of sha now i w t cmd ws s]) auto

lemma authority_step_mono: "ta_consumed_actions s \<subseteq> ta_consumed_actions (authority_step sha mac fmt s e)"
proof (cases e)
  case (Consume now i w t cmd ws)
  then show ?thesis using verify_and_consume_step by simp
next
  case (Issue now now2 i w t cmd ws secret ttl)
  then show ?thesis
    using issue_step [of sha mac fmt now now2 i w t cmd ws secret ttl s]
      verify_and_consume_step [of s sha now i w t cmd ws] by auto
qed simp

interpretation execution_grants:
  single_use_authority "authority_step sha mac fmt" "\<lambda>_. True" "authority_grants sha mac fmt"
    ta_consumed_actions
  for sha mac fmt
  by unfold_locales (use authority_grants_spendable authority_step_mono in \<open>blast+\<close>)

text \<open>The broker behind an authority only makes the steps of a broker.\<close>

lemma authority_step_broker:
  "\<exists>bs. ta_broker (authority_step sha mac fmt s e) = foldl (broker_step sha) (ta_broker s) bs \<and>
     (\<forall>b \<in> set bs. e = BrokerOp b \<or> (\<exists>now i. b = Look now i))"
proof -
  have look: "\<exists>bs. x = foldl (broker_step sha) (ta_broker s) bs \<and>
      (\<forall>b \<in> set bs. e = BrokerOp b \<or> (\<exists>now i. b = Look now i))"
    if "x \<in> {ta_broker s, broker_step sha (ta_broker s) (Look now i)}" for x now i
    using that by (auto intro: exI [of _ "[]"] exI [of _ "[Look now i]"])
  show ?thesis
  proof (cases e)
    case (BrokerOp b)
    then show ?thesis by (auto intro: exI [of _ "[b]"])
  next
    case (Consume now i w t cmd ws)
    then have "ta_broker (authority_step sha mac fmt s e) \<in>
        {ta_broker s, broker_step sha (ta_broker s) (Look now i)}"
      using verify_and_consume_step [of s sha now i w t cmd ws] by simp
    then show ?thesis by (rule look)
  next
    case (Issue now now2 i w t cmd ws secret ttl)
    then have "ta_broker (authority_step sha mac fmt s e) \<in>
        {ta_broker s, broker_step sha (ta_broker s) (Look now i)}"
      using issue_step [of sha mac fmt now now2 i w t cmd ws secret ttl s]
        verify_and_consume_step [of s sha now i w t cmd ws] by auto
    then show ?thesis by (rule look)
  qed
qed

lemma authority_run_broker:
  "\<exists>bs. ta_broker (foldl (authority_step sha mac fmt) s es) = foldl (broker_step sha) (ta_broker s) bs \<and>
     (\<forall>b \<in> set bs. BrokerOp b \<in> set es \<or> (\<exists>now i. b = Look now i))"
proof (induction es rule: rev_induct)
  case Nil
  then show ?case by (auto intro: exI [of _ "[]"])
next
  case (snoc e es)
  let ?s = "foldl (authority_step sha mac fmt) s es"
  obtain bs where bs: "ta_broker ?s = foldl (broker_step sha) (ta_broker s) bs"
      "\<forall>b \<in> set bs. BrokerOp b \<in> set es \<or> (\<exists>now i. b = Look now i)" using snoc by blast
  obtain cs where cs: "ta_broker (authority_step sha mac fmt ?s e) = foldl (broker_step sha) (ta_broker ?s) cs"
      "\<forall>b \<in> set cs. e = BrokerOp b \<or> (\<exists>now i. b = Look now i)" using authority_step_broker by blast
  then show ?case using bs by (intro exI [of _ "bs @ cs"]) auto
qed

section \<open>Properties of the authority\<close>

text \<open>
  C16: An approval is spent at most once.  Whatever is called on an authority, in any order, the
  approvals that were granted as a positive answer or as a ticket are all different.
\<close>

theorem approvals_spent_once: "distinct (granted_in (authority_step sha mac fmt)
    (authority_grants sha mac fmt) s es)"
  by (rule execution_grants.granted_once) simp

lemma spending_needs_a_human:
  assumes "mk_broker secret fresh bttl = Inr b0"
    and "s = foldl (authority_step sha mac fmt) (mk_authority b0) es"
    and "e = Consume now i w t cmd ws \<or> (\<exists>now2 tsecret ttl. e = Issue now now2 i w t cmd ws tsecret ttl)"
    and "authority_grants sha mac fmt s e = Some i"
  shows "\<exists>a. find_action i (ta_broker s) = Some a \<and> aa_session_id a = w \<and>
     aa_resource a = sha (resource_text cmd ws t) \<and> now < aa_expires_at a \<and>
     (\<exists>before reason. BrokerOp (Resolve before i True (bk_secret b0) reason) \<in> set es \<and>
        before < aa_expires_at a)"
proof -
  have "spendable sha now i w t cmd ws s"
    using authority_grants_spendable [OF assms(4)] assms(3) by auto
  then obtain a where a: "find_action i (ta_broker s) = Some a" "aa_state a = APPROVED"
      "now < aa_expires_at a" "is_action_for_context sha a w t cmd ws"
    by (auto simp: spendable_def split: option.splits)
  obtain bs where bs: "ta_broker s = foldl (broker_step sha) b0 bs"
      "\<forall>b \<in> set bs. BrokerOp b \<in> set es \<or> (\<exists>now i. b = Look now i)"
    using authority_run_broker [of sha mac fmt "mk_authority b0" es] assms(2)
    by (auto simp: mk_authority_def)
  have "bk_actions b0 = []" using assms(1) by (auto simp: mk_broker_def split: if_splits)
  then obtain before reason where "Resolve before i True (bk_secret b0) reason \<in> set bs"
      "before < aa_expires_at a"
    using approved_in_run [of b0 i sha bs a] a bs(1) by auto
  then show ?thesis using a bs(2)
    by (auto simp: is_action_for_context_def compute_action_resource_def)
qed

text \<open>
  C15: Nothing is executed without a human.  When, after any calls on a new authority, an operation
  spends the approval \<open>i\<close> for a worker, a task, a command and a workspace, the action \<open>i\<close> was
  requested for that worker and has the resource digest of exactly that command, workspace and
  task, its deadline has not come, and a call with the broker's secret approved it before that
  deadline.
\<close>

theorem execution_needs_a_human:
  assumes "mk_broker secret fresh bttl = Inr b0"
    and "s = foldl (authority_step sha mac fmt) (mk_authority b0) es"
    and "e = Consume now i w t cmd ws \<or> (\<exists>now2 tsecret ttl. e = Issue now now2 i w t cmd ws tsecret ttl)"
    and "authority_grants sha mac fmt s e = Some i"
  shows "\<exists>a. find_action i (ta_broker s) = Some a \<and> aa_session_id a = w \<and>
     aa_resource a = sha (resource_text cmd ws t) \<and> now < aa_expires_at a \<and>
     (\<exists>before reason. BrokerOp (Resolve before i True (bk_secret b0) reason) \<in> set es \<and>
        before < aa_expires_at a)"
  using assms by (rule spending_needs_a_human)

definition demo_mac :: "string \<Rightarrow> string \<Rightarrow> string" where
  "demo_mac k s = replicate 64 (CHR ''0'')"

definition demo_fmt :: "ticket_time \<Rightarrow> string" where
  "demo_fmt x = ''70.000''"

text \<open>The approval the broker's example run grants, with the digest that run approves.\<close>

definition demo_hash :: "string \<Rightarrow> string" where
  "demo_hash s = (if s = ''w:execute_command:r:tok'' then ''h'' else ''r'')"

definition demo_authority_events :: "authority_event list" where
  "demo_authority_events = map BrokerOp demo_broker_events"

lemma demo_authority_action:
  "\<exists>a. find_action ''act_h'' (ta_broker (foldl (authority_step demo_hash demo_mac demo_fmt)
       (mk_authority demo_broker) demo_authority_events)) = Some a \<and>
     aa_state a = APPROVED \<and> aa_session_id a = ''w'' \<and> aa_expires_at a = 900 \<and> aa_resource a = ''r''"
proof -
  have "is_ascii ''key''" by code_simp
  then show ?thesis
    by (simp add: demo_authority_events_def demo_broker_events_def demo_broker_def create_action_def
        Let_def new_action_id_def demo_hash_def resolve_by_human_def compare_digest_def find_put_action
        expire_if_needed_def mk_authority_def)
qed

lemma resource_text_not_demo: "resource_text cmd ws t \<noteq> ''w:execute_command:r:tok''"
  by (simp add: resource_text_def)

lemma demo_spendable:
  "spendable demo_hash 20 ''act_h'' ''w'' ''t'' [''ls''] ''/ws''
     (foldl (authority_step demo_hash demo_mac demo_fmt) (mk_authority demo_broker) demo_authority_events)"
proof -
  have "ta_consumed_actions (foldl (authority_step demo_hash demo_mac demo_fmt)
      (mk_authority demo_broker) demo_authority_events) = {}"
    by (simp add: demo_authority_events_def demo_broker_events_def mk_authority_def)
  then show ?thesis using demo_authority_action
    by (auto simp: spendable_def is_action_for_context_def compute_action_resource_def demo_hash_def
        resource_text_not_demo)
qed

theorem execution_needs_a_human_witness:
  "\<exists>before reason. BrokerOp (Resolve before ''act_h'' True ''key'' reason) \<in> set demo_authority_events"
proof -
  have "mk_broker (Some ''key'') ''x'' 900 = Inr demo_broker"
    by (simp add: mk_broker_def demo_broker_def)
  moreover have "authority_grants demo_hash demo_mac demo_fmt
      (foldl (authority_step demo_hash demo_mac demo_fmt) (mk_authority demo_broker) demo_authority_events)
      (Consume 20 ''act_h'' ''w'' ''t'' [''ls''] ''/ws'') = Some ''act_h''"
    using demo_spendable by (simp add: verify_and_consume_iff)
  ultimately show ?thesis
    using execution_needs_a_human [of "Some ''key''" "''x''" 900 demo_broker _ demo_hash demo_mac demo_fmt
        demo_authority_events "Consume 20 ''act_h'' ''w'' ''t'' [''ls''] ''/ws''" 20 "''act_h''" "''w''"
        "''t''" "[''ls'']" "''/ws''"]
    by (auto simp: demo_broker_def)
qed

text \<open>
  The digest names the command.  Two commands have the same resource digest only when command,
  workspace and task agree, or the two different texts the digests are taken of collide.
\<close>

theorem resource_identifies_command:
  "compute_action_resource sha cmd ws t = compute_action_resource sha cmd' ws' t' \<longleftrightarrow>
     (cmd = cmd' \<and> ws = ws' \<and> t = t') \<or>
     (resource_text cmd ws t \<noteq> resource_text cmd' ws' t' \<and>
      sha (resource_text cmd ws t) = sha (resource_text cmd' ws' t'))"
proof -
  have "resource_text cmd ws t = resource_text cmd' ws' t' \<longleftrightarrow> cmd = cmd' \<and> ws = ws' \<and> t = t'"
  proof
    assume eq: "resource_text cmd ws t = resource_text cmd' ws' t'"
    have wf: "wf_json (sort_keys (JObj [(''command'', JList (map JStr c)),
        (''workspace_path'', JStr w), (''task_id'', JStr i)]))" for c w i
      by (rule wf_sort_keys) (simp add: list_all_iff)
    have "sort_keys (JObj [(''command'', JList (map JStr cmd)), (''workspace_path'', JStr ws),
        (''task_id'', JStr t)]) = sort_keys (JObj [(''command'', JList (map JStr cmd')),
        (''workspace_path'', JStr ws'), (''task_id'', JStr t')])"
      using eq by (intro dumps_inj [OF wf wf, where ascii = True and sp = "'' ''"])
        (simp_all only: resource_text_def, simp add: is_ws_def)
    then show "cmd = cmd' \<and> ws = ws' \<and> t = t'"
      by (auto simp: insort_key_def comp_def dest: map_injective intro: injI)
  qed auto
  then show ?thesis by (auto simp: compute_action_resource_def)
qed

text \<open>
  A ticket is accepted exactly when it names the action, the worker and the task, carries the
  resource digest of the command and a signature of 64 ASCII characters that is the MAC of its
  fields under the session secret, and expires within the next 60 seconds; every other ticket
  is refused.
\<close>

theorem ticket_accepted_iff:
  "fst (verify_ticket_binding sha mac fmt now tk secret w t cmd ws) \<longleftrightarrow>
     tk_action_id tk \<noteq> [] \<and> tk_worker_id tk = w \<and> tk_task_id tk = t \<and>
     tk_resource tk = compute_action_resource sha cmd ws t \<and>
     length (tk_signature tk) = 64 \<and> is_ascii (tk_signature tk) \<and>
     tk_signature tk = mac secret (ticket_text fmt (tk_action_id tk) w t (tk_resource tk) (tk_expiry tk)) \<and>
     (\<exists>x. tk_expiry tk = Finite x \<and> now < x \<and> x \<le> now + 60)"
proof -
  have "before_expiry now x \<and> expiry_within x (now + 60) \<longleftrightarrow> (\<exists>r. x = Finite r \<and> now < r \<and> r \<le> now + 60)"
    for x by (cases x) (auto simp: before_expiry_def expiry_within_def)
  then show ?thesis by (auto simp: verify_ticket_binding_def)
qed

text \<open>
  C17: Issue and verify agree.  An approval that can be spent yields a ticket, and that ticket is
  accepted for the same worker, task, command and workspace at every instant before it expires
  that is not before the instant it was issued at, provided the MAC returns 64 ASCII characters.
\<close>

theorem issued_ticket_verifies:
  assumes "spendable sha now i w t cmd ws s" "0 < d" "d \<le> 60"
    and "\<And>k m. length (mac k m) = 64 \<and> is_ascii (mac k m)"
    and "now2 \<le> later" "later < now2 + d"
  shows "\<exists>tk s'. issue_execution_ticket sha mac fmt now now2 i w t cmd ws secret (Finite d) s =
      ((True, ''APPROVED'', Some tk), s') \<and> i \<in> ta_consumed_actions s' \<and>
    verify_ticket_binding sha mac fmt later tk secret w t cmd ws = (True, ''VALID'')"
proof -
  let ?r = "compute_action_resource sha cmd ws t"
  let ?tk = "\<lparr>tk_action_id = i, tk_worker_id = w, tk_task_id = t, tk_resource = ?r,
    tk_expiry = Finite (now2 + d), tk_signature = mac secret (ticket_text fmt i w t ?r (Finite (now2 + d)))\<rparr>"
  have "i \<noteq> []" using assms(1) by (simp add: spendable_def)
  then have "verify_ticket_binding sha mac fmt later ?tk secret w t cmd ws = (True, ''VALID'')"
    using assms(2-6) by (simp add: verify_ticket_binding_def before_expiry_def expiry_within_def)
  moreover obtain b where "verify_and_consume sha now i w t cmd ws s =
      ((True, ''APPROVED''), s\<lparr>ta_broker := b, ta_consumed_actions := insert i (ta_consumed_actions s)\<rparr>)"
    using assms(1) by (cases rule: verify_and_consume_cases [of sha now i w t cmd ws s]) auto
  then have "issue_execution_ticket sha mac fmt now now2 i w t cmd ws secret (Finite d) s =
      ((True, ''APPROVED'', Some ?tk),
       s\<lparr>ta_broker := b, ta_consumed_actions := insert i (ta_consumed_actions s)\<rparr>)"
    using assms(2,3) by (simp add: issue_execution_ticket_def Let_def)
  ultimately show ?thesis by auto
qed

theorem issued_ticket_verifies_witness:
  "\<exists>tk. verify_ticket_binding demo_hash demo_mac demo_fmt 70 tk ''s'' ''w'' ''t'' [''ls''] ''/ws'' =
     (True, ''VALID'') \<and> tk_action_id tk = ''act_h''"
proof -
  have "is_ascii (demo_mac k m)" for k m unfolding demo_mac_def by code_simp
  then have mac: "length (demo_mac k m) = 64 \<and> is_ascii (demo_mac k m)" for k m
    by (simp add: demo_mac_def)
  obtain tk s' where "issue_execution_ticket demo_hash demo_mac demo_fmt 20 21 ''act_h'' ''w'' ''t''
      [''ls''] ''/ws'' ''s'' (Finite 60) (foldl (authority_step demo_hash demo_mac demo_fmt)
        (mk_authority demo_broker) demo_authority_events) = ((True, ''APPROVED'', Some tk), s')"
      "verify_ticket_binding demo_hash demo_mac demo_fmt 70 tk ''s'' ''w'' ''t'' [''ls''] ''/ws'' =
        (True, ''VALID'')"
    using issued_ticket_verifies [OF demo_spendable, of 60 demo_mac 21 70 demo_fmt "''s''"] mac by auto
  then show ?thesis
    by (cases rule: issue_execution_ticket_cases [of demo_hash demo_mac demo_fmt 20 21 "''act_h''" "''w''"
        "''t''" "[''ls'']" "''/ws''" "''s''" "Finite 60" "foldl (authority_step demo_hash demo_mac demo_fmt)
        (mk_authority demo_broker) demo_authority_events"])
      (auto split: prod.splits if_splits)
qed

end
