(* ===== verification/OperatorBoundary.thy ===== *)
theory OperatorBoundary
  imports TrustedAuthority AuditLedger
begin

text \<open>
  \<open>src/subagentbridge/approval/operator_boundary.py\<close>: the durable store of operator decisions.
  Several supervisors, each with its own memory of requests, share one SQLite table and one audit
  ledger.  \<open>host\<close> holds what the code takes from outside: SHA-256, HMAC-SHA-256 in hexadecimal, the
  rendering of a float with three decimals and as a JSON number, and \<open>Path.resolve\<close>.  The operator
  and decision verifiers are the callables the trusted host supplies.  Clock readings and the
  random nonce are arguments; where an operation may reload the table, the reading of that reload
  is the argument \<open>reload\<close>.  A failing database connection is modelled where the code answers it
  (\<open>consume_for_execution\<close>); a row whose JSON text is no list of strings or no dictionary of
  strings, which the code never writes, raises when it is read.
\<close>

record host =
  h_sha :: "string \<Rightarrow> string"
  h_mac :: "string \<Rightarrow> string \<Rightarrow> string"
  h_fixed :: "real \<Rightarrow> string"
  h_num :: "real \<Rightarrow> string"
  h_resolve :: "string \<Rightarrow> string"

section \<open>Data\<close>

datatype operator_decision = ALLOW_ONCE | DENY | ANSWER_QUESTIONS

datatype op_state = OP_BLOCKED | OP_APPROVED | OP_DENIED | OP_QUESTION_PENDING | OP_EXPIRED | OP_CONSUMED

fun decision_value :: "operator_decision \<Rightarrow> string" where
  "decision_value ALLOW_ONCE = ''ALLOW_ONCE''"
| "decision_value DENY = ''DENY''"
| "decision_value ANSWER_QUESTIONS = ''ANSWER_QUESTIONS''"

fun op_state_value :: "op_state \<Rightarrow> string" where
  "op_state_value OP_BLOCKED = ''BLOCKED''"
| "op_state_value OP_APPROVED = ''APPROVED''"
| "op_state_value OP_DENIED = ''DENIED''"
| "op_state_value OP_QUESTION_PENDING = ''QUESTION_PENDING''"
| "op_state_value OP_EXPIRED = ''EXPIRED''"
| "op_state_value OP_CONSUMED = ''CONSUMED''"

record operator_identity =
  oi_operator_id :: string
  oi_role :: string
  oi_channel :: string
  oi_auth_token :: string

definition mk_operator_identity ::
  "string \<Rightarrow> string \<Rightarrow> string \<Rightarrow> string \<Rightarrow> exn + operator_identity" where
  "mk_operator_identity operator_id role channel auth_token =
     (if operator_id = [] \<or> role = [] \<or> channel = [] \<or> auth_token = []
      then raise ValueError ''operator_id, role, channel, and auth_token are strictly required''
      else if role \<in> {''worker'', ''agent'', ''subagent'', ''untrusted''}
      then raise PermissionError ''not an authorized operator role''
      else ok \<lparr>oi_operator_id = operator_id, oi_role = role, oi_channel = channel,
               oi_auth_token = auth_token\<rparr>)"

record operator_request =
  rq_action_id :: string
  rq_session_id :: string
  rq_task_id :: string
  rq_command :: "string list"
  rq_workspace_path :: string
  rq_nonce :: string
  rq_created_at :: real
  rq_expires_at :: real
  rq_state :: op_state
  rq_decision :: "operator_decision option"
  rq_operator_id :: string
  rq_operator_role :: string
  rq_operator_channel :: string
  rq_operator_notes :: string
  rq_questions :: "string list"
  rq_answers :: "(string \<times> string) list"
  rq_operator_verified :: bool
  rq_action_bound_verified :: bool

text \<open>A row of \<open>operator_approvals\<close>; \<open>None\<close> is \<open>NULL\<close>.\<close>

record operator_row =
  or_action_id :: string
  or_session_id :: string
  or_task_id :: string
  or_command_json :: string
  or_workspace_path :: string
  or_nonce :: string
  or_created_at :: real
  or_expires_at :: real
  or_state :: op_state
  or_decision :: "operator_decision option"
  or_operator_id :: "string option"
  or_operator_role :: "string option"
  or_operator_channel :: "string option"
  or_operator_notes :: "string option"
  or_questions_json :: "string option"
  or_answers_json :: "string option"
  or_operator_verified :: bool
  or_action_bound_verified :: bool

record op_store =
  os_rows :: "operator_row list"
  os_ledger :: audit_db

type_synonym operator_verifier = "operator_identity \<Rightarrow> exn + bool"
type_synonym decision_verifier =
  "operator_request \<Rightarrow> operator_decision \<Rightarrow> operator_identity \<Rightarrow> exn + bool"

record boundary =
  ob_default_ttl :: real
  ob_operator_verifier :: "operator_verifier option"
  ob_decision_verifier :: "decision_verifier option"
  ob_secret :: string
  ob_requests :: "operator_request list"
  ob_consumed_nonces :: "string set"
  ob_has_db :: bool
  ob_has_ledger :: bool

definition mk_boundary ::
  "real \<Rightarrow> string option \<Rightarrow> string \<Rightarrow> operator_verifier option \<Rightarrow> decision_verifier option
   \<Rightarrow> bool \<Rightarrow> bool \<Rightarrow> exn + boundary" where
  "mk_boundary default_ttl_seconds signing_secret fresh operator_verifier decision_verifier has_db has_ledger =
     (if \<not> (0 < default_ttl_seconds \<and> default_ttl_seconds \<le> 86400)
      then raise ValueError ''default_ttl_seconds must be within (0, 86400]''
      else ok \<lparr>ob_default_ttl = default_ttl_seconds, ob_operator_verifier = operator_verifier,
               ob_decision_verifier = decision_verifier,
               ob_secret = (case signing_secret of None \<Rightarrow> fresh | Some s \<Rightarrow> if s = [] then fresh else s),
               ob_requests = [], ob_consumed_nonces = {}, ob_has_db = has_db,
               ob_has_ledger = has_ledger\<rparr>)"

section \<open>Digests\<close>

definition canonical_command_digest ::
  "host \<Rightarrow> string list \<Rightarrow> string \<Rightarrow> string \<Rightarrow> string" where
  "canonical_command_digest h command workspace_path task_id =
     h_sha h (dumps True '' '' (sort_keys (JObj [(''command'', JList (map JStr command)),
       (''workspace_path'', JStr (h_resolve h workspace_path)), (''task_id'', JStr task_id)])))"

definition challenge_text :: "host \<Rightarrow> operator_request \<Rightarrow> operator_decision \<Rightarrow> string" where
  "challenge_text h request decision = dumps True [] (sort_keys (JObj
     [(''domain'', JStr ''SIMPUL_OPERATOR_APPROVAL_V1''),
      (''action_id'', JStr (rq_action_id request)),
      (''session_id'', JStr (rq_session_id request)),
      (''task_id'', JStr (rq_task_id request)),
      (''nonce'', JStr (rq_nonce request)),
      (''command_digest'', JStr (canonical_command_digest h (rq_command request)
          (rq_workspace_path request) (rq_task_id request))),
      (''workspace_path'', JStr (rq_workspace_path request)),
      (''created_at'', JNum (h_num h (rq_created_at request))),
      (''expires_at'', JNum (h_num h (rq_expires_at request))),
      (''decision'', JStr (decision_value decision))]))"

definition operator_decision_challenge ::
  "host \<Rightarrow> operator_request \<Rightarrow> operator_decision \<Rightarrow> string" where
  "operator_decision_challenge h request decision = h_sha h (challenge_text h request decision)"

section \<open>The table\<close>

definition strings_json :: "string list \<Rightarrow> string" where
  "strings_json xs = dumps True '' '' (JList (map JStr xs))"

definition answers_json :: "(string \<times> string) list \<Rightarrow> string" where
  "answers_json kvs = dumps True '' '' (JObj (map (\<lambda>(k, v). (k, JStr v)) kvs))"

definition default_text :: "string \<Rightarrow> string option \<Rightarrow> string" where
  "default_text d x = (case x of None \<Rightarrow> d | Some s \<Rightarrow> s)"

definition row_of_request :: "operator_request \<Rightarrow> operator_row" where
  "row_of_request req =
     \<lparr>or_action_id = rq_action_id req, or_session_id = rq_session_id req, or_task_id = rq_task_id req,
      or_command_json = strings_json (rq_command req), or_workspace_path = rq_workspace_path req,
      or_nonce = rq_nonce req, or_created_at = rq_created_at req, or_expires_at = rq_expires_at req,
      or_state = rq_state req, or_decision = rq_decision req,
      or_operator_id = Some (rq_operator_id req), or_operator_role = Some (rq_operator_role req),
      or_operator_channel = Some (rq_operator_channel req),
      or_operator_notes = Some (rq_operator_notes req),
      or_questions_json = Some (strings_json (rq_questions req)),
      or_answers_json = Some (answers_json (rq_answers req)),
      or_operator_verified = rq_operator_verified req,
      or_action_bound_verified = rq_action_bound_verified req\<rparr>"

definition same_request_context :: "operator_request \<Rightarrow> operator_request \<Rightarrow> bool" where
  "same_request_context req expected \<longleftrightarrow>
     rq_action_id req = rq_action_id expected \<and> rq_session_id req = rq_session_id expected \<and>
     rq_task_id req = rq_task_id expected \<and> rq_command req = rq_command expected \<and>
     rq_workspace_path req = rq_workspace_path expected \<and> rq_nonce req = rq_nonce expected \<and>
     rq_created_at req = rq_created_at expected \<and> rq_expires_at req = rq_expires_at expected"

fun permitted :: "op_state \<Rightarrow> op_state set" where
  "permitted OP_BLOCKED = {OP_QUESTION_PENDING, OP_APPROVED, OP_DENIED, OP_EXPIRED}"
| "permitted OP_QUESTION_PENDING = {OP_QUESTION_PENDING, OP_APPROVED, OP_DENIED, OP_EXPIRED}"
| "permitted OP_APPROVED = {OP_EXPIRED}"
| "permitted _ = {}"

text \<open>The \<open>WHERE\<close> clause of the compare-and-swap and its \<open>SET\<close> clause.\<close>

definition row_matches :: "operator_request \<Rightarrow> operator_row \<Rightarrow> bool" where
  "row_matches expected r \<longleftrightarrow>
     or_action_id r = rq_action_id expected \<and> or_nonce r = rq_nonce expected \<and>
     or_session_id r = rq_session_id expected \<and> or_task_id r = rq_task_id expected \<and>
     or_command_json r = strings_json (rq_command expected) \<and>
     or_workspace_path r = rq_workspace_path expected \<and>
     or_state r = rq_state expected \<and> or_decision r = rq_decision expected \<and>
     default_text [] (or_operator_id r) = rq_operator_id expected \<and>
     default_text [] (or_operator_role r) = rq_operator_role expected \<and>
     default_text [] (or_operator_channel r) = rq_operator_channel expected \<and>
     default_text [] (or_operator_notes r) = rq_operator_notes expected \<and>
     default_text ''[]'' (or_questions_json r) = strings_json (rq_questions expected) \<and>
     default_text ''{}'' (or_answers_json r) = answers_json (rq_answers expected) \<and>
     or_operator_verified r = rq_operator_verified expected \<and>
     or_action_bound_verified r = rq_action_bound_verified expected"

definition set_decision_columns :: "operator_request \<Rightarrow> operator_row \<Rightarrow> operator_row" where
  "set_decision_columns req r =
     r\<lparr>or_state := rq_state req, or_decision := rq_decision req,
       or_operator_id := Some (rq_operator_id req), or_operator_role := Some (rq_operator_role req),
       or_operator_channel := Some (rq_operator_channel req),
       or_operator_notes := Some (rq_operator_notes req),
       or_questions_json := Some (strings_json (rq_questions req)),
       or_answers_json := Some (answers_json (rq_answers req)),
       or_operator_verified := rq_operator_verified req,
       or_action_bound_verified := rq_action_bound_verified req\<rparr>"

definition persist_request ::
  "bool \<Rightarrow> operator_request \<Rightarrow> operator_request option \<Rightarrow> operator_row list
   \<Rightarrow> (exn + unit) \<times> operator_row list" where
  "persist_request has_db req expected rows =
     (if \<not> has_db then (ok (), rows)
      else case expected of
        None \<Rightarrow>
          if list_ex (\<lambda>r. or_action_id r = rq_action_id req \<or> or_nonce r = rq_nonce req) rows
          then (raise PermissionError ''DENIED: stale or terminal approval cannot be inserted again'', rows)
          else (ok (), rows @ [row_of_request req])
      | Some ex \<Rightarrow>
          if \<not> same_request_context req ex
          then (raise PermissionError ''DENIED: approval context changed during transition'', rows)
          else if rq_state req \<notin> permitted (rq_state ex)
          then (raise PermissionError ''DENIED: stale or terminal approval state transition'', rows)
          else if length (filter (row_matches ex) rows) \<noteq> 1
          then (raise PermissionError
                  ''DENIED: stale operator decision or terminal approval changed in another process'', rows)
          else (ok (), update_where (row_matches ex) (set_decision_columns req) rows))"

text \<open>Reading a row back.\<close>

definition json_text_of :: "json \<Rightarrow> string option" where
  "json_text_of v = (case v of JStr s \<Rightarrow> Some s | _ \<Rightarrow> None)"

fun all_some :: "'a option list \<Rightarrow> 'a list option" where
  "all_some [] = Some []"
| "all_some (None # xs) = None"
| "all_some (Some x # xs) = map_option (Cons x) (all_some xs)"

definition load_strings :: "string \<Rightarrow> exn + string list" where
  "load_strings t =
     (case loads t of
        Some (JList vs) \<Rightarrow>
          (case all_some (map json_text_of vs) of
             Some xs \<Rightarrow> ok xs | None \<Rightarrow> raise ValueError ''JSONDecodeError'')
      | _ \<Rightarrow> raise ValueError ''JSONDecodeError'')"

definition load_answers :: "string \<Rightarrow> exn + (string \<times> string) list" where
  "load_answers t =
     (case loads t of
        Some (JObj kvs) \<Rightarrow>
          (case all_some (map (\<lambda>(k, v). map_option (Pair k) (json_text_of v)) kvs) of
             Some xs \<Rightarrow> ok xs | None \<Rightarrow> raise ValueError ''JSONDecodeError'')
      | _ \<Rightarrow> raise ValueError ''JSONDecodeError'')"

definition or_text :: "string \<Rightarrow> string option \<Rightarrow> string" where
  "or_text d x = (if default_text [] x = [] then d else default_text [] x)"

definition request_of_row :: "real \<Rightarrow> operator_row \<Rightarrow> exn + operator_request" where
  "request_of_row now r =
     (let state = (if or_state r \<in> {OP_BLOCKED, OP_APPROVED, OP_QUESTION_PENDING} \<and> now \<ge> or_expires_at r
                   then OP_EXPIRED else or_state r)
      in case load_strings (or_command_json r) of
           Inl e \<Rightarrow> Inl e
         | Inr command \<Rightarrow>
             (case load_strings (or_text ''[]'' (or_questions_json r)) of
                Inl e \<Rightarrow> Inl e
              | Inr questions \<Rightarrow>
                  (case load_answers (or_text ''{}'' (or_answers_json r)) of
                     Inl e \<Rightarrow> Inl e
                   | Inr answers \<Rightarrow>
                       ok \<lparr>rq_action_id = or_action_id r, rq_session_id = or_session_id r,
                          rq_task_id = or_task_id r, rq_command = command,
                          rq_workspace_path = or_workspace_path r, rq_nonce = or_nonce r,
                          rq_created_at = or_created_at r, rq_expires_at = or_expires_at r,
                          rq_state = state, rq_decision = or_decision r,
                          rq_operator_id = default_text [] (or_operator_id r),
                          rq_operator_role = default_text [] (or_operator_role r),
                          rq_operator_channel = default_text [] (or_operator_channel r),
                          rq_operator_notes = default_text [] (or_operator_notes r),
                          rq_questions = questions, rq_answers = answers,
                          rq_operator_verified = or_operator_verified r,
                          rq_action_bound_verified = or_action_bound_verified r\<rparr>)))"

section \<open>Operations\<close>

definition memory_get :: "string \<Rightarrow> boundary \<Rightarrow> operator_request option" where
  "memory_get action_id b = row_at rq_action_id action_id (ob_requests b)"

definition memory_put :: "operator_request \<Rightarrow> boundary \<Rightarrow> boundary" where
  "memory_put req b = b\<lparr>ob_requests := upsert rq_action_id (\<lambda>old new. new) req (ob_requests b)\<rparr>"

interpretation request_table: upsert_table rq_action_id "\<lambda>old new. new" "\<lambda>_. True"
  by unfold_locales simp_all

fun rehydrate_rows ::
  "real \<Rightarrow> operator_row list \<Rightarrow> nat \<Rightarrow> boundary \<Rightarrow> (exn + nat) \<times> boundary" where
  "rehydrate_rows now [] n b = (ok n, b)"
| "rehydrate_rows now (r # rows) n b =
     (case request_of_row now r of
        Inl e \<Rightarrow> (Inl e, b)
      | Inr req \<Rightarrow>
          let b1 = memory_put req b;
              b2 = (if rq_state req = OP_CONSUMED
                    then b1\<lparr>ob_consumed_nonces := insert (rq_nonce req) (ob_consumed_nonces b1)\<rparr> else b1)
          in rehydrate_rows now rows (n + 1) b2)"

definition rehydrate_from_disk :: "real \<Rightarrow> boundary \<Rightarrow> op_store \<Rightarrow> (exn + nat) \<times> boundary" where
  "rehydrate_from_disk now b st =
     (if \<not> ob_has_db b then (ok 0, b) else rehydrate_rows now (os_rows st) 0 b)"

text \<open>\<open>ledger.append\<close> on the stream of this store, where a ledger is configured.\<close>

definition record_event ::
  "host \<Rightarrow> string \<Rightarrow> string \<Rightarrow> (string \<times> json) list \<Rightarrow> boundary \<Rightarrow> op_store \<Rightarrow> (exn + unit) \<times> op_store" where
  "record_event h idempotency_key event_type payload b st =
     (if \<not> ob_has_ledger b then (ok (), st)
      else case append (h_sha h) ''operator_approvals'' idempotency_key event_type payload (os_ledger st) of
             (Inl e, db) \<Rightarrow> (Inl e, st\<lparr>os_ledger := db\<rparr>)
           | (Inr _, db) \<Rightarrow> (ok (), st\<lparr>os_ledger := db\<rparr>))"

definition new_request ::
  "host \<Rightarrow> real \<Rightarrow> string \<Rightarrow> string \<Rightarrow> string \<Rightarrow> string list \<Rightarrow> string \<Rightarrow> string list option \<Rightarrow> real
   \<Rightarrow> operator_request" where
  "new_request h now nonce session_id task_id command workspace_path questions ttl =
     (let c_digest = canonical_command_digest h command workspace_path task_id;
          raw_id = session_id @ '':'' @ task_id @ '':'' @ c_digest @ '':'' @ nonce
      in \<lparr>rq_action_id = ''act_'' @ take 16 (h_sha h raw_id), rq_session_id = session_id,
          rq_task_id = task_id, rq_command = command,
          rq_workspace_path = h_resolve h workspace_path, rq_nonce = nonce, rq_created_at = now,
          rq_expires_at = now + ttl, rq_state = OP_BLOCKED, rq_decision = None, rq_operator_id = [],
          rq_operator_role = [], rq_operator_channel = [], rq_operator_notes = [],
          rq_questions = (case questions of None \<Rightarrow> [] | Some qs \<Rightarrow> qs), rq_answers = [],
          rq_operator_verified = False, rq_action_bound_verified = False\<rparr>)"

definition created_payload :: "host \<Rightarrow> operator_request \<Rightarrow> string \<Rightarrow> (string \<times> json) list" where
  "created_payload h req c_digest =
     [(''action_id'', JStr (rq_action_id req)), (''session_id'', JStr (rq_session_id req)),
      (''task_id'', JStr (rq_task_id req)), (''command_digest'', JStr c_digest),
      (''nonce'', JStr (rq_nonce req)), (''expires_at'', JNum (h_num h (rq_expires_at req)))]"

definition create_request ::
  "host \<Rightarrow> real \<Rightarrow> string \<Rightarrow> string \<Rightarrow> string \<Rightarrow> string list \<Rightarrow> string \<Rightarrow> string list option \<Rightarrow> real option
   \<Rightarrow> boundary \<Rightarrow> op_store \<Rightarrow> (exn + operator_request) \<times> boundary \<times> op_store" where
  "create_request h now nonce session_id task_id command workspace_path questions ttl_seconds b st =
     (if session_id = [] \<or> task_id = [] \<or> command = [] \<or> workspace_path = []
      then (raise ValueError ''session_id, task_id, command, and workspace_path are required'', b, st)
      else
        let ttl = (case ttl_seconds of None \<Rightarrow> ob_default_ttl b | Some t \<Rightarrow> t) in
        if \<not> (0 < ttl \<and> ttl \<le> 86400)
        then (raise ValueError ''ttl_seconds must be in (0, 86400]'', b, st)
        else
          let req = new_request h now nonce session_id task_id command workspace_path questions ttl;
              b1 = memory_put req b
          in case persist_request (ob_has_db b) req None (os_rows st) of
               (Inl e, _) \<Rightarrow> (Inl e, b1, st)
             | (Inr _, rows) \<Rightarrow>
                 let st1 = st\<lparr>os_rows := rows\<rparr> in
                 (case record_event h (rq_action_id req) ''REQUEST_CREATED''
                     (created_payload h req (canonical_command_digest h command workspace_path task_id))
                     b1 st1 of
                    (Inl e, st2) \<Rightarrow> (Inl e, b1, st2)
                  | (Inr _, st2) \<Rightarrow> (ok req, b1, st2)))"

definition expire_if_due ::
  "real \<Rightarrow> real \<Rightarrow> operator_request \<Rightarrow> boundary \<Rightarrow> op_store
   \<Rightarrow> (exn + operator_request) \<times> boundary \<times> op_store" where
  "expire_if_due now reload req b st =
     (if now < rq_expires_at req \<or> rq_state req \<notin> {OP_BLOCKED, OP_QUESTION_PENDING, OP_APPROVED}
      then (ok req, b, st)
      else let expired = req\<lparr>rq_state := OP_EXPIRED\<rparr> in
        case persist_request (ob_has_db b) expired (Some req) (os_rows st) of
          (Inl _, _) \<Rightarrow>
            if ob_has_db b
            then (case rehydrate_from_disk reload b st of
                    (Inl e, b1) \<Rightarrow> (Inl e, b1, st)
                  | (Inr _, b1) \<Rightarrow>
                      (ok (case memory_get (rq_action_id req) b1 of None \<Rightarrow> expired | Some q \<Rightarrow> q), b1, st))
            else (ok expired, b, st)
        | (Inr _, rows) \<Rightarrow> (ok expired, memory_put expired b, st\<lparr>os_rows := rows\<rparr>))"

text \<open>The checks of an operator before any state is read, and the decided request.\<close>

definition authenticate ::
  "operator_identity \<Rightarrow> boundary \<Rightarrow> exn + unit" where
  "authenticate operator b =
     (case ob_operator_verifier b of
        None \<Rightarrow> raise PermissionError ''DENIED: independently authenticated operator verifier is not configured''
      | Some verifier \<Rightarrow>
          (case verifier operator of
             Inl _ \<Rightarrow> raise PermissionError ''DENIED: operator identity verification failed''
           | Inr verified \<Rightarrow>
               if \<not> verified
               then raise PermissionError ''DENIED: operator identity has not been authenticated''
               else if oi_role operator \<notin> {''security_lead'', ''security_admin'', ''operator''}
               then raise PermissionError ''DENIED: authenticated operator role cannot resolve approvals''
               else ok ()))"

definition check_proof ::
  "operator_request \<Rightarrow> operator_decision \<Rightarrow> operator_identity \<Rightarrow> boundary \<Rightarrow> exn + unit" where
  "check_proof req decision operator b =
     (case ob_decision_verifier b of
        None \<Rightarrow> ok ()
      | Some verifier \<Rightarrow>
          (case verifier req decision operator of
             Inl _ \<Rightarrow> raise PermissionError ''DENIED: action-bound decision verification failed''
           | Inr authorized \<Rightarrow>
               if \<not> authorized
               then raise PermissionError ''DENIED: action-specific operator proof invalid''
               else ok ()))"

definition decided ::
  "operator_decision \<Rightarrow> operator_identity \<Rightarrow> string \<Rightarrow> (string \<times> string) list option \<Rightarrow> bool
   \<Rightarrow> operator_request \<Rightarrow> operator_request" where
  "decided decision operator notes answers bound req =
     req\<lparr>rq_decision := Some decision, rq_operator_id := oi_operator_id operator,
         rq_operator_role := oi_role operator, rq_operator_channel := oi_channel operator,
         rq_operator_notes := notes, rq_operator_verified := True, rq_action_bound_verified := bound,
         rq_state := (case decision of
                        ALLOW_ONCE \<Rightarrow> OP_APPROVED | DENY \<Rightarrow> OP_DENIED
                      | ANSWER_QUESTIONS \<Rightarrow> OP_QUESTION_PENDING),
         rq_answers := (case decision of
                          ANSWER_QUESTIONS \<Rightarrow>
                            (case answers of
                               None \<Rightarrow> rq_answers req
                             | Some kvs \<Rightarrow> fold (\<lambda>(k, v). AList.update k v) kvs (rq_answers req))
                        | _ \<Rightarrow> rq_answers req)\<rparr>"

definition decision_key :: "string \<Rightarrow> operator_decision \<Rightarrow> operator_request \<Rightarrow> string" where
  "decision_key action_id decision updated =
     action_id @ '':decision:'' @ decision_value decision @ '':'' @ show_nat (length (rq_answers updated))"

definition decision_payload ::
  "string \<Rightarrow> operator_decision \<Rightarrow> operator_identity \<Rightarrow> string \<Rightarrow> operator_request \<Rightarrow> (string \<times> json) list" where
  "decision_payload action_id decision operator notes updated =
     [(''action_id'', JStr action_id), (''decision'', JStr (decision_value decision)),
      (''operator_id'', JStr (oi_operator_id operator)), (''operator_role'', JStr (oi_role operator)),
      (''operator_channel'', JStr (oi_channel operator)),
      (''state'', JStr (op_state_value (rq_state updated))), (''notes'', JStr notes),
      (''answers'', JObj (map (\<lambda>(k, v). (k, JStr v)) (rq_answers updated)))]"

definition resolve_by_operator ::
  "host \<Rightarrow> real \<Rightarrow> real \<Rightarrow> string \<Rightarrow> operator_decision \<Rightarrow> operator_identity \<Rightarrow> string
   \<Rightarrow> (string \<times> string) list option \<Rightarrow> boundary \<Rightarrow> op_store
   \<Rightarrow> (exn + operator_request) \<times> boundary \<times> op_store" where
  "resolve_by_operator h now reload action_id decision operator notes answers b st =
     (case authenticate operator b of
        Inl e \<Rightarrow> (Inl e, b, st)
      | Inr _ \<Rightarrow>
        (case memory_get action_id b of
           None \<Rightarrow> (raise KeyError ''unknown action_id'', b, st)
         | Some req \<Rightarrow>
             if rq_state req \<in> {OP_BLOCKED, OP_QUESTION_PENDING} \<and> now \<ge> rq_expires_at req
             then (case expire_if_due now reload req b st of
                     (Inl e, b1, st1) \<Rightarrow> (Inl e, b1, st1)
                   | (Inr _, b1, st1) \<Rightarrow> (raise PermissionError ''Approval request has expired'', b1, st1))
             else if rq_state req \<noteq> OP_BLOCKED \<and> rq_state req \<noteq> OP_QUESTION_PENDING
             then (raise PermissionError ''Action cannot be resolved in this state'', b, st)
             else if rq_nonce req \<in> ob_consumed_nonces b
             then (raise PermissionError ''Action nonce already consumed (replay prevented)'', b, st)
             else (case check_proof req decision operator b of
               Inl e \<Rightarrow> (Inl e, b, st)
             | Inr _ \<Rightarrow>
                 let updated = decided decision operator notes answers (ob_decision_verifier b \<noteq> None) req in
                 (case record_event h (decision_key action_id decision updated) ''OPERATOR_DECISION''
                     (decision_payload action_id decision operator notes updated) b st of
                    (Inl e, st1) \<Rightarrow> (Inl e, b, st1)
                  | (Inr _, st1) \<Rightarrow>
                      (case persist_request (ob_has_db b) updated (Some req) (os_rows st1) of
                         (Inl e, _) \<Rightarrow> (Inl e, b, st1)
                       | (Inr _, rows) \<Rightarrow> (ok updated, memory_put updated b, st1\<lparr>os_rows := rows\<rparr>))))))"

record op_ticket =
  ot_action_id :: string
  ot_session_id :: string
  ot_task_id :: string
  ot_command_digest :: string
  ot_nonce :: string
  ot_expiry :: real
  ot_signature :: string

definition consume_ticket ::
  "host \<Rightarrow> string \<Rightarrow> string \<Rightarrow> string \<Rightarrow> string \<Rightarrow> string \<Rightarrow> string \<Rightarrow> real \<Rightarrow> op_ticket" where
  "consume_ticket h secret action_id session_id task_id actual_digest nonce expiry =
     \<lparr>ot_action_id = action_id, ot_session_id = session_id, ot_task_id = task_id,
      ot_command_digest = actual_digest, ot_nonce = nonce, ot_expiry = expiry,
      ot_signature = h_mac h secret (action_id @ '':'' @ session_id @ '':'' @ task_id @ '':'' @
        actual_digest @ '':'' @ nonce @ '':'' @ h_fixed h expiry)\<rparr>"

definition consumed_payload ::
  "string \<Rightarrow> string \<Rightarrow> string \<Rightarrow> string \<Rightarrow> (string \<times> json) list" where
  "consumed_payload action_id session_id task_id nonce =
     [(''action_id'', JStr action_id), (''session_id'', JStr session_id), (''task_id'', JStr task_id),
      (''nonce'', JStr nonce)]"

text \<open>The conditions of a grant, in the order the code tests them: the reason of a refusal.\<close>

definition refusal ::
  "host \<Rightarrow> operator_request \<Rightarrow> string \<Rightarrow> string \<Rightarrow> string list \<Rightarrow> string \<Rightarrow> boundary \<Rightarrow> string option" where
  "refusal h req session_id task_id command workspace_path b =
     (if rq_state req \<noteq> OP_APPROVED then Some ''DENIED: action is not APPROVED''
      else if \<not> rq_operator_verified req
      then Some ''DENIED: approval has no verified operator provenance''
      else if ob_operator_verifier b = None
      then Some ''DENIED: operator authentication boundary is unavailable''
      else if ob_decision_verifier b \<noteq> None \<and> \<not> rq_action_bound_verified req
      then Some ''DENIED: approval has no action-bound decision provenance''
      else if rq_nonce req \<in> ob_consumed_nonces b
      then Some ''DENIED: approval already consumed (replay prevented)''
      else if rq_session_id req \<noteq> session_id then Some ''DENIED: session mismatch''
      else if rq_task_id req \<noteq> task_id then Some ''DENIED: task mismatch''
      else if canonical_command_digest h (rq_command req) (rq_workspace_path req) (rq_task_id req) \<noteq>
              canonical_command_digest h command workspace_path task_id
      then Some ''DENIED: command or workspace mismatch with approved action''
      else None)"

definition consumable :: "real \<Rightarrow> bool \<Rightarrow> operator_request \<Rightarrow> operator_row \<Rightarrow> bool" where
  "consumable now bound req r \<longleftrightarrow>
     or_action_id r = rq_action_id req \<and> or_state r = OP_APPROVED \<and> or_nonce r = rq_nonce req \<and>
     or_operator_verified r \<and> (\<not> bound \<or> or_action_bound_verified r) \<and> now < or_expires_at r"

text \<open>The transaction of a consumption; \<open>available\<close> is whether the database answers.\<close>

definition consume_row ::
  "bool \<Rightarrow> bool \<Rightarrow> real \<Rightarrow> bool \<Rightarrow> operator_request \<Rightarrow> operator_row list \<Rightarrow> string option \<times> operator_row list" where
  "consume_row has_db available now bound req rows =
     (if \<not> has_db then (None, rows)
      else if \<not> available then (Some ''DENIED: durable approval store unavailable'', rows)
      else if length (filter (consumable now bound req) rows) \<noteq> 1
      then (Some ''DENIED: durable approval already consumed or changed'',
            update_where (consumable now bound req) (\<lambda>r. r\<lparr>or_state := OP_CONSUMED\<rparr>) rows)
      else (None, update_where (consumable now bound req) (\<lambda>r. r\<lparr>or_state := OP_CONSUMED\<rparr>) rows))"

definition consume_for_execution ::
  "host \<Rightarrow> real \<Rightarrow> real \<Rightarrow> bool \<Rightarrow> string \<Rightarrow> string \<Rightarrow> string \<Rightarrow> string list \<Rightarrow> string \<Rightarrow> real
   \<Rightarrow> boundary \<Rightarrow> op_store \<Rightarrow> (exn + bool \<times> string \<times> op_ticket option) \<times> boundary \<times> op_store" where
  "consume_for_execution h now reload available action_id session_id task_id command workspace_path
       ticket_ttl b st =
     (if \<not> (0 < ticket_ttl \<and> ticket_ttl \<le> 60)
      then (ok (False, ''DENIED: ticket TTL must be within (0, 60] seconds'', None), b, st)
      else case memory_get action_id b of
        None \<Rightarrow> (ok (False, ''DENIED: unknown action'', None), b, st)
      | Some req \<Rightarrow>
          if now \<ge> rq_expires_at req
          then (case expire_if_due now reload req b st of
                  (Inl e, b1, st1) \<Rightarrow> (Inl e, b1, st1)
                | (Inr _, b1, st1) \<Rightarrow> (ok (False, ''DENIED: approval expired'', None), b1, st1))
          else (case refusal h req session_id task_id command workspace_path b of
            Some reason \<Rightarrow> (ok (False, reason, None), b, st)
          | None \<Rightarrow>
              (case consume_row (ob_has_db b) available now (ob_decision_verifier b \<noteq> None) req (os_rows st) of
                 (Some reason, rows) \<Rightarrow> (ok (False, reason, None), b, st\<lparr>os_rows := rows\<rparr>)
               | (None, rows) \<Rightarrow>
                   let b1 = (memory_put (req\<lparr>rq_state := OP_CONSUMED\<rparr>) b)
                          \<lparr>ob_consumed_nonces := insert (rq_nonce req) (ob_consumed_nonces b)\<rparr>;
                       tk = consume_ticket h (ob_secret b) action_id session_id task_id
                              (canonical_command_digest h command workspace_path task_id)
                              (rq_nonce req) (now + ticket_ttl)
                   in case record_event h (action_id @ '':consume'') ''APPROVAL_CONSUMED''
                          (consumed_payload action_id session_id task_id (rq_nonce req))
                          b1 (st\<lparr>os_rows := rows\<rparr>) of
                        (Inl e, st1) \<Rightarrow> (Inl e, b1, st1)
                      | (Inr _, st1) \<Rightarrow> (ok (True, ''APPROVED'', Some tk), b1, st1))))"

definition get_request ::
  "real \<Rightarrow> real \<Rightarrow> string \<Rightarrow> boundary \<Rightarrow> op_store
   \<Rightarrow> (exn + operator_request option) \<times> boundary \<times> op_store" where
  "get_request now reload action_id b st =
     (case memory_get action_id b of
        None \<Rightarrow> (ok None, b, st)
      | Some req \<Rightarrow>
          (case expire_if_due now reload req b st of
             (Inl e, b1, st1) \<Rightarrow> (Inl e, b1, st1)
           | (Inr q, b1, st1) \<Rightarrow> (ok (Some q), b1, st1)))"

text \<open>The loop over the snapshot of the requests; \<open>reload\<close> gives the reload's clock reading per action.\<close>

fun pending_loop ::
  "real \<Rightarrow> (string \<Rightarrow> real) \<Rightarrow> operator_request list \<Rightarrow> operator_request list \<Rightarrow> boundary \<Rightarrow> op_store
   \<Rightarrow> (exn + operator_request list) \<times> boundary \<times> op_store" where
  "pending_loop now reload [] pending b st = (ok pending, b, st)"
| "pending_loop now reload (req # reqs) pending b st =
     (case expire_if_due now (reload (rq_action_id req)) req b st of
        (Inl e, b1, st1) \<Rightarrow> (Inl e, b1, st1)
      | (Inr current, b1, st1) \<Rightarrow>
          pending_loop now reload reqs
            (if rq_state current \<in> {OP_BLOCKED, OP_QUESTION_PENDING} then pending @ [current] else pending)
            b1 st1)"

definition list_pending ::
  "real \<Rightarrow> (string \<Rightarrow> real) \<Rightarrow> boundary \<Rightarrow> op_store
   \<Rightarrow> (exn + operator_request list) \<times> boundary \<times> op_store" where
  "list_pending now reload b st = pending_loop now reload (ob_requests b) [] b st"

section \<open>The life of a row\<close>

text \<open>
  The specification of the shared table: the transactions it goes through.  A creation needs a free
  action id and nonce; an expiry and a decision replace exactly one row that still is what the
  supervisor believes it to be; a consumption takes exactly one row that is APPROVED, verified and
  not past its deadline.
\<close>

datatype table_label =
    LCreate operator_request
  | LExpire operator_request
  | LDecide operator_decision operator_identity bool operator_request
  | LConsume bool operator_request

inductive table_step :: "table_label \<Rightarrow> operator_row list \<Rightarrow> operator_row list \<Rightarrow> bool" where
  ts_create: "\<lbrakk>rq_state req = OP_BLOCKED; or_action_id ` set rows \<inter> {rq_action_id req} = {};
      or_nonce ` set rows \<inter> {rq_nonce req} = {}\<rbrakk>
    \<Longrightarrow> table_step (LCreate req) rows (rows @ [row_of_request req])"
| ts_expire: "\<lbrakk>rq_state req \<in> {OP_BLOCKED, OP_QUESTION_PENDING, OP_APPROVED};
      length (filter (row_matches req) rows) = 1\<rbrakk>
    \<Longrightarrow> table_step (LExpire req) rows
          (update_where (row_matches req) (set_decision_columns (req\<lparr>rq_state := OP_EXPIRED\<rparr>)) rows)"
| ts_decide: "\<lbrakk>rq_state req \<in> {OP_BLOCKED, OP_QUESTION_PENDING};
      length (filter (row_matches req) rows) = 1\<rbrakk>
    \<Longrightarrow> table_step (LDecide decision operator bound req) rows
          (update_where (row_matches req)
             (set_decision_columns (decided decision operator notes answers bound req)) rows)"
| ts_consume: "length (filter (consumable now bound req) rows) = 1
    \<Longrightarrow> table_step (LConsume bound req) rows
          (update_where (consumable now bound req) (\<lambda>r. r\<lparr>or_state := OP_CONSUMED\<rparr>) rows)"

inductive table_run :: "table_label list \<Rightarrow> operator_row list \<Rightarrow> operator_row list \<Rightarrow> bool" where
  tr_done: "table_run [] rows rows"
| tr_step: "\<lbrakk>table_run ls rows mid; table_step l mid rows'\<rbrakk> \<Longrightarrow> table_run (ls @ [l]) rows rows'"

lemma table_run_one: "table_step l rows rows' \<Longrightarrow> table_run [l] rows rows'"
  using tr_step [OF tr_done] by fastforce

lemma table_run_append:
  "table_run ls' mid rows' \<Longrightarrow> table_run ls rows mid \<Longrightarrow> table_run (ls @ ls') rows rows'"
  by (induction rule: table_run.induct) (auto simp: append_assoc [symmetric] simp del: append_assoc
      intro: tr_step)

text \<open>What a request and a row say about who may do what: neither ever changes.\<close>

type_synonym context_of = "string \<times> string \<times> string \<times> string \<times> string \<times> string"

definition req_ctx :: "operator_request \<Rightarrow> context_of" where
  "req_ctx q = (rq_nonce q, rq_action_id q, rq_session_id q, rq_task_id q,
     strings_json (rq_command q), rq_workspace_path q)"

definition row_ctx :: "operator_row \<Rightarrow> context_of" where
  "row_ctx r = (or_nonce r, or_action_id r, or_session_id r, or_task_id r, or_command_json r,
     or_workspace_path r)"

lemma row_ctx_simps [simp]:
  "row_ctx (set_decision_columns q r) = row_ctx r"
  "row_ctx (r\<lparr>or_state := x\<rparr>) = row_ctx r"
  "row_ctx (row_of_request q) = req_ctx q"
  "req_ctx (q\<lparr>rq_state := x\<rparr>) = req_ctx q"
  "req_ctx (decided d oper notes answers bound q) = req_ctx q"
  by (simp_all add: row_ctx_def req_ctx_def set_decision_columns_def row_of_request_def decided_def)

lemma row_matches_ctx: "row_matches q r \<Longrightarrow> row_ctx r = req_ctx q \<and> or_state r = rq_state q"
  by (simp add: row_matches_def row_ctx_def req_ctx_def)

lemma map_ctx_update [simp]:
  "(\<And>r. p r \<Longrightarrow> row_ctx (f r) = row_ctx r) \<Longrightarrow> map row_ctx (update_where p f rows) = map row_ctx rows"
  by (simp add: update_where_def)

definition table_ok :: "operator_row list \<Rightarrow> bool" where
  "table_ok rows \<longleftrightarrow> distinct (map or_action_id rows) \<and> distinct (map or_nonce rows) \<and>
     or_command_json ` set rows \<subseteq> range strings_json"

lemma table_ok_ctx:
  "table_ok rows \<longleftrightarrow> distinct (map (fst \<circ> snd) (map row_ctx rows)) \<and> distinct (map fst (map row_ctx rows)) \<and>
     (fst \<circ> snd \<circ> snd \<circ> snd \<circ> snd) ` set (map row_ctx rows) \<subseteq> range strings_json"
proof -
  have "map (fst \<circ> snd) (map row_ctx rows) = map or_action_id rows"
    "map fst (map row_ctx rows) = map or_nonce rows"
    "(fst \<circ> snd \<circ> snd \<circ> snd \<circ> snd) ` set (map row_ctx rows) = or_command_json ` set rows"
    by (simp_all add: row_ctx_def comp_def image_image)
  then show ?thesis by (simp only: table_ok_def)
qed

fun label_ctx :: "table_label \<Rightarrow> context_of list" where
  "label_ctx (LCreate q) = [req_ctx q]"
| "label_ctx _ = []"

lemma table_step_ctx:
  assumes "table_step l rows rows'"
  shows "map row_ctx rows' = map row_ctx rows @ label_ctx l"
  using assms by cases simp_all

lemma table_step_ok:
  assumes "table_step l rows rows'" "table_ok rows"
  shows "table_ok rows'"
  using assms(1)
proof cases
  case (ts_create req)
  then show ?thesis using assms(2) by (auto simp: table_ok_def row_of_request_def)
next
  case (ts_expire req)
  then show ?thesis using assms table_step_ctx [OF assms(1)] by (simp only: table_ok_ctx) simp
next
  case (ts_decide req d oper bound remark ans)
  then show ?thesis using assms table_step_ctx [OF assms(1)] by (simp only: table_ok_ctx) simp
next
  case (ts_consume now bound req)
  then show ?thesis using assms table_step_ctx [OF assms(1)] by (simp only: table_ok_ctx) simp
qed

lemma table_run_ok: "table_run ls rows rows' \<Longrightarrow> table_ok rows \<Longrightarrow> table_ok rows'"
  by (induction rule: table_run.induct) (auto intro: table_step_ok)

lemma table_run_ctx:
  "table_run ls rows rows' \<Longrightarrow> map row_ctx rows' = map row_ctx rows @ concat (map label_ctx ls)"
  by (induction rule: table_run.induct) (simp_all add: table_step_ctx)

text \<open>What is consumed stays consumed, and is consumed once.\<close>

definition consumed_ids :: "operator_row list \<Rightarrow> string set" where
  "consumed_ids rows = {or_action_id r | r. r \<in> set rows \<and> or_state r = OP_CONSUMED}"

lemma filter_one:
  assumes "length (filter p xs) = 1"
  obtains x where "x \<in> set xs" "p x"
proof -
  from assms have "filter p xs \<noteq> []" by auto
  then obtain x ys where "filter p xs = x # ys" by (cases "filter p xs") auto
  then have "x \<in> set (filter p xs)" by simp
  then show ?thesis using that by auto
qed

lemma table_step_consumed:
  assumes "table_step l rows rows'"
  shows "consumed_ids rows \<subseteq> consumed_ids rows'"
  using assms
proof cases
  case (ts_create req)
  then show ?thesis by (auto simp: consumed_ids_def)
next
  case (ts_expire req)
  then have "\<And>r. or_state r = OP_CONSUMED \<Longrightarrow> \<not> row_matches req r" using row_matches_ctx by fastforce
  then show ?thesis using ts_expire by (force simp: consumed_ids_def set_update_where)
next
  case (ts_decide req d oper bound remark ans)
  then have "\<And>r. or_state r = OP_CONSUMED \<Longrightarrow> \<not> row_matches req r" using row_matches_ctx by fastforce
  then show ?thesis using ts_decide by (force simp: consumed_ids_def set_update_where)
next
  case (ts_consume now bound req)
  then show ?thesis by (force simp: consumed_ids_def set_update_where consumable_def)
qed

lemma table_run_consumed: "table_run ls rows rows' \<Longrightarrow> consumed_ids rows \<subseteq> consumed_ids rows'"
  by (induction rule: table_run.induct) (auto dest: table_step_consumed)

lemma consume_step:
  assumes "table_step (LConsume bound req) rows rows'" "table_ok rows"
  shows "rq_action_id req \<notin> consumed_ids rows \<and> rq_action_id req \<in> consumed_ids rows'"
  using assms(1)
proof cases
  case (ts_consume now)
  then obtain x where x: "x \<in> set rows" "consumable now bound req x" by (elim filter_one)
  have "x = y" if "y \<in> set rows" "or_action_id y = rq_action_id req" for y
    using that x assms(2) inj_onD [of or_action_id "set rows" x y]
    by (auto simp: table_ok_def consumable_def distinct_map)
  then have "rq_action_id req \<notin> consumed_ids rows"
    using x by (fastforce simp: consumed_ids_def consumable_def)
  moreover have "rq_action_id req \<in> consumed_ids rows'"
  proof -
    have "x\<lparr>or_state := OP_CONSUMED\<rparr> \<in> set rows'"
      using x ts_consume by (auto simp: set_update_where intro: rev_image_eqI)
    then show ?thesis using x by (force simp: consumed_ids_def consumable_def)
  qed
  ultimately show ?thesis by blast
qed

text \<open>
  History: a row that is APPROVED or CONSUMED carries the decision of an operator, taken on a request
  with the row's context.
\<close>

definition decision_backed :: "table_label list \<Rightarrow> operator_row list \<Rightarrow> bool" where
  "decision_backed ls rows \<longleftrightarrow> (\<forall>r \<in> set rows. or_state r \<in> {OP_APPROVED, OP_CONSUMED} \<longrightarrow>
     (\<exists>oper q. LDecide ALLOW_ONCE oper (or_action_bound_verified r) q \<in> set ls \<and>
        req_ctx q = row_ctx r \<and> or_operator_id r = Some (oi_operator_id oper)))"

lemma decision_backed_step:
  assumes "table_step l rows rows'" "decision_backed ls rows"
  shows "decision_backed (ls @ [l]) rows'"
proof -
  have old: "\<exists>oper q. LDecide ALLOW_ONCE oper (or_action_bound_verified r) q \<in> set (ls @ [l]) \<and>
        req_ctx q = row_ctx r \<and> or_operator_id r = Some (oi_operator_id oper)"
    if "r \<in> set rows" "or_state r \<in> {OP_APPROVED, OP_CONSUMED}" for r
    using that assms(2) by (fastforce simp: decision_backed_def)
  show ?thesis using assms(1)
  proof cases
    case (ts_create req)
    then show ?thesis using old by (auto simp: decision_backed_def row_of_request_def)
  next
    case (ts_expire req)
    then show ?thesis using old
      by (auto simp: decision_backed_def set_update_where set_decision_columns_def split: if_splits)
  next
    case (ts_decide req d oper bound remark ans)
    show ?thesis unfolding decision_backed_def
    proof (intro ballI impI)
      fix r' assume r': "r' \<in> set rows'" "or_state r' \<in> {OP_APPROVED, OP_CONSUMED}"
      then obtain r where r: "r \<in> set rows" "r' = (if row_matches req r
          then set_decision_columns (decided d oper remark ans bound req) r else r)"
        using ts_decide by (auto simp: set_update_where)
      show "\<exists>oper q. LDecide ALLOW_ONCE oper (or_action_bound_verified r') q \<in> set (ls @ [l]) \<and>
        req_ctx q = row_ctx r' \<and> or_operator_id r' = Some (oi_operator_id oper)"
      proof (cases "row_matches req r")
        case True
        then have "d = ALLOW_ONCE" "or_action_bound_verified r' = bound"
            "or_operator_id r' = Some (oi_operator_id oper)" "row_ctx r' = req_ctx req"
          using r r'(2) row_matches_ctx [OF True]
          by (auto simp: set_decision_columns_def decided_def row_ctx_def split: operator_decision.splits)
        then show ?thesis using ts_decide by auto
      next
        case False
        then show ?thesis using old r r' by simp
      qed
    qed
  next
    case (ts_consume now bound req)
    have origin: "\<exists>r \<in> set rows. or_state r \<in> {OP_APPROVED, OP_CONSUMED} \<and> row_ctx r' = row_ctx r \<and>
        or_action_bound_verified r' = or_action_bound_verified r \<and> or_operator_id r' = or_operator_id r"
      if "r' \<in> set rows'" "or_state r' \<in> {OP_APPROVED, OP_CONSUMED}" for r'
      using that ts_consume(2) by (auto simp: set_update_where consumable_def split: if_splits)
    show ?thesis unfolding decision_backed_def
    proof (intro ballI impI)
      fix r' assume r': "r' \<in> set rows'" "or_state r' \<in> {OP_APPROVED, OP_CONSUMED}"
      then obtain r where "r \<in> set rows" "or_state r \<in> {OP_APPROVED, OP_CONSUMED}"
          "row_ctx r' = row_ctx r" "or_action_bound_verified r' = or_action_bound_verified r"
          "or_operator_id r' = or_operator_id r" using origin by blast
      then show "\<exists>oper q. LDecide ALLOW_ONCE oper (or_action_bound_verified r') q \<in> set (ls @ [l]) \<and>
        req_ctx q = row_ctx r' \<and> or_operator_id r' = Some (oi_operator_id oper)"
        using old [of r] by simp
    qed
  qed
qed

lemma decision_backed_run:
  assumes "table_run ls' rows rows'" "decision_backed ls rows"
  shows "decision_backed (ls @ ls') rows'"
  using assms
proof (induction arbitrary: ls rule: table_run.induct)
  case (tr_step ls' rows mid l rows')
  then show ?case using decision_backed_step [OF tr_step.hyps(2), of "ls @ ls'"] by simp
qed simp

section \<open>The supervisors refine the table\<close>

text \<open>The operations of one supervisor as calls.\<close>

datatype operator_op =
    BCreate real string string string "string list" string "string list option" "real option"
  | BResolve real real string operator_decision operator_identity string "(string \<times> string) list option"
  | BConsume real real bool string string string "string list" string real
  | BGet real real string
  | BList real "string \<Rightarrow> real"
  | BReload real

fun call_op :: "host \<Rightarrow> operator_op \<Rightarrow> boundary \<Rightarrow> op_store \<Rightarrow> boundary \<times> op_store" where
  "call_op h (BCreate now nonce s t cmd ws qs ttl) b st = snd (create_request h now nonce s t cmd ws qs ttl b st)"
| "call_op h (BResolve now reload i d oper remark ans) b st =
     snd (resolve_by_operator h now reload i d oper remark ans b st)"
| "call_op h (BConsume now reload up i s t cmd ws ttl) b st =
     snd (consume_for_execution h now reload up i s t cmd ws ttl b st)"
| "call_op h (BGet now reload i) b st = snd (get_request now reload i b st)"
| "call_op h (BList now reload) b st = snd (list_pending now reload b st)"
| "call_op h (BReload now) b st = (snd (rehydrate_from_disk now b st), st)"

text \<open>The transactions an operation may make, and what its caller must have shown for them.\<close>

fun allowed :: "host \<Rightarrow> operator_op \<Rightarrow> boundary \<Rightarrow> table_label \<Rightarrow> bool" where
  "allowed h op b (LCreate q) \<longleftrightarrow> (\<exists>now nonce s t cmd ws qs ttl ttl'.
     op = BCreate now nonce s t cmd ws qs ttl \<and> q = new_request h now nonce s t cmd ws qs ttl')"
| "allowed h op b (LExpire q) \<longleftrightarrow> True"
| "allowed h op b (LDecide d oper bound q) \<longleftrightarrow>
     (\<exists>now reload remark ans. op = BResolve now reload (rq_action_id q) d oper remark ans \<and> now < rq_expires_at q) \<and>
     authenticate oper b = Inr () \<and> check_proof q d oper b = Inr () \<and>
     bound = (ob_decision_verifier b \<noteq> None)"
| "allowed h op b (LConsume bound q) \<longleftrightarrow>
     (\<exists>now reload s t cmd ws ttl. op = BConsume now reload True (rq_action_id q) s t cmd ws ttl \<and>
        refusal h q s t cmd ws b = None \<and> now < rq_expires_at q) \<and>
     q \<in> set (ob_requests b) \<and> bound = (ob_decision_verifier b \<noteq> None)"

lemma memory_get_id: "memory_get i b = Some q \<Longrightarrow> rq_action_id q = i \<and> q \<in> set (ob_requests b)"
  by (auto simp: memory_get_def dest: row_at_SomeD)

lemma record_event_rows [simp]: "os_rows (snd (record_event h k ty p b st)) = os_rows st"
  by (simp add: record_event_def split: prod.splits sum.splits)

lemma persist_cases:
  assumes "persist_request True q ex rows = (Inr x, rows')"
  obtains (insert) "ex = None" "rows' = rows @ [row_of_request q]"
      "or_action_id ` set rows \<inter> {rq_action_id q} = {}" "or_nonce ` set rows \<inter> {rq_nonce q} = {}"
  | (swap) e where "ex = Some e" "length (filter (row_matches e) rows) = 1"
      "rq_state q \<in> permitted (rq_state e)"
      "rows' = update_where (row_matches e) (set_decision_columns q) rows"
proof (cases ex)
  case None
  then have "\<not> list_ex (\<lambda>r. or_action_id r = rq_action_id q \<or> or_nonce r = rq_nonce q) rows"
      "rows' = rows @ [row_of_request q]"
    using assms by (auto simp: persist_request_def split: if_splits)
  moreover from this(1) have "or_action_id ` set rows \<inter> {rq_action_id q} = {}"
      "or_nonce ` set rows \<inter> {rq_nonce q} = {}" by (auto simp: list_ex_iff)
  ultimately show ?thesis using None insert by blast
next
  case (Some e)
  then show ?thesis using assms swap by (auto simp: persist_request_def split: if_splits)
qed

lemma expire_if_due_cases:
  obtains (kept) "expire_if_due now reload q b st = (Inr q, b, st)"
  | (swapped) "ob_has_db b" "rq_state q \<in> {OP_BLOCKED, OP_QUESTION_PENDING, OP_APPROVED}"
      "length (filter (row_matches q) (os_rows st)) = 1" "rq_expires_at q \<le> now"
      "expire_if_due now reload q b st =
         (Inr (q\<lparr>rq_state := OP_EXPIRED\<rparr>), memory_put (q\<lparr>rq_state := OP_EXPIRED\<rparr>) b,
          st\<lparr>os_rows := update_where (row_matches q)
               (set_decision_columns (q\<lparr>rq_state := OP_EXPIRED\<rparr>)) (os_rows st)\<rparr>)"
  | (local) "\<not> ob_has_db b" "rq_expires_at q \<le> now"
      "expire_if_due now reload q b st =
         (Inr (q\<lparr>rq_state := OP_EXPIRED\<rparr>), memory_put (q\<lparr>rq_state := OP_EXPIRED\<rparr>) b, st)"
  | (stale) r where "ob_has_db b" "rq_expires_at q \<le> now"
      "expire_if_due now reload q b st = (r, snd (rehydrate_from_disk reload b st), st)"
      "(\<exists>e. r = Inl e) \<or>
       r = Inr (case memory_get (rq_action_id q) (snd (rehydrate_from_disk reload b st)) of
                  None \<Rightarrow> q\<lparr>rq_state := OP_EXPIRED\<rparr> | Some x \<Rightarrow> x)"
proof (cases "now < rq_expires_at q \<or> rq_state q \<notin> {OP_BLOCKED, OP_QUESTION_PENDING, OP_APPROVED}")
  case True
  then have "expire_if_due now reload q b st = (Inr q, b, st)" by (simp only: expire_if_due_def if_True)
  then show ?thesis by (rule kept)
next
  case False
  let ?q = "q\<lparr>rq_state := OP_EXPIRED\<rparr>"
  obtain r rows where p: "persist_request (ob_has_db b) ?q (Some q) (os_rows st) = (r, rows)"
    by (cases "persist_request (ob_has_db b) ?q (Some q) (os_rows st)")
  have step: "expire_if_due now reload q b st =
      (case persist_request (ob_has_db b) ?q (Some q) (os_rows st) of
          (Inl _, _) \<Rightarrow>
            if ob_has_db b
            then (case rehydrate_from_disk reload b st of
                    (Inl e, b1) \<Rightarrow> (Inl e, b1, st)
                  | (Inr _, b1) \<Rightarrow>
                      (ok (case memory_get (rq_action_id q) b1 of None \<Rightarrow> ?q | Some x \<Rightarrow> x), b1, st))
            else (ok ?q, b, st)
        | (Inr _, rows) \<Rightarrow> (ok ?q, memory_put ?q b, st\<lparr>os_rows := rows\<rparr>))"
    using False by (simp only: expire_if_due_def if_False Let_def)
  have late: "rq_expires_at q \<le> now" using False by auto
  show ?thesis
  proof (cases "ob_has_db b")
    case no: False
    then have "persist_request (ob_has_db b) ?q (Some q) (os_rows st) = (Inr (), os_rows st)"
      by (simp add: persist_request_def)
    then show ?thesis using step no late local by simp
  next
    case db: True
    show ?thesis
    proof (cases r)
      case (Inl e)
      obtain x b1 where "rehydrate_from_disk reload b st = (x, b1)" by fastforce
      then show ?thesis using step p Inl db late stale by (cases x) auto
    next
      case (Inr x)
      then have "persist_request True ?q (Some q) (os_rows st) = (Inr x, rows)" using p db by simp
      then have "length (filter (row_matches q) (os_rows st)) = 1 \<and>
          rows = update_where (row_matches q) (set_decision_columns ?q) (os_rows st)"
        by (cases rule: persist_cases) auto
      then show ?thesis using swapped [OF db _ _ late] step p Inr False by auto
    qed
  qed
qed

lemma rehydrate_rows_fixed:
  "ob_has_db (snd (rehydrate_rows now rows n b)) = ob_has_db b \<and>
   ob_operator_verifier (snd (rehydrate_rows now rows n b)) = ob_operator_verifier b \<and>
   ob_decision_verifier (snd (rehydrate_rows now rows n b)) = ob_decision_verifier b"
  by (induction now rows n b rule: rehydrate_rows.induct)
    (simp_all add: memory_put_def Let_def split: sum.splits)

definition same_config :: "boundary \<Rightarrow> boundary \<Rightarrow> bool" where
  "same_config b b' \<longleftrightarrow> ob_has_db b' = ob_has_db b \<and>
     ob_operator_verifier b' = ob_operator_verifier b \<and> ob_decision_verifier b' = ob_decision_verifier b"

lemma same_config_simps [simp]:
  "same_config b b"
  "same_config b (memory_put q b') \<longleftrightarrow> same_config b b'"
  "same_config b (b'\<lparr>ob_consumed_nonces := x\<rparr>) \<longleftrightarrow> same_config b b'"
  "same_config b (snd (rehydrate_from_disk now b st))"
  using rehydrate_rows_fixed
  by (auto simp: same_config_def memory_put_def rehydrate_from_disk_def)

lemma expire_if_due_config:
  assumes "expire_if_due now reload q b st = (res, b', st')"
  shows "same_config b b'"
  using assms by (cases rule: expire_if_due_cases [of now reload q b st]) auto

lemma expire_if_due_rows:
  assumes "ob_has_db b" "expire_if_due now reload q b st = (res, b', st')"
  shows "st' = st \<or> table_step (LExpire q) (os_rows st) (os_rows st')"
  by (cases rule: expire_if_due_cases [of now reload q b st]) (use assms ts_expire in auto)

lemma expire_if_due_run:
  assumes "ob_has_db b" "expire_if_due now reload q b st = (res, b', st')"
  shows "\<exists>qs. table_run (map LExpire qs) (os_rows st) (os_rows st')"
proof (cases "st' = st")
  case True
  then have "table_run (map LExpire []) (os_rows st) (os_rows st')" by (simp add: tr_done)
  then show ?thesis by blast
next
  case False
  then have "table_run (map LExpire [q]) (os_rows st) (os_rows st')"
    using expire_if_due_rows [OF assms] by (simp add: table_run_one)
  then show ?thesis by blast
qed

lemma pending_loop_rows:
  assumes "ob_has_db b" "pending_loop now reload reqs acc b st = (res, b', st')"
  shows "same_config b b' \<and> (\<exists>qs. table_run (map LExpire qs) (os_rows st) (os_rows st'))"
  using assms
proof (induction reqs arbitrary: acc b st)
  case Nil
  then have "table_run (map LExpire []) (os_rows st) (os_rows st')" by (simp add: tr_done)
  then show ?case using Nil by (metis Pair_inject pending_loop.simps(1) same_config_simps(1))
next
  case (Cons q reqs)
  obtain r b1 st1 where e: "expire_if_due now (reload (rq_action_id q)) q b st = (r, b1, st1)"
    by (cases "expire_if_due now (reload (rq_action_id q)) q b st") auto
  have cfg: "same_config b b1" using expire_if_due_config [OF e] .
  then have db: "ob_has_db b1" using Cons.prems(1) by (simp add: same_config_def)
  obtain qs1 where one: "table_run (map LExpire qs1) (os_rows st) (os_rows st1)"
    using expire_if_due_run [OF Cons.prems(1) e] by blast
  show ?case
  proof (cases r)
    case (Inl x)
    then show ?thesis using Cons.prems(2) e one cfg by auto
  next
    case (Inr x)
    then have "\<exists>acc'. pending_loop now reload reqs acc' b1 st1 = (res, b', st')"
      using Cons.prems(2) e by auto
    then obtain qs2 where two: "same_config b1 b'" "table_run (map LExpire qs2) (os_rows st1) (os_rows st')"
      using Cons.IH [OF db] by blast
    have "table_run (map LExpire (qs1 @ qs2)) (os_rows st) (os_rows st')"
      using table_run_append [OF two(2) one] by simp
    moreover have "same_config b b'" using two(1) cfg by (simp add: same_config_def)
    ultimately show ?thesis by blast
  qed
qed

text \<open>The contexts a supervisor remembers.\<close>

definition mem_ctx :: "boundary \<Rightarrow> context_of set" where
  "mem_ctx b = req_ctx ` set (ob_requests b)"

lemma mem_ctx_put: "mem_ctx (memory_put q b) \<subseteq> insert (req_ctx q) (mem_ctx b)"
  by (auto simp: mem_ctx_def memory_put_def upsert_def set_update_where)

lemma mem_ctx_nonces [simp]: "mem_ctx (b\<lparr>ob_consumed_nonces := x\<rparr>) = mem_ctx b"
  by (simp add: mem_ctx_def)

lemma mem_ctx_get: "memory_get i b = Some q \<Longrightarrow> req_ctx q \<in> mem_ctx b"
  by (auto simp: mem_ctx_def dest: memory_get_id)

lemma all_some_map: "all_some (map (Some \<circ> f) xs) = Some (map f xs)"
  by (induction xs) simp_all

lemma wf_strings: "wf_json (JList (map JStr xs))"
  by (simp add: list_all_iff)

lemma spaced_ws: "list_all is_ws '' ''"
  by (simp add: is_ws_def)

lemma load_strings_json: "load_strings (strings_json xs) = Inr xs"
proof -
  have "loads (strings_json xs) = Some (JList (map JStr xs))"
    unfolding strings_json_def using loads_dumps [OF wf_strings spaced_ws] .
  moreover have "all_some (map json_text_of (map JStr xs)) = Some xs"
    using all_some_map [of id xs] by (simp add: json_text_of_def comp_def)
  ultimately show ?thesis by (simp add: load_strings_def)
qed

lemma strings_json_inj: "strings_json xs = strings_json ys \<longleftrightarrow> xs = ys"
  using load_strings_json by (metis sum.inject(2))

lemma request_of_row_ctx:
  assumes "request_of_row now r = Inr q" "or_command_json r \<in> range strings_json"
  shows "req_ctx q = row_ctx r"
proof -
  obtain c where c: "or_command_json r = strings_json c" using assms(2) by auto
  then show ?thesis using assms(1)
    by (auto simp: request_of_row_def load_strings_json req_ctx_def row_ctx_def Let_def split: sum.splits)
qed

lemma rehydrate_rows_ctx:
  "or_command_json ` set rows \<subseteq> range strings_json \<Longrightarrow>
   mem_ctx (snd (rehydrate_rows now rows n b)) \<subseteq> mem_ctx b \<union> row_ctx ` set rows"
proof (induction now rows n b rule: rehydrate_rows.induct)
  case (2 now r rows n b)
  show ?case
  proof (cases "request_of_row now r")
    case (Inl e)
    then show ?thesis by auto
  next
    case (Inr q)
    have q: "req_ctx q = row_ctx r" using request_of_row_ctx [OF Inr] 2(2) by auto
    have "mem_ctx (snd (rehydrate_rows now (r # rows) n b)) \<subseteq>
        mem_ctx (memory_put q b) \<union> row_ctx ` set rows"
      using 2(1) [OF Inr refl refl] 2(2) Inr by (simp add: Let_def split: if_splits)
    then show ?thesis using mem_ctx_put [of q b] q by auto
  qed
qed simp

lemma rehydrate_ctx:
  "table_ok (os_rows st) \<Longrightarrow>
   mem_ctx (snd (rehydrate_from_disk now b st)) \<subseteq> mem_ctx b \<union> row_ctx ` set (os_rows st)"
  using rehydrate_rows_ctx by (auto simp: rehydrate_from_disk_def table_ok_def)

text \<open>What an operation leaves behind: the configuration, and no context it did not find or create.\<close>

definition leaves :: "boundary \<Rightarrow> op_store \<Rightarrow> context_of set \<Rightarrow> boundary \<Rightarrow> op_store \<Rightarrow> bool" where
  "leaves b st new b' st' \<longleftrightarrow> same_config b b' \<and>
     mem_ctx b' \<union> row_ctx ` set (os_rows st') \<subseteq> mem_ctx b \<union> row_ctx ` set (os_rows st) \<union> new"

lemma leaves_refl [simp]: "leaves b st new b st"
  by (auto simp: leaves_def)

lemma rows_ctx_swap:
  "row_ctx ` set (update_where p (set_decision_columns q) rows) = row_ctx ` set rows"
  "row_ctx ` set (update_where p (\<lambda>r. r\<lparr>or_state := x\<rparr>) rows) = row_ctx ` set rows"
proof -
  have "row_ctx ` set ys = set (map row_ctx ys)" for ys by simp
  then show "row_ctx ` set (update_where p (set_decision_columns q) rows) = row_ctx ` set rows"
    "row_ctx ` set (update_where p (\<lambda>r. r\<lparr>or_state := x\<rparr>) rows) = row_ctx ` set rows"
    by (simp_all only: map_ctx_update row_ctx_simps)
qed

lemma expire_if_due_leaves:
  assumes "req_ctx q \<in> mem_ctx b \<union> row_ctx ` set (os_rows st)" "table_ok (os_rows st)"
    and "expire_if_due now reload q b st = (res, b', st')"
  shows "leaves b st new b' st'"
proof (cases rule: expire_if_due_cases [of now reload q b st])
  case kept
  then show ?thesis using assms(3) by simp
next
  case swapped
  then show ?thesis using assms mem_ctx_put [of "q\<lparr>rq_state := OP_EXPIRED\<rparr>" b]
    by (auto simp: leaves_def rows_ctx_swap)
next
  case local
  then show ?thesis using assms mem_ctx_put [of "q\<lparr>rq_state := OP_EXPIRED\<rparr>" b]
    by (auto simp: leaves_def)
next
  case (stale r)
  then show ?thesis using assms rehydrate_ctx [OF assms(2), of reload b] by (auto simp: leaves_def)
qed

lemma pending_loop_leaves:
  assumes "\<forall>q \<in> set reqs. req_ctx q \<in> C" "mem_ctx b \<union> row_ctx ` set (os_rows st) \<subseteq> C"
    and "table_ok (os_rows st)" "ob_has_db b" "pending_loop now reload reqs acc b st = (res, b', st')"
  shows "mem_ctx b' \<union> row_ctx ` set (os_rows st') \<subseteq> C"
  using assms
proof (induction reqs arbitrary: acc b st)
  case (Cons q reqs)
  obtain r b1 st1 where e: "expire_if_due now (reload (rq_action_id q)) q b st = (r, b1, st1)"
    by (cases "expire_if_due now (reload (rq_action_id q)) q b st") auto
  obtain qs where run: "table_run (map LExpire qs) (os_rows st) (os_rows st1)"
    using expire_if_due_run [OF Cons.prems(4) e] by blast
  have ok1: "table_ok (os_rows st1)" using table_run_ok [OF run] Cons.prems(3) by simp
  have db1: "ob_has_db b1" using expire_if_due_config [OF e] Cons.prems(4) by (simp add: same_config_def)
  have "mem_ctx b1 \<union> row_ctx ` set (os_rows st1) \<subseteq> C"
  proof (cases rule: expire_if_due_cases [of now "reload (rq_action_id q)" q b st])
    case kept
    then show ?thesis using e Cons.prems(2) by simp
  next
    case swapped
    then show ?thesis using e Cons.prems(1,2) mem_ctx_put [of "q\<lparr>rq_state := OP_EXPIRED\<rparr>" b]
      by (auto simp: rows_ctx_swap)
  next
    case local
    then show ?thesis using Cons.prems(4) by simp
  next
    case (stale r)
    then show ?thesis using e Cons.prems(2) rehydrate_ctx [OF Cons.prems(3), of "reload (rq_action_id q)" b]
      by auto
  qed
  then show ?case using Cons.IH [OF _ _ ok1 db1] Cons.prems(1,5) e by (cases r) auto
qed simp

lemma create_request_cases:
  obtains (invalid) e where "create_request h now nonce s t cmd ws qs ttl b st = (Inl e, b, st)"
  | (clash) e ttl' where "create_request h now nonce s t cmd ws qs ttl b st =
      (Inl e, memory_put (new_request h now nonce s t cmd ws qs ttl') b, st)"
  | (created) r st' ttl' where "create_request h now nonce s t cmd ws qs ttl b st =
      (r, memory_put (new_request h now nonce s t cmd ws qs ttl') b, st')"
      "ob_has_db b \<Longrightarrow> table_step (LCreate (new_request h now nonce s t cmd ws qs ttl')) (os_rows st) (os_rows st')"
      "\<not> ob_has_db b \<Longrightarrow> os_rows st' = os_rows st"
proof -
  define ttl' where "ttl' = (case ttl of None \<Rightarrow> ob_default_ttl b | Some t \<Rightarrow> t)"
  define q where "q = new_request h now nonce s t cmd ws qs ttl'"
  show ?thesis
  proof (cases "s = [] \<or> t = [] \<or> cmd = [] \<or> ws = [] \<or> \<not> (0 < ttl' \<and> ttl' \<le> 86400)")
    case True
    then have "\<exists>e. create_request h now nonce s t cmd ws qs ttl b st = (Inl e, b, st)"
      by (simp add: create_request_def ttl'_def [symmetric]) blast
    then show ?thesis using invalid by blast
  next
    case False
    obtain x rows where p: "persist_request (ob_has_db b) q None (os_rows st) = (x, rows)" by fastforce
    define payload where "payload = created_payload h q (canonical_command_digest h cmd ws t)"
    have step: "create_request h now nonce s t cmd ws qs ttl b st =
        (case persist_request (ob_has_db b) q None (os_rows st) of
               (Inl e, _) \<Rightarrow> (Inl e, memory_put q b, st)
             | (Inr _, rows) \<Rightarrow>
                 (case record_event h (rq_action_id q) ''REQUEST_CREATED'' payload (memory_put q b)
                     (st\<lparr>os_rows := rows\<rparr>) of
                    (Inl e, st2) \<Rightarrow> (Inl e, memory_put q b, st2)
                  | (Inr _, st2) \<Rightarrow> (ok q, memory_put q b, st2)))"
      using False unfolding create_request_def Let_def ttl'_def [symmetric] q_def [symmetric] payload_def
      by simp
    show ?thesis
    proof (cases x)
      case (Inl e)
      then have "create_request h now nonce s t cmd ws qs ttl b st = (Inl e, memory_put q b, st)"
        using step p by simp
      then show ?thesis using clash unfolding q_def by blast
    next
      case (Inr y)
      obtain z st' where z: "record_event h (rq_action_id q) ''REQUEST_CREATED'' payload (memory_put q b)
          (st\<lparr>os_rows := rows\<rparr>) = (z, st')" by fastforce
      then have rows: "os_rows st' = rows"
        using record_event_rows [of h "rq_action_id q" "''REQUEST_CREATED''" payload "memory_put q b"
            "st\<lparr>os_rows := rows\<rparr>"] by (simp del: record_event_rows)
      have res: "\<exists>r. create_request h now nonce s t cmd ws qs ttl b st = (r, memory_put q b, st')"
        using step p Inr z by (cases z) simp_all
      have blocked: "rq_state q = OP_BLOCKED" by (simp add: q_def new_request_def Let_def)
      have "table_step (LCreate q) (os_rows st) rows" if "ob_has_db b"
      proof -
        have "persist_request True q None (os_rows st) = (Inr y, rows)" using p Inr that by simp
        then show ?thesis
          using ts_create [of q "os_rows st"]
          by (cases rule: persist_cases) (auto simp: blocked)
      qed
      moreover have "rows = os_rows st" if "\<not> ob_has_db b" using p that by (simp add: persist_request_def)
      moreover obtain r where "create_request h now nonce s t cmd ws qs ttl b st =
          (r, memory_put (new_request h now nonce s t cmd ws qs ttl') b, st')"
        using res unfolding q_def by blast
      ultimately show ?thesis using created [of r ttl' st'] rows unfolding q_def by simp
    qed
  qed
qed

lemma resolve_by_operator_cases:
  obtains (refused) e where "resolve_by_operator h now reload i d oper remark ans b st = (Inl e, b, st)"
  | (expired) e q r b1 st1 where "memory_get i b = Some q" "expire_if_due now reload q b st = (r, b1, st1)"
      "resolve_by_operator h now reload i d oper remark ans b st = (Inl e, b1, st1)"
  | (lost) e st1 where "resolve_by_operator h now reload i d oper remark ans b st = (Inl e, b, st1)"
      "os_rows st1 = os_rows st"
  | (resolved) q st1 where "memory_get i b = Some q" "now < rq_expires_at q"
      "rq_state q \<in> {OP_BLOCKED, OP_QUESTION_PENDING}"
      "authenticate oper b = Inr ()" "check_proof q d oper b = Inr ()"
      "resolve_by_operator h now reload i d oper remark ans b st =
        (Inr (decided d oper remark ans (ob_decision_verifier b \<noteq> None) q),
         memory_put (decided d oper remark ans (ob_decision_verifier b \<noteq> None) q) b, st1)"
      "ob_has_db b \<Longrightarrow> table_step (LDecide d oper (ob_decision_verifier b \<noteq> None) q) (os_rows st) (os_rows st1)"
proof (cases "is_ok (authenticate oper b)")
  case False
  then obtain e where "authenticate oper b = Inl e" by (auto simp: not_is_ok_iff)
  then have "resolve_by_operator h now reload i d oper remark ans b st = (Inl e, b, st)"
    by (simp add: resolve_by_operator_def)
  then show ?thesis using refused by blast
next
  case True
  then have auth: "authenticate oper b = Inr ()" by (auto simp: is_ok_iff)
  show ?thesis
  proof (cases "memory_get i b")
    case None
    then have "\<exists>e. resolve_by_operator h now reload i d oper remark ans b st = (Inl e, b, st)"
      using auth by (simp add: resolve_by_operator_def)
    then show ?thesis using refused by blast
  next
    case (Some q)
    have id: "rq_action_id q = i" using memory_get_id [OF Some] by simp
    define u where "u = decided d oper remark ans (ob_decision_verifier b \<noteq> None) q"
    consider (late) "rq_state q \<in> {OP_BLOCKED, OP_QUESTION_PENDING}" "now \<ge> rq_expires_at q"
      | (closed) "rq_state q \<notin> {OP_BLOCKED, OP_QUESTION_PENDING} \<or> rq_nonce q \<in> ob_consumed_nonces b"
          "\<not> (rq_state q \<in> {OP_BLOCKED, OP_QUESTION_PENDING} \<and> now \<ge> rq_expires_at q)"
      | (timely) "rq_state q \<in> {OP_BLOCKED, OP_QUESTION_PENDING}" "now < rq_expires_at q"
          "rq_nonce q \<notin> ob_consumed_nonces b" by force
    then show ?thesis
    proof cases
      case late
      obtain r b1 st1 where e: "expire_if_due now reload q b st = (r, b1, st1)"
        by (cases "expire_if_due now reload q b st") auto
      then have "\<exists>e. resolve_by_operator h now reload i d oper remark ans b st = (Inl e, b1, st1)"
        using auth Some late by (cases r) (simp_all add: resolve_by_operator_def)
      then show ?thesis using expired Some e by blast
    next
      case closed
      have early: "(rq_state q \<in> {OP_BLOCKED, OP_QUESTION_PENDING} \<and> now \<ge> rq_expires_at q) = False"
        using closed(2) by blast
      have "\<exists>e. resolve_by_operator h now reload i d oper remark ans b st = (Inl e, b, st)"
        unfolding resolve_by_operator_def auth Some sum.case option.case early if_False
        using closed(1) by (cases "rq_nonce q \<in> ob_consumed_nonces b") auto
      then show ?thesis using refused by blast
    next
      case timely
      show ?thesis
      proof (cases "is_ok (check_proof q d oper b)")
        case False
        then obtain e where "check_proof q d oper b = Inl e" by (auto simp: not_is_ok_iff)
        then have "resolve_by_operator h now reload i d oper remark ans b st = (Inl e, b, st)"
          using auth Some timely by (auto simp: resolve_by_operator_def)
        then show ?thesis using refused by blast
      next
        case True
        then have proof_ok: "check_proof q d oper b = Inr ()" by (auto simp: is_ok_iff)
        define key where "key = decision_key i d u"
        define payload where "payload = decision_payload i d oper remark u"
        have step: "resolve_by_operator h now reload i d oper remark ans b st =
            (case record_event h key ''OPERATOR_DECISION'' payload b st of
                    (Inl e, st1) \<Rightarrow> (Inl e, b, st1)
                  | (Inr _, st1) \<Rightarrow>
                      (case persist_request (ob_has_db b) u (Some q) (os_rows st1) of
                         (Inl e, _) \<Rightarrow> (Inl e, b, st1)
                       | (Inr _, rows) \<Rightarrow> (ok u, memory_put u b, st1\<lparr>os_rows := rows\<rparr>)))"
          using timely
          unfolding resolve_by_operator_def auth Some sum.case option.case proof_ok Let_def
            u_def [symmetric] key_def payload_def by auto
        obtain z st1 where z: "record_event h key ''OPERATOR_DECISION'' payload b st = (z, st1)" by fastforce
        then have rows1: "os_rows st1 = os_rows st" by (metis record_event_rows snd_conv)
        obtain x rows where p: "persist_request (ob_has_db b) u (Some q) (os_rows st) = (x, rows)"
          by fastforce
        consider (fail) e where "z = Inl e \<or> x = Inl e" | (good) "is_ok z" "is_ok x"
          by (metis is_ok_simps(1) sum.exhaust)
        then show ?thesis
        proof cases
          case fail
          then have "\<exists>e. resolve_by_operator h now reload i d oper remark ans b st = (Inl e, b, st1)"
            using step z p rows1 by (cases z) auto
          then show ?thesis using lost rows1 by blast
        next
          case good
          then have res: "resolve_by_operator h now reload i d oper remark ans b st =
              (Inr u, memory_put u b, st1\<lparr>os_rows := rows\<rparr>)"
            using step z p rows1 by (auto simp: is_ok_iff)
          have "table_step (LDecide d oper (ob_decision_verifier b \<noteq> None) q) (os_rows st) rows"
            if "ob_has_db b"
          proof -
            have "persist_request True u (Some q) (os_rows st) = (Inr (), rows)"
              using p good that by (auto simp: is_ok_iff)
            then have "length (filter (row_matches q) (os_rows st)) = 1 \<and>
                rows = update_where (row_matches q) (set_decision_columns u) (os_rows st)"
              by (cases rule: persist_cases) auto
            then show ?thesis using timely(1) by (auto simp: u_def intro: ts_decide)
          qed
          then show ?thesis
            using resolved [OF Some timely(2,1) auth proof_ok] res unfolding u_def by simp
        qed
      qed
    qed
  qed
qed

lemma consume_row_cases:
  obtains (failed) m where "consume_row db up now bound q rows = (Some m, rows)"
  | (local) "\<not> db" "consume_row db up now bound q rows = (None, rows)"
  | (taken) "db" "up" "length (filter (consumable now bound q) rows) = 1"
      "consume_row db up now bound q rows =
        (None, update_where (consumable now bound q) (\<lambda>r. r\<lparr>or_state := OP_CONSUMED\<rparr>) rows)"
  | (several) m where "db" "1 < length (filter (consumable now bound q) rows)"
      "consume_row db up now bound q rows =
        (Some m, update_where (consumable now bound q) (\<lambda>r. r\<lparr>or_state := OP_CONSUMED\<rparr>) rows)"
proof (cases "db \<and> up")
  case False
  then show ?thesis using failed local by (cases db) (auto simp: consume_row_def)
next
  case True
  let ?n = "length (filter (consumable now bound q) rows)"
  consider "?n = 1" | "?n = 0" | "1 < ?n" by linarith
  then show ?thesis
  proof cases
    case 1
    then show ?thesis using True taken by (simp add: consume_row_def)
  next
    case 2
    then have "update_where (consumable now bound q) (\<lambda>r. r\<lparr>or_state := OP_CONSUMED\<rparr>) rows = rows"
      by (auto simp: update_where_def filter_empty_conv intro: map_idI)
    then show ?thesis using True 2 failed by (simp add: consume_row_def)
  next
    case 3
    then have "\<exists>m. consume_row db up now bound q rows =
        (Some m, update_where (consumable now bound q) (\<lambda>r. r\<lparr>or_state := OP_CONSUMED\<rparr>) rows)"
      using True by (simp add: consume_row_def)
    then show ?thesis using 3 True several by blast
  qed
qed

lemma not_several:
  assumes "table_ok rows"
  shows "\<not> 1 < length (filter (consumable now bound q) rows)"
proof -
  have "distinct (map or_action_id (filter (consumable now bound q) rows))"
    using assms by (simp add: table_ok_def distinct_map_filter)
  moreover have "set (map or_action_id (filter (consumable now bound q) rows)) \<subseteq> {rq_action_id q}"
    by (auto simp: consumable_def)
  ultimately have "length (map or_action_id (filter (consumable now bound q) rows)) \<le> card {rq_action_id q}"
    by (metis card_mono distinct_card finite.emptyI finite.insertI)
  then show ?thesis by simp
qed

lemma consume_for_execution_cases:
  assumes "table_ok (os_rows st)"
  obtains (refused) m where
      "consume_for_execution h now reload up i s t cmd ws ttl b st = (Inr (False, m, None), b, st)"
  | (expired) q r b1 st1 where "memory_get i b = Some q" "expire_if_due now reload q b st = (r, b1, st1)"
      "\<exists>r'. consume_for_execution h now reload up i s t cmd ws ttl b st = (r', b1, st1) \<and>
         (\<forall>x. r' \<noteq> Inr (True, x))"
  | (consumed) q r st1 where "memory_get i b = Some q" "now < rq_expires_at q"
      "refusal h q s t cmd ws b = None"
      "consume_for_execution h now reload up i s t cmd ws ttl b st =
        (r, (memory_put (q\<lparr>rq_state := OP_CONSUMED\<rparr>) b)
           \<lparr>ob_consumed_nonces := insert (rq_nonce q) (ob_consumed_nonces b)\<rparr>, st1)"
      "ob_has_db b \<Longrightarrow> up \<and> table_step (LConsume (ob_decision_verifier b \<noteq> None) q) (os_rows st) (os_rows st1)"
      "\<not> ob_has_db b \<Longrightarrow> os_rows st1 = os_rows st"
proof (cases "memory_get i b")
  case None
  then have "\<exists>m. consume_for_execution h now reload up i s t cmd ws ttl b st = (Inr (False, m, None), b, st)"
    by (simp add: consume_for_execution_def)
  then show ?thesis using refused by blast
next
  case (Some q)
  consider (ttl) "\<not> (0 < ttl \<and> ttl \<le> 60)" | (late) "0 < ttl \<and> ttl \<le> 60" "now \<ge> rq_expires_at q"
    | (no) m where "0 < ttl \<and> ttl \<le> 60" "now < rq_expires_at q" "refusal h q s t cmd ws b = Some m"
    | (yes) "0 < ttl \<and> ttl \<le> 60" "now < rq_expires_at q" "refusal h q s t cmd ws b = None"
    by (meson not_le option.exhaust)
  then show ?thesis
  proof cases
    case ttl
    then have "\<exists>m. consume_for_execution h now reload up i s t cmd ws ttl b st = (Inr (False, m, None), b, st)"
      unfolding consume_for_execution_def by (simp only: if_True not_False_eq_True) blast
    then show ?thesis using refused by blast
  next
    case late
    obtain r b1 st1 where e: "expire_if_due now reload q b st = (r, b1, st1)"
      by (cases "expire_if_due now reload q b st") auto
    then have "\<exists>r'. consume_for_execution h now reload up i s t cmd ws ttl b st = (r', b1, st1) \<and>
         (\<forall>x. r' \<noteq> Inr (True, x))"
      using late Some by (cases r) (simp_all add: consume_for_execution_def)
    then show ?thesis using expired Some e by blast
  next
    case no
    then have "\<exists>m. consume_for_execution h now reload up i s t cmd ws ttl b st = (Inr (False, m, None), b, st)"
      using Some by (simp add: consume_for_execution_def)
    then show ?thesis using refused by blast
  next
    case yes
    let ?bound = "ob_decision_verifier b \<noteq> None"
    let ?b1 = "(memory_put (q\<lparr>rq_state := OP_CONSUMED\<rparr>) b)
        \<lparr>ob_consumed_nonces := insert (rq_nonce q) (ob_consumed_nonces b)\<rparr>"
    define key where "key = i @ '':consume''"
    define payload where "payload = consumed_payload i s t (rq_nonce q)"
    define tk where "tk = consume_ticket h (ob_secret b) i s t (canonical_command_digest h cmd ws t)
        (rq_nonce q) (now + ttl)"
    have step: "consume_for_execution h now reload up i s t cmd ws ttl b st =
        (case consume_row (ob_has_db b) up now ?bound q (os_rows st) of
           (Some reason, rows) \<Rightarrow> (ok (False, reason, None), b, st\<lparr>os_rows := rows\<rparr>)
         | (None, rows) \<Rightarrow>
             (case record_event h key ''APPROVAL_CONSUMED'' payload ?b1 (st\<lparr>os_rows := rows\<rparr>) of
                (Inl e, st1) \<Rightarrow> (Inl e, ?b1, st1)
              | (Inr _, st1) \<Rightarrow> (ok (True, ''APPROVED'', Some tk), ?b1, st1)))"
      using yes unfolding consume_for_execution_def Some option.case Let_def yes(3) key_def payload_def tk_def
      by simp
    have after: "\<exists>r st1. consume_for_execution h now reload up i s t cmd ws ttl b st = (r, ?b1, st1) \<and>
        os_rows st1 = rows"
      if "consume_row (ob_has_db b) up now ?bound q (os_rows st) = (None, rows)" for rows
    proof -
      obtain z st1 where z: "record_event h key ''APPROVAL_CONSUMED'' payload ?b1
          (st\<lparr>os_rows := rows\<rparr>) = (z, st1)" by fastforce
      then have "os_rows st1 = rows"
        using record_event_rows [of h key "''APPROVAL_CONSUMED''" payload ?b1 "st\<lparr>os_rows := rows\<rparr>"]
        by (simp del: record_event_rows)
      then show ?thesis using step that z by (cases z) auto
    qed
    show ?thesis
    proof (cases rule: consume_row_cases [of "ob_has_db b" up now ?bound q "os_rows st"])
      case (failed m)
      then show ?thesis using step refused by simp
    next
      case local
      then show ?thesis using after [OF local(2)] consumed [OF Some yes(2,3)] by blast
    next
      case taken
      then show ?thesis using after [OF taken(4)] consumed [OF Some yes(2,3)]
          ts_consume [OF taken(3)] by metis
    next
      case (several m)
      then show ?thesis using not_several [OF assms] by blast
    qed
  qed
qed

text \<open>Every operation of a supervisor is a run of permitted transactions on the table.\<close>

lemma call_refines:
  assumes "ob_has_db b" "table_ok (os_rows st)" "call_op h op b st = (b', st')"
  shows "same_config b b' \<and>
    (\<exists>ls. table_run ls (os_rows st) (os_rows st') \<and> list_all (allowed h op b) ls)"
proof -
  have none: "same_config b b' \<and> (\<exists>ls. table_run ls (os_rows st) (os_rows st') \<and> list_all (allowed h op b) ls)"
    if "same_config b b'" "os_rows st' = os_rows st"
    using that tr_done [of "os_rows st"] by (intro conjI exI [of _ "[]"]) auto
  have one: "same_config b b' \<and> (\<exists>ls. table_run ls (os_rows st) (os_rows st') \<and> list_all (allowed h op b) ls)"
    if "same_config b b'" "table_step l (os_rows st) (os_rows st')" "allowed h op b l" for l
    using that table_run_one [of l] by (intro conjI exI [of _ "[l]"]) auto
  have expiry: "same_config b b' \<and> (\<exists>ls. table_run ls (os_rows st) (os_rows st') \<and> list_all (allowed h op b) ls)"
    if "expire_if_due now reload q b st = (r, b', st')" for now reload q r
    using expire_if_due_config [OF that] expire_if_due_rows [OF assms(1) that] none one [of "LExpire q"]
    by auto
  show ?thesis
  proof (cases op)
    case (BCreate now nonce s t cmd ws qs ttl)
    show ?thesis
    proof (cases rule: create_request_cases [of h now nonce s t cmd ws qs ttl b st])
      case (created r st1 ttl')
      have "allowed h op b (LCreate (new_request h now nonce s t cmd ws qs ttl'))" using BCreate by auto
      moreover have "same_config b b'" "st' = st1" using assms(3) BCreate created(1) by auto
      ultimately show ?thesis using one created(2) assms(1) by blast
    qed (use assms BCreate none in auto)
  next
    case (BResolve now reload i d oper remark ans)
    show ?thesis
    proof (cases rule: resolve_by_operator_cases [of h now reload i d oper remark ans b st])
      case (expired e q r b1 st1)
      then show ?thesis using assms(3) BResolve expiry by simp
    next
      case (resolved q st1)
      have "rq_action_id q = i" using memory_get_id [OF resolved(1)] by simp
      then have "allowed h op b (LDecide d oper (ob_decision_verifier b \<noteq> None) q)"
        using BResolve resolved(2,4,5) by auto
      moreover have "same_config b b'" "st' = st1" using assms(3) BResolve resolved(6) by auto
      ultimately show ?thesis using one resolved(7) assms(1) by blast
    qed (use assms BResolve none in auto)
  next
    case (BConsume now reload up i s t cmd ws ttl)
    from assms(2) show ?thesis
    proof (cases rule: consume_for_execution_cases [where h = h and now = now and reload = reload and up = up
          and i = i and s = s and t = t and cmd = cmd and ws = ws and ttl = ttl and b = b and st = st])
      case (expired q r b1 st1)
      then show ?thesis using assms(3) BConsume expiry by auto
    next
      case (consumed q r st1)
      have "rq_action_id q = i" "q \<in> set (ob_requests b)" using memory_get_id [OF consumed(1)] by simp_all
      then have "allowed h op b (LConsume (ob_decision_verifier b \<noteq> None) q)"
        using BConsume consumed(2,3,5) assms(1) by auto
      moreover have "same_config b b'" "st' = st1" using assms(3) BConsume consumed(4) by auto
      ultimately show ?thesis using one consumed(5) assms(1) by blast
    qed (use assms BConsume none in auto)
  next
    case (BGet now reload i)
    show ?thesis
    proof (cases "memory_get i b")
      case None
      then show ?thesis using assms BGet none by (simp add: get_request_def)
    next
      case (Some q)
      obtain r b1 st1 where e: "expire_if_due now reload q b st = (r, b1, st1)"
        by (cases "expire_if_due now reload q b st") auto
      then have "b1 = b'" "st1 = st'" using assms(3) BGet Some
        by (cases r; simp add: get_request_def)+
      then show ?thesis using expiry e by blast
    qed
  next
    case (BList now reload)
    then obtain res where "pending_loop now reload (ob_requests b) [] b st = (res, b', st')"
      using assms(3) by (cases "pending_loop now reload (ob_requests b) [] b st") (simp add: list_pending_def)
    from pending_loop_rows [OF assms(1) this] obtain qs where
      "same_config b b'" "table_run (map LExpire qs) (os_rows st) (os_rows st')" by blast
    moreover have "list_all (allowed h op b) (map LExpire qs)" by (simp add: list_all_iff)
    ultimately show ?thesis by blast
  next
    case (BReload now)
    then show ?thesis using assms(3) none by auto
  qed
qed

fun op_ctx :: "host \<Rightarrow> operator_op \<Rightarrow> context_of set" where
  "op_ctx h (BCreate now nonce s t cmd ws qs ttl) = {req_ctx (new_request h now nonce s t cmd ws qs 0)}"
| "op_ctx h _ = {}"

lemma new_request_ctx: "req_ctx (new_request h now nonce s t cmd ws qs ttl) =
    req_ctx (new_request h now nonce s t cmd ws qs 0)"
  by (simp add: req_ctx_def new_request_def Let_def)

lemma call_contexts:
  assumes "ob_has_db b" "table_ok (os_rows st)" "call_op h op b st = (b', st')"
  shows "mem_ctx b' \<union> row_ctx ` set (os_rows st') \<subseteq> mem_ctx b \<union> row_ctx ` set (os_rows st) \<union> op_ctx h op"
proof -
  obtain ls where ls: "table_run ls (os_rows st) (os_rows st')" "list_all (allowed h op b) ls"
    using call_refines [OF assms] by blast
  have "set (label_ctx l) \<subseteq> op_ctx h op" if "allowed h op b l" for l
    using that new_request_ctx by (cases l) auto
  then have "set (concat (map label_ctx ls)) \<subseteq> op_ctx h op"
    using ls(2) by (auto simp: list_all_iff) 
  moreover have "row_ctx ` set (os_rows st') = set (map row_ctx (os_rows st) @ concat (map label_ctx ls))"
    using table_run_ctx [OF ls(1)] by (metis list.set_map)
  ultimately have rows: "row_ctx ` set (os_rows st') \<subseteq> row_ctx ` set (os_rows st) \<union> op_ctx h op"
    by auto
  have expiry: "mem_ctx b' \<subseteq> mem_ctx b \<union> row_ctx ` set (os_rows st)"
    if "expire_if_due now reload q b st = (r, b', st')" "memory_get i b = Some q" for now reload q r i
    using expire_if_due_leaves [OF _ assms(2) that(1), of "{}"] mem_ctx_get [OF that(2)] rows
    by (cases rule: expire_if_due_cases [of now reload q b st])
      (use that mem_ctx_put [of "q\<lparr>rq_state := OP_EXPIRED\<rparr>" b] rehydrate_ctx [OF assms(2), of reload b]
        mem_ctx_get [OF that(2)] in auto)
  have "mem_ctx b' \<subseteq> mem_ctx b \<union> row_ctx ` set (os_rows st) \<union> op_ctx h op"
  proof (cases op)
    case (BCreate now nonce s t cmd ws qs ttl)
    have "mem_ctx (memory_put (new_request h now nonce s t cmd ws qs ttl') b) \<subseteq> mem_ctx b \<union> op_ctx h op"
      for ttl' using mem_ctx_put new_request_ctx BCreate by fastforce
    then show ?thesis using assms(3) BCreate
      by (cases rule: create_request_cases [of h now nonce s t cmd ws qs ttl b st]) auto
  next
    case (BResolve now reload i d oper remark ans)
    show ?thesis
    proof (cases rule: resolve_by_operator_cases [of h now reload i d oper remark ans b st])
      case (expired e q r b1 st1)
      then show ?thesis using assms(3) BResolve expiry by auto
    next
      case (resolved q st1)
      then show ?thesis using assms(3) BResolve mem_ctx_get [OF resolved(1)]
          mem_ctx_put [of "decided d oper remark ans (ob_decision_verifier b \<noteq> None) q" b] by auto
    qed (use assms BResolve in auto)
  next
    case (BConsume now reload up i s t cmd ws ttl)
    from assms(2) show ?thesis
    proof (cases rule: consume_for_execution_cases [where h = h and now = now and reload = reload and up = up
          and i = i and s = s and t = t and cmd = cmd and ws = ws and ttl = ttl and b = b and st = st])
      case (expired q r b1 st1)
      then have "b1 = b'" "st1 = st'" using assms(3) BConsume by auto
      then show ?thesis using expiry [OF _ expired(1)] expired(2) by blast
    next
      case (consumed q r st1)
      then show ?thesis using assms(3) BConsume mem_ctx_get [OF consumed(1)]
          mem_ctx_put [of "q\<lparr>rq_state := OP_CONSUMED\<rparr>" b] by auto
    qed (use assms BConsume in auto)
  next
    case (BGet now reload i)
    show ?thesis
    proof (cases "memory_get i b")
      case None
      then show ?thesis using assms BGet by (auto simp: get_request_def)
    next
      case (Some q)
      obtain r b1 st1 where e: "expire_if_due now reload q b st = (r, b1, st1)"
        by (cases "expire_if_due now reload q b st") auto
      then have "b1 = b'" "st1 = st'" using assms(3) BGet Some
        by (cases r; simp add: get_request_def)+
      then show ?thesis using expiry e Some by blast
    qed
  next
    case (BList now reload)
    then obtain res where "pending_loop now reload (ob_requests b) [] b st = (res, b', st')"
      using assms(3) by (cases "pending_loop now reload (ob_requests b) [] b st") (simp add: list_pending_def)
    from pending_loop_leaves [OF _ _ assms(2,1) this, of "mem_ctx b \<union> row_ctx ` set (os_rows st)"]
    show ?thesis by (auto simp: mem_ctx_def)
  next
    case (BReload now)
    then show ?thesis using assms(3) rehydrate_ctx [OF assms(2), of now b] by auto
  qed
  then show ?thesis using rows by blast
qed

section \<open>Supervisors sharing one table\<close>

record operator_system =
  sy_procs :: "nat \<Rightarrow> boundary"
  sy_store :: op_store

datatype system_event =
    Call nat operator_op
  | Boot nat real "string option" string "operator_verifier option" "decision_verifier option" bool

fun system_step :: "host \<Rightarrow> operator_system \<Rightarrow> system_event \<Rightarrow> operator_system" where
  "system_step h s (Call p op) =
     (case call_op h op (sy_procs s p) (sy_store s) of
        (b, st) \<Rightarrow> s\<lparr>sy_procs := (sy_procs s)(p := b), sy_store := st\<rparr>)"
| "system_step h s (Boot p ttl secret fresh overifier dverifier led) =
     (case mk_boundary ttl secret fresh overifier dverifier True led of
        Inl _ \<Rightarrow> s
      | Inr b \<Rightarrow> s\<lparr>sy_procs := (sy_procs s)(p := b)\<rparr>)"

text \<open>The action an event grants for execution.\<close>

fun system_grants :: "host \<Rightarrow> operator_system \<Rightarrow> system_event \<Rightarrow> string option" where
  "system_grants h s (Call p (BConsume now reload up i sess task cmd ws ttl)) =
     (case fst (consume_for_execution h now reload up i sess task cmd ws ttl (sy_procs s p) (sy_store s)) of
        Inr (granted, _) \<Rightarrow> if granted then Some i else None
      | Inl _ \<Rightarrow> None)"
| "system_grants h s _ = None"

definition system_ok :: "operator_system \<Rightarrow> bool" where
  "system_ok s \<longleftrightarrow> (\<forall>p. ob_has_db (sy_procs s p)) \<and> table_ok (os_rows (sy_store s))"

definition known :: "operator_system \<Rightarrow> context_of set" where
  "known s = (\<Union>p. mem_ctx (sy_procs s p)) \<union> row_ctx ` set (os_rows (sy_store s))"

fun event_ctx :: "host \<Rightarrow> system_event \<Rightarrow> context_of set" where
  "event_ctx h (Call p op) = op_ctx h op"
| "event_ctx h _ = {}"

lemma booted:
  assumes "mk_boundary ttl secret fresh overifier dverifier True led = Inr b"
  shows "ob_has_db b \<and> mem_ctx b = {}"
  using assms by (auto simp: mk_boundary_def mem_ctx_def split: if_splits)

lemma system_step_effect:
  assumes "system_ok s"
  shows "system_ok (system_step h s e) \<and> known (system_step h s e) \<subseteq> known s \<union> event_ctx h e \<and>
    (\<exists>ls. table_run ls (os_rows (sy_store s)) (os_rows (sy_store (system_step h s e))) \<and>
       (\<forall>l \<in> set ls. \<exists>p op. e = Call p op \<and> allowed h op (sy_procs s p) l))"
proof (cases e)
  case (Call p op)
  obtain b st where c: "call_op h op (sy_procs s p) (sy_store s) = (b, st)"
    by (cases "call_op h op (sy_procs s p) (sy_store s)")
  have db: "ob_has_db (sy_procs s p)" and ok: "table_ok (os_rows (sy_store s))"
    using assms by (simp_all add: system_ok_def)
  obtain ls where ls: "same_config (sy_procs s p) b" "table_run ls (os_rows (sy_store s)) (os_rows st)"
      "list_all (allowed h op (sy_procs s p)) ls" using call_refines [OF db ok c] by blast
  have s': "system_step h s e = s\<lparr>sy_procs := (sy_procs s)(p := b), sy_store := st\<rparr>" using Call c by simp
  have sub: "mem_ctx (sy_procs s p) \<union> row_ctx ` set (os_rows (sy_store s)) \<subseteq> known s"
    unfolding known_def by blast
  have new: "mem_ctx b \<union> row_ctx ` set (os_rows st) \<subseteq> known s \<union> event_ctx h e"
    using call_contexts [OF db ok c] sub Call by simp blast
  have "mem_ctx (((sy_procs s)(p := b)) x) \<subseteq> known s \<union> event_ctx h e" for x
    using new unfolding known_def by (cases "x = p") (simp, simp, blast)
  then have mems: "(\<Union>x. mem_ctx (((sy_procs s)(p := b)) x)) \<subseteq> known s \<union> event_ctx h e" by blast
  have "known (system_step h s e) = (\<Union>x. mem_ctx (((sy_procs s)(p := b)) x)) \<union> row_ctx ` set (os_rows st)"
    unfolding s' known_def by simp
  then have "known (system_step h s e) \<subseteq> known s \<union> event_ctx h e"
    using new mems by (metis Un_least le_sup_iff)
  moreover have "system_ok (system_step h s e)"
    using assms ls(1) table_run_ok [OF ls(2) ok] unfolding s' by (simp add: system_ok_def same_config_def)
  ultimately show ?thesis using ls(2,3) Call unfolding s' by (auto simp: list_all_iff)
next
  case (Boot p ttl secret fresh overifier dverifier led)
  then show ?thesis
  proof (cases "mk_boundary ttl secret fresh overifier dverifier True led")
    case (Inl x)
    then show ?thesis using Boot assms tr_done by (auto intro!: exI [of _ "[]"])
  next
    case (Inr b)
    then show ?thesis using Boot assms booted [OF Inr] tr_done
      by (auto simp: system_ok_def known_def intro!: exI [of _ "[]"] split: if_splits)
  qed
qed

lemma system_grants_consumes:
  assumes "system_ok s" "system_grants h s e = Some i"
  shows "\<exists>bound q. rq_action_id q = i \<and> table_step (LConsume bound q) (os_rows (sy_store s))
    (os_rows (sy_store (system_step h s e)))"
proof -
  obtain p now reload up sess task cmd ws ttl x where e: "e = Call p (BConsume now reload up i sess task cmd ws ttl)"
      "fst (consume_for_execution h now reload up i sess task cmd ws ttl (sy_procs s p) (sy_store s)) = Inr (True, x)"
    using assms(2) by (cases "(h, s, e)" rule: system_grants.cases) (auto split: sum.splits prod.splits if_splits)
  have ok: "table_ok (os_rows (sy_store s))" "ob_has_db (sy_procs s p)" using assms(1) by (simp_all add: system_ok_def)
  from ok(1) show ?thesis
  proof (cases rule: consume_for_execution_cases [where h = h and now = now and reload = reload and up = up
        and i = i and s = sess and t = task and cmd = cmd and ws = ws and ttl = ttl and b = "sy_procs s p"])
    case (refused m)
    then show ?thesis using e by simp
  next
    case (expired q r b1 st1)
    then show ?thesis using e(2) by (metis fst_conv)
  next
    case (consumed q r st1)
    then show ?thesis using e memory_get_id [OF consumed(1)] ok(2) by auto
  qed
qed

interpretation operator_grants: single_use_authority "system_step h" system_ok "system_grants h"
    "\<lambda>s. consumed_ids (os_rows (sy_store s))"
  for h
proof unfold_locales
  fix s e a assume s: "system_ok s"
  show "system_ok (system_step h s e)" using system_step_effect [OF s] by blast
  show "consumed_ids (os_rows (sy_store s)) \<subseteq> consumed_ids (os_rows (sy_store (system_step h s e)))"
  proof -
    obtain ls where "table_run ls (os_rows (sy_store s)) (os_rows (sy_store (system_step h s e)))"
      using system_step_effect [OF s, of h e] by blast
    then show ?thesis by (rule table_run_consumed)
  qed
  assume "system_grants h s e = Some a"
  then obtain bound q where q: "rq_action_id q = a" "table_step (LConsume bound q) (os_rows (sy_store s))
    (os_rows (sy_store (system_step h s e)))" using system_grants_consumes [OF s] by blast
  have "table_ok (os_rows (sy_store s))" using s by (simp add: system_ok_def)
  from consume_step [OF q(2) this] q(1)
  show "a \<notin> consumed_ids (os_rows (sy_store s))"
    "a \<in> consumed_ids (os_rows (sy_store (system_step h s e)))" by auto
qed

text \<open>Runs from a first start: nothing stored, nothing remembered.\<close>

definition initial_system :: "operator_system \<Rightarrow> bool" where
  "initial_system s \<longleftrightarrow> os_rows (sy_store s) = [] \<and> (\<forall>p. ob_has_db (sy_procs s p) \<and> ob_requests (sy_procs s p) = [])"

lemma initial_system_ok: "initial_system s \<Longrightarrow> system_ok s"
  by (simp add: initial_system_def system_ok_def table_ok_def)

fun event_nonces :: "system_event \<Rightarrow> string list" where
  "event_nonces (Call p (BCreate now nonce s t cmd ws qs ttl)) = [nonce]"
| "event_nonces _ = []"

lemma event_ctx_nonces: "fst ` event_ctx h e = set (event_nonces e) \<and> inj_on fst (event_ctx h e)"
proof (cases e)
  case (Call p op)
  then show ?thesis by (cases op) (simp_all add: req_ctx_def new_request_def Let_def)
qed simp

lemma system_run_history:
  assumes "initial_system s0" "distinct (concat (map event_nonces es))"
    and "s = foldl (system_step h) s0 es"
  shows "system_ok s \<and> inj_on fst (known s) \<and> fst ` known s \<subseteq> set (concat (map event_nonces es)) \<and>
    (\<exists>ls. table_run ls [] (os_rows (sy_store s)) \<and> (\<forall>l \<in> set ls. \<exists>before p op after.
       es = before @ Call p op # after \<and> allowed h op (sy_procs (foldl (system_step h) s0 before) p) l))"
  using assms(2) unfolding assms(3)
proof (induction es rule: rev_induct)
  case Nil
  have "known s0 = {}" using assms(1) by (simp add: known_def initial_system_def mem_ctx_def)
  moreover have "os_rows (sy_store s0) = []" using assms(1) by (simp add: initial_system_def)
  ultimately show ?case using initial_system_ok [OF assms(1)] tr_done by (auto intro!: exI [of _ "[]"])
next
  case (snoc e es)
  let ?s = "foldl (system_step h) s0 es"
  have dist: "distinct (concat (map event_nonces es))"
      "set (concat (map event_nonces es)) \<inter> set (event_nonces e) = {}" using snoc.prems by auto
  obtain ls where IH: "system_ok ?s" "inj_on fst (known ?s)"
      "fst ` known ?s \<subseteq> set (concat (map event_nonces es))"
      "table_run ls [] (os_rows (sy_store ?s))" "\<forall>l \<in> set ls. \<exists>before p op after.
       es = before @ Call p op # after \<and> allowed h op (sy_procs (foldl (system_step h) s0 before) p) l"
    using snoc.IH [OF dist(1)] by blast
  obtain ls' where step: "system_ok (system_step h ?s e)"
      "known (system_step h ?s e) \<subseteq> known ?s \<union> event_ctx h e"
      "table_run ls' (os_rows (sy_store ?s)) (os_rows (sy_store (system_step h ?s e)))"
      "\<forall>l \<in> set ls'. \<exists>p op. e = Call p op \<and> allowed h op (sy_procs ?s p) l"
    using system_step_effect [OF IH(1), of h e] by blast
  have "inj_on fst (known ?s \<union> event_ctx h e)"
    using IH(2,3) event_ctx_nonces [of h e] dist(2) by (subst inj_on_Un) blast
  then have "inj_on fst (known (system_step h ?s e))" using step(2) inj_on_subset by blast
  moreover have "fst ` known (system_step h ?s e) \<subseteq> set (concat (map event_nonces (es @ [e])))"
  proof -
    have "fst ` known (system_step h ?s e) \<subseteq> fst ` (known ?s \<union> event_ctx h e)"
      using step(2) by (rule image_mono)
    also have "\<dots> = fst ` known ?s \<union> set (event_nonces e)"
      using event_ctx_nonces [of h e] by (simp only: image_Un)
    finally show ?thesis using IH(3) by (simp only: map_append concat_append set_append list.map concat.simps) blast
  qed
  moreover have "table_run (ls @ ls') [] (os_rows (sy_store (system_step h ?s e)))"
    using table_run_append [OF step(3) IH(4)] .
  moreover have "\<exists>before p op after. es @ [e] = before @ Call p op # after \<and>
      allowed h op (sy_procs (foldl (system_step h) s0 before) p) l" if "l \<in> set (ls @ ls')" for l
  proof (cases "l \<in> set ls")
    case True
    then obtain before p op after where "es = before @ Call p op # after"
        "allowed h op (sy_procs (foldl (system_step h) s0 before) p) l" using IH(5) by blast
    then have "es @ [e] = before @ Call p op # (after @ [e])" by simp
    then show ?thesis using \<open>allowed h op (sy_procs (foldl (system_step h) s0 before) p) l\<close> by blast
  next
    case False
    then have "l \<in> set ls'" using that by simp
    then obtain p op where "e = Call p op" "allowed h op (sy_procs ?s p) l" using step(4) by blast
    then show ?thesis by blast
  qed
  ultimately show ?case using step(1) by (simp only: foldl_append foldl.simps) blast
qed

section \<open>Properties of the boundary\<close>

text \<open>
  C21: The shared table goes through permitted transactions only.  Whatever a supervisor calls, and
  whether it raises or not, the table changes by a sequence of creations, expiries, decisions and
  consumptions in the sense of \<open>table_step\<close>; a decision among them is the one of that call, taken
  by an authenticated operator with the proof the supervisor demands, before the deadline; a
  consumption is the one of that call, on a request the supervisor holds and that it does not refuse.
\<close>

theorem boundary_refines_table:
  assumes "ob_has_db b" "table_ok (os_rows st)" "call_op h op b st = (b', st')"
  shows "\<exists>ls. table_run ls (os_rows st) (os_rows st') \<and> list_all (allowed h op b) ls"
  using call_refines [OF assms] by blast

text \<open>An example: two supervisors without a ledger, one request, its approval.\<close>

definition demo_host :: host where
  "demo_host = \<lparr>h_sha = \<lambda>_. ''h'', h_mac = \<lambda>_ _. replicate 64 (CHR ''0''), h_fixed = \<lambda>_. ''0'', h_num = \<lambda>_. ''0'',
     h_resolve = \<lambda>p. p\<rparr>"

definition demo_boundary :: boundary where
  "demo_boundary = \<lparr>ob_default_ttl = 900, ob_operator_verifier = Some (\<lambda>_. Inr True),
     ob_decision_verifier = Some (\<lambda>_ _ _. Inr True), ob_secret = ''s'', ob_requests = [],
     ob_consumed_nonces = {}, ob_has_db = True, ob_has_ledger = False\<rparr>"

definition demo_operator :: operator_identity where
  "demo_operator = \<lparr>oi_operator_id = ''ann'', oi_role = ''operator'', oi_channel = ''console'',
     oi_auth_token = ''x''\<rparr>"

definition demo_request :: operator_request where
  "demo_request = new_request demo_host 0 ''n'' ''w'' ''t'' [''ls''] ''/ws'' None 900"

definition demo_approved :: operator_request where
  "demo_approved = decided ALLOW_ONCE demo_operator ''ok'' None True demo_request"

definition demo_store :: op_store where
  "demo_store = \<lparr>os_rows = [], os_ledger = empty_audit_db\<rparr>"

definition demo_system :: operator_system where
  "demo_system = \<lparr>sy_procs = \<lambda>_. demo_boundary, sy_store = demo_store\<rparr>"

definition demo_create :: operator_op where
  "demo_create = BCreate 0 ''n'' ''w'' ''t'' [''ls''] ''/ws'' None None"

definition demo_resolve :: operator_op where
  "demo_resolve = BResolve 1 1 ''act_h'' ALLOW_ONCE demo_operator ''ok'' None"

lemma row_matches_self: "row_matches q (row_of_request q)"
  by (simp add: row_matches_def row_of_request_def default_text_def)

lemma demo_request_facts:
  "rq_action_id demo_request = ''act_h''" "rq_state demo_request = OP_BLOCKED"
  "rq_expires_at demo_request = 900" "rq_nonce demo_request = ''n''"
  "rq_session_id demo_request = ''w''" "rq_task_id demo_request = ''t''"
  "rq_command demo_request = [''ls'']" "rq_workspace_path demo_request = ''/ws''"
  by (simp_all add: demo_request_def new_request_def demo_host_def)

lemma demo_created:
  "call_op demo_host demo_create demo_boundary demo_store =
     (demo_boundary\<lparr>ob_requests := [demo_request]\<rparr>, demo_store\<lparr>os_rows := [row_of_request demo_request]\<rparr>)"
  by (simp add: demo_create_def create_request_def demo_boundary_def demo_store_def Let_def
      persist_request_def record_event_def memory_put_def upsert_def has_row_def demo_request_def)

lemma demo_resolved:
  "call_op demo_host demo_resolve (demo_boundary\<lparr>ob_requests := [demo_request]\<rparr>)
       (demo_store\<lparr>os_rows := [row_of_request demo_request]\<rparr>) =
     (demo_boundary\<lparr>ob_requests := [demo_approved]\<rparr>,
      demo_store\<lparr>os_rows := [set_decision_columns demo_approved (row_of_request demo_request)]\<rparr>)"
proof -
  have same: "same_request_context demo_approved demo_request" "rq_state demo_approved = OP_APPROVED"
    "rq_action_id demo_approved = ''act_h''"
    by (simp_all add: same_request_context_def demo_approved_def decided_def demo_request_facts)
  then show ?thesis
    by (simp add: demo_resolve_def resolve_by_operator_def authenticate_def demo_boundary_def
        memory_get_def demo_request_facts check_proof_def demo_operator_def [symmetric]
        demo_approved_def [symmetric] Let_def record_event_def persist_request_def row_matches_self
        update_where_def memory_put_def upsert_def has_row_def)
      (simp add: demo_operator_def demo_store_def)
qed

theorem boundary_refines_table_witness:
  "\<exists>ls. table_run ls [row_of_request demo_request]
     [set_decision_columns demo_approved (row_of_request demo_request)] \<and>
   list_all (allowed demo_host demo_resolve (demo_boundary\<lparr>ob_requests := [demo_request]\<rparr>)) ls"
  using boundary_refines_table [OF _ _ demo_resolved]
  by (simp add: demo_boundary_def demo_store_def table_ok_def row_of_request_def)

text \<open>
  C19: One execution per approval, across supervisors.  In every run of any number of supervisors on
  one table, restarts included, no action is granted for execution twice.
\<close>

theorem action_granted_once:
  assumes "system_ok s"
  shows "distinct (granted_in (system_step h) (system_grants h) s es)"
  by (rule operator_grants.granted_once [OF assms])

definition demo_consume :: operator_op where
  "demo_consume = BConsume 2 2 True ''act_h'' ''w'' ''t'' [''ls''] ''/ws'' 60"

lemma demo_run: "foldl (system_step demo_host) demo_system [Call 0 demo_create, Call 0 demo_resolve] =
    \<lparr>sy_procs = (\<lambda>_. demo_boundary)(0 := demo_boundary\<lparr>ob_requests := [demo_approved]\<rparr>),
     sy_store = demo_store\<lparr>os_rows := [set_decision_columns demo_approved (row_of_request demo_request)]\<rparr>\<rparr>"
  using demo_created demo_resolved by (simp add: demo_system_def)

lemma demo_consumed:
  "fst (consume_for_execution demo_host 2 2 True ''act_h'' ''w'' ''t'' [''ls''] ''/ws'' 60
     (demo_boundary\<lparr>ob_requests := [demo_approved]\<rparr>)
     (demo_store\<lparr>os_rows := [set_decision_columns demo_approved (row_of_request demo_request)]\<rparr>)) =
   Inr (True, ''APPROVED'', Some (consume_ticket demo_host ''s'' ''act_h'' ''w'' ''t'' ''h'' ''n'' 62))"
proof -
  have q: "rq_action_id demo_approved = ''act_h''" "rq_expires_at demo_approved = 900"
      "rq_nonce demo_approved = ''n''"
    by (simp_all add: demo_approved_def decided_def demo_request_facts)
  have "refusal demo_host demo_approved ''w'' ''t'' [''ls''] ''/ws''
      (demo_boundary\<lparr>ob_requests := [demo_approved]\<rparr>) = None"
    by (simp add: refusal_def demo_approved_def decided_def demo_request_facts demo_boundary_def)
  moreover have "consumable 2 True demo_approved (set_decision_columns demo_approved (row_of_request demo_request))"
    by (simp add: consumable_def set_decision_columns_def row_of_request_def demo_approved_def decided_def
        demo_request_facts)
  moreover have "canonical_command_digest demo_host [''ls''] ''/ws'' ''t'' = ''h''"
    by (simp add: canonical_command_digest_def demo_host_def)
  ultimately show ?thesis
    by (simp add: consume_for_execution_def memory_get_def q consume_row_def demo_boundary_def Let_def
        record_event_def memory_put_def)
qed

theorem action_granted_once_witness:
  "distinct (granted_in (system_step demo_host) (system_grants demo_host) demo_system
     [Call 0 demo_create, Call 0 demo_resolve, Call 0 demo_consume, Call 0 demo_consume]) \<and>
   ''act_h'' \<in> set (granted_in (system_step demo_host) (system_grants demo_host) demo_system
     [Call 0 demo_create, Call 0 demo_resolve, Call 0 demo_consume, Call 0 demo_consume])"
proof -
  have none: "system_grants demo_host s (Call 0 demo_create) = None"
    "system_grants demo_host s (Call 0 demo_resolve) = None" for s
    by (simp_all add: demo_create_def demo_resolve_def)
  have "system_grants demo_host (foldl (system_step demo_host) demo_system
      [Call 0 demo_create, Call 0 demo_resolve]) (Call 0 demo_consume) = Some ''act_h''"
    unfolding demo_run using demo_consumed by (simp add: demo_consume_def)
  then have "''act_h'' \<in> set (granted_in (system_step demo_host) (system_grants demo_host) demo_system
     [Call 0 demo_create, Call 0 demo_resolve, Call 0 demo_consume, Call 0 demo_consume])"
    using none by (simp del: system_step.simps system_grants.simps)
  moreover have "system_ok demo_system"
    by (simp add: system_ok_def demo_system_def demo_boundary_def demo_store_def table_ok_def)
  ultimately show ?thesis using action_granted_once by blast
qed

lemma decided_before:
  assumes "initial_system s0" "distinct (concat (map event_nonces es))"
    and "s = foldl (system_step h) s0 es"
    and "fst (consume_for_execution h now reload up i sess task cmd ws ttl (sy_procs s p) (sy_store s)) =
      Inr (True, reason, tk)"
  shows "\<exists>earlier p' moment reload' oper remark ans later b' q.
    es = earlier @ Call p' (BResolve moment reload' i ALLOW_ONCE oper remark ans) # later \<and>
    b' = sy_procs (foldl (system_step h) s0 earlier) p' \<and>
    authenticate oper b' = Inr () \<and> check_proof q ALLOW_ONCE oper b' = Inr () \<and> moment < rq_expires_at q \<and>
    (ob_decision_verifier (sy_procs s p) = None \<or> ob_decision_verifier b' \<noteq> None) \<and>
    rq_action_id q = i \<and> rq_session_id q = sess \<and> rq_task_id q = task \<and>
    canonical_command_digest h (rq_command q) (rq_workspace_path q) (rq_task_id q) =
      canonical_command_digest h cmd ws task"
proof -
  obtain ls where run: "system_ok s" "inj_on fst (known s)" "table_run ls [] (os_rows (sy_store s))"
      "\<forall>l \<in> set ls. \<exists>before p op after. es = before @ Call p op # after \<and>
         allowed h op (sy_procs (foldl (system_step h) s0 before) p) l"
    using system_run_history [OF assms(1-3)] by blast
  have ok: "table_ok (os_rows (sy_store s))" "ob_has_db (sy_procs s p)"
    using run(1) by (simp_all add: system_ok_def)
  let ?bound = "ob_decision_verifier (sy_procs s p) \<noteq> None"
  from ok(1) obtain q0 rows1 where q0: "memory_get i (sy_procs s p) = Some q0"
      "refusal h q0 sess task cmd ws (sy_procs s p) = None"
      "table_step (LConsume ?bound q0) (os_rows (sy_store s)) rows1"
  proof (cases rule: consume_for_execution_cases [where h = h and now = now and reload = reload and up = up
        and i = i and s = sess and t = task and cmd = cmd and ws = ws and ttl = ttl and b = "sy_procs s p"])
    case (refused m)
    then show ?thesis using assms(4) by simp
  next
    case (expired q r b1 st1)
    then show ?thesis using assms(4) by (metis fst_conv)
  next
    case (consumed q r st1)
    then show ?thesis using that [of q "os_rows st1"] ok(2) by blast
  qed
  obtain r where r: "r \<in> set (os_rows (sy_store s))" "or_state r = OP_APPROVED"
      "or_nonce r = rq_nonce q0" "?bound \<Longrightarrow> or_action_bound_verified r"
  proof -
    from q0(3) obtain now' where "length (filter (consumable now' ?bound q0) (os_rows (sy_store s))) = 1"
      by cases auto
    then obtain r where "r \<in> set (os_rows (sy_store s))" "consumable now' ?bound q0 r" by (rule filter_one)
    then show ?thesis using that [of r] unfolding consumable_def by blast
  qed
  have "decision_backed ls (os_rows (sy_store s))"
    using decision_backed_run [OF run(3), of "[]"] by (simp add: decision_backed_def)
  then obtain oper q where q: "LDecide ALLOW_ONCE oper (or_action_bound_verified r) q \<in> set ls"
      "req_ctx q = row_ctx r" using r(1,2) unfolding decision_backed_def by blast
  have "row_ctx r \<in> known s" "req_ctx q0 \<in> known s"
    using r(1) mem_ctx_get [OF q0(1)] by (auto simp: known_def)
  moreover have "fst (row_ctx r) = fst (req_ctx q0)" using r(3) by (simp add: row_ctx_def req_ctx_def)
  ultimately have "req_ctx q = req_ctx q0" using run(2) q(2) by (metis inj_onD)
  then have same: "rq_action_id q = i" "rq_session_id q = rq_session_id q0" "rq_task_id q = rq_task_id q0"
      "rq_command q = rq_command q0" "rq_workspace_path q = rq_workspace_path q0"
    using memory_get_id [OF q0(1)] by (simp_all add: req_ctx_def strings_json_inj)
  have want: "rq_session_id q0 = sess" "rq_task_id q0 = task"
      "canonical_command_digest h (rq_command q0) (rq_workspace_path q0) (rq_task_id q0) =
       canonical_command_digest h cmd ws task"
    using q0(2) by (simp_all add: refusal_def split: if_splits)
  obtain earlier p' op later where e: "es = earlier @ Call p' op # later"
      "allowed h op (sy_procs (foldl (system_step h) s0 earlier) p')
         (LDecide ALLOW_ONCE oper (or_action_bound_verified r) q)" using run(4) q(1) by blast
  then obtain moment reload' remark ans where "op = BResolve moment reload' i ALLOW_ONCE oper remark ans"
      "moment < rq_expires_at q" using same(1) by auto
  moreover have "authenticate oper (sy_procs (foldl (system_step h) s0 earlier) p') = Inr ()"
      "check_proof q ALLOW_ONCE oper (sy_procs (foldl (system_step h) s0 earlier) p') = Inr ()"
      "\<not> ?bound \<or> ob_decision_verifier (sy_procs (foldl (system_step h) s0 earlier) p') \<noteq> None"
    using e(2) r(4) by auto
  moreover have "rq_session_id q = sess" "rq_task_id q = task"
      "canonical_command_digest h (rq_command q) (rq_workspace_path q) (rq_task_id q) =
       canonical_command_digest h cmd ws task" using same want by simp_all
  ultimately have "es = earlier @ Call p' (BResolve moment reload' i ALLOW_ONCE oper remark ans) # later \<and>
      sy_procs (foldl (system_step h) s0 earlier) p' = sy_procs (foldl (system_step h) s0 earlier) p' \<and>
      authenticate oper (sy_procs (foldl (system_step h) s0 earlier) p') = Inr () \<and>
      check_proof q ALLOW_ONCE oper (sy_procs (foldl (system_step h) s0 earlier) p') = Inr () \<and>
      moment < rq_expires_at q \<and> (ob_decision_verifier (sy_procs s p) = None \<or>
        ob_decision_verifier (sy_procs (foldl (system_step h) s0 earlier) p') \<noteq> None) \<and>
      rq_action_id q = i \<and> rq_session_id q = sess \<and> rq_task_id q = task \<and>
      canonical_command_digest h (rq_command q) (rq_workspace_path q) (rq_task_id q) =
        canonical_command_digest h cmd ws task"
    using e(1) same(1) by (intro conjI) (simp_all only: not_not refl)
  then show ?thesis by (intro exI)
qed

text \<open>
  C18: What is executed was decided.  In a run from a first start in which no nonce is drawn twice,
  an action that a supervisor grants for a session, a task, a command and a workspace was allowed
  once, before its deadline, by a call on some supervisor whose verifiers at that time accepted the
  operator and the proof for a request with that action id, session, task and command digest; a
  supervisor that demands action-bound proofs only grants what another such supervisor allowed.
\<close>

theorem execution_was_decided:
  assumes "initial_system s0" "distinct (concat (map event_nonces es))"
    and "s = foldl (system_step h) s0 es"
    and "fst (consume_for_execution h now reload up i sess task cmd ws ttl (sy_procs s p) (sy_store s)) =
      Inr (True, reason, tk)"
  shows "\<exists>earlier p' moment reload' oper remark ans later b' q.
    es = earlier @ Call p' (BResolve moment reload' i ALLOW_ONCE oper remark ans) # later \<and>
    b' = sy_procs (foldl (system_step h) s0 earlier) p' \<and>
    authenticate oper b' = Inr () \<and> check_proof q ALLOW_ONCE oper b' = Inr () \<and> moment < rq_expires_at q \<and>
    (ob_decision_verifier (sy_procs s p) = None \<or> ob_decision_verifier b' \<noteq> None) \<and>
    rq_action_id q = i \<and> rq_session_id q = sess \<and> rq_task_id q = task \<and>
    canonical_command_digest h (rq_command q) (rq_workspace_path q) (rq_task_id q) =
      canonical_command_digest h cmd ws task"
  using decided_before [OF assms] .

theorem execution_was_decided_witness:
  "\<exists>earlier moment reload' oper remark ans later.
     [Call 0 demo_create, Call 0 demo_resolve] =
       earlier @ Call 0 (BResolve moment reload' ''act_h'' ALLOW_ONCE oper remark ans) # later"
proof -
  have init: "initial_system demo_system"
    by (simp add: initial_system_def demo_system_def demo_store_def demo_boundary_def)
  have nonces: "distinct (concat (map event_nonces [Call 0 demo_create, Call 0 demo_resolve]))"
    by (simp add: demo_create_def demo_resolve_def)
  obtain earlier p' moment reload' oper remark ans later where
    e: "[Call 0 demo_create, Call 0 demo_resolve] =
       earlier @ Call p' (BResolve moment reload' ''act_h'' ALLOW_ONCE oper remark ans) # later"
    using execution_was_decided [OF init nonces refl, of demo_host 2 2 True "''act_h''" "''w''" "''t''"
        "[''ls'']" "''/ws''" 60 0] demo_consumed unfolding demo_run by fastforce
  then have "p' = 0" by (cases earlier) (auto simp: Cons_eq_append_conv)
  then show ?thesis using e by blast
qed

text \<open>
  C27: The challenge names the decision.  Two challenge digests agree only when action, session, task,
  nonce, command digest, workspace, decision and the printed instants agree, or their two texts
  collide under the hash.
\<close>

theorem challenge_identifies_decision:
  assumes "operator_decision_challenge h q d = operator_decision_challenge h q' d'"
    and "num_literal (h_num h (rq_created_at q))" "num_literal (h_num h (rq_expires_at q))"
    and "num_literal (h_num h (rq_created_at q'))" "num_literal (h_num h (rq_expires_at q'))"
  shows "(challenge_text h q d \<noteq> challenge_text h q' d' \<and> h_sha h (challenge_text h q d) = h_sha h (challenge_text h q' d'))
    \<or> (d = d' \<and> rq_action_id q = rq_action_id q' \<and> rq_session_id q = rq_session_id q' \<and>
       rq_task_id q = rq_task_id q' \<and> rq_nonce q = rq_nonce q' \<and> rq_workspace_path q = rq_workspace_path q' \<and>
       canonical_command_digest h (rq_command q) (rq_workspace_path q) (rq_task_id q) =
         canonical_command_digest h (rq_command q') (rq_workspace_path q') (rq_task_id q') \<and>
       h_num h (rq_expires_at q) = h_num h (rq_expires_at q'))"
proof (cases "challenge_text h q d = challenge_text h q' d'")
  case False
  then show ?thesis using assms(1) by (simp add: operator_decision_challenge_def)
next
  case True
  define v where "v = (\<lambda>(q :: operator_request) d. JObj
     [(''domain'', JStr ''SIMPUL_OPERATOR_APPROVAL_V1''),
      (''action_id'', JStr (rq_action_id q)), (''session_id'', JStr (rq_session_id q)),
      (''task_id'', JStr (rq_task_id q)), (''nonce'', JStr (rq_nonce q)),
      (''command_digest'', JStr (canonical_command_digest h (rq_command q) (rq_workspace_path q) (rq_task_id q))),
      (''workspace_path'', JStr (rq_workspace_path q)),
      (''created_at'', JNum (h_num h (rq_created_at q))),
      (''expires_at'', JNum (h_num h (rq_expires_at q))), (''decision'', JStr (decision_value d))])"
  have as_text: "challenge_text h q d = dumps True [] (sort_keys (v q d))" for q d
    by (simp add: challenge_text_def v_def)
  have wf: "wf_json (sort_keys (v q d))" "wf_json (sort_keys (v q' d'))"
    using assms(2-5) by (intro wf_sort_keys; simp add: v_def)+
  have "sort_keys (v q d) = sort_keys (v q' d')"
    by (rule dumps_inj [OF wf, where ascii = True and sp = "[]"]) (use True as_text in simp_all)
  moreover have "decision_value d = decision_value d' \<longleftrightarrow> d = d'" by (cases d; cases d') simp_all
  ultimately show ?thesis by (simp add: v_def insort_key_def) metis
qed

theorem challenge_identifies_decision_witness:
  "rq_session_id demo_request = rq_session_id (demo_request\<lparr>rq_state := OP_APPROVED\<rparr>)"
proof -
  have "num_literal ''0''" by code_simp
  then have n: "num_literal (h_num demo_host x)" for x by (simp add: demo_host_def)
  have "challenge_text demo_host (demo_request\<lparr>rq_state := OP_APPROVED\<rparr>) DENY =
      challenge_text demo_host demo_request DENY" by (simp add: challenge_text_def)
  then show ?thesis
    using challenge_identifies_decision [of demo_host demo_request DENY
        "demo_request\<lparr>rq_state := OP_APPROVED\<rparr>" DENY, OF _ n n n n]
    by (simp add: operator_decision_challenge_def)
qed

end
