(* ===== verification/VerifiedAuthority.thy ===== *)
theory VerifiedAuthority
  imports OperatorBoundary
begin

text \<open>
  \<open>src/subagentbridge/approval/verified_operator_authority.py\<close>: the adapter that lets only the durable
  operator boundary mint the tickets that worker processes check.  Its state is the boundary it
  wraps.  The result ties the three approval modules together: a ticket it issues passes
  \<open>verify_ticket_binding\<close> of the worker, and the action behind it was decided on the boundary.
\<close>

definition mk_verified_authority :: "boundary \<Rightarrow> exn + boundary" where
  "mk_verified_authority b =
     (if ob_decision_verifier b = None
      then raise PermissionError
        ''DENIED: verified worker IPC requires an action-specific operator decision verifier''
      else ok b)"

definition va_request_command_approval ::
  "host \<Rightarrow> real \<Rightarrow> string \<Rightarrow> string \<Rightarrow> string \<Rightarrow> string list \<Rightarrow> string \<Rightarrow> boundary \<Rightarrow> op_store
   \<Rightarrow> (exn + operator_request) \<times> boundary \<times> op_store" where
  "va_request_command_approval h now nonce worker_id task_id command workspace_path b st =
     create_request h now nonce worker_id task_id command workspace_path None None b st"

definition va_approve_by_human :: "string \<Rightarrow> string \<Rightarrow> string \<Rightarrow> exn + operator_request" where
  "va_approve_by_human action_id auth_token reason =
     raise PermissionError ''DENIED: legacy broker tokens cannot approve commands; use a trusted out-of-band operator identity verifier''"

definition va_get_action ::
  "real \<Rightarrow> real \<Rightarrow> string \<Rightarrow> boundary \<Rightarrow> op_store
   \<Rightarrow> (exn + operator_request option) \<times> boundary \<times> op_store" where
  "va_get_action now reload action_id b st =
     (if action_id = [] then (ok None, b, st) else get_request now reload action_id b st)"

definition va_is_action_for_context ::
  "host \<Rightarrow> operator_request \<Rightarrow> string \<Rightarrow> string \<Rightarrow> string list \<Rightarrow> string \<Rightarrow> bool" where
  "va_is_action_for_context h action worker_id task_id command workspace_path \<longleftrightarrow>
     rq_session_id action = worker_id \<and> rq_task_id action = task_id \<and> rq_command action = command \<and>
     rq_workspace_path action = h_resolve h workspace_path \<and>
     (rq_state action \<noteq> OP_APPROVED \<or> rq_operator_verified action)"

definition va_is_action_consumed ::
  "real \<Rightarrow> real \<Rightarrow> string \<Rightarrow> boundary \<Rightarrow> op_store \<Rightarrow> (exn + bool) \<times> boundary \<times> op_store" where
  "va_is_action_consumed now reload action_id b st =
     (case get_request now reload action_id b st of
        (Inl e, b1, st1) \<Rightarrow> (Inl e, b1, st1)
      | (Inr req, b1, st1) \<Rightarrow>
          (ok (case req of None \<Rightarrow> False | Some q \<Rightarrow> rq_state q = OP_CONSUMED), b1, st1))"

definition va_verify_and_consume ::
  "string \<Rightarrow> string \<Rightarrow> string \<Rightarrow> string list \<Rightarrow> string \<Rightarrow> bool \<times> string" where
  "va_verify_and_consume action_id worker_id task_id command workspace_path =
     (False, ''DENIED: verified operator grants require IPC ticket issuance'')"

text \<open>The rendering of an expiry: only finite numbers reach it.\<close>

definition h_expiry :: "host \<Rightarrow> ticket_time \<Rightarrow> string" where
  "h_expiry h t = (case t of Finite x \<Rightarrow> h_fixed h x | _ \<Rightarrow> [])"

definition va_issue_execution_ticket ::
  "host \<Rightarrow> real \<Rightarrow> real \<Rightarrow> real \<Rightarrow> bool \<Rightarrow> string \<Rightarrow> string \<Rightarrow> string \<Rightarrow> string list \<Rightarrow> string \<Rightarrow> string
   \<Rightarrow> ticket_time \<Rightarrow> boundary \<Rightarrow> op_store
   \<Rightarrow> (exn + bool \<times> string \<times> ticket option) \<times> boundary \<times> op_store" where
  "va_issue_execution_ticket h now now2 reload available action_id worker_id task_id command workspace_path
       session_secret ttl b st =
     (case ttl of
        Finite ttl_seconds \<Rightarrow>
          if \<not> (0 < ttl_seconds \<and> ttl_seconds \<le> 60)
          then (ok (False, ''DENIED: ticket TTL must be finite in (0, 60]'', None), b, st)
          else if length session_secret < 32
          then (ok (False, ''DENIED: missing valid IPC session secret'', None), b, st)
          else (case consume_for_execution h now reload available action_id worker_id task_id command
                     workspace_path ttl_seconds b st of
             (Inl e, b1, st1) \<Rightarrow> (Inl e, b1, st1)
           | (Inr (granted, reason, receipt), b1, st1) \<Rightarrow>
               if \<not> granted \<or> receipt = None then (ok (False, reason, None), b1, st1)
               else let resource = compute_action_resource (h_sha h) command workspace_path task_id;
                        expiry = Finite (now2 + ttl_seconds)
                    in (ok (True, ''APPROVED_BY_VERIFIED_OPERATOR'',
                          Some \<lparr>tk_action_id = action_id, tk_worker_id = worker_id,
                                tk_task_id = task_id, tk_resource = resource, tk_expiry = expiry,
                                tk_signature = h_mac h session_secret
                                  (ticket_text (h_expiry h) action_id worker_id task_id resource expiry)\<rparr>),
                        b1, st1))
      | _ \<Rightarrow> (ok (False, ''DENIED: ticket TTL must be finite in (0, 60]'', None), b, st))"

section \<open>Properties of the adapter\<close>

lemma va_issue_ok:
  assumes "fst (va_issue_execution_ticket h now now2 reload up i w t cmd ws secret ttl b st) =
      Inr (True, reason, tk)"
  obtains d receipt reason' where "ttl = Finite d" "0 < d" "d \<le> 60" "32 \<le> length secret"
    "fst (consume_for_execution h now reload up i w t cmd ws d b st) = Inr (True, reason', receipt)"
    "tk = Some \<lparr>tk_action_id = i, tk_worker_id = w, tk_task_id = t,
       tk_resource = compute_action_resource (h_sha h) cmd ws t, tk_expiry = Finite (now2 + d),
       tk_signature = h_mac h secret (ticket_text (h_expiry h) i w t
         (compute_action_resource (h_sha h) cmd ws t) (Finite (now2 + d)))\<rparr>"
proof (cases ttl)
  case (Finite d)
  have range: "0 < d" "d \<le> 60" "32 \<le> length secret"
    using assms Finite by (auto simp: va_issue_execution_ticket_def split: if_splits)
  obtain r b1 st1 where c: "consume_for_execution h now reload up i w t cmd ws d b st = (r, b1, st1)"
    by (cases "consume_for_execution h now reload up i w t cmd ws d b st") auto
  have step: "va_issue_execution_ticket h now now2 reload up i w t cmd ws secret ttl b st =
     (case consume_for_execution h now reload up i w t cmd ws d b st of
             (Inl e, b1, st1) \<Rightarrow> (Inl e, b1, st1)
           | (Inr (granted, reason, receipt), b1, st1) \<Rightarrow>
               if \<not> granted \<or> receipt = None then (ok (False, reason, None), b1, st1)
               else (ok (True, ''APPROVED_BY_VERIFIED_OPERATOR'',
                          Some \<lparr>tk_action_id = i, tk_worker_id = w,
                                tk_task_id = t, tk_resource = compute_action_resource (h_sha h) cmd ws t,
                                tk_expiry = Finite (now2 + d),
                                tk_signature = h_mac h secret
                                  (ticket_text (h_expiry h) i w t (compute_action_resource (h_sha h) cmd ws t)
                                    (Finite (now2 + d)))\<rparr>),
                        b1, st1))"
    unfolding Finite va_issue_execution_ticket_def ticket_time.case Let_def using range by simp
  show ?thesis
  proof (cases r)
    case (Inl e)
    then show ?thesis using step c assms by simp
  next
    case (Inr x)
    obtain granted reason' receipt where x: "x = (granted, reason', receipt)" by (cases x) auto
    then have "granted" using step c Inr assms by (cases "\<not> granted \<or> receipt = None") auto
    then show ?thesis using that [OF Finite range] step c Inr x assms
      by (cases "receipt = None") auto
  qed
qed (use assms in \<open>simp_all add: va_issue_execution_ticket_def\<close>)

text \<open>
  C20: From the operator to the worker.  In a run of supervisors from a first start, with fresh nonces, a
  ticket that the adapter issues is accepted by the worker for its command until it expires, and the
  action it names was allowed before its deadline by an operator that a boundary's verifiers accepted,
  for a request with the same session, task and command digest.
\<close>

theorem issued_ticket_is_backed:
  assumes "initial_system s0" "distinct (concat (map event_nonces es))"
    and "s = foldl (system_step h) s0 es" "mk_verified_authority (sy_procs s p) = Inr b"
    and "fst (va_issue_execution_ticket h now now2 reload up i w t cmd ws secret ttl b (sy_store s)) =
      Inr (True, reason, Some tk)"
    and "\<And>k m. length (h_mac h k m) = 64 \<and> is_ascii (h_mac h k m)" "i \<noteq> []"
  shows "tk_action_id tk = i \<and>
    (\<forall>later \<ge> now2. before_expiry later (tk_expiry tk) \<longrightarrow>
       verify_ticket_binding (h_sha h) (h_mac h) (h_expiry h) later tk secret w t cmd ws = (True, ''VALID'')) \<and>
    (\<exists>earlier p' moment reload' oper remark ans later b' q.
       es = earlier @ Call p' (BResolve moment reload' i ALLOW_ONCE oper remark ans) # later \<and>
       b' = sy_procs (foldl (system_step h) s0 earlier) p' \<and>
       authenticate oper b' = Inr () \<and> check_proof q ALLOW_ONCE oper b' = Inr () \<and>
       moment < rq_expires_at q \<and> ob_decision_verifier b' \<noteq> None \<and>
       rq_action_id q = i \<and> rq_session_id q = w \<and> rq_task_id q = t \<and>
       canonical_command_digest h (rq_command q) (rq_workspace_path q) (rq_task_id q) =
         canonical_command_digest h cmd ws t)"
proof -
  have b: "b = sy_procs s p" "ob_decision_verifier b \<noteq> None"
    using assms(4) by (auto simp: mk_verified_authority_def split: if_splits)
  obtain d receipt reason' where d: "ttl = Finite d" "0 < d" "d \<le> 60"
      "fst (consume_for_execution h now reload up i w t cmd ws d b (sy_store s)) = Inr (True, reason', receipt)"
      "tk = \<lparr>tk_action_id = i, tk_worker_id = w, tk_task_id = t,
         tk_resource = compute_action_resource (h_sha h) cmd ws t, tk_expiry = Finite (now2 + d),
         tk_signature = h_mac h secret (ticket_text (h_expiry h) i w t
           (compute_action_resource (h_sha h) cmd ws t) (Finite (now2 + d)))\<rparr>"
    using va_issue_ok [OF assms(5)] by (metis option.inject)
  have "verify_ticket_binding (h_sha h) (h_mac h) (h_expiry h) later tk secret w t cmd ws = (True, ''VALID'')"
    if "now2 \<le> later" "before_expiry later (tk_expiry tk)" for later
    using that d(2,3) assms(6,7) unfolding d(5)
    by (simp add: verify_ticket_binding_def before_expiry_def expiry_within_def)
  moreover have "ob_decision_verifier (sy_procs s p) \<noteq> None" using b by simp
  then have "\<exists>earlier p' moment reload' oper remark ans later b' q.
       es = earlier @ Call p' (BResolve moment reload' i ALLOW_ONCE oper remark ans) # later \<and>
       b' = sy_procs (foldl (system_step h) s0 earlier) p' \<and>
       authenticate oper b' = Inr () \<and> check_proof q ALLOW_ONCE oper b' = Inr () \<and>
       moment < rq_expires_at q \<and> ob_decision_verifier b' \<noteq> None \<and>
       rq_action_id q = i \<and> rq_session_id q = w \<and> rq_task_id q = t \<and>
       canonical_command_digest h (rq_command q) (rq_workspace_path q) (rq_task_id q) =
         canonical_command_digest h cmd ws t"
    using decided_before [OF assms(1-3) d(4) [unfolded b(1)]] by (simp only: simp_thms)
  moreover have "tk_action_id tk = i" using d(5) by simp
  ultimately show ?thesis by blast
qed

lemma demo_issue:
  "\<exists>tk. fst (va_issue_execution_ticket demo_host 2 3 2 True ''act_h'' ''w'' ''t'' [''ls''] ''/ws''
      (replicate 32 (CHR ''k'')) (Finite 60) (demo_boundary\<lparr>ob_requests := [demo_approved]\<rparr>)
      (demo_store\<lparr>os_rows := [set_decision_columns demo_approved (row_of_request demo_request)]\<rparr>)) =
    Inr (True, ''APPROVED_BY_VERIFIED_OPERATOR'', Some tk) \<and> tk_expiry tk = Finite 63"
proof -
  obtain b1 st1 where c: "consume_for_execution demo_host 2 2 True ''act_h'' ''w'' ''t'' [''ls''] ''/ws'' 60
     (demo_boundary\<lparr>ob_requests := [demo_approved]\<rparr>)
     (demo_store\<lparr>os_rows := [set_decision_columns demo_approved (row_of_request demo_request)]\<rparr>) =
   (Inr (True, ''APPROVED'', Some (consume_ticket demo_host ''s'' ''act_h'' ''w'' ''t'' ''h'' ''n'' 62)), b1, st1)"
    using demo_consumed by (metis prod.collapse)
  show ?thesis unfolding va_issue_execution_ticket_def ticket_time.case c Let_def by simp
qed

theorem issued_ticket_is_backed_witness:
  "\<exists>tk. verify_ticket_binding (h_sha demo_host) (h_mac demo_host) (h_expiry demo_host) 10 tk
     (replicate 32 (CHR ''k'')) ''w'' ''t'' [''ls''] ''/ws'' = (True, ''VALID'') \<and> tk_action_id tk = ''act_h''"
proof -
  let ?es = "[Call 0 demo_create, Call 0 demo_resolve]"
  have init: "initial_system demo_system"
    by (simp add: initial_system_def demo_system_def demo_store_def demo_boundary_def)
  have nonces: "distinct (concat (map event_nonces ?es))"
    by (simp add: demo_create_def demo_resolve_def)
  have "is_ascii (replicate 64 (CHR ''0''))" by code_simp
  then have mac: "length (h_mac demo_host k m) = 64 \<and> is_ascii (h_mac demo_host k m)" for k m
    by (simp add: demo_host_def del: replicate.simps)
  have va: "mk_verified_authority (sy_procs (foldl (system_step demo_host) demo_system ?es) 0) =
      Inr (demo_boundary\<lparr>ob_requests := [demo_approved]\<rparr>)"
    unfolding demo_run by (simp add: mk_verified_authority_def demo_boundary_def)
  obtain tk where tk: "fst (va_issue_execution_ticket demo_host 2 3 2 True ''act_h'' ''w'' ''t'' [''ls''] ''/ws''
      (replicate 32 (CHR ''k'')) (Finite 60) (demo_boundary\<lparr>ob_requests := [demo_approved]\<rparr>)
      (sy_store (foldl (system_step demo_host) demo_system ?es))) =
    Inr (True, ''APPROVED_BY_VERIFIED_OPERATOR'', Some tk)" "tk_expiry tk = Finite 63"
    using demo_issue unfolding demo_run by auto
  show ?thesis
    using issued_ticket_is_backed [OF init nonces refl va tk(1) mac] tk(2)
    by (intro exI [of _ tk]) (simp add: before_expiry_def del: replicate.simps)
qed

end
