(* ===== verification/TeamContracts.thy ===== *)
theory TeamContracts
  imports Prelude Json
begin

text \<open>
  \<open>src/subagentbridge/domain/team_contracts.py\<close>: the records of teams, sessions, queue items,
  worktrees, handoffs, messages and checkpoints, and how a worker's configuration is written to and
  read from JSON (\<open>asdict\<close>, \<open>TeamStore.save_session\<close>, \<open>TeamStore._row_to_session\<close>).  A float inside a
  configuration is its JSON literal.
\<close>

section \<open>Records\<close>

datatype agent_role = AR_LEAD | AR_WORKER

datatype worker_status =
    WS_IDLE | WS_RUNNING | WS_PAUSED | WS_INTERRUPTED | WS_COMPLETED | WS_FAILED | WS_ARCHIVED

datatype queue_status =
    QT_PENDING | QT_DISPATCHED | QT_RUNNING | QT_INTERRUPTED | QT_COMPLETED | QT_CANCELLED
  | QT_FAILED | QT_AMBIGUOUS

record worker_config =
  wc_worker_id :: string
  wc_team_id :: string
  wc_role :: string
  wc_harness :: string
  wc_model :: "string option"
  wc_provider :: "string option"
  wc_system_prompt :: "string option"
  wc_working_dir :: "string option"
  wc_effort :: "string option"
  wc_budget_tokens :: "int option"
  wc_pid :: "int option"
  wc_process_create_time :: "string option"
  wc_tokens_consumed :: int
  wc_fallback_to_native :: bool

text \<open>The defaults of the fields that have one.\<close>

definition default_config :: "string \<Rightarrow> string \<Rightarrow> worker_config" where
  "default_config worker_id team_id =
     \<lparr>wc_worker_id = worker_id, wc_team_id = team_id, wc_role = ''worker'', wc_harness = ''native'',
      wc_model = None, wc_provider = None, wc_system_prompt = None, wc_working_dir = None,
      wc_effort = None, wc_budget_tokens = None, wc_pid = None, wc_process_create_time = None,
      wc_tokens_consumed = 0, wc_fallback_to_native = False\<rparr>"

record agent_team =
  tm_team_id :: string
  tm_lead_session_id :: string
  tm_title :: string
  tm_created_at :: real

record agent_session =
  se_session_id :: string
  se_role :: agent_role
  se_team_id :: string
  se_status :: worker_status
  se_config :: worker_config
  se_created_at :: real
  se_updated_at :: real

definition mk_agent_session ::
  "real \<Rightarrow> string \<Rightarrow> agent_role option \<Rightarrow> agent_role option \<Rightarrow> string \<Rightarrow> worker_status
   \<Rightarrow> worker_config option \<Rightarrow> real option \<Rightarrow> real option \<Rightarrow> agent_session" where
  "mk_agent_session now session_id role orca_role team_id status config created_at updated_at =
     \<lparr>se_session_id = session_id,
      se_role = (case role of Some r \<Rightarrow> r
                 | None \<Rightarrow> (case orca_role of Some r \<Rightarrow> r | None \<Rightarrow> AR_WORKER)),
      se_team_id = team_id, se_status = status,
      se_config = (case config of Some c \<Rightarrow> c | None \<Rightarrow> default_config [] []),
      se_created_at = (case created_at of Some t \<Rightarrow> t | None \<Rightarrow> now),
      se_updated_at = (case updated_at of Some t \<Rightarrow> t | None \<Rightarrow> now)\<rparr>"

record queue_item =
  qi_dispatch_id :: string
  qi_team_id :: string
  qi_from_session_id :: string
  qi_to_session_id :: string
  qi_task_id :: string
  qi_payload :: json
  qi_status :: queue_status
  qi_dedup_key :: "string option"
  qi_priority :: int
  qi_steering :: "json list"
  qi_created_at :: real
  qi_updated_at :: real

record worktree_assignment =
  wt_worker_id :: string
  wt_team_id :: string
  wt_worktree_path :: string
  wt_branch_name :: string
  wt_created_at :: real

record handoff_evidence =
  ho_dispatch_id :: string
  ho_from_worker_id :: string
  ho_to_lead_id :: string
  ho_status :: string
  ho_summary :: string
  ho_artifacts :: "string list"
  ho_metrics :: json
  ho_submitted_at :: real

record channel_message =
  cm_message_id :: string
  cm_team_id :: string
  cm_from_session_id :: string
  cm_to_session_id :: string
  cm_content :: string
  cm_role :: string
  cm_created_at :: real

record worker_checkpoint =
  wp_checkpoint_id :: string
  wp_worker_id :: string
  wp_team_id :: string
  wp_step_index :: int
  wp_state_summary :: string
  wp_tokens_consumed :: int
  wp_context :: json
  wp_created_at :: real

section \<open>A configuration as JSON\<close>

definition opt_text :: "string option \<Rightarrow> json" where
  "opt_text x = (case x of None \<Rightarrow> JNull | Some s \<Rightarrow> JStr s)"

definition opt_int :: "int option \<Rightarrow> json" where
  "opt_int x = (case x of None \<Rightarrow> JNull | Some i \<Rightarrow> JNum (show_int i))"

definition opt_num :: "string option \<Rightarrow> json" where
  "opt_num x = (case x of None \<Rightarrow> JNull | Some t \<Rightarrow> JNum t)"

definition config_dict :: "worker_config \<Rightarrow> json" where
  "config_dict c = JObj
     [(''worker_id'', JStr (wc_worker_id c)), (''team_id'', JStr (wc_team_id c)),
      (''role'', JStr (wc_role c)), (''harness'', JStr (wc_harness c)),
      (''model'', opt_text (wc_model c)), (''provider'', opt_text (wc_provider c)),
      (''system_prompt'', opt_text (wc_system_prompt c)),
      (''working_dir'', opt_text (wc_working_dir c)), (''effort'', opt_text (wc_effort c)),
      (''budget_tokens'', opt_int (wc_budget_tokens c)), (''pid'', opt_int (wc_pid c)),
      (''process_create_time'', opt_num (wc_process_create_time c)),
      (''tokens_consumed'', JNum (show_int (wc_tokens_consumed c))),
      (''fallback_to_native'', JBool (wc_fallback_to_native c))]"

text \<open>A decimal literal read back: the inverse of \<open>show_int\<close>.\<close>

definition digit_val :: "char \<Rightarrow> nat" where
  "digit_val c = code_of c - 48"

definition read_nat :: "string \<Rightarrow> nat" where
  "read_nat s = foldl (\<lambda>n c. 10 * n + digit_val c) 0 s"

definition read_int :: "string \<Rightarrow> int" where
  "read_int s = (case s of
     [] \<Rightarrow> 0 | c # ds \<Rightarrow> if c = CHR ''-'' then - int (read_nat ds) else int (read_nat (c # ds)))"

text \<open>\<open>dict.get\<close> with a default, and the readings of the field types.\<close>

definition json_get :: "string \<Rightarrow> json \<Rightarrow> (string \<times> json) list \<Rightarrow> json" where
  "json_get k d kvs = (case map_of kvs k of None \<Rightarrow> d | Some v \<Rightarrow> v)"

definition text_of :: "json \<Rightarrow> string" where
  "text_of v = (case v of JStr s \<Rightarrow> s | _ \<Rightarrow> [])"

definition text_opt_of :: "json \<Rightarrow> string option" where
  "text_opt_of v = (case v of JStr s \<Rightarrow> Some s | _ \<Rightarrow> None)"

definition int_opt_of :: "json \<Rightarrow> int option" where
  "int_opt_of v = (case v of JNum t \<Rightarrow> Some (read_int t) | _ \<Rightarrow> None)"

definition num_opt_of :: "json \<Rightarrow> string option" where
  "num_opt_of v = (case v of JNum t \<Rightarrow> Some t | _ \<Rightarrow> None)"

definition config_of_dict :: "string \<Rightarrow> string \<Rightarrow> (string \<times> json) list \<Rightarrow> worker_config" where
  "config_of_dict session_id team_id raw =
     \<lparr>wc_worker_id = text_of (json_get ''worker_id'' (JStr session_id) raw),
      wc_team_id = text_of (json_get ''team_id'' (JStr team_id) raw),
      wc_role = text_of (json_get ''role'' (JStr ''worker'') raw),
      wc_harness = text_of (json_get ''harness'' (JStr ''native'') raw),
      wc_model = text_opt_of (json_get ''model'' JNull raw),
      wc_provider = text_opt_of (json_get ''provider'' JNull raw),
      wc_system_prompt = text_opt_of (json_get ''system_prompt'' JNull raw),
      wc_working_dir = text_opt_of (json_get ''working_dir'' JNull raw),
      wc_effort = text_opt_of (json_get ''effort'' JNull raw),
      wc_budget_tokens = int_opt_of (json_get ''budget_tokens'' JNull raw),
      wc_pid = int_opt_of (json_get ''pid'' JNull raw),
      wc_process_create_time = num_opt_of (json_get ''process_create_time'' JNull raw),
      wc_tokens_consumed = (case int_opt_of (json_get ''tokens_consumed'' (JNum ''0'') raw) of
                              None \<Rightarrow> 0 | Some i \<Rightarrow> i),
      wc_fallback_to_native = (json_get ''fallback_to_native'' (JBool False) raw = JBool True)\<rparr>"

lemma digit_val_dec: "n < 10 \<Longrightarrow> digit_val (dec_digit n) = n"
proof -
  assume "n < 10"
  then have "n \<in> {0,1,2,3,4,5,6,7,8,9}" by auto
  then show ?thesis by (auto simp: digit_val_def dec_digit_def code_of_def)
qed

lemma read_show_nat: "read_nat (show_nat n) = n"
proof (induction n rule: less_induct)
  case (less n)
  show ?case
  proof (cases "n < 10")
    case True
    then show ?thesis by (simp add: show_nat_small read_nat_def digit_val_dec)
  next
    case False
    then have "read_nat (show_nat (n div 10)) = n div 10" using less by simp
    then show ?thesis using False by (simp add: show_nat_big read_nat_def digit_val_dec)
  qed
qed

lemma read_show_int [simp]: "read_int (show_int i) = i"
proof (cases "0 \<le> i")
  case True
  have "show_nat (nat i) \<noteq> []" "hd (show_nat (nat i)) \<noteq> CHR ''-''"
    using show_nat_digits [of "nat i"] show_nat_not_minus by auto
  then show ?thesis using True read_show_nat [of "nat i"]
    by (cases "show_nat (nat i)") (auto simp: read_int_def show_int_def)
next
  case False
  then show ?thesis using read_show_nat [of "nat (- i)"] by (simp add: read_int_def show_int_def)
qed

lemma opt_readings [simp]:
  "text_opt_of (opt_text x) = x" "int_opt_of (opt_int i) = i" "num_opt_of (opt_num t) = t"
  "text_of (JStr s) = s" "int_opt_of (JNum n) = Some (read_int n)"
  by (auto simp: text_opt_of_def opt_text_def int_opt_of_def opt_int_def num_opt_of_def opt_num_def
      text_of_def split: option.splits)

text \<open>A configuration is read back as it was written.\<close>

lemma config_of_config_dict:
  "\<exists>kvs. config_dict c = JObj kvs \<and> config_of_dict s t kvs = c"
  by (rule exI, rule conjI, rule config_dict_def) (simp add: config_of_dict_def json_get_def)

definition good_config :: "worker_config \<Rightarrow> bool" where
  "good_config c \<longleftrightarrow> (case wc_process_create_time c of None \<Rightarrow> True | Some t \<Rightarrow> num_literal t)"

lemma wf_config_dict: "good_config c \<Longrightarrow> wf_json (config_dict c)"
  by (auto simp: config_dict_def good_config_def opt_text_def opt_int_def opt_num_def show_int_literal
      split: option.splits)

end
