(* ===== verification/TeamStore.thy ===== *)
theory TeamStore
  imports TeamContracts
begin

text \<open>
  \<open>src/subagentbridge/storage/team_store.py\<close>, the class \<open>TeamStore\<close>: the SQLite database of teams,
  sessions, queue, worktrees, handoffs, messages and checkpoints.  A table is its list of rows in
  insertion order; a method is one transaction, so a step on the database, and one that raises
  leaves the database as it was.  A JSON column is its text; the columns of an enumeration hold its
  values.  \<open>ORDER BY\<close> is stable in insertion order.  \<open>num\<close> renders an instant inside a JSON text.
  Connection handling, WAL checkpoints, backup and restore are SQLite's and not modelled.
\<close>

section \<open>Tables\<close>

record session_row =
  sr_session_id :: string
  sr_role :: agent_role
  sr_team_id :: string
  sr_status :: worker_status
  sr_config_json :: string
  sr_created_at :: real
  sr_updated_at :: real

record queue_row =
  qr_dispatch_id :: string
  qr_team_id :: string
  qr_from_session_id :: string
  qr_to_session_id :: string
  qr_task_id :: string
  qr_payload_json :: string
  qr_status :: queue_status
  qr_dedup_key :: "string option"
  qr_priority :: int
  qr_steering_json :: string
  qr_created_at :: real
  qr_updated_at :: real

record handoff_row =
  hr_dispatch_id :: string
  hr_team_id :: string
  hr_from_worker_id :: string
  hr_to_lead_id :: string
  hr_status :: string
  hr_summary :: string
  hr_artifacts_json :: string
  hr_metrics_json :: string
  hr_submitted_at :: real

record checkpoint_row =
  cr_checkpoint_id :: string
  cr_worker_id :: string
  cr_team_id :: string
  cr_step_index :: int
  cr_state_summary :: string
  cr_tokens_consumed :: int
  cr_context_json :: string
  cr_created_at :: real

record team_db =
  td_teams :: "agent_team list"
  td_sessions :: "session_row list"
  td_queue :: "queue_row list"
  td_worktrees :: "worktree_assignment list"
  td_handoffs :: "handoff_row list"
  td_messages :: "channel_message list"
  td_checkpoints :: "checkpoint_row list"

definition empty_team_db :: team_db where
  "empty_team_db = \<lparr>td_teams = [], td_sessions = [], td_queue = [], td_worktrees = [],
     td_handoffs = [], td_messages = [], td_checkpoints = []\<rparr>"

definition text_json :: "json \<Rightarrow> string" where
  "text_json v = dumps True '' '' v"

section \<open>Teams\<close>

definition merge_team :: "agent_team \<Rightarrow> agent_team \<Rightarrow> agent_team" where
  "merge_team old new = old\<lparr>tm_lead_session_id := tm_lead_session_id new, tm_title := tm_title new\<rparr>"

interpretation team_table: upsert_table tm_team_id merge_team "\<lambda>_. True"
  by unfold_locales (simp_all add: merge_team_def)

definition save_team :: "agent_team \<Rightarrow> team_db \<Rightarrow> team_db" where
  "save_team team db = db\<lparr>td_teams := upsert tm_team_id merge_team team (td_teams db)\<rparr>"

definition load_team :: "string \<Rightarrow> team_db \<Rightarrow> agent_team option" where
  "load_team team_id db = row_at tm_team_id team_id (td_teams db)"

section \<open>Sessions\<close>

definition session_row_of :: "agent_session \<Rightarrow> session_row" where
  "session_row_of s =
     \<lparr>sr_session_id = se_session_id s, sr_role = se_role s, sr_team_id = se_team_id s,
      sr_status = se_status s, sr_config_json = text_json (config_dict (se_config s)),
      sr_created_at = se_created_at s, sr_updated_at = se_updated_at s\<rparr>"

definition merge_session :: "session_row \<Rightarrow> session_row \<Rightarrow> session_row" where
  "merge_session old new = old\<lparr>sr_status := sr_status new, sr_config_json := sr_config_json new,
     sr_updated_at := sr_updated_at new\<rparr>"

interpretation session_table: upsert_table sr_session_id merge_session "\<lambda>_. True"
  by unfold_locales (simp_all add: merge_session_def)

definition save_session :: "agent_session \<Rightarrow> team_db \<Rightarrow> team_db" where
  "save_session s db =
     db\<lparr>td_sessions := upsert sr_session_id merge_session (session_row_of s) (td_sessions db)\<rparr>"

definition row_to_session :: "session_row \<Rightarrow> exn + agent_session" where
  "row_to_session r =
     (case loads (sr_config_json r) of
        Some (JObj raw) \<Rightarrow>
          ok \<lparr>se_session_id = sr_session_id r, se_role = sr_role r, se_team_id = sr_team_id r,
             se_status = sr_status r, se_config = config_of_dict (sr_session_id r) (sr_team_id r) raw,
             se_created_at = sr_created_at r, se_updated_at = sr_updated_at r\<rparr>
      | Some _ \<Rightarrow> raise AttributeError ''object has no attribute get''
      | None \<Rightarrow> raise ValueError ''JSONDecodeError'')"

text \<open>Reading every row of a result: the first failure ends it.\<close>

fun read_all :: "('r \<Rightarrow> exn + 'a) \<Rightarrow> 'r list \<Rightarrow> exn + 'a list" where
  "read_all f [] = ok []"
| "read_all f (r # rows) =
     (case f r of
        Inl e \<Rightarrow> Inl e
      | Inr x \<Rightarrow> (case read_all f rows of Inl e \<Rightarrow> Inl e | Inr xs \<Rightarrow> ok (x # xs)))"

definition read_one :: "('r \<Rightarrow> exn + 'a) \<Rightarrow> 'r option \<Rightarrow> exn + 'a option" where
  "read_one f r =
     (case r of None \<Rightarrow> ok None
      | Some x \<Rightarrow> (case f x of Inl e \<Rightarrow> Inl e | Inr y \<Rightarrow> ok (Some y)))"

definition load_session :: "string \<Rightarrow> team_db \<Rightarrow> exn + agent_session option" where
  "load_session session_id db = read_one row_to_session (row_at sr_session_id session_id (td_sessions db))"

definition list_all_sessions :: "team_db \<Rightarrow> exn + agent_session list" where
  "list_all_sessions db = read_all row_to_session (sort_key sr_created_at (td_sessions db))"

definition list_sessions_by_team :: "string \<Rightarrow> team_db \<Rightarrow> exn + agent_session list" where
  "list_sessions_by_team team_id db =
     read_all row_to_session
       (sort_key sr_created_at (filter (\<lambda>r. sr_team_id r = team_id) (td_sessions db)))"

definition is_lead_of :: "string \<Rightarrow> string \<Rightarrow> team_db \<Rightarrow> bool" where
  "is_lead_of session_id team_id db \<longleftrightarrow>
     (case row_at sr_session_id session_id (td_sessions db) of
        None \<Rightarrow> False
      | Some r \<Rightarrow> sr_role r = AR_LEAD \<and> sr_team_id r = team_id)"

definition create_team_with_lead_once ::
  "real \<Rightarrow> string \<Rightarrow> string \<Rightarrow> string \<Rightarrow> team_db \<Rightarrow> (exn + agent_team) \<times> team_db" where
  "create_team_with_lead_once now team_id lead_session_id title db =
     (if blank team_id \<or> length team_id > 128 \<or> blank lead_session_id \<or> length lead_session_id > 128
         \<or> length title > 256
      then (raise ValueError ''bounded nonempty team and lead identities required'', db)
      else case load_team team_id db of
        Some existing \<Rightarrow>
          if tm_lead_session_id existing \<noteq> lead_session_id \<or> tm_title existing \<noteq> title
          then (raise PermissionError ''team registration cannot replace owner or title'', db)
          else if \<not> is_lead_of lead_session_id team_id db
          then (raise PermissionError ''existing team has inconsistent lead identity'', db)
          else (ok \<lparr>tm_team_id = team_id, tm_lead_session_id = lead_session_id, tm_title = title,
                   tm_created_at = tm_created_at existing\<rparr>, db)
      | None \<Rightarrow>
          if has_row sr_session_id lead_session_id (td_sessions db)
          then (raise PermissionError ''lead session identity already belongs to another team'', db)
          else
            let team = \<lparr>tm_team_id = team_id, tm_lead_session_id = lead_session_id, tm_title = title,
                        tm_created_at = now\<rparr>;
                lead = \<lparr>se_session_id = lead_session_id, se_role = AR_LEAD, se_team_id = team_id,
                        se_status = WS_IDLE,
                        se_config = (default_config lead_session_id team_id)\<lparr>wc_role := ''lead''\<rparr>,
                        se_created_at = now, se_updated_at = now\<rparr>
            in (ok team, db\<lparr>td_teams := td_teams db @ [team],
                           td_sessions := td_sessions db @ [session_row_of lead]\<rparr>))"

definition new_worker :: "real \<Rightarrow> string \<Rightarrow> worker_config \<Rightarrow> agent_session" where
  "new_worker now team_id config =
     \<lparr>se_session_id = wc_worker_id config, se_role = AR_WORKER, se_team_id = team_id,
      se_status = WS_IDLE, se_config = config, se_created_at = now, se_updated_at = now\<rparr>"

text \<open>\<open>str.lower\<close> of a role, and the argument checks of a registration.\<close>

definition lower_text :: "string \<Rightarrow> string" where
  "lower_text s = map (\<lambda>c. let n = code_of c in
     if 65 \<le> n \<and> n \<le> 90 \<or> 192 \<le> n \<and> n \<le> 222 \<and> n \<noteq> 215 then char_of (n + 32) else c) s"

definition check_registration ::
  "string \<Rightarrow> worker_config \<Rightarrow> string option \<Rightarrow> string option \<Rightarrow> exn + unit" where
  "check_registration team_id config worktree_path branch_name =
     (if blank team_id \<or> blank (wc_worker_id config) \<or> length (wc_worker_id config) > 128
         \<or> wc_team_id config \<noteq> team_id \<or> blank (wc_role config) \<or> lower_text (wc_role config) = ''lead''
      then raise ValueError ''worker identity, role or team binding is invalid''
      else if wc_pid config \<noteq> None \<or> wc_process_create_time config \<noteq> None
      then raise PermissionError ''metadata registration cannot adopt an unverified OS process''
      else if (case worktree_path of None \<Rightarrow> False | Some p \<Rightarrow> blank p \<or> length p > 4096)
      then raise ValueError ''bounded worktree path required''
      else if (case branch_name of None \<Rightarrow> False | Some b \<Rightarrow> blank b \<or> length b > 256)
      then raise ValueError ''bounded branch name required''
      else ok ())"

definition new_worktree ::
  "real \<Rightarrow> string \<Rightarrow> string \<Rightarrow> string \<Rightarrow> string option \<Rightarrow> worktree_assignment" where
  "new_worktree now team_id worker_id path branch_name =
     \<lparr>wt_worker_id = worker_id, wt_team_id = team_id, wt_worktree_path = path,
      wt_branch_name = (case branch_name of None \<Rightarrow> ''worker/'' @ worker_id | Some b \<Rightarrow> b),
      wt_created_at = now\<rparr>"

definition register_single_worker_once ::
  "real \<Rightarrow> string \<Rightarrow> worker_config \<Rightarrow> string option \<Rightarrow> string option \<Rightarrow> team_db
   \<Rightarrow> (exn + agent_session) \<times> team_db" where
  "register_single_worker_once now team_id config worktree_path branch_name db =
     (case check_registration team_id config worktree_path branch_name of
        Inl e \<Rightarrow> (Inl e, db)
      | Inr _ \<Rightarrow>
        (case load_team team_id db of
           None \<Rightarrow> (raise ValueError ''team not found'', db)
         | Some team \<Rightarrow>
             if tm_lead_session_id team = wc_worker_id config
             then (raise PermissionError ''worker cannot replace the team lead identity'', db)
             else if has_row sr_session_id (wc_worker_id config) (td_sessions db)
             then (raise ValueError ''worker identity already registered'', db)
             else
               let session = new_worker now team_id config;
                   db1 = db\<lparr>td_sessions := td_sessions db @ [session_row_of session]\<rparr>
               in case worktree_path of
                    None \<Rightarrow> (ok session, db1)
                  | Some path \<Rightarrow>
                      if has_row wt_worker_id (wc_worker_id config) (td_worktrees db)
                      then (raise IntegrityError ''UNIQUE constraint failed'', db)
                      else (ok session, db1\<lparr>td_worktrees := td_worktrees db @
                             [new_worktree now team_id (wc_worker_id config) path branch_name]\<rparr>)))"

definition BATCH_ROLES :: "string list" where
  "BATCH_ROLES = [''worker'', ''pm'', ''developer'', ''qa'', ''specialist'']"

fun check_batch :: "string \<Rightarrow> string \<Rightarrow> worker_config list \<Rightarrow> exn + unit" where
  "check_batch team_id lead_session_id [] = ok ()"
| "check_batch team_id lead_session_id (c # cs) =
     (if blank (wc_worker_id c) \<or> wc_team_id c \<noteq> team_id \<or> wc_worker_id c = lead_session_id
         \<or> wc_role c \<notin> set BATCH_ROLES
      then raise ValueError ''worker role, identity or team binding is invalid''
      else if wc_pid c \<noteq> None \<or> wc_process_create_time c \<noteq> None
      then raise PermissionError ''batch metadata registration cannot adopt an unverified live process''
      else check_batch team_id lead_session_id cs)"

definition active_workers :: "string \<Rightarrow> team_db \<Rightarrow> nat" where
  "active_workers team_id db = length (filter (\<lambda>r. sr_team_id r = team_id \<and> sr_role r = AR_WORKER
     \<and> sr_status r \<noteq> WS_ARCHIVED) (td_sessions db))"

definition check_batch_args ::
  "string \<Rightarrow> string \<Rightarrow> worker_config list \<Rightarrow> int \<Rightarrow> exn + unit" where
  "check_batch_args team_id lead_session_id configs max_workers =
     (if blank team_id then raise ValueError ''nonempty team ID required''
      else if blank lead_session_id then raise ValueError ''nonempty lead session ID required''
      else if configs = [] \<or> length configs > 16
      then raise ValueError ''worker batch must contain between 1 and 16 configs''
      else if \<not> (1 \<le> max_workers \<and> max_workers \<le> 64)
      then raise ValueError ''max_workers must be between 1 and 64''
      else case check_batch team_id lead_session_id configs of
        Inl e \<Rightarrow> Inl e
      | Inr _ \<Rightarrow> if \<not> distinct (map wc_worker_id configs)
                then raise ValueError ''duplicate worker ID within batch'' else ok ())"

definition register_worker_batch_once ::
  "real \<Rightarrow> string \<Rightarrow> string \<Rightarrow> worker_config list \<Rightarrow> int \<Rightarrow> team_db
   \<Rightarrow> (exn + agent_session list) \<times> team_db" where
  "register_worker_batch_once now team_id lead_session_id configs max_workers db =
     (case check_batch_args team_id lead_session_id configs max_workers of
        Inl e \<Rightarrow> (Inl e, db)
      | Inr _ \<Rightarrow>
          if map_option tm_lead_session_id (load_team team_id db) \<noteq> Some lead_session_id
          then (raise PermissionError ''team lead binding is not valid'', db)
          else if \<not> is_lead_of lead_session_id team_id db
          then (raise PermissionError ''registered lead session is required'', db)
          else if int (active_workers team_id db) + int (length configs) > max_workers
          then (raise ValueError ''worker roster capacity exceeded'', db)
          else if list_ex (\<lambda>c. has_row sr_session_id (wc_worker_id c) (td_sessions db)) configs
          then (raise ValueError ''worker identity already registered'', db)
          else let created = map (new_worker now team_id) configs
               in (ok created, db\<lparr>td_sessions := td_sessions db @ map session_row_of created\<rparr>))"

section \<open>The queue\<close>

definition queue_row_of :: "queue_item \<Rightarrow> queue_row" where
  "queue_row_of q =
     \<lparr>qr_dispatch_id = qi_dispatch_id q, qr_team_id = qi_team_id q,
      qr_from_session_id = qi_from_session_id q, qr_to_session_id = qi_to_session_id q,
      qr_task_id = qi_task_id q, qr_payload_json = text_json (qi_payload q), qr_status = qi_status q,
      qr_dedup_key = qi_dedup_key q, qr_priority = qi_priority q,
      qr_steering_json = text_json (JList (qi_steering q)), qr_created_at = qi_created_at q,
      qr_updated_at = qi_updated_at q\<rparr>"

text \<open>
  Steering instructions are a list: this class writes only JSON arrays into the column, and a text
  that does not parse is read as no instructions.
\<close>

definition steering_of :: "string \<Rightarrow> json list" where
  "steering_of t = (case loads t of Some (JList xs) \<Rightarrow> xs | _ \<Rightarrow> [])"

definition row_to_queue_item :: "queue_row \<Rightarrow> exn + queue_item" where
  "row_to_queue_item r =
     (case loads (qr_payload_json r) of
        None \<Rightarrow> raise ValueError ''JSONDecodeError''
      | Some payload \<Rightarrow>
          ok \<lparr>qi_dispatch_id = qr_dispatch_id r, qi_team_id = qr_team_id r,
             qi_from_session_id = qr_from_session_id r, qi_to_session_id = qr_to_session_id r,
             qi_task_id = qr_task_id r, qi_payload = payload, qi_status = qr_status r,
             qi_dedup_key = qr_dedup_key r, qi_priority = qr_priority r,
             qi_steering = steering_of (qr_steering_json r), qi_created_at = qr_created_at r,
             qi_updated_at = qr_updated_at r\<rparr>)"

definition merge_queue :: "queue_row \<Rightarrow> queue_row \<Rightarrow> queue_row" where
  "merge_queue old new = old\<lparr>qr_status := qr_status new, qr_payload_json := qr_payload_json new,
     qr_dedup_key := qr_dedup_key new, qr_priority := qr_priority new,
     qr_steering_json := qr_steering_json new, qr_updated_at := qr_updated_at new\<rparr>"

interpretation queue_table: upsert_table qr_dispatch_id merge_queue "\<lambda>_. True"
  by unfold_locales (simp_all add: merge_queue_def)

definition save_queue_item :: "queue_item \<Rightarrow> team_db \<Rightarrow> team_db" where
  "save_queue_item q db =
     db\<lparr>td_queue := upsert qr_dispatch_id merge_queue (queue_row_of q) (td_queue db)\<rparr>"

definition queue_at :: "string \<Rightarrow> team_db \<Rightarrow> queue_row option" where
  "queue_at dispatch_id db = row_at qr_dispatch_id dispatch_id (td_queue db)"

definition load_queue_item :: "string \<Rightarrow> team_db \<Rightarrow> exn + queue_item option" where
  "load_queue_item dispatch_id db = read_one row_to_queue_item (queue_at dispatch_id db)"

definition live :: "queue_status \<Rightarrow> bool" where
  "live s \<longleftrightarrow> s \<noteq> QT_FAILED \<and> s \<noteq> QT_CANCELLED"

definition same_work :: "string \<Rightarrow> string \<Rightarrow> queue_row \<Rightarrow> bool" where
  "same_work team_id dedup_key r \<longleftrightarrow>
     qr_team_id r = team_id \<and> qr_dedup_key r = Some dedup_key \<and> live (qr_status r)"

text \<open>\<open>ORDER BY created_at DESC LIMIT 1\<close>.\<close>

definition first_by :: "('r \<Rightarrow> 'k :: linorder) \<Rightarrow> 'r list \<Rightarrow> 'r option" where
  "first_by k rows = (case sort_key k rows of [] \<Rightarrow> None | r # _ \<Rightarrow> Some r)"

definition dedup_row :: "string \<Rightarrow> string \<Rightarrow> team_db \<Rightarrow> queue_row option" where
  "dedup_row team_id dedup_key db =
     first_by (\<lambda>r. - qr_created_at r) (filter (same_work team_id dedup_key) (td_queue db))"

definition find_queue_item_by_dedup :: "string \<Rightarrow> string \<Rightarrow> team_db \<Rightarrow> exn + queue_item option" where
  "find_queue_item_by_dedup team_id dedup_key db = read_one row_to_queue_item (dedup_row team_id dedup_key db)"

definition insert_queue_item_once :: "queue_item \<Rightarrow> team_db \<Rightarrow> (exn + queue_item) \<times> team_db" where
  "insert_queue_item_once item db =
     (case (case qi_dedup_key item of
              None \<Rightarrow> None
            | Some key \<Rightarrow> if key = [] then None else dedup_row (qi_team_id item) key db) of
        Some r \<Rightarrow> (row_to_queue_item r, db)
      | None \<Rightarrow>
          if has_row qr_dispatch_id (qi_dispatch_id item) (td_queue db)
          then (raise IntegrityError ''UNIQUE constraint failed'', db)
          else (ok item, db\<lparr>td_queue := td_queue db @ [queue_row_of item]\<rparr>))"

definition steerable :: "queue_status \<Rightarrow> bool" where
  "steerable s \<longleftrightarrow> s \<in> {QT_PENDING, QT_DISPATCHED, QT_RUNNING}"

definition PRIVILEGED_KEYS :: "string list" where
  "PRIVILEGED_KEYS = [''command'', ''execution_ticket'', ''approved'', ''approver'',
     ''approval_action_id'', ''workspace_path'', ''payload'']"

text \<open>Guidance is a text or a dictionary; other values raise \<open>TypeError\<close>.\<close>

definition check_guidance :: "json \<Rightarrow> exn + unit" where
  "check_guidance g =
     (case g of
        JStr s \<Rightarrow>
          if blank s \<or> length s > 4096 then raise ValueError ''bounded nonempty guidance required'' else ok ()
      | JObj kvs \<Rightarrow>
          if kvs = [] \<or> length kvs > 32 \<or> list_ex (\<lambda>k. k \<in> fst ` set kvs) PRIVILEGED_KEYS
          then raise PermissionError ''guidance cannot modify privileged execution context''
          else if length (text_json g) > 4096 then raise ValueError ''guidance size limit exceeded''
          else ok ()
      | _ \<Rightarrow> raise TypeError ''guidance must be text or JSON-compatible mapping'')"

definition check_steering :: "json option \<Rightarrow> int option \<Rightarrow> exn + unit" where
  "check_steering guidance priority =
     (if guidance = None \<and> priority = None
      then raise ValueError ''guidance or priority must be specified''
      else if (case priority of None \<Rightarrow> False | Some p \<Rightarrow> \<not> (-100 \<le> p \<and> p \<le> 100))
      then raise ValueError ''priority must be an integer from -100 to 100''
      else case guidance of None \<Rightarrow> ok () | Some g \<Rightarrow> check_guidance g)"

definition steering_entry :: "(real \<Rightarrow> string) \<Rightarrow> real \<Rightarrow> string \<Rightarrow> json \<Rightarrow> json" where
  "steering_entry num now lead_session_id guidance =
     JObj [(''guidance'', guidance), (''steered_by'', JStr lead_session_id),
           (''timestamp'', JNum (num now))]"

text \<open>Who may steer: the lead of the team of the item, as session and as registered owner.\<close>

definition check_lead :: "string \<Rightarrow> queue_item \<Rightarrow> team_db \<Rightarrow> exn + unit" where
  "check_lead lead_session_id item db =
     (case row_at sr_session_id lead_session_id (td_sessions db) of
        None \<Rightarrow> raise PermissionError ''Only lead session can steer tasks''
      | Some lead \<Rightarrow>
          if sr_role lead \<noteq> AR_LEAD then raise PermissionError ''Only lead session can steer tasks''
          else if sr_team_id lead \<noteq> qi_team_id item
          then raise PermissionError ''cross-team task steering not permitted''
          else if map_option tm_lead_session_id (load_team (qi_team_id item) db) \<noteq> Some lead_session_id
          then raise PermissionError ''Only registered team lead can steer tasks''
          else ok ())"

definition steer_queue_item_once ::
  "(real \<Rightarrow> string) \<Rightarrow> real \<Rightarrow> real \<Rightarrow> string \<Rightarrow> string \<Rightarrow> json option \<Rightarrow> int option \<Rightarrow> team_db
   \<Rightarrow> (exn + queue_item) \<times> team_db" where
  "steer_queue_item_once num now now2 lead_session_id dispatch_id guidance priority db =
     (case check_steering guidance priority of
        Inl e \<Rightarrow> (Inl e, db)
      | Inr _ \<Rightarrow>
        (case queue_at dispatch_id db of
           None \<Rightarrow> (raise KeyError dispatch_id, db)
         | Some row \<Rightarrow>
           (case row_to_queue_item row of
              Inl e \<Rightarrow> (Inl e, db)
            | Inr item \<Rightarrow>
              (case check_lead lead_session_id item db of
                 Inl e \<Rightarrow> (Inl e, db)
               | Inr _ \<Rightarrow>
                   if \<not> steerable (qi_status item)
                   then (raise ValueError ''Cannot steer task in terminal or nonactive status'', db)
                   else if priority \<noteq> None \<and> qi_status item \<noteq> QT_PENDING
                   then (raise ValueError ''only pending tasks may be reprioritized'', db)
                   else
                     let item' = item\<lparr>
                           qi_steering := qi_steering item @ (case guidance of None \<Rightarrow> []
                             | Some g \<Rightarrow> [steering_entry num now lead_session_id g]),
                           qi_priority := (case priority of None \<Rightarrow> qi_priority item | Some p \<Rightarrow> p),
                           qi_updated_at := now2\<rparr>
                     in (ok item', db\<lparr>td_queue := update_where
                           (\<lambda>r. qr_dispatch_id r = dispatch_id \<and> qr_status r = qr_status row)
                           (\<lambda>r. r\<lparr>qr_steering_json := text_json (JList (qi_steering item')),
                                  qr_priority := qi_priority item', qr_updated_at := now2\<rparr>)
                           (td_queue db)\<rparr>)))))"

definition cancellation_entry :: "(real \<Rightarrow> string) \<Rightarrow> real \<Rightarrow> string \<Rightarrow> string \<Rightarrow> json" where
  "cancellation_entry num now reason lead_session_id =
     JObj [(''cancellation_reason'', JStr reason), (''cancelled_by'', JStr lead_session_id),
           (''timestamp'', JNum (num now))]"

definition cancel_active_queue_item ::
  "(real \<Rightarrow> string) \<Rightarrow> real \<Rightarrow> real \<Rightarrow> string \<Rightarrow> string \<Rightarrow> string \<Rightarrow> team_db \<Rightarrow> (exn + queue_item) \<times> team_db" where
  "cancel_active_queue_item num now now2 dispatch_id lead_session_id reason db =
     (case queue_at dispatch_id db of
        None \<Rightarrow> (raise KeyError dispatch_id, db)
      | Some row \<Rightarrow>
        (case row_to_queue_item row of
           Inl e \<Rightarrow> (Inl e, db)
         | Inr item \<Rightarrow>
             if \<not> steerable (qi_status item)
             then (raise ValueError ''Task cannot be cancelled from this status'', db)
             else
               let item' = item\<lparr>
                     qi_steering := qi_steering item @
                       (if reason = [] then [] else [cancellation_entry num now reason lead_session_id]),
                     qi_status := QT_CANCELLED, qi_updated_at := now2\<rparr>
               in (ok item', db\<lparr>td_queue := update_where
                     (\<lambda>r. qr_dispatch_id r = dispatch_id \<and> steerable (qr_status r))
                     (\<lambda>r. r\<lparr>qr_status := QT_CANCELLED,
                            qr_steering_json := text_json (JList (qi_steering item')),
                            qr_updated_at := now2\<rparr>)
                     (td_queue db)\<rparr>)))"

text \<open>\<open>ORDER BY priority DESC, created_at ASC LIMIT 1\<close>.\<close>

definition pending_for :: "string \<Rightarrow> string \<Rightarrow> queue_row \<Rightarrow> bool" where
  "pending_for team_id worker_id r \<longleftrightarrow>
     qr_team_id r = team_id \<and> qr_to_session_id r = worker_id \<and> qr_status r = QT_PENDING"

definition next_pending :: "string \<Rightarrow> string \<Rightarrow> team_db \<Rightarrow> queue_row option" where
  "next_pending team_id worker_id db =
     first_by (\<lambda>r. - qr_priority r) (sort_key qr_created_at (filter (pending_for team_id worker_id) (td_queue db)))"

definition fetch_next_pending_task :: "string \<Rightarrow> string \<Rightarrow> team_db \<Rightarrow> exn + queue_item option" where
  "fetch_next_pending_task team_id worker_id db = read_one row_to_queue_item (next_pending team_id worker_id db)"

definition list_queue_by_team :: "string \<Rightarrow> team_db \<Rightarrow> exn + queue_item list" where
  "list_queue_by_team team_id db =
     read_all row_to_queue_item
       (sort_key qr_created_at (filter (\<lambda>r. qr_team_id r = team_id) (td_queue db)))"

definition mark_task_resuming :: "real \<Rightarrow> string \<Rightarrow> team_db \<Rightarrow> (exn + queue_item) \<times> team_db" where
  "mark_task_resuming now dispatch_id db =
     (case queue_at dispatch_id db of
        None \<Rightarrow> (raise KeyError ''queue item not found'', db)
      | Some row \<Rightarrow>
          if qr_status row = QT_RUNNING
          then (raise RuntimeError ''Concurrent resume rejected: task is already RUNNING'', db)
          else if qr_status row = QT_COMPLETED
          then (raise RuntimeError ''Duplicate resume rejected: task is already COMPLETED'', db)
          else if qr_status row = QT_CANCELLED
          then (raise RuntimeError ''Resume rejected: task is CANCELLED'', db)
          else
            let db' = db\<lparr>td_queue := update_where
                     (\<lambda>r. qr_dispatch_id r = dispatch_id \<and> qr_status r = qr_status row)
                     (\<lambda>r. r\<lparr>qr_status := QT_RUNNING, qr_updated_at := now\<rparr>) (td_queue db)\<rparr>
            in (case row_to_queue_item row of
                  Inl e \<Rightarrow> (Inl e, db')
                | Inr item \<Rightarrow> (ok (item\<lparr>qi_status := QT_RUNNING, qi_updated_at := now\<rparr>), db')))"

section \<open>Messages, worktrees, handoffs and checkpoints\<close>

definition merge_message :: "channel_message \<Rightarrow> channel_message \<Rightarrow> channel_message" where
  "merge_message old new = old\<lparr>cm_content := cm_content new\<rparr>"

interpretation message_table: upsert_table cm_message_id merge_message "\<lambda>_. True"
  by unfold_locales (simp_all add: merge_message_def)

definition save_channel_message :: "channel_message \<Rightarrow> team_db \<Rightarrow> team_db" where
  "save_channel_message m db = db\<lparr>td_messages := upsert cm_message_id merge_message m (td_messages db)\<rparr>"

definition list_channel_messages_by_team :: "string \<Rightarrow> nat \<Rightarrow> team_db \<Rightarrow> channel_message list" where
  "list_channel_messages_by_team team_id limit db =
     take limit (sort_key cm_created_at (filter (\<lambda>m. cm_team_id m = team_id) (td_messages db)))"

definition merge_worktree :: "worktree_assignment \<Rightarrow> worktree_assignment \<Rightarrow> worktree_assignment" where
  "merge_worktree old new = old\<lparr>wt_worktree_path := wt_worktree_path new, wt_branch_name := wt_branch_name new\<rparr>"

interpretation worktree_table: upsert_table wt_worker_id merge_worktree "\<lambda>_. True"
  by unfold_locales (simp_all add: merge_worktree_def)

definition save_worktree :: "worktree_assignment \<Rightarrow> team_db \<Rightarrow> team_db" where
  "save_worktree w db = db\<lparr>td_worktrees := upsert wt_worker_id merge_worktree w (td_worktrees db)\<rparr>"

definition load_worktree :: "string \<Rightarrow> team_db \<Rightarrow> worktree_assignment option" where
  "load_worktree worker_id db = row_at wt_worker_id worker_id (td_worktrees db)"

definition delete_worktree :: "string \<Rightarrow> team_db \<Rightarrow> team_db" where
  "delete_worktree worker_id db =
     db\<lparr>td_worktrees := filter (\<lambda>w. wt_worker_id w \<noteq> worker_id) (td_worktrees db)\<rparr>"

definition handoff_row_of :: "string \<Rightarrow> handoff_evidence \<Rightarrow> handoff_row" where
  "handoff_row_of team_id h =
     \<lparr>hr_dispatch_id = ho_dispatch_id h, hr_team_id = team_id, hr_from_worker_id = ho_from_worker_id h,
      hr_to_lead_id = ho_to_lead_id h, hr_status = ho_status h, hr_summary = ho_summary h,
      hr_artifacts_json = text_json (JList (map JStr (ho_artifacts h))),
      hr_metrics_json = text_json (ho_metrics h), hr_submitted_at = ho_submitted_at h\<rparr>"

definition merge_handoff :: "handoff_row \<Rightarrow> handoff_row \<Rightarrow> handoff_row" where
  "merge_handoff old new = old\<lparr>hr_status := hr_status new, hr_summary := hr_summary new,
     hr_artifacts_json := hr_artifacts_json new, hr_metrics_json := hr_metrics_json new,
     hr_submitted_at := hr_submitted_at new\<rparr>"

interpretation handoff_table: upsert_table hr_dispatch_id merge_handoff "\<lambda>_. True"
  by unfold_locales (simp_all add: merge_handoff_def)

definition save_handoff :: "string \<Rightarrow> handoff_evidence \<Rightarrow> team_db \<Rightarrow> team_db" where
  "save_handoff team_id h db =
     db\<lparr>td_handoffs := upsert hr_dispatch_id merge_handoff (handoff_row_of team_id h) (td_handoffs db)\<rparr>"

text \<open>
  The finalization of a handoff is not one transaction: its two SELECTs run before the first writing
  statement opens one, and the UPDATE does not ask for the status again.  \<open>finalize_read\<close> is what the
  SELECTs decide on the database \<open>seen\<close>, \<open>finalize_write\<close> the transaction on the database of a later
  moment, where a handoff row that another connection has inserted meanwhile is an IntegrityError.
  No operation deletes a handoff row, so it does not matter how the two SELECTs themselves are
  separated.
\<close>

definition finalize_read :: "handoff_evidence \<Rightarrow> team_db \<Rightarrow> exn + string" where
  "finalize_read evidence seen =
     (case queue_at (ho_dispatch_id evidence) seen of
        None \<Rightarrow> raise KeyError ''dispatch not found in queue''
      | Some row \<Rightarrow>
          if qr_status row \<in> {QT_COMPLETED, QT_CANCELLED}
          then raise ValueError ''Handoff already finalized for dispatch''
          else if has_row hr_dispatch_id (ho_dispatch_id evidence) (td_handoffs seen)
          then raise ValueError ''Handoff already finalized for dispatch''
          else ok (qr_to_session_id row))"

definition finalize_write ::
  "real \<Rightarrow> string \<Rightarrow> handoff_evidence \<Rightarrow> queue_status option \<Rightarrow> string \<Rightarrow> team_db \<Rightarrow> (exn + unit) \<times> team_db"
  where
  "finalize_write now team_id evidence new_queue_status worker_id db =
     (if has_row hr_dispatch_id (ho_dispatch_id evidence) (td_handoffs db)
      then (raise ValueError ''Handoff already finalized for dispatch'', db)
      else (ok (), db\<lparr>
             td_handoffs := td_handoffs db @ [handoff_row_of team_id evidence],
             td_queue := (case new_queue_status of
                None \<Rightarrow> td_queue db
              | Some s \<Rightarrow> update_where (\<lambda>r. qr_dispatch_id r = ho_dispatch_id evidence)
                  (\<lambda>r. r\<lparr>qr_status := s, qr_updated_at := now\<rparr>) (td_queue db)),
             td_sessions := update_where (\<lambda>r. sr_session_id r = worker_id)
                  (\<lambda>r. r\<lparr>sr_status := WS_IDLE, sr_updated_at := now\<rparr>) (td_sessions db)\<rparr>))"

definition finalize_handoff_transaction ::
  "team_db \<Rightarrow> real \<Rightarrow> string \<Rightarrow> handoff_evidence \<Rightarrow> queue_status option \<Rightarrow> team_db \<Rightarrow> (exn + unit) \<times> team_db"
  where
  "finalize_handoff_transaction seen now team_id evidence new_queue_status db =
     (case finalize_read evidence seen of
        Inl e \<Rightarrow> (Inl e, db)
      | Inr worker_id \<Rightarrow> finalize_write now team_id evidence new_queue_status worker_id db)"

definition strings_of_json :: "json \<Rightarrow> string list" where
  "strings_of_json v = (case v of JList xs \<Rightarrow> map text_of xs | _ \<Rightarrow> [])"

definition row_to_handoff :: "handoff_row \<Rightarrow> exn + handoff_evidence" where
  "row_to_handoff r =
     (case (loads (hr_artifacts_json r), loads (hr_metrics_json r)) of
        (Some artifacts, Some metrics) \<Rightarrow>
          ok \<lparr>ho_dispatch_id = hr_dispatch_id r, ho_from_worker_id = hr_from_worker_id r,
             ho_to_lead_id = hr_to_lead_id r, ho_status = hr_status r, ho_summary = hr_summary r,
             ho_artifacts = strings_of_json artifacts, ho_metrics = metrics,
             ho_submitted_at = hr_submitted_at r\<rparr>
      | _ \<Rightarrow> raise ValueError ''JSONDecodeError'')"

definition list_handoffs_by_team :: "string \<Rightarrow> team_db \<Rightarrow> exn + handoff_evidence list" where
  "list_handoffs_by_team team_id db =
     read_all row_to_handoff
       (sort_key hr_submitted_at (filter (\<lambda>r. hr_team_id r = team_id) (td_handoffs db)))"

definition checkpoint_row_of :: "worker_checkpoint \<Rightarrow> checkpoint_row" where
  "checkpoint_row_of c =
     \<lparr>cr_checkpoint_id = wp_checkpoint_id c, cr_worker_id = wp_worker_id c, cr_team_id = wp_team_id c,
      cr_step_index = wp_step_index c, cr_state_summary = wp_state_summary c,
      cr_tokens_consumed = wp_tokens_consumed c, cr_context_json = text_json (wp_context c),
      cr_created_at = wp_created_at c\<rparr>"

definition merge_checkpoint :: "checkpoint_row \<Rightarrow> checkpoint_row \<Rightarrow> checkpoint_row" where
  "merge_checkpoint old new = old\<lparr>cr_step_index := cr_step_index new,
     cr_state_summary := cr_state_summary new, cr_tokens_consumed := cr_tokens_consumed new,
     cr_context_json := cr_context_json new\<rparr>"

interpretation checkpoint_table: upsert_table cr_checkpoint_id merge_checkpoint "\<lambda>_. True"
  by unfold_locales (simp_all add: merge_checkpoint_def)

definition save_checkpoint :: "worker_checkpoint \<Rightarrow> team_db \<Rightarrow> team_db" where
  "save_checkpoint c db =
     db\<lparr>td_checkpoints := upsert cr_checkpoint_id merge_checkpoint (checkpoint_row_of c) (td_checkpoints db)\<rparr>"

definition row_to_checkpoint :: "checkpoint_row \<Rightarrow> exn + worker_checkpoint" where
  "row_to_checkpoint r =
     (case loads (cr_context_json r) of
        None \<Rightarrow> raise ValueError ''JSONDecodeError''
      | Some context \<Rightarrow>
          ok \<lparr>wp_checkpoint_id = cr_checkpoint_id r, wp_worker_id = cr_worker_id r,
             wp_team_id = cr_team_id r, wp_step_index = cr_step_index r,
             wp_state_summary = cr_state_summary r, wp_tokens_consumed = cr_tokens_consumed r,
             wp_context = context, wp_created_at = cr_created_at r\<rparr>)"

definition latest_checkpoint :: "string \<Rightarrow> team_db \<Rightarrow> checkpoint_row option" where
  "latest_checkpoint worker_id db =
     first_by (\<lambda>r. - cr_step_index r)
       (sort_key (\<lambda>r. - cr_created_at r) (filter (\<lambda>r. cr_worker_id r = worker_id) (td_checkpoints db)))"

definition load_latest_checkpoint :: "string \<Rightarrow> team_db \<Rightarrow> exn + worker_checkpoint option" where
  "load_latest_checkpoint worker_id db = read_one row_to_checkpoint (latest_checkpoint worker_id db)"

definition list_checkpoints :: "string \<Rightarrow> team_db \<Rightarrow> exn + worker_checkpoint list" where
  "list_checkpoints worker_id db =
     read_all row_to_checkpoint
       (sort_key cr_step_index (sort_key cr_created_at
          (filter (\<lambda>r. cr_worker_id r = worker_id) (td_checkpoints db))))"

end
