(* ===== verification/Migration.thy ===== *)
theory Migration
  imports TeamStore
begin

text \<open>
  \<open>src/subagentbridge/storage/team_store.py\<close>, \<open>migrate_schema\<close>: the migration of the legacy
  \<open>orca_*\<close> tables into the \<open>simpul_*\<close> tables, in one transaction.  The database is the store's tables,
  the legacy tables that exist, and the recorded schema versions.  The pre-migration backup is file
  I/O: its outcome is the argument \<open>backup\<close>.  The \<open>role\<close> and \<open>orca_role\<close> variants of the legacy sessions differ in
  a column name only and are one table here.  The tables declare no SQL foreign keys, so
  \<open>PRAGMA foreign_key_check\<close> finds nothing.
\<close>

section \<open>State\<close>

text \<open>A legacy queue may lack columns; then the rows' values of these columns mean nothing.\<close>

record legacy_queue =
  lq_rows :: "queue_row list"
  lq_has_dedup_key :: bool
  lq_has_priority :: bool
  lq_has_steering_json :: bool

record legacy_db =
  lg_teams :: "agent_team list option"
  lg_sessions :: "session_row list option"
  lg_queue :: "legacy_queue option"
  lg_worktrees :: "worktree_assignment list option"
  lg_handoffs :: "handoff_row list option"
  lg_messages :: "channel_message list option"
  lg_checkpoints :: "checkpoint_row list option"
  lg_others :: "string list"

record migration_db =
  mg_versions :: "int list"
  mg_tables :: team_db
  mg_legacy :: legacy_db

definition current_version :: "migration_db \<Rightarrow> int" where
  "current_version m = (if mg_versions m = [] then 0 else Max (set (mg_versions m)))"

definition no_legacy :: "string list \<Rightarrow> legacy_db" where
  "no_legacy others = \<lparr>lg_teams = None, lg_sessions = None, lg_queue = None, lg_worktrees = None,
     lg_handoffs = None, lg_messages = None, lg_checkpoints = None, lg_others = others\<rparr>"

definition active_legacy_tables :: "legacy_db \<Rightarrow> bool" where
  "active_legacy_tables l \<longleftrightarrow> l \<noteq> no_legacy []"

section \<open>Equality of rows\<close>

definition same_instant :: "real \<Rightarrow> real \<Rightarrow> bool" where
  "same_instant s t \<longleftrightarrow> \<bar>s - t\<bar> \<le> 1 / 1000"

definition same_team :: "agent_team \<Rightarrow> agent_team \<Rightarrow> bool" where
  "same_team o' s \<longleftrightarrow> tm_lead_session_id o' = tm_lead_session_id s \<and> tm_title o' = tm_title s \<and>
     same_instant (tm_created_at o') (tm_created_at s)"

definition same_session :: "session_row \<Rightarrow> session_row \<Rightarrow> bool" where
  "same_session o' s \<longleftrightarrow> sr_role o' = sr_role s \<and> sr_team_id o' = sr_team_id s \<and>
     sr_status o' = sr_status s \<and> sr_config_json o' = sr_config_json s \<and>
     same_instant (sr_created_at o') (sr_created_at s) \<and> same_instant (sr_updated_at o') (sr_updated_at s)"

definition same_worktree :: "worktree_assignment \<Rightarrow> worktree_assignment \<Rightarrow> bool" where
  "same_worktree o' s \<longleftrightarrow> wt_team_id o' = wt_team_id s \<and> wt_worktree_path o' = wt_worktree_path s \<and>
     wt_branch_name o' = wt_branch_name s \<and> same_instant (wt_created_at o') (wt_created_at s)"

definition same_handoff :: "handoff_row \<Rightarrow> handoff_row \<Rightarrow> bool" where
  "same_handoff o' s \<longleftrightarrow> hr_team_id o' = hr_team_id s \<and> hr_from_worker_id o' = hr_from_worker_id s \<and>
     hr_to_lead_id o' = hr_to_lead_id s \<and> hr_status o' = hr_status s \<and> hr_summary o' = hr_summary s \<and>
     hr_artifacts_json o' = hr_artifacts_json s \<and> hr_metrics_json o' = hr_metrics_json s \<and>
     same_instant (hr_submitted_at o') (hr_submitted_at s)"

definition same_message :: "channel_message \<Rightarrow> channel_message \<Rightarrow> bool" where
  "same_message o' s \<longleftrightarrow> cm_team_id o' = cm_team_id s \<and> cm_from_session_id o' = cm_from_session_id s \<and>
     cm_to_session_id o' = cm_to_session_id s \<and> cm_content o' = cm_content s \<and> cm_role o' = cm_role s \<and>
     same_instant (cm_created_at o') (cm_created_at s)"

definition same_checkpoint :: "checkpoint_row \<Rightarrow> checkpoint_row \<Rightarrow> bool" where
  "same_checkpoint o' s \<longleftrightarrow> cr_worker_id o' = cr_worker_id s \<and> cr_team_id o' = cr_team_id s \<and>
     cr_step_index o' = cr_step_index s \<and> cr_state_summary o' = cr_state_summary s \<and>
     cr_tokens_consumed o' = cr_tokens_consumed s \<and> cr_context_json o' = cr_context_json s \<and>
     same_instant (cr_created_at o') (cr_created_at s)"

definition same_queue_row :: "queue_row \<Rightarrow> queue_row \<Rightarrow> bool" where
  "same_queue_row o' s \<longleftrightarrow> qr_team_id s = qr_team_id o' \<and> qr_from_session_id s = qr_from_session_id o' \<and>
     qr_to_session_id s = qr_to_session_id o' \<and> qr_task_id s = qr_task_id o' \<and>
     qr_payload_json s = qr_payload_json o' \<and> qr_status s = qr_status o' \<and>
     qr_dedup_key s = qr_dedup_key o' \<and> qr_priority s = qr_priority o' \<and>
     qr_steering_json s = qr_steering_json o' \<and> same_instant (qr_created_at s) (qr_created_at o') \<and>
     same_instant (qr_updated_at s) (qr_updated_at o')"

section \<open>Moving one table\<close>

text \<open>
  The conflict query, the \<open>INSERT ... SELECT ... WHERE key NOT IN\<close> with the primary key constraint, and
  the row-by-row verification.
\<close>

definition conflicting :: "('r \<Rightarrow> string) \<Rightarrow> ('r \<Rightarrow> 'r \<Rightarrow> bool) \<Rightarrow> 'r list \<Rightarrow> 'r \<Rightarrow> bool" where
  "conflicting key same dest o' =
     (case row_at key (key o') dest of None \<Rightarrow> False | Some s \<Rightarrow> \<not> same o' s)"

definition verified_row :: "('r \<Rightarrow> string) \<Rightarrow> ('r \<Rightarrow> 'r \<Rightarrow> bool) \<Rightarrow> 'r list \<Rightarrow> 'r \<Rightarrow> bool" where
  "verified_row key same dest o' =
     (case row_at key (key o') dest of None \<Rightarrow> False | Some s \<Rightarrow> same o' s)"

definition migrate_rows ::
  "('r \<Rightarrow> string) \<Rightarrow> ('r \<Rightarrow> 'r \<Rightarrow> bool) \<Rightarrow> 'r list \<Rightarrow> 'r list \<Rightarrow> exn + 'r list" where
  "migrate_rows key same legacy dest =
     (if list_ex (conflicting key same dest) legacy
      then raise MigrationConflictError ''Conflicting primary keys between legacy and simpul tables''
      else
        let missing = filter (\<lambda>o'. \<not> has_row key (key o') dest) legacy;
            dest' = dest @ missing
        in if \<not> distinct (map key missing) then raise IntegrityError ''UNIQUE constraint failed''
           else if list_all (verified_row key same dest') legacy then ok dest'
           else raise MigrationIntegrityError ''Row equivalence verification failure'')"

definition move_table ::
  "('r \<Rightarrow> string) \<Rightarrow> ('r \<Rightarrow> 'r \<Rightarrow> bool) \<Rightarrow> 'r list option \<Rightarrow> 'r list \<Rightarrow> exn + 'r list" where
  "move_table key same legacy dest =
     (case legacy of None \<Rightarrow> ok dest | Some rows \<Rightarrow> migrate_rows key same rows dest)"

text \<open>The queue: missing columns get defaults, and an existing row must be equal in every column.\<close>

definition legacy_values :: "legacy_queue \<Rightarrow> queue_row \<Rightarrow> queue_row" where
  "legacy_values l r =
     r\<lparr>qr_dedup_key := (if lq_has_dedup_key l then qr_dedup_key r else None),
       qr_priority := (if lq_has_priority l then qr_priority r else 0),
       qr_steering_json := (if lq_has_steering_json l then qr_steering_json r else ''[]'')\<rparr>"

fun insert_legacy :: "queue_row list \<Rightarrow> queue_row list \<Rightarrow> exn + queue_row list" where
  "insert_legacy [] dest = ok dest"
| "insert_legacy (v # vs) dest =
     (case row_at qr_dispatch_id (qr_dispatch_id v) dest of
        Some current \<Rightarrow>
          if current \<noteq> v
          then raise MigrationConflictError ''Conflicting primary keys between legacy orca_queue and simpul_queue''
          else insert_legacy vs dest
      | None \<Rightarrow> insert_legacy vs (dest @ [v]))"

definition move_queue :: "legacy_queue option \<Rightarrow> queue_row list \<Rightarrow> exn + queue_row list" where
  "move_queue legacy dest =
     (case legacy of
        None \<Rightarrow> ok dest
      | Some l \<Rightarrow>
          let values = map (legacy_values l) (lq_rows l) in
          (case insert_legacy values dest of
             Inl e \<Rightarrow> Inl e
           | Inr dest' \<Rightarrow>
               if list_all (verified_row qr_dispatch_id same_queue_row dest') values then ok dest'
               else raise MigrationIntegrityError ''Row equivalence verification failure''))"

section \<open>Referential integrity\<close>

definition team_known :: "team_db \<Rightarrow> string \<Rightarrow> bool" where
  "team_known db team_id \<longleftrightarrow> has_row tm_team_id team_id (td_teams db)"

definition session_known :: "team_db \<Rightarrow> string \<Rightarrow> bool" where
  "session_known db session_id \<longleftrightarrow> has_row sr_session_id session_id (td_sessions db)"

definition verify_referential_integrity :: "team_db \<Rightarrow> exn + unit" where
  "verify_referential_integrity db =
     (if list_ex (\<lambda>s. \<not> team_known db (sr_team_id s)) (td_sessions db)
      then raise MigrationIntegrityError ''sessions referencing non-existent teams''
      else if list_ex (\<lambda>q. \<not> team_known db (qr_team_id q)) (td_queue db)
      then raise MigrationIntegrityError ''queue dispatches referencing non-existent teams''
      else if list_ex (\<lambda>w. \<not> team_known db (wt_team_id w)) (td_worktrees db)
      then raise MigrationIntegrityError ''worktrees referencing non-existent teams''
      else if list_ex (\<lambda>w. \<not> session_known db (wt_worker_id w)) (td_worktrees db)
      then raise MigrationIntegrityError ''worktrees referencing non-existent worker sessions''
      else if list_ex (\<lambda>h. \<not> team_known db (hr_team_id h)) (td_handoffs db)
      then raise MigrationIntegrityError ''handoffs referencing non-existent teams''
      else if list_ex (\<lambda>m. \<not> team_known db (cm_team_id m)) (td_messages db)
      then raise MigrationIntegrityError ''channel messages referencing non-existent teams''
      else if list_ex (\<lambda>c. \<not> team_known db (cr_team_id c)) (td_checkpoints db)
      then raise MigrationIntegrityError ''checkpoints referencing non-existent teams''
      else if list_ex (\<lambda>c. \<not> session_known db (cr_worker_id c)) (td_checkpoints db)
      then raise MigrationIntegrityError ''checkpoints referencing non-existent worker sessions''
      else ok ())"

section \<open>The migration\<close>

definition move_tables :: "legacy_db \<Rightarrow> team_db \<Rightarrow> exn + team_db" where
  "move_tables l db =
     and_then (move_table tm_team_id same_team (lg_teams l) (td_teams db)) (\<lambda>teams.
     and_then (move_table sr_session_id same_session (lg_sessions l) (td_sessions db)) (\<lambda>sessions.
     and_then (move_queue (lg_queue l) (td_queue db)) (\<lambda>queue.
     and_then (move_table wt_worker_id same_worktree (lg_worktrees l) (td_worktrees db)) (\<lambda>worktrees.
     and_then (move_table hr_dispatch_id same_handoff (lg_handoffs l) (td_handoffs db)) (\<lambda>handoffs.
     and_then (move_table cm_message_id same_message (lg_messages l) (td_messages db)) (\<lambda>messages.
     and_then (move_table cr_checkpoint_id same_checkpoint (lg_checkpoints l) (td_checkpoints db)) (\<lambda>checkpoints.
     ok \<lparr>td_teams = teams, td_sessions = sessions, td_queue = queue, td_worktrees = worktrees,
         td_handoffs = handoffs, td_messages = messages, td_checkpoints = checkpoints\<rparr>)))))))"

definition migrate_schema :: "exn + unit \<Rightarrow> migration_db \<Rightarrow> (exn + unit) \<times> migration_db" where
  "migrate_schema backup m =
     (if current_version m \<ge> 2 \<and> \<not> active_legacy_tables (mg_legacy m) then (ok (), m)
      else
        let versions = (if 2 \<in> set (mg_versions m) then mg_versions m else mg_versions m @ [2]) in
        if \<not> active_legacy_tables (mg_legacy m) then (ok (), m\<lparr>mg_versions := versions\<rparr>)
        else case backup of
          Inl e \<Rightarrow> (Inl e, m)
        | Inr _ \<Rightarrow>
            (case move_tables (mg_legacy m) (mg_tables m) of
               Inl e \<Rightarrow> (Inl e, m)
             | Inr db \<Rightarrow>
                 (case verify_referential_integrity db of
                    Inl e \<Rightarrow> (Inl e, m)
                  | Inr _ \<Rightarrow>
                      (ok (), \<lparr>mg_versions = versions, mg_tables = db,
                               mg_legacy = no_legacy (lg_others (mg_legacy m))\<rparr>))))"

section \<open>Nothing is lost\<close>

text \<open>A destination keeps its rows and holds every legacy row.\<close>

definition moved :: "('r \<Rightarrow> string) \<Rightarrow> ('r \<Rightarrow> 'r \<Rightarrow> bool) \<Rightarrow> 'r list \<Rightarrow> 'r list \<Rightarrow> 'r list \<Rightarrow> bool" where
  "moved key same legacy dest dest' \<longleftrightarrow>
     (\<exists>new. dest' = dest @ new \<and> set new \<subseteq> set legacy) \<and> list_all (verified_row key same dest') legacy \<and>
     (keys_distinct key dest \<longrightarrow> keys_distinct key dest')"

lemma moved_none [simp]: "moved key same [] rows rows"
  by (simp add: moved_def)

lemma migrate_rows_moved:
  assumes "migrate_rows key same legacy dest = Inr dest'"
  shows "moved key same legacy dest dest'"
proof -
  let ?missing = "filter (\<lambda>o'. \<not> has_row key (key o') dest) legacy"
  have d: "dest' = dest @ ?missing" "distinct (map key ?missing)" "list_all (verified_row key same dest') legacy"
    using assms by (auto simp: migrate_rows_def Let_def split: if_splits)
  moreover have "set (map key dest) \<inter> set (map key ?missing) = {}" by (auto simp: has_row_iff) (metis imageI)
  then have "keys_distinct key dest \<Longrightarrow> keys_distinct key dest'"
    using d(1,2) by (simp only: keys_distinct_def map_append distinct_append)
  ultimately show ?thesis by (auto simp: moved_def)
qed

lemma move_table_moved:
  "move_table key same legacy dest = Inr dest' \<Longrightarrow>
   moved key same (case legacy of None \<Rightarrow> [] | Some rows \<Rightarrow> rows) dest dest'"
  by (cases legacy) (simp_all add: move_table_def migrate_rows_moved)

text \<open>The verification of a move cannot fail: only a conflict or a duplicate key stops it.\<close>

lemma migrate_rows_error:
  assumes "migrate_rows key same legacy dest = Inl e" "\<And>r. same r r"
  shows "fst e = MigrationConflictError \<or> fst e = IntegrityError"
proof -
  let ?missing = "filter (\<lambda>o'. \<not> has_row key (key o') dest) legacy"
  have "list_all (verified_row key same (dest @ ?missing)) legacy"
    if c: "\<not> list_ex (conflicting key same dest) legacy" and d: "distinct (map key ?missing)"
  proof -
    have "verified_row key same (dest @ ?missing) r" if r: "r \<in> set legacy" for r
    proof (cases "row_at key (key r) dest")
      case None
      then have "r \<in> set ?missing" using r by (simp add: has_row_def)
      then have "row_at key (key r) ?missing = Some r"
        using d by (simp add: row_at_Some_iff keys_distinct_def)
      then show ?thesis using None assms(2) by (simp add: verified_row_def row_at_append)
    next
      case (Some s)
      then have "same r s" using c r by (auto simp: list_ex_iff conflicting_def)
      then show ?thesis using Some by (simp add: verified_row_def row_at_append)
    qed
    then show ?thesis by (simp add: list_all_iff)
  qed
  then show ?thesis using assms(1) by (auto simp: migrate_rows_def Let_def split: if_splits)
qed

lemma insert_legacy_moved:
  assumes "insert_legacy vs dest = Inr dest'"
  shows "\<exists>new. dest' = dest @ new \<and> set new \<subseteq> set vs \<and> (keys_distinct qr_dispatch_id dest \<longrightarrow> keys_distinct qr_dispatch_id dest')"
  using assms
proof (induction vs dest rule: insert_legacy.induct)
  case (2 v vs dest)
  show ?case
  proof (cases "row_at qr_dispatch_id (qr_dispatch_id v) dest")
    case None
    then obtain new where "dest' = (dest @ [v]) @ new" "set new \<subseteq> set vs"
        "keys_distinct qr_dispatch_id (dest @ [v]) \<longrightarrow> keys_distinct qr_dispatch_id dest'"
      using 2 by auto
    then show ?thesis using None by (intro exI [of _ "v # new"]) auto
  next
    case (Some current)
    then have "current = v" using 2(3) by (auto split: if_splits)
    then obtain new where "dest' = dest @ new" "set new \<subseteq> set vs"
        "keys_distinct qr_dispatch_id dest \<longrightarrow> keys_distinct qr_dispatch_id dest'"
      using 2 Some by auto
    then show ?thesis by auto
  qed
qed simp

lemma move_queue_moved:
  assumes "move_queue legacy dest = Inr dest'"
  shows "moved qr_dispatch_id same_queue_row
    (case legacy of None \<Rightarrow> [] | Some l \<Rightarrow> map (legacy_values l) (lq_rows l)) dest dest'"
proof (cases legacy)
  case None
  then show ?thesis using assms by (auto simp: move_queue_def moved_def)
next
  case (Some l)
  then have "insert_legacy (map (legacy_values l) (lq_rows l)) dest = Inr dest'"
      "list_all (verified_row qr_dispatch_id same_queue_row dest') (map (legacy_values l) (lq_rows l))"
    using assms by (auto simp: move_queue_def Let_def split: sum.splits if_splits)
  with insert_legacy_moved [OF this(1)] Some show ?thesis by (auto simp: moved_def)
qed

definition rows_of :: "'r list option \<Rightarrow> 'r list" where
  "rows_of x = (case x of None \<Rightarrow> [] | Some rows \<Rightarrow> rows)"

definition all_moved :: "legacy_db \<Rightarrow> team_db \<Rightarrow> team_db \<Rightarrow> bool" where
  "all_moved l db db' \<longleftrightarrow>
     moved tm_team_id same_team (rows_of (lg_teams l)) (td_teams db) (td_teams db') \<and>
     moved sr_session_id same_session (rows_of (lg_sessions l)) (td_sessions db) (td_sessions db') \<and>
     moved qr_dispatch_id same_queue_row
       (case lg_queue l of None \<Rightarrow> [] | Some q \<Rightarrow> map (legacy_values q) (lq_rows q)) (td_queue db) (td_queue db') \<and>
     moved wt_worker_id same_worktree (rows_of (lg_worktrees l)) (td_worktrees db) (td_worktrees db') \<and>
     moved hr_dispatch_id same_handoff (rows_of (lg_handoffs l)) (td_handoffs db) (td_handoffs db') \<and>
     moved cm_message_id same_message (rows_of (lg_messages l)) (td_messages db) (td_messages db') \<and>
     moved cr_checkpoint_id same_checkpoint (rows_of (lg_checkpoints l)) (td_checkpoints db) (td_checkpoints db')"

lemma move_tables_moved:
  assumes "move_tables l db = Inr db'"
  shows "all_moved l db db'"
  using assms unfolding move_tables_def and_then_ok_iff all_moved_def rows_of_def
  by (elim exE conjE) (auto intro: move_table_moved move_queue_moved)

definition references_hold :: "team_db \<Rightarrow> bool" where
  "references_hold db \<longleftrightarrow>
     sr_team_id ` set (td_sessions db) \<union> qr_team_id ` set (td_queue db) \<union> wt_team_id ` set (td_worktrees db) \<union>
     hr_team_id ` set (td_handoffs db) \<union> cm_team_id ` set (td_messages db) \<union> cr_team_id ` set (td_checkpoints db)
       \<subseteq> tm_team_id ` set (td_teams db) \<and>
     wt_worker_id ` set (td_worktrees db) \<union> cr_worker_id ` set (td_checkpoints db)
       \<subseteq> sr_session_id ` set (td_sessions db)"

lemma verify_references: "verify_referential_integrity db = Inr u \<longleftrightarrow> references_hold db"
  by (auto simp: verify_referential_integrity_def references_hold_def list_ex_iff team_known_def
      session_known_def has_row_iff image_subset_iff split: if_splits)

section \<open>Properties of the migration\<close>

lemma migration_effect:
  "case migrate_schema backup m of
     (Inl e, m') \<Rightarrow> m' = m
   | (Inr _, m') \<Rightarrow> 2 \<le> current_version m' \<and> mg_legacy m' = no_legacy (lg_others (mg_legacy m)) \<and>
       all_moved (mg_legacy m) (mg_tables m) (mg_tables m') \<and>
       (if active_legacy_tables (mg_legacy m) then references_hold (mg_tables m') else mg_tables m' = mg_tables m)"
proof -
  let ?v = "if 2 \<in> set (mg_versions m) then mg_versions m else mg_versions m @ [2]"
  have v: "2 \<le> Max (set ?v)" "?v \<noteq> []" by (auto intro: Max_ge)
  show ?thesis
  proof (cases "active_legacy_tables (mg_legacy m)")
    case False
    then have l: "mg_legacy m = no_legacy []" by (simp add: active_legacy_tables_def)
    have "all_moved (mg_legacy m) (mg_tables m) (mg_tables m)"
      using l by (simp add: all_moved_def no_legacy_def rows_of_def)
    then show ?thesis using False l v
      by (auto simp: migrate_schema_def current_version_def Let_def no_legacy_def)
  next
    case True
    show ?thesis
    proof (cases backup)
      case (Inl e)
      then show ?thesis using True by (simp add: migrate_schema_def Let_def)
    next
      case b: (Inr u)
      show ?thesis
      proof (cases "move_tables (mg_legacy m) (mg_tables m)")
        case (Inl e)
        then show ?thesis using True b by (simp add: migrate_schema_def Let_def)
      next
        case db: (Inr db)
        show ?thesis
        proof (cases "verify_referential_integrity db")
          case (Inl e)
          then show ?thesis using True b db by (simp add: migrate_schema_def Let_def)
        next
          case (Inr w)
          then have "migrate_schema backup m = (Inr (), \<lparr>mg_versions = ?v, mg_tables = db,
                               mg_legacy = no_legacy (lg_others (mg_legacy m))\<rparr>)"
            using True b db by (simp add: migrate_schema_def Let_def)
          moreover have "references_hold db" using Inr verify_references by blast
          ultimately show ?thesis using move_tables_moved [OF db] v True
            by (simp add: current_version_def)
        qed
      qed
    qed
  qed
qed

text \<open>
  C22: A migration loses nothing.  It either fails and changes nothing, or succeeds: then a version of
  at least 2 is recorded and the legacy tables are gone, every row that was in the store's tables is
  still there in its place, every legacy row has a row with its primary key that equals it in every
  column (instants to a millisecond), and primary keys that were unique stay unique.  If there were
  legacy tables, the backup had succeeded, and every reference to a team or a session holds in the
  result.  If there were none, no reference is checked: the tables are as before, and nothing but the
  entry for version 2 is new.
\<close>

theorem migration_loses_nothing:
  "case migrate_schema backup m of
     (Inl e, m') \<Rightarrow> m' = m
   | (Inr _, m') \<Rightarrow> 2 \<le> current_version m' \<and> mg_legacy m' = no_legacy (lg_others (mg_legacy m)) \<and>
       all_moved (mg_legacy m) (mg_tables m) (mg_tables m') \<and>
       (if active_legacy_tables (mg_legacy m) then is_ok backup \<and> references_hold (mg_tables m')
        else mg_tables m' = mg_tables m \<and> (mg_versions m' = mg_versions m \<or> mg_versions m' = mg_versions m @ [2]))"
proof -
  have "active_legacy_tables (mg_legacy m) \<longrightarrow> (case migrate_schema backup m of (Inl e, m') \<Rightarrow> True
      | (Inr _, m') \<Rightarrow> is_ok backup)"
    by (cases backup) (simp_all add: migrate_schema_def Let_def split: prod.split sum.split)
  moreover have "\<not> active_legacy_tables (mg_legacy m) \<longrightarrow> (case migrate_schema backup m of (Inl e, m') \<Rightarrow> True
      | (Inr _, m') \<Rightarrow> mg_versions m' = mg_versions m \<or> mg_versions m' = mg_versions m @ [2])"
    by (simp add: migrate_schema_def Let_def)
  ultimately show ?thesis using migration_effect [where backup = backup and m = m]
    by (auto split: prod.splits sum.splits)
qed

text \<open>
  A migration runs once.  After a successful migration of a database without unknown
  \<open>orca_\<close> tables, a second run succeeds, whatever its backup would do, and changes nothing.
\<close>

theorem migration_is_idempotent:
  assumes "migrate_schema backup m = (Inr (), m')" "lg_others (mg_legacy m) = []"
  shows "migrate_schema backup' m' = (Inr (), m')"
proof -
  have "2 \<le> current_version m'" "mg_legacy m' = no_legacy []"
    using migration_effect [where backup = backup and m = m] assms by simp_all
  then show ?thesis by (simp add: migrate_schema_def active_legacy_tables_def)
qed

definition demo_migration :: migration_db where
  "demo_migration = \<lparr>mg_versions = [], mg_tables = empty_team_db,
     mg_legacy = (no_legacy [])\<lparr>lg_teams := Some [\<lparr>tm_team_id = ''t'', tm_lead_session_id = ''l'',
       tm_title = ''T'', tm_created_at = 1\<rparr>]\<rparr>\<rparr>"

theorem migration_is_idempotent_witness:
  "\<exists>m'. migrate_schema (Inr ()) demo_migration = (Inr (), m') \<and> td_teams (mg_tables m') \<noteq> [] \<and>
     migrate_schema (Inl (RuntimeError, [])) m' = (Inr (), m')"
proof -
  obtain m' where m': "migrate_schema (Inr ()) demo_migration = (Inr (), m')" "td_teams (mg_tables m') \<noteq> []"
    by (simp add: demo_migration_def migrate_schema_def active_legacy_tables_def no_legacy_def Let_def
        move_tables_def and_then_def move_table_def move_queue_def migrate_rows_def conflicting_def
        verified_row_def has_row_def empty_team_db_def same_team_def same_instant_def
        verify_referential_integrity_def)
  moreover have "lg_others (mg_legacy demo_migration) = []"
    by (simp add: demo_migration_def no_legacy_def)
  ultimately show ?thesis using migration_is_idempotent by blast
qed

end
