(* ===== verification/TeamFacts.thy ===== *)
theory TeamFacts
  imports TeamStore
begin

text \<open>
  What \<open>TeamStore\<close> guarantees.  Its mutating methods are the events of a machine on the database; the
  results are the primary keys of all tables, the life of a queue item, deduplication, the one
  finalization of a dispatch, the ownership of teams, and what is read back after a write.
\<close>

section \<open>Runs\<close>

datatype store_op =
    SaveTeam agent_team
  | SaveSession agent_session
  | CreateTeam real string string string
  | RegisterWorker real string worker_config "string option" "string option"
  | RegisterBatch real string string "worker_config list" int
  | SaveQueueItem queue_item
  | InsertOnce queue_item
  | Steer real real string string "json option" "int option"
  | Cancel real real string string string
  | Resume real string
  | SaveMessage channel_message
  | SaveWorktree worktree_assignment
  | DeleteWorktree string
  | SaveHandoff string handoff_evidence
  | Finalize team_db real string handoff_evidence "queue_status option"
  | SaveCheckpoint worker_checkpoint

fun store_step :: "(real \<Rightarrow> string) \<Rightarrow> team_db \<Rightarrow> store_op \<Rightarrow> team_db" where
  "store_step num db (SaveTeam t) = save_team t db"
| "store_step num db (SaveSession s) = save_session s db"
| "store_step num db (CreateTeam now t l title) = snd (create_team_with_lead_once now t l title db)"
| "store_step num db (RegisterWorker now t c wp bn) = snd (register_single_worker_once now t c wp bn db)"
| "store_step num db (RegisterBatch now t l cs n) = snd (register_worker_batch_once now t l cs n db)"
| "store_step num db (SaveQueueItem q) = save_queue_item q db"
| "store_step num db (InsertOnce q) = snd (insert_queue_item_once q db)"
| "store_step num db (Steer now now2 l i g p) = snd (steer_queue_item_once num now now2 l i g p db)"
| "store_step num db (Cancel now now2 i l r) = snd (cancel_active_queue_item num now now2 i l r db)"
| "store_step num db (Resume now i) = snd (mark_task_resuming now i db)"
| "store_step num db (SaveMessage m) = save_channel_message m db"
| "store_step num db (SaveWorktree w) = save_worktree w db"
| "store_step num db (DeleteWorktree w) = delete_worktree w db"
| "store_step num db (SaveHandoff t h) = save_handoff t h db"
| "store_step num db (Finalize seen now t h s) = snd (finalize_handoff_transaction seen now t h s db)"
| "store_step num db (SaveCheckpoint c) = save_checkpoint c db"

section \<open>What each guarded method does\<close>

text \<open>A status change of one row, as the three guarded updates of the queue make it.\<close>

lemma create_team_cases:
  obtains (refused) e where "create_team_with_lead_once now t l title db = (Inl e, db)"
  | (existing) team where "load_team t db = Some team" "tm_lead_session_id team = l" "tm_title team = title"
      "is_lead_of l t db" "create_team_with_lead_once now t l title db = (Inr team, db)"
  | (created) lead where "load_team t db = None" "\<not> has_row sr_session_id l (td_sessions db)"
      "sr_session_id lead = l" "sr_role lead = AR_LEAD" "sr_team_id lead = t"
      "create_team_with_lead_once now t l title db =
         (Inr \<lparr>tm_team_id = t, tm_lead_session_id = l, tm_title = title, tm_created_at = now\<rparr>,
          db\<lparr>td_teams := td_teams db @ [\<lparr>tm_team_id = t, tm_lead_session_id = l, tm_title = title,
                tm_created_at = now\<rparr>], td_sessions := td_sessions db @ [lead]\<rparr>)"
proof (cases "blank t \<or> length t > 128 \<or> blank l \<or> length l > 128 \<or> length title > 256")
  case True
  then have "\<exists>e. create_team_with_lead_once now t l title db = (Inl e, db)"
    by (simp only: create_team_with_lead_once_def if_True) blast
  then show ?thesis using refused by blast
next
  case ok: False
  show ?thesis
  proof (cases "load_team t db")
    case None
    show ?thesis
    proof (cases "has_row sr_session_id l (td_sessions db)")
      case True
      then have "\<exists>e. create_team_with_lead_once now t l title db = (Inl e, db)"
        using ok None by (simp add: create_team_with_lead_once_def)
      then show ?thesis using refused by blast
    next
      case False
      show ?thesis
        by (rule created [OF None False, of "session_row_of \<lparr>se_session_id = l, se_role = AR_LEAD, se_team_id = t,
                        se_status = WS_IDLE, se_config = (default_config l t)\<lparr>wc_role := ''lead''\<rparr>,
                        se_created_at = now, se_updated_at = now\<rparr>"])
          (use ok None False in \<open>simp_all add: session_row_of_def create_team_with_lead_once_def Let_def\<close>)
    qed
  next
    case (Some team)
    show ?thesis
    proof (cases "tm_lead_session_id team = l \<and> tm_title team = title \<and> is_lead_of l t db")
      case True
      have "tm_team_id team = t" using Some by (auto simp: load_team_def dest: row_at_SomeD)
      then have "create_team_with_lead_once now t l title db = (Inr team, db)"
        using ok Some True by (cases team) (simp add: create_team_with_lead_once_def)
      then show ?thesis using existing Some True by blast
    next
      case False
      then have "\<exists>e. create_team_with_lead_once now t l title db = (Inl e, db)"
        using ok Some by (simp add: create_team_with_lead_once_def)
      then show ?thesis using refused by blast
    qed
  qed
qed

lemma register_single_cases:
  obtains (refused) e where "register_single_worker_once now t c wp bn db = (Inl e, db)"
  | (registered) ws where "load_team t db \<noteq> None" "\<not> has_row sr_session_id (wc_worker_id c) (td_sessions db)"
      "ws = [] \<or> (\<exists>w. ws = [w] \<and> wt_worker_id w = wc_worker_id c \<and>
         \<not> has_row wt_worker_id (wc_worker_id c) (td_worktrees db))"
      "register_single_worker_once now t c wp bn db =
         (Inr (new_worker now t c), db\<lparr>td_sessions := td_sessions db @ [session_row_of (new_worker now t c)],
            td_worktrees := td_worktrees db @ ws\<rparr>)"
proof (cases "check_registration t c wp bn")
  case (Inl e)
  then have "register_single_worker_once now t c wp bn db = (Inl e, db)"
    by (simp add: register_single_worker_once_def)
  then show ?thesis using refused by blast
next
  case ok: (Inr u)
  show ?thesis
  proof (cases "load_team t db")
    case None
    then have "\<exists>e. register_single_worker_once now t c wp bn db = (Inl e, db)"
      using ok by (simp add: register_single_worker_once_def)
    then show ?thesis using refused by blast
  next
    case (Some team)
    show ?thesis
    proof (cases "tm_lead_session_id team = wc_worker_id c \<or>
        has_row sr_session_id (wc_worker_id c) (td_sessions db) \<or>
        (wp \<noteq> None \<and> has_row wt_worker_id (wc_worker_id c) (td_worktrees db))")
      case True
      then have "\<exists>e. register_single_worker_once now t c wp bn db = (Inl e, db)"
        using ok Some unfolding register_single_worker_once_def Let_def by (cases wp) auto
      then show ?thesis using refused by blast
    next
      case free: False
      show ?thesis
      proof (cases wp)
        case None
        show ?thesis by (rule registered [of "[]"])
          (use ok Some free None in \<open>simp_all add: register_single_worker_once_def Let_def\<close>)
      next
        case (Some path)
        show ?thesis by (rule registered [of "[new_worktree now t (wc_worker_id c) path bn]"])
          (use ok \<open>load_team t db = Some team\<close> free Some in
            \<open>simp_all add: register_single_worker_once_def Let_def new_worktree_def\<close>)
      qed
    qed
  qed
qed

lemma register_batch_cases:
  obtains (refused) e where "register_worker_batch_once now t l cs n db = (Inl e, db)"
  | (registered) "check_batch_args t l cs n = Inr ()" "map_option tm_lead_session_id (load_team t db) = Some l"
      "is_lead_of l t db" "int (active_workers t db) + int (length cs) \<le> n"
      "\<forall>c \<in> set cs. \<not> has_row sr_session_id (wc_worker_id c) (td_sessions db)"
      "register_worker_batch_once now t l cs n db = (Inr (map (new_worker now t) cs),
         db\<lparr>td_sessions := td_sessions db @ map (session_row_of \<circ> new_worker now t) cs\<rparr>)"
proof (cases "is_ok (check_batch_args t l cs n) \<and> map_option tm_lead_session_id (load_team t db) = Some l \<and>
    is_lead_of l t db \<and> int (active_workers t db) + int (length cs) \<le> n \<and>
    \<not> list_ex (\<lambda>c. has_row sr_session_id (wc_worker_id c) (td_sessions db)) cs")
  case True
  then have args: "check_batch_args t l cs n = Inr ()" by (auto simp: is_ok_iff)
  have "register_worker_batch_once now t l cs n db = (Inr (map (new_worker now t) cs),
         db\<lparr>td_sessions := td_sessions db @ map (session_row_of \<circ> new_worker now t) cs\<rparr>)"
    using True args unfolding register_worker_batch_once_def Let_def by simp
  then show ?thesis using registered args True by (auto simp: list_ex_iff)
next
  case False
  have "\<exists>e. register_worker_batch_once now t l cs n db = (Inl e, db)"
  proof (cases "check_batch_args t l cs n")
    case (Inr u)
    show ?thesis
    proof (cases "map_option tm_lead_session_id (load_team t db) = Some l \<and> is_lead_of l t db \<and>
        int (active_workers t db) + int (length cs) \<le> n")
      case True
      then show ?thesis using Inr False by (simp add: register_worker_batch_once_def)
    next
      case bad: False
      then show ?thesis using Inr
        by (cases "map_option tm_lead_session_id (load_team t db) = Some l"; cases "is_lead_of l t db")
          (simp_all add: register_worker_batch_once_def)
    qed
  qed (simp add: register_worker_batch_once_def)
  then show ?thesis using refused by blast
qed

lemma first_by_SomeD: "first_by k rows = Some r \<Longrightarrow> r \<in> set rows"
  by (metis first_by_def list.set_intros(1) list.case_eq_if list.exhaust_sel option.distinct(1)
      option.inject set_sort)

lemma first_by_None_iff: "first_by k rows = None \<longleftrightarrow> rows = []"
  by (metis (no_types, lifting) first_by_def length_0_conv length_sort list.case_eq_if option.distinct(1))

lemma insert_once_cases:
  obtains (found) r k where "qi_dedup_key q = Some k" "k \<noteq> []" "r \<in> set (td_queue db)"
      "same_work (qi_team_id q) k r" "insert_queue_item_once q db = (row_to_queue_item r, db)"
  | (clash) e where "insert_queue_item_once q db = (Inl e, db)"
  | (inserted) "\<not> has_row qr_dispatch_id (qi_dispatch_id q) (td_queue db)"
      "\<And>k. qi_dedup_key q = Some k \<Longrightarrow> k \<noteq> [] \<Longrightarrow> \<forall>r \<in> set (td_queue db). \<not> same_work (qi_team_id q) k r"
      "insert_queue_item_once q db = (Inr q, db\<lparr>td_queue := td_queue db @ [queue_row_of q]\<rparr>)"
proof -
  define old where "old = (case qi_dedup_key q of
              None \<Rightarrow> None
            | Some key \<Rightarrow> if key = [] then None else dedup_row (qi_team_id q) key db)"
  show ?thesis
  proof (cases old)
    case (Some r)
    then obtain k where k: "qi_dedup_key q = Some k" "k \<noteq> []" "dedup_row (qi_team_id q) k db = Some r"
      by (auto simp: old_def split: option.splits if_splits)
    then have "r \<in> set (td_queue db)" "same_work (qi_team_id q) k r"
      by (auto simp: dedup_row_def dest: first_by_SomeD)
    moreover have "insert_queue_item_once q db = (row_to_queue_item r, db)"
      using Some unfolding insert_queue_item_once_def old_def by simp
    ultimately show ?thesis using found k by blast
  next
    case None
    then have step: "insert_queue_item_once q db =
        (if has_row qr_dispatch_id (qi_dispatch_id q) (td_queue db)
          then (raise IntegrityError ''UNIQUE constraint failed'', db)
          else (ok q, db\<lparr>td_queue := td_queue db @ [queue_row_of q]\<rparr>))"
      unfolding insert_queue_item_once_def old_def by simp
    show ?thesis
    proof (cases "has_row qr_dispatch_id (qi_dispatch_id q) (td_queue db)")
      case True
      then show ?thesis using step clash by simp
    next
      case False
      have "\<forall>r \<in> set (td_queue db). \<not> same_work (qi_team_id q) k r"
        if "qi_dedup_key q = Some k" "k \<noteq> []" for k
        using None that by (simp add: old_def dedup_row_def first_by_None_iff filter_empty_conv)
      then show ?thesis using inserted step False by simp
    qed
  qed
qed

lemma steer_cases:
  obtains (refused) e where "steer_queue_item_once num now now2 l i g p db = (Inl e, db)"
  | (steered) row item entries where "queue_at i db = Some row" "row_to_queue_item row = Inr item"
      "check_steering g p = Inr ()" "check_lead l item db = Inr ()" "steerable (qr_status row)"
      "p = None \<or> qr_status row = QT_PENDING"
      "steer_queue_item_once num now now2 l i g p db =
        (Inr (item\<lparr>qi_steering := qi_steering item @ entries,
           qi_priority := (case p of None \<Rightarrow> qi_priority item | Some n \<Rightarrow> n), qi_updated_at := now2\<rparr>),
         db\<lparr>td_queue := update_where (\<lambda>r. qr_dispatch_id r = i \<and> qr_status r = qr_status row)
           (\<lambda>r. r\<lparr>qr_steering_json := text_json (JList (qi_steering item @ entries)),
              qr_priority := (case p of None \<Rightarrow> qi_priority item | Some n \<Rightarrow> n), qr_updated_at := now2\<rparr>)
           (td_queue db)\<rparr>)"
proof (cases "steer_queue_item_once num now now2 l i g p db")
  case (Pair r db')
  have "((\<exists>e. r = Inl e) \<and> db' = db) \<or> (\<exists>row item entries. queue_at i db = Some row \<and>
      row_to_queue_item row = Inr item \<and> check_steering g p = Inr () \<and> check_lead l item db = Inr () \<and>
      steerable (qi_status item) \<and> (p = None \<or> qi_status item = QT_PENDING) \<and>
      r = Inr (item\<lparr>qi_steering := qi_steering item @ entries,
           qi_priority := (case p of None \<Rightarrow> qi_priority item | Some n \<Rightarrow> n), qi_updated_at := now2\<rparr>) \<and>
      db' = db\<lparr>td_queue := update_where (\<lambda>r. qr_dispatch_id r = i \<and> qr_status r = qr_status row)
           (\<lambda>r. r\<lparr>qr_steering_json := text_json (JList (qi_steering item @ entries)),
              qr_priority := (case p of None \<Rightarrow> qi_priority item | Some n \<Rightarrow> n), qr_updated_at := now2\<rparr>)
           (td_queue db)\<rparr>)"
  proof (cases "check_steering g p")
    case (Inl e)
    then have "r = Inl e \<and> db' = db" using Pair by (simp add: steer_queue_item_once_def)
    then show ?thesis by blast
  next
    case c: (Inr u)
    show ?thesis
    proof (cases "queue_at i db")
      case None
      then show ?thesis using Pair c by (auto simp: steer_queue_item_once_def)
    next
      case row: (Some row)
      show ?thesis
      proof (cases "row_to_queue_item row")
        case (Inl e)
        then have "r = Inl e \<and> db' = db" using Pair c row by (simp add: steer_queue_item_once_def)
        then show ?thesis by blast
      next
        case item: (Inr item)
        show ?thesis
        proof (cases "check_lead l item db")
          case (Inl e)
          then have "r = Inl e \<and> db' = db" using Pair c row item by (simp add: steer_queue_item_once_def)
          then show ?thesis by blast
        next
          case lead: (Inr v)
          show ?thesis
          proof (cases "steerable (qi_status item) \<and> (p = None \<or> qi_status item = QT_PENDING)")
            case True
            then have "r = Inr (item\<lparr>qi_steering := qi_steering item @ (case g of None \<Rightarrow> []
                   | Some g \<Rightarrow> [steering_entry num now l g]),
                 qi_priority := (case p of None \<Rightarrow> qi_priority item | Some n \<Rightarrow> n), qi_updated_at := now2\<rparr>)"
              "db' = db\<lparr>td_queue := update_where (\<lambda>r. qr_dispatch_id r = i \<and> qr_status r = qr_status row)
                 (\<lambda>r. r\<lparr>qr_steering_json := text_json (JList (qi_steering item @ (case g of None \<Rightarrow> []
                   | Some g \<Rightarrow> [steering_entry num now l g]))),
                   qr_priority := (case p of None \<Rightarrow> qi_priority item | Some n \<Rightarrow> n), qr_updated_at := now2\<rparr>)
                 (td_queue db)\<rparr>"
              using Pair c row item lead unfolding steer_queue_item_once_def Let_def by auto
            then show ?thesis using c row item lead True by auto
          next
            case False
            then show ?thesis using Pair c row item lead
              unfolding steer_queue_item_once_def Let_def by (cases "steerable (qi_status item)") auto
          qed
        qed
      qed
    qed
  qed
  then show ?thesis
  proof (rule disjE)
    assume "(\<exists>e. r = Inl e) \<and> db' = db"
    then show ?thesis using Pair refused by blast
  next
    assume "\<exists>row item entries. queue_at i db = Some row \<and>
      row_to_queue_item row = Inr item \<and> check_steering g p = Inr () \<and> check_lead l item db = Inr () \<and>
      steerable (qi_status item) \<and> (p = None \<or> qi_status item = QT_PENDING) \<and>
      r = Inr (item\<lparr>qi_steering := qi_steering item @ entries,
           qi_priority := (case p of None \<Rightarrow> qi_priority item | Some n \<Rightarrow> n), qi_updated_at := now2\<rparr>) \<and>
      db' = db\<lparr>td_queue := update_where (\<lambda>r. qr_dispatch_id r = i \<and> qr_status r = qr_status row)
           (\<lambda>r. r\<lparr>qr_steering_json := text_json (JList (qi_steering item @ entries)),
              qr_priority := (case p of None \<Rightarrow> qi_priority item | Some n \<Rightarrow> n), qr_updated_at := now2\<rparr>)
           (td_queue db)\<rparr>"
    then obtain row item entries where a: "queue_at i db = Some row" "row_to_queue_item row = Inr item" "check_steering g p = Inr ()"
      "check_lead l item db = Inr ()" "steerable (qi_status item)" "p = None \<or> qi_status item = QT_PENDING"
      and rdb: "r = Inr (item\<lparr>qi_steering := qi_steering item @ entries,
           qi_priority := (case p of None \<Rightarrow> qi_priority item | Some n \<Rightarrow> n), qi_updated_at := now2\<rparr>)"
      "db' = db\<lparr>td_queue := update_where (\<lambda>r. qr_dispatch_id r = i \<and> qr_status r = qr_status row)
           (\<lambda>r. r\<lparr>qr_steering_json := text_json (JList (qi_steering item @ entries)),
              qr_priority := (case p of None \<Rightarrow> qi_priority item | Some n \<Rightarrow> n), qr_updated_at := now2\<rparr>)
           (td_queue db)\<rparr>" by blast
    have st: "qi_status item = qr_status row"
      using a(2) by (auto simp: row_to_queue_item_def split: option.splits)
    show ?thesis by (rule steered [OF a(1-4), of entries]) (use a(5,6) st Pair rdb in simp_all)
  qed
qed

lemma cancel_cases:
  obtains (refused) e where "cancel_active_queue_item num now now2 i l reason db = (Inl e, db)"
  | (cancelled) row item item' where "queue_at i db = Some row" "row_to_queue_item row = Inr item"
      "steerable (qr_status row)" "qi_status item' = QT_CANCELLED" "qi_dispatch_id item' = qi_dispatch_id item"
      "cancel_active_queue_item num now now2 i l reason db =
        (Inr item', db\<lparr>td_queue := update_where (\<lambda>r. qr_dispatch_id r = i \<and> steerable (qr_status r))
           (\<lambda>r. r\<lparr>qr_status := QT_CANCELLED, qr_steering_json := text_json (JList (qi_steering item')),
                  qr_updated_at := now2\<rparr>) (td_queue db)\<rparr>)"
proof (cases "queue_at i db")
  case None
  then show ?thesis using refused by (simp add: cancel_active_queue_item_def)
next
  case row: (Some row)
  show ?thesis
  proof (cases "row_to_queue_item row")
    case (Inl e)
    then show ?thesis using refused row by (simp add: cancel_active_queue_item_def)
  next
    case item: (Inr item)
    have same: "qi_status item = qr_status row"
      using item by (auto simp: row_to_queue_item_def split: option.splits)
    show ?thesis
    proof (cases "steerable (qr_status row)")
      case True
      show ?thesis
        by (rule cancelled [OF row item True, of "item\<lparr>qi_steering := qi_steering item @
              (if reason = [] then [] else [cancellation_entry num now reason l]),
              qi_status := QT_CANCELLED, qi_updated_at := now2\<rparr>"])
          (use True row item same in \<open>simp_all add: cancel_active_queue_item_def Let_def\<close>)
    next
      case False
      then show ?thesis using refused row item same by (simp add: cancel_active_queue_item_def)
    qed
  qed
qed

lemma resume_cases:
  obtains (refused) e where "mark_task_resuming now i db = (Inl e, db)"
  | (claimed) row r where "queue_at i db = Some row"
      "qr_status row \<notin> {QT_RUNNING, QT_COMPLETED, QT_CANCELLED}"
      "mark_task_resuming now i db = (r, db\<lparr>td_queue := update_where
         (\<lambda>r. qr_dispatch_id r = i \<and> qr_status r = qr_status row)
         (\<lambda>r. r\<lparr>qr_status := QT_RUNNING, qr_updated_at := now\<rparr>) (td_queue db)\<rparr>)"
proof (cases "queue_at i db")
  case None
  then show ?thesis using refused by (simp add: mark_task_resuming_def)
next
  case (Some row)
  show ?thesis
  proof (cases "qr_status row \<in> {QT_RUNNING, QT_COMPLETED, QT_CANCELLED}")
    case True
    then show ?thesis using refused Some by (auto simp: mark_task_resuming_def)
  next
    case False
    then have "\<exists>r. mark_task_resuming now i db = (r, db\<lparr>td_queue := update_where
         (\<lambda>r. qr_dispatch_id r = i \<and> qr_status r = qr_status row)
         (\<lambda>r. r\<lparr>qr_status := QT_RUNNING, qr_updated_at := now\<rparr>) (td_queue db)\<rparr>)"
      using Some by (cases "row_to_queue_item row") (simp_all add: mark_task_resuming_def Let_def)
    then show ?thesis using claimed Some False by blast
  qed
qed

lemma finalize_read_ok:
  "finalize_read h seen = Inr w \<longleftrightarrow> (\<exists>row. queue_at (ho_dispatch_id h) seen = Some row \<and>
     qr_status row \<notin> {QT_COMPLETED, QT_CANCELLED} \<and> w = qr_to_session_id row \<and>
     \<not> has_row hr_dispatch_id (ho_dispatch_id h) (td_handoffs seen))"
  by (auto simp: finalize_read_def split: option.splits)

lemma finalize_cases:
  obtains (refused) e where "finalize_handoff_transaction seen now t h ns db = (Inl e, db)"
  | (finalized) row where "queue_at (ho_dispatch_id h) seen = Some row"
      "qr_status row \<notin> {QT_COMPLETED, QT_CANCELLED}"
      "\<not> has_row hr_dispatch_id (ho_dispatch_id h) (td_handoffs db)"
      "finalize_handoff_transaction seen now t h ns db = (Inr (), db\<lparr>
          td_handoffs := td_handoffs db @ [handoff_row_of t h],
          td_queue := update_where (\<lambda>r. ns \<noteq> None \<and> qr_dispatch_id r = ho_dispatch_id h)
            (\<lambda>r. r\<lparr>qr_status := the ns, qr_updated_at := now\<rparr>) (td_queue db),
          td_sessions := update_where (\<lambda>r. sr_session_id r = qr_to_session_id row)
            (\<lambda>r. r\<lparr>sr_status := WS_IDLE, sr_updated_at := now\<rparr>) (td_sessions db)\<rparr>)"
proof (cases "finalize_read h seen")
  case (Inl e)
  then show ?thesis using refused by (simp add: finalize_handoff_transaction_def)
next
  case (Inr w)
  then obtain row where row: "queue_at (ho_dispatch_id h) seen = Some row"
      "qr_status row \<notin> {QT_COMPLETED, QT_CANCELLED}" "w = qr_to_session_id row"
    by (auto simp: finalize_read_ok)
  show ?thesis
  proof (cases "has_row hr_dispatch_id (ho_dispatch_id h) (td_handoffs db)")
    case True
    then have "\<exists>e. finalize_handoff_transaction seen now t h ns db = (Inl e, db)"
      using Inr by (auto simp: finalize_handoff_transaction_def finalize_write_def)
    then show ?thesis using refused by blast
  next
    case False
    have "update_where (\<lambda>r. False) f rows = rows" for f :: "queue_row \<Rightarrow> queue_row" and rows
      by (simp add: update_where_def)
    then show ?thesis using finalized [OF row(1)] False row Inr
      by (cases ns) (simp_all add: finalize_handoff_transaction_def finalize_write_def)
  qed
qed

section \<open>Keys\<close>

definition tables_ok :: "team_db \<Rightarrow> bool" where
  "tables_ok db \<longleftrightarrow> keys_distinct tm_team_id (td_teams db) \<and> keys_distinct sr_session_id (td_sessions db) \<and>
     keys_distinct qr_dispatch_id (td_queue db) \<and> keys_distinct wt_worker_id (td_worktrees db) \<and>
     keys_distinct hr_dispatch_id (td_handoffs db) \<and> keys_distinct cm_message_id (td_messages db) \<and>
     keys_distinct cr_checkpoint_id (td_checkpoints db)"

lemma tables_ok_empty: "tables_ok empty_team_db"
  by (simp add: tables_ok_def empty_team_db_def)

lemma check_batch_distinct: "check_batch_args t l cs n = Inr u \<Longrightarrow> distinct (map wc_worker_id cs)"
  by (auto simp: check_batch_args_def split: if_splits sum.splits)

lemma new_worker_id [simp]: "sr_session_id (session_row_of (new_worker now t c)) = wc_worker_id c"
  by (simp add: session_row_of_def new_worker_def)

lemma keys_distinct_new_workers:
  assumes "keys_distinct sr_session_id rows" "distinct (map wc_worker_id cs)"
    "\<forall>c \<in> set cs. \<not> has_row sr_session_id (wc_worker_id c) rows"
  shows "keys_distinct sr_session_id (rows @ map (session_row_of \<circ> new_worker now t) cs)"
proof -
  have "x \<notin> sr_session_id ` set rows" if x: "x \<in> wc_worker_id ` set cs" for x
  proof -
    from x obtain c where "c \<in> set cs" "x = wc_worker_id c" by (rule imageE) simp
    then show ?thesis using assms(3) unfolding has_row_iff by simp
  qed
  then have "sr_session_id ` set rows \<inter> wc_worker_id ` set cs = {}" by blast
  moreover have "map sr_session_id (map (session_row_of \<circ> new_worker now t) cs) = map wc_worker_id cs" by simp
  ultimately show ?thesis using assms(1,2) unfolding keys_distinct_def map_append
    by (simp only: distinct_append set_map)
qed

lemma has_row_None: "\<not> has_row key k rows \<longleftrightarrow> row_at key k rows = None"
  by (simp add: has_row_def)

lemma tables_ok_step:
  assumes "tables_ok db"
  shows "tables_ok (store_step num db e)"
proof (cases e)
  case (CreateTeam now t l title)
  then show ?thesis using assms
    by (cases rule: create_team_cases [of now t l title db])
      (auto simp: tables_ok_def load_team_def has_row_None intro!: keys_distinct_snoc)
next
  case (RegisterWorker now t c wp bn)
  then show ?thesis using assms
    by (cases rule: register_single_cases [of now t c wp bn db])
      (auto simp: tables_ok_def has_row_None intro!: keys_distinct_snoc)
next
  case (RegisterBatch now t l cs n)
  show ?thesis
  proof (cases rule: register_batch_cases [of now t l cs n db])
    case registered
    then show ?thesis
      using assms RegisterBatch keys_distinct_new_workers [OF _ check_batch_distinct [OF registered(1)] registered(5)]
      by (simp add: tables_ok_def)
  qed (use assms RegisterBatch in simp)
next
  case (InsertOnce q)
  then show ?thesis using assms
    by (cases rule: insert_once_cases [of q db])
      (auto simp: tables_ok_def has_row_None queue_row_of_def intro!: keys_distinct_snoc)
next
  case (Steer now now2 l i g p)
  then show ?thesis using assms
    by (cases rule: steer_cases [of num now now2 l i g p db]) (auto simp: tables_ok_def)
next
  case (Cancel now now2 i l r)
  then show ?thesis using assms
    by (cases rule: cancel_cases [of num now now2 i l r db]) (auto simp: tables_ok_def)
next
  case (Resume now i)
  then show ?thesis using assms
    by (cases rule: resume_cases [of now i db]) (auto simp: tables_ok_def)
next
  case (Finalize seen now t h s)
  then show ?thesis using assms
    by (cases rule: finalize_cases [of seen now t h s db])
      (auto simp: tables_ok_def has_row_None handoff_row_of_def intro!: keys_distinct_snoc)
next
  case (SaveTeam t)
  then show ?thesis using assms
    by (simp add: tables_ok_def save_team_def team_table.distinct_upsert)
next
  case (SaveSession s)
  then show ?thesis using assms
    by (simp add: tables_ok_def save_session_def session_table.distinct_upsert)
next
  case (SaveQueueItem q)
  then show ?thesis using assms
    by (simp add: tables_ok_def save_queue_item_def queue_table.distinct_upsert)
next
  case (SaveMessage m)
  then show ?thesis using assms
    by (simp add: tables_ok_def save_channel_message_def message_table.distinct_upsert)
next
  case (SaveWorktree w)
  then show ?thesis using assms
    by (simp add: tables_ok_def save_worktree_def worktree_table.distinct_upsert)
next
  case (SaveHandoff t h)
  then show ?thesis using assms
    by (simp add: tables_ok_def save_handoff_def handoff_table.distinct_upsert)
next
  case (SaveCheckpoint c)
  then show ?thesis using assms
    by (simp add: tables_ok_def save_checkpoint_def checkpoint_table.distinct_upsert)
next
  case (DeleteWorktree w)
  then show ?thesis using assms by (auto simp: tables_ok_def delete_worktree_def)
qed

interpretation team_tables: invariant_machine "store_step num" tables_ok for num
  by unfold_locales (rule tables_ok_step)

section \<open>The life of a queue item\<close>

definition row_identity ::
  "queue_row \<Rightarrow> string \<times> string \<times> string \<times> string \<times> string \<times> string \<times> string option \<times> real" where
  "row_identity r = (qr_dispatch_id r, qr_team_id r, qr_from_session_id r, qr_to_session_id r,
     qr_task_id r, qr_payload_json r, qr_dedup_key r, qr_created_at r)"

definition terminal :: "queue_status \<Rightarrow> bool" where
  "terminal s \<longleftrightarrow> s = QT_COMPLETED \<or> s = QT_CANCELLED"

definition overwrites_queue :: "store_op \<Rightarrow> bool" where
  "overwrites_queue e \<longleftrightarrow> (\<exists>q. e = SaveQueueItem q)"

text \<open>Every method but the plain upsert maps the rows and may add one.\<close>

definition queue_effect ::
  "(string \<Rightarrow> bool) \<Rightarrow> (queue_row \<Rightarrow> queue_row) \<Rightarrow> queue_row list \<Rightarrow> team_db \<Rightarrow> team_db \<Rightarrow> bool" where
  "queue_effect late h new db db' \<longleftrightarrow> td_queue db' = map h (td_queue db) @ new \<and>
     (\<forall>r \<in> set (td_queue db). row_identity (h r) = row_identity r \<and>
        (terminal (qr_status r) \<longrightarrow> qr_status (h r) = qr_status r \<or> late (qr_dispatch_id r)))"

text \<open>
  A finalization is late for an item if its SELECT saw the item unfinished; \<open>handed_off\<close> are the
  dispatches with a handoff row.
\<close>

definition saw_unfinished :: "string \<Rightarrow> store_op \<Rightarrow> bool" where
  "saw_unfinished i e = (case e of
     Finalize seen now t h s \<Rightarrow> ho_dispatch_id h = i \<and>
       (case queue_at i seen of None \<Rightarrow> False | Some row \<Rightarrow> \<not> terminal (qr_status row))
   | _ \<Rightarrow> False)"

definition handed_off :: "team_db \<Rightarrow> string set" where
  "handed_off db = hr_dispatch_id ` set (td_handoffs db)"

lemma queue_effect_same: "td_queue db' = td_queue db \<Longrightarrow> queue_effect late (\<lambda>r. r) [] db db'"
  by (simp add: queue_effect_def)

lemma queue_effect_update:
  assumes "td_queue db' = update_where p f (td_queue db)"
    and "\<And>r. r \<in> set (td_queue db) \<Longrightarrow> p r \<Longrightarrow>
           row_identity (f r) = row_identity r \<and>
           (terminal (qr_status r) \<longrightarrow> qr_status (f r) = qr_status r \<or> late (qr_dispatch_id r))"
  shows "\<exists>h. queue_effect late h [] db db'"
  using assms by (intro exI [of _ "\<lambda>r. if p r then f r else r"]) (auto simp: queue_effect_def update_where_def)

lemma store_step_queue:
  assumes "\<not> overwrites_queue e" "tables_ok db"
  shows "\<exists>h new. queue_effect (\<lambda>i. saw_unfinished i e \<and> i \<notin> handed_off db) h new db (store_step num db e) \<and>
    (new = [] \<or> (\<exists>q. e = InsertOnce q \<and> new = [queue_row_of q] \<and>
       (\<forall>k. qi_dedup_key q = Some k \<and> k \<noteq> [] \<longrightarrow> \<not> (\<exists>r \<in> set (td_queue db). same_work (qi_team_id q) k r))))"
proof -
  let ?late = "\<lambda>i. saw_unfinished i e \<and> i \<notin> handed_off db"
  have unchanged: ?thesis if "td_queue (store_step num db e) = td_queue db"
    using queue_effect_same [OF that] by blast
  show ?thesis
  proof (cases e)
    case (CreateTeam now t l title)
    then show ?thesis using unchanged by (cases rule: create_team_cases [of now t l title db]) auto
  next
    case (RegisterWorker now t c wp bn)
    then show ?thesis using unchanged by (cases rule: register_single_cases [of now t c wp bn db]) auto
  next
    case (RegisterBatch now t l cs n)
    then show ?thesis using unchanged by (cases rule: register_batch_cases [of now t l cs n db]) auto
  next
    case (InsertOnce q)
    show ?thesis
    proof (cases rule: insert_once_cases [of q db])
      case inserted
      have "queue_effect ?late (\<lambda>r. r) [queue_row_of q] db (store_step num db e)"
        using InsertOnce inserted(3) by (simp add: queue_effect_def)
      then show ?thesis using InsertOnce inserted(2) by blast
    qed (use InsertOnce unchanged in auto)
  next
    case (Steer now now2 l i g p)
    show ?thesis
    proof (cases rule: steer_cases [of num now now2 l i g p db])
      case (steered row item entries)
      let ?f = "\<lambda>r. r\<lparr>qr_steering_json := text_json (JList (qi_steering item @ entries)),
              qr_priority := (case p of None \<Rightarrow> qi_priority item | Some n \<Rightarrow> n), qr_updated_at := now2\<rparr>"
      have "td_queue (store_step num db e) =
          update_where (\<lambda>r. qr_dispatch_id r = i \<and> qr_status r = qr_status row) ?f (td_queue db)"
        using Steer steered(7) by simp
      then have "\<exists>h. queue_effect ?late h [] db (store_step num db e)"
        by (rule queue_effect_update) (simp add: row_identity_def)
      then show ?thesis by blast
    qed (use Steer unchanged in simp)
  next
    case (Cancel now now2 i l r)
    show ?thesis
    proof (cases rule: cancel_cases [of num now now2 i l r db])
      case (cancelled row item item')
      have "td_queue (store_step num db e) =
          update_where (\<lambda>r. qr_dispatch_id r = i \<and> steerable (qr_status r))
            (\<lambda>r. r\<lparr>qr_status := QT_CANCELLED, qr_steering_json := text_json (JList (qi_steering item')),
                  qr_updated_at := now2\<rparr>) (td_queue db)"
        using Cancel cancelled(6) by simp
      then have "\<exists>h. queue_effect ?late h [] db (store_step num db e)"
        by (rule queue_effect_update) (auto simp: row_identity_def terminal_def steerable_def)
      then show ?thesis by blast
    qed (use Cancel unchanged in simp)
  next
    case (Resume now i)
    show ?thesis
    proof (cases rule: resume_cases [of now i db])
      case (claimed row r)
      have "td_queue (store_step num db e) =
          update_where (\<lambda>r. qr_dispatch_id r = i \<and> qr_status r = qr_status row)
            (\<lambda>r. r\<lparr>qr_status := QT_RUNNING, qr_updated_at := now\<rparr>) (td_queue db)"
        using Resume claimed(3) by simp
      then have "\<exists>h. queue_effect ?late h [] db (store_step num db e)"
        by (rule queue_effect_update) (use claimed(2) in \<open>auto simp: row_identity_def terminal_def\<close>)
      then show ?thesis by blast
    qed (use Resume unchanged in simp)
  next
    case (Finalize seen now t h s)
    show ?thesis
    proof (cases rule: finalize_cases [of seen now t h s db])
      case (finalized row)
      have q: "td_queue (store_step num db e) =
          update_where (\<lambda>r. s \<noteq> None \<and> qr_dispatch_id r = ho_dispatch_id h)
            (\<lambda>r. r\<lparr>qr_status := the s, qr_updated_at := now\<rparr>) (td_queue db)"
        using Finalize finalized(4) by simp
      have "ho_dispatch_id h \<notin> handed_off db" using finalized(3) by (auto simp: handed_off_def has_row_iff)
      moreover have "saw_unfinished (ho_dispatch_id h) e"
        using Finalize finalized(1,2) by (simp add: saw_unfinished_def terminal_def)
      ultimately have "\<exists>h. queue_effect ?late h [] db (store_step num db e)"
        by (intro queue_effect_update [OF q]) (auto simp: row_identity_def)
      then show ?thesis by blast
    qed (use Finalize unchanged in simp)
  qed (use assms(1) unchanged in \<open>simp_all add: overwrites_queue_def save_team_def save_session_def
      save_channel_message_def save_worktree_def delete_worktree_def save_handoff_def save_checkpoint_def\<close>)
qed

lemma live_of_effect:
  assumes "queue_effect late h new db db'" "r \<in> set (td_queue db)"
  shows "qr_dispatch_id (h r) = qr_dispatch_id r" "qr_team_id (h r) = qr_team_id r"
    "qr_dedup_key (h r) = qr_dedup_key r"
  using assms by (auto simp: queue_effect_def row_identity_def)

lemma queue_at_effect:
  assumes "queue_effect late h new db db'" "queue_at i db = Some r"
  shows "queue_at i db' = Some (h r)"
proof -
  have "row_at qr_dispatch_id i (map h rows @ new) = Some (h r)"
    if "\<forall>r \<in> set rows. qr_dispatch_id (h r) = qr_dispatch_id r" "row_at qr_dispatch_id i rows = Some r" for rows
    using that by (induction rows) (auto split: if_splits)
  then show ?thesis using assms live_of_effect(1) [OF assms(1)] by (simp add: queue_at_def queue_effect_def)
qed

section \<open>Properties of the store\<close>

text \<open>The dispatch an operation finalizes.\<close>

fun finalizes :: "team_db \<Rightarrow> store_op \<Rightarrow> string option" where
  "finalizes db (Finalize seen now t h s) =
     (if is_ok (fst (finalize_handoff_transaction seen now t h s db)) then Some (ho_dispatch_id h) else None)"
| "finalizes db _ = None"

lemma handed_off_step:
  "handed_off db \<subseteq> handed_off (store_step num db e) \<and>
   (finalizes db e = Some i \<longrightarrow> i \<notin> handed_off db \<and> i \<in> handed_off (store_step num db e))"
proof (cases e)
  case (CreateTeam now t l title)
  then show ?thesis
    by (cases rule: create_team_cases [of now t l title db]) (auto simp: handed_off_def)
next
  case (RegisterWorker now t c wp bn)
  then show ?thesis
    by (cases rule: register_single_cases [of now t c wp bn db]) (auto simp: handed_off_def)
next
  case (RegisterBatch now t l cs n)
  then show ?thesis
    by (cases rule: register_batch_cases [of now t l cs n db]) (auto simp: handed_off_def)
next
  case (InsertOnce q)
  then show ?thesis by (cases rule: insert_once_cases [of q db]) (auto simp: handed_off_def)
next
  case (Steer now now2 l i g p)
  then show ?thesis
    by (cases rule: steer_cases [of num now now2 l i g p db]) (auto simp: handed_off_def)
next
  case (Cancel now now2 i l r)
  then show ?thesis
    by (cases rule: cancel_cases [of num now now2 i l r db]) (auto simp: handed_off_def)
next
  case (Resume now i)
  then show ?thesis by (cases rule: resume_cases [of now i db]) (auto simp: handed_off_def)
next
  case (Finalize seen now t h s)
  then show ?thesis
    by (cases rule: finalize_cases [of seen now t h s db])
      (auto simp: handed_off_def has_row_iff handoff_row_of_def)
next
  case (SaveHandoff t h)
  have "hr_dispatch_id ` set (td_handoffs (save_handoff t h db)) =
      insert (hr_dispatch_id (handoff_row_of t h)) (hr_dispatch_id ` set (td_handoffs db))"
    by (simp add: save_handoff_def handoff_table.upsert_keys)
  then show ?thesis using SaveHandoff by (auto simp: handed_off_def)
qed (auto simp: handed_off_def save_team_def save_session_def save_queue_item_def
      save_channel_message_def save_worktree_def delete_worktree_def save_checkpoint_def)

text \<open>
  C24: What is finished stays finished, unless a finalization was already under way.  Under every
  sequence of the store's methods other than the plain upsert of a queue item, a queue item keeps its
  identity (team, sender, recipient, task, payload, deduplication key, creation time).  Once it is
  COMPLETED or CANCELLED it keeps that status, with one exception: it has no handoff yet, and the
  sequence has a finalization of this item whose SELECT had seen it unfinished.
\<close>

theorem finished_items_stay:
  assumes "tables_ok db" "\<not> list_ex overwrites_queue es" "queue_at i db = Some r"
  shows "\<exists>r'. queue_at i (foldl (store_step num) db es) = Some r' \<and> row_identity r' = row_identity r \<and>
    (qr_status r = QT_COMPLETED \<or> qr_status r = QT_CANCELLED \<longrightarrow>
       qr_status r' = qr_status r \<or> i \<notin> handed_off db \<and> list_ex (saw_unfinished i) es)"
  using assms
proof (induction es arbitrary: db r)
  case (Cons e es)
  let ?db = "store_step num db e"
  obtain h new where h: "queue_effect (\<lambda>i. saw_unfinished i e \<and> i \<notin> handed_off db) h new db ?db"
    using store_step_queue [of e db num] Cons.prems(1,2) by auto
  have r: "r \<in> set (td_queue db)" "qr_dispatch_id r = i"
    using Cons.prems(3) by (auto simp: queue_at_def dest: row_at_SomeD)
  have nxt: "queue_at i ?db = Some (h r)" using queue_at_effect [OF h Cons.prems(3)] .
  obtain r' where r': "queue_at i (foldl (store_step num) ?db es) = Some r'"
      "row_identity r' = row_identity (h r)"
      "qr_status (h r) = QT_COMPLETED \<or> qr_status (h r) = QT_CANCELLED \<longrightarrow>
         qr_status r' = qr_status (h r) \<or> i \<notin> handed_off ?db \<and> list_ex (saw_unfinished i) es"
    using Cons.IH [OF tables_ok_step [OF Cons.prems(1)] _ nxt] Cons.prems(2) by auto
  have "handed_off db \<subseteq> handed_off ?db" using handed_off_step by blast
  then show ?case using h r r' by (auto simp: queue_effect_def terminal_def)
qed simp

text \<open>
  The exception is real.  A finalization that has read the item before its cancellation completes the
  cancelled item.
\<close>

lemma finalization_overtakes_cancellation:
  assumes "queue_at i seen = Some row" "\<not> terminal (qr_status row)" "i \<notin> handed_off seen"
    and "queue_at i db = Some r" "qr_status r = QT_CANCELLED" "i \<notin> handed_off db" "ho_dispatch_id h = i"
  shows "map_option qr_status (queue_at i (store_step num db (Finalize seen now t h (Some QT_COMPLETED)))) =
    Some QT_COMPLETED"
proof -
  have "row_at qr_dispatch_id i (update_where (\<lambda>r. qr_dispatch_id r = i)
      (\<lambda>r. r\<lparr>qr_status := QT_COMPLETED, qr_updated_at := now\<rparr>) rows) =
      map_option (\<lambda>r. r\<lparr>qr_status := QT_COMPLETED, qr_updated_at := now\<rparr>) (row_at qr_dispatch_id i rows)"
    for rows :: "queue_row list" by (induction rows) (simp_all add: update_where_def)
  then show ?thesis using assms
    by (auto simp: finalize_handoff_transaction_def finalize_read_def finalize_write_def terminal_def
        queue_at_def handed_off_def has_row_iff)
qed

definition demo_item :: "string \<Rightarrow> queue_status \<Rightarrow> queue_item" where
  "demo_item i s = \<lparr>qi_dispatch_id = i, qi_team_id = ''t'', qi_from_session_id = ''lead'',
     qi_to_session_id = ''w'', qi_task_id = ''task'', qi_payload = JObj [], qi_status = s,
     qi_dedup_key = Some ''k'', qi_priority = 0, qi_steering = [], qi_created_at = 0, qi_updated_at = 0\<rparr>"

definition demo_handoff :: handoff_evidence where
  "demo_handoff = \<lparr>ho_dispatch_id = ''d'', ho_from_worker_id = ''w'', ho_to_lead_id = ''lead'',
     ho_status = ''ok'', ho_summary = [], ho_artifacts = [], ho_metrics = JObj [], ho_submitted_at = 1\<rparr>"

definition demo_team_db :: team_db where
  "demo_team_db = snd (insert_queue_item_once (demo_item ''d'' QT_COMPLETED) empty_team_db)"

lemma demo_team_db_queue: "td_queue demo_team_db = [queue_row_of (demo_item ''d'' QT_COMPLETED)]"
  by (simp add: demo_team_db_def insert_queue_item_once_def empty_team_db_def demo_item_def dedup_row_def
      first_by_def has_row_def)

theorem finished_items_stay_witness:
  "\<exists>r'. queue_at ''d'' (foldl (store_step (\<lambda>_. ''0'')) demo_team_db
      [Resume 2 ''d'', Finalize demo_team_db 3 ''t'' demo_handoff (Some QT_FAILED)]) = Some r' \<and>
    qr_status r' = QT_COMPLETED"
proof -
  have "tables_ok demo_team_db"
    unfolding demo_team_db_def using tables_ok_step [OF tables_ok_empty, of _ "InsertOnce (demo_item ''d'' QT_COMPLETED)"]
    by simp
  moreover have "queue_at ''d'' demo_team_db = Some (queue_row_of (demo_item ''d'' QT_COMPLETED))"
    by (simp add: queue_at_def demo_team_db_queue queue_row_of_def demo_item_def)
  ultimately show ?thesis
    using finished_items_stay [of demo_team_db "[Resume 2 ''d'', Finalize demo_team_db 3 ''t'' demo_handoff (Some QT_FAILED)]"
        "''d''" _ "\<lambda>_. ''0''"]
    by (auto simp: overwrites_queue_def queue_row_of_def demo_item_def saw_unfinished_def terminal_def)
qed

interpretation finalizations: single_use_authority "store_step num" "\<lambda>_. True" finalizes handed_off
  for num
  by unfold_locales (use handed_off_step in blast)+

text \<open>
  A dispatch is finalized once.  In no sequence of the store's methods does a dispatch pass
  \<open>finalize_handoff_transaction\<close> twice, nor after a handoff for it has been saved.
\<close>

theorem dispatch_finalized_once:
  "distinct (granted_in (store_step num) finalizes db es) \<and>
   set (granted_in (store_step num) finalizes db es) \<inter> handed_off db = {}"
  using finalizations.granted_once finalizations.granted_unspent by blast

text \<open>
  Deduplication.  An item is live unless it FAILED or was CANCELLED.  \<open>mark_task_resuming\<close> and
  \<open>finalize_handoff_transaction\<close> accept a FAILED item and can make it live again beside its retry:
  such an operation revives it.
\<close>

definition deduplicated :: "team_db \<Rightarrow> bool" where
  "deduplicated db \<longleftrightarrow> (\<forall>r \<in> set (td_queue db). \<forall>r' \<in> set (td_queue db). \<forall>k.
     k \<noteq> [] \<and> same_work (qr_team_id r) k r \<and> same_work (qr_team_id r) k r' \<longrightarrow> r = r')"

definition revives :: "(real \<Rightarrow> string) \<Rightarrow> team_db \<Rightarrow> store_op \<Rightarrow> bool" where
  "revives num db e \<longleftrightarrow> list_ex (\<lambda>r. \<not> live (qr_status r) \<and>
     (case queue_at (qr_dispatch_id r) (store_step num db e) of
        None \<Rightarrow> False | Some r' \<Rightarrow> live (qr_status r'))) (td_queue db)"

fun never_revives :: "(real \<Rightarrow> string) \<Rightarrow> team_db \<Rightarrow> store_op list \<Rightarrow> bool" where
  "never_revives num db [] = True"
| "never_revives num db (e # es) \<longleftrightarrow>
     \<not> overwrites_queue e \<and> \<not> revives num db e \<and> never_revives num (store_step num db e) es"

lemma deduplicated_step:
  assumes "tables_ok db" "deduplicated db" "\<not> overwrites_queue e" "\<not> revives num db e"
  shows "deduplicated (store_step num db e)"
proof -
  let ?db = "store_step num db e"
  obtain h new where h: "queue_effect (\<lambda>i. saw_unfinished i e \<and> i \<notin> handed_off db) h new db ?db"
    "new = [] \<or> (\<exists>q. e = InsertOnce q \<and> new = [queue_row_of q] \<and>
       (\<forall>k. qi_dedup_key q = Some k \<and> k \<noteq> [] \<longrightarrow> \<not> (\<exists>r \<in> set (td_queue db). same_work (qi_team_id q) k r)))"
    using store_step_queue [OF assms(3,1)] by blast
  have back_live: "same_work t k r" if "r \<in> set (td_queue db)" "same_work t k (h r)" for r t k
  proof -
    have "queue_at (qr_dispatch_id r) db = Some r"
      using that(1) assms(1) by (simp add: queue_at_def tables_ok_def row_at_Some_iff)
    then have "queue_at (qr_dispatch_id r) ?db = Some (h r)" by (rule queue_at_effect [OF h(1)])
    then have "live (qr_status r)"
      using that assms(4) by (auto simp: revives_def list_ex_iff same_work_def)
    then show ?thesis using that live_of_effect [OF h(1) that(1)] by (simp add: same_work_def)
  qed
  have fresh: "\<not> same_work t k (h r)" if f: "r \<in> set (td_queue db)" "s \<in> set new" "same_work t k s" "k \<noteq> []" for r s t k
  proof -
    obtain q where "s = queue_row_of q" "\<And>k. qi_dedup_key q = Some k \<Longrightarrow> k \<noteq> [] \<Longrightarrow>
        \<not> (\<exists>r \<in> set (td_queue db). same_work (qi_team_id q) k r)" using h(2) f(2) by auto
    then have "\<not> same_work t k r" using f by (auto simp: same_work_def queue_row_of_def)
    then show ?thesis using back_live f(1) by blast
  qed
  have one: "s = s'" if "s \<in> set new" "s' \<in> set new" for s s' using that h(2) by auto
  have queue: "set (td_queue ?db) = h ` set (td_queue db) \<union> set new"
    using h(1) by (simp add: queue_effect_def)
  show ?thesis unfolding deduplicated_def
  proof (intro ballI allI impI)
    fix s s' k
    assume s: "s \<in> set (td_queue ?db)" "s' \<in> set (td_queue ?db)"
      and w: "k \<noteq> [] \<and> same_work (qr_team_id s) k s \<and> same_work (qr_team_id s) k s'"
    consider (old) r r' where "r \<in> set (td_queue db)" "r' \<in> set (td_queue db)" "s = h r" "s' = h r'"
      | (mixed) "s \<in> set new \<longleftrightarrow> s' \<notin> set new" | (new) "s \<in> set new" "s' \<in> set new"
      using s queue by blast
    then show "s = s'"
    proof cases
      case old
      then have "same_work (qr_team_id r) k r" "same_work (qr_team_id r) k r'"
        using w back_live live_of_effect [OF h(1)] by auto
      then have "r = r'" using assms(2) old w unfolding deduplicated_def by blast
      then show ?thesis using old by simp
    next
      case mixed
      then obtain r where "r \<in> set (td_queue db)"
          "(s = h r \<and> s' \<in> set new) \<or> (s' = h r \<and> s \<in> set new)" using s queue by auto
      then show ?thesis using w fresh [of r s' "qr_team_id s" k] fresh [of r s "qr_team_id s" k] by auto
    next
      case new
      then show ?thesis using one by simp
    qed
  qed
qed

text \<open>
  C23: Work is deduplicated.  From a database where it holds, under any sequence of the store's methods
  that neither overwrites queue items nor revives failed or cancelled ones, a team has at most one live
  item per nonempty deduplication key.
\<close>

theorem work_is_deduplicated:
  assumes "tables_ok db" "deduplicated db" "never_revives num db es"
  shows "deduplicated (foldl (store_step num) db es)"
  using assms
proof (induction es arbitrary: db)
  case (Cons e es)
  then show ?case using tables_ok_step [of db num e] deduplicated_step [of db e num] by simp
qed simp

definition demo_num :: "real \<Rightarrow> string" where
  "demo_num x = ''0''"

definition demo_dedup_run :: "store_op list" where
  "demo_dedup_run = [InsertOnce (demo_item ''d'' QT_PENDING), InsertOnce (demo_item ''e'' QT_PENDING)]"

lemma demo_inserted:
  "store_step num empty_team_db (InsertOnce (demo_item i s)) =
     empty_team_db\<lparr>td_queue := [queue_row_of (demo_item i s)]\<rparr>"
  by (simp add: insert_queue_item_once_def empty_team_db_def demo_item_def dedup_row_def first_by_def has_row_def)

lemma demo_same_work: "same_work ''t'' ''k'' (queue_row_of (demo_item i s)) \<longleftrightarrow> live s"
  by (simp add: same_work_def queue_row_of_def demo_item_def)

theorem work_is_deduplicated_witness:
  "deduplicated (foldl (store_step demo_num) empty_team_db demo_dedup_run)"
proof -
  have "deduplicated empty_team_db" by (simp add: deduplicated_def empty_team_db_def)
  moreover have "never_revives demo_num empty_team_db demo_dedup_run"
    unfolding demo_dedup_run_def never_revives.simps demo_inserted
    by (simp add: overwrites_queue_def revives_def empty_team_db_def queue_row_of_def demo_item_def live_def)
  ultimately show ?thesis using work_is_deduplicated [OF tables_ok_empty] by blast
qed

text \<open>A failed attempt that is resumed after its retry was queued: two live items with one key.\<close>

lemma resume_revives_duplicate:
  "\<not> deduplicated (foldl (store_step demo_num) empty_team_db
     [InsertOnce (demo_item ''d'' QT_FAILED), InsertOnce (demo_item ''e'' QT_PENDING), Resume 5 ''d''])"
proof -
  define d where "d = queue_row_of (demo_item ''d'' QT_FAILED)"
  define e where "e = queue_row_of (demo_item ''e'' QT_PENDING)"
  have de: "qr_dispatch_id d = ''d''" "qr_status d = QT_FAILED" "qr_dispatch_id e = ''e''"
      "qr_team_id d = ''t''" "qr_dedup_key d = Some ''k''" "same_work ''t'' ''k'' e"
    by (simp_all add: d_def e_def queue_row_of_def demo_item_def same_work_def live_def)
  have "store_step demo_num (empty_team_db\<lparr>td_queue := [d]\<rparr>) (InsertOnce (demo_item ''e'' QT_PENDING)) =
      empty_team_db\<lparr>td_queue := [d, e]\<rparr>"
    using de by (simp add: insert_queue_item_once_def dedup_row_def first_by_def has_row_def demo_item_def
        same_work_def live_def e_def)
  moreover have "store_step demo_num (empty_team_db\<lparr>td_queue := [d, e]\<rparr>) (Resume 5 ''d'') =
      empty_team_db\<lparr>td_queue := [d\<lparr>qr_status := QT_RUNNING, qr_updated_at := 5\<rparr>, e]\<rparr>"
    using de by (cases "row_to_queue_item d") (simp_all add: mark_task_resuming_def queue_at_def Let_def update_where_def)
  moreover have "same_work ''t'' ''k'' (d\<lparr>qr_status := QT_RUNNING, qr_updated_at := 5\<rparr>)"
    using de by (simp add: same_work_def live_def)
  moreover have "d\<lparr>qr_status := QT_RUNNING, qr_updated_at := 5\<rparr> \<noteq> e"
  proof
    assume "d\<lparr>qr_status := QT_RUNNING, qr_updated_at := 5\<rparr> = e"
    then have "qr_dispatch_id (d\<lparr>qr_status := QT_RUNNING, qr_updated_at := 5\<rparr>) = qr_dispatch_id e" by simp
    then show False using de by simp
  qed
  ultimately show ?thesis using de
    by (auto simp: demo_inserted [of _ "''d''" QT_FAILED, folded d_def] deduplicated_def
        simp del: store_step.simps intro!: exI [of _ "''k''"])
qed

text \<open>No method but the plain upsert touches an existing team.\<close>

lemma team_step:
  assumes "\<forall>t. e \<noteq> SaveTeam t" "load_team t db = Some team"
  shows "load_team t (store_step num db e) = Some team"
proof -
  have snoc: "row_at tm_team_id t (rows @ [x]) = Some team" if "row_at tm_team_id t rows = Some team" for rows x
    using that by (simp add: row_at_append)
  show ?thesis
  proof (cases e)
    case (CreateTeam now t' l title)
    then show ?thesis using assms(2) snoc
      by (cases rule: create_team_cases [of now t' l title db]) (simp_all add: load_team_def)
  next
    case (RegisterWorker now t' c wp bn)
    then show ?thesis using assms(2)
      by (cases rule: register_single_cases [of now t' c wp bn db]) (simp_all add: load_team_def)
  next
    case (RegisterBatch now t' l cs n)
    then show ?thesis using assms(2)
      by (cases rule: register_batch_cases [of now t' l cs n db]) (simp_all add: load_team_def)
  next
    case (InsertOnce q)
    then show ?thesis using assms(2)
      by (cases rule: insert_once_cases [of q db]) (simp_all add: load_team_def)
  next
    case (Steer now now2 l i g p)
    then show ?thesis using assms(2)
      by (cases rule: steer_cases [of num now now2 l i g p db]) (simp_all add: load_team_def)
  next
    case (Cancel now now2 i l r)
    then show ?thesis using assms(2)
      by (cases rule: cancel_cases [of num now now2 i l r db]) (simp_all add: load_team_def)
  next
    case (Resume now i)
    then show ?thesis using assms(2)
      by (cases rule: resume_cases [of now i db]) (simp_all add: load_team_def)
  next
    case (Finalize seen now t' h s)
    then show ?thesis using assms(2)
      by (cases rule: finalize_cases [of seen now t' h s db]) (simp_all add: load_team_def)
  qed (use assms in \<open>simp_all add: load_team_def save_session_def save_queue_item_def
        save_channel_message_def save_worktree_def delete_worktree_def save_handoff_def save_checkpoint_def\<close>)
qed

text \<open>No method changes the role or the team of a session.\<close>

lemma is_lead_update:
  assumes "\<And>r. sr_session_id (f r) = sr_session_id r \<and> sr_role (f r) = sr_role r \<and> sr_team_id (f r) = sr_team_id r"
  shows "is_lead_of l t (db\<lparr>td_sessions := update_where p f (td_sessions db)\<rparr>) \<longleftrightarrow> is_lead_of l t db"
proof -
  have "row_at sr_session_id l (update_where p f rows) =
      map_option (\<lambda>r. if p r then f r else r) (row_at sr_session_id l rows)" for rows
    using assms by (intro row_at_update_where) simp
  then show ?thesis using assms by (auto simp: is_lead_of_def split: option.splits)
qed

lemma is_lead_grow: "is_lead_of l t db \<Longrightarrow> is_lead_of l t (db\<lparr>td_sessions := td_sessions db @ rows\<rparr>)"
  by (auto simp: is_lead_of_def row_at_append split: option.splits)

lemma is_lead_sessions: "is_lead_of l t db \<longleftrightarrow> is_lead_of l t (empty_team_db\<lparr>td_sessions := td_sessions db\<rparr>)"
  by (simp add: is_lead_of_def)

lemma lead_step:
  assumes "is_lead_of l t db"
  shows "is_lead_of l t (store_step num db e)"
proof -
  let ?s = "\<lambda>db. empty_team_db\<lparr>td_sessions := td_sessions db\<rparr>"
  have same: ?thesis if "td_sessions (store_step num db e) = td_sessions db"
    using assms that is_lead_sessions by metis
  have grow: ?thesis if "td_sessions (store_step num db e) = td_sessions db @ rows" for rows
  proof -
    have "is_lead_of l t (?s db)" using assms is_lead_sessions [of l t db] by simp
    from is_lead_grow [OF this, of rows] show ?thesis
      unfolding is_lead_sessions [of l t "store_step num db e"] that by simp
  qed
  have update: ?thesis if "td_sessions (store_step num db e) = update_where p f (td_sessions db)"
    "\<And>r. sr_session_id (f r) = sr_session_id r \<and> sr_role (f r) = sr_role r \<and> sr_team_id (f r) = sr_team_id r"
    for p f
  proof -
    have "is_lead_of l t (?s db)" using assms is_lead_sessions [of l t db] by simp
    then show ?thesis using is_lead_update [OF that(2), where l = l and t = t and db = "?s db" and p = p]
      unfolding is_lead_sessions [of l t "store_step num db e"] that(1) by simp
  qed
  show ?thesis
  proof (cases e)
    case (CreateTeam now t' l' title)
    then show ?thesis using same grow
      by (cases rule: create_team_cases [of now t' l' title db]) simp_all
  next
    case (RegisterWorker now t' c wp bn)
    then show ?thesis using same grow
      by (cases rule: register_single_cases [of now t' c wp bn db]) simp_all
  next
    case (RegisterBatch now t' l' cs n)
    then show ?thesis using same grow
      by (cases rule: register_batch_cases [of now t' l' cs n db]) simp_all
  next
    case (SaveSession s)
    show ?thesis
    proof (cases "has_row sr_session_id (se_session_id s) (td_sessions db)")
      case True
      then have "td_sessions (store_step num db e) = update_where (\<lambda>r. sr_session_id r = se_session_id s)
          (\<lambda>r. merge_session r (session_row_of s)) (td_sessions db)"
        using SaveSession by (simp add: save_session_def upsert_def session_row_of_def)
      then show ?thesis by (rule update) (simp add: merge_session_def)
    next
      case False
      then show ?thesis using SaveSession grow
        by (simp add: save_session_def upsert_def session_row_of_def)
    qed
  next
    case (Finalize seen now t' h s)
    show ?thesis
    proof (cases rule: finalize_cases [of seen now t' h s db])
      case (finalized row)
      then have "td_sessions (store_step num db e) = update_where (\<lambda>r. sr_session_id r = qr_to_session_id row)
            (\<lambda>r. r\<lparr>sr_status := WS_IDLE, sr_updated_at := now\<rparr>) (td_sessions db)"
        using Finalize by simp
      then show ?thesis by (rule update) simp
    qed (use Finalize same in simp)
  next
    case (InsertOnce q)
    then show ?thesis using same by (cases rule: insert_once_cases [of q db]) simp_all
  next
    case (Steer now now2 l' i g p)
    then show ?thesis using same by (cases rule: steer_cases [of num now now2 l' i g p db]) simp_all
  next
    case (Cancel now now2 i l' r)
    then show ?thesis using same by (cases rule: cancel_cases [of num now now2 i l' r db]) simp_all
  next
    case (Resume now i)
    then show ?thesis using same by (cases rule: resume_cases [of now i db]) simp_all
  qed (use same in \<open>simp_all add: save_team_def save_queue_item_def
        save_channel_message_def save_worktree_def delete_worktree_def save_handoff_def save_checkpoint_def\<close>)
qed

text \<open>
  C25: A team keeps its lead.  Once \<open>create_team_with_lead_once\<close> has returned a team, then after any
  sequence of the store's methods other than the plain upsert of a team, the same call returns the same
  team, creation time included, and changes nothing; and any call for that team with another lead or
  title raises and changes nothing.
\<close>

theorem team_keeps_its_lead:
  assumes "create_team_with_lead_once now t l title db = (Inr team, db1)"
    and "\<not> list_ex (\<lambda>e. \<exists>x. e = SaveTeam x) es" "db2 = foldl (store_step num) db1 es"
  shows "create_team_with_lead_once now' t l title db2 = (Inr team, db2) \<and>
    (l' \<noteq> l \<or> title' \<noteq> title \<longrightarrow> (\<exists>e. create_team_with_lead_once now' t l' title' db2 = (Inl e, db2)))"
proof -
  have first: "load_team t db1 = Some team \<and> is_lead_of l t db1 \<and> tm_lead_session_id team = l \<and> tm_title team = title"
  proof (cases rule: create_team_cases [of now t l title db])
    case (refused e)
    then show ?thesis using assms(1) by simp
  next
    case (existing x)
    then show ?thesis using assms(1) by simp
  next
    case (created lead)
    then show ?thesis using assms(1)
      by (auto simp: load_team_def is_lead_of_def row_at_append has_row_def)
  qed
  have "load_team t (foldl (store_step num) d es) = Some team \<and> is_lead_of l t (foldl (store_step num) d es)"
    if "load_team t d = Some team" "is_lead_of l t d" "\<not> list_ex (\<lambda>e. \<exists>x. e = SaveTeam x) es" for d es
    using that by (induction es arbitrary: d) (auto intro: team_step lead_step)
  then have now: "load_team t db2 = Some team" "is_lead_of l t db2" using first assms(2,3) by auto
  have args: "\<not> (blank t \<or> length t > 128 \<or> blank l \<or> length l > 128 \<or> length title > 256)"
    using assms(1) unfolding create_team_with_lead_once_def by (auto split: if_splits)
  have "tm_team_id team = t" using now(1) by (auto simp: load_team_def dest: row_at_SomeD)
  then have "create_team_with_lead_once now' t l title db2 = (Inr team, db2)"
    using now first args by (cases team) (simp add: create_team_with_lead_once_def)
  moreover have "\<exists>e. create_team_with_lead_once now' t l' title' db2 = (Inl e, db2)" if "l' \<noteq> l \<or> title' \<noteq> title"
    using that now first
    by (cases rule: create_team_cases [of now' t l' title' db2]) auto
  ultimately show ?thesis by blast
qed

definition demo_led_db :: team_db where
  "demo_led_db = snd (create_team_with_lead_once 1 ''t'' ''lead'' ''T'' empty_team_db)"

lemma demo_led:
  "create_team_with_lead_once 1 ''t'' ''lead'' ''T'' empty_team_db =
     (Inr \<lparr>tm_team_id = ''t'', tm_lead_session_id = ''lead'', tm_title = ''T'', tm_created_at = 1\<rparr>, demo_led_db)"
proof -
  have "\<not> blank ''t''" "\<not> blank ''lead''" by code_simp+
  then show ?thesis
    by (simp add: demo_led_db_def create_team_with_lead_once_def load_team_def empty_team_db_def has_row_def Let_def)
qed

theorem team_keeps_its_lead_witness:
  "\<exists>e. create_team_with_lead_once 9 ''t'' ''other'' ''T''
     (foldl (store_step demo_num) demo_led_db demo_dedup_run) =
     (Inl e, foldl (store_step demo_num) demo_led_db demo_dedup_run)"
proof -
  have "\<not> list_ex (\<lambda>e. \<exists>x. e = SaveTeam x) demo_dedup_run" by (simp add: demo_dedup_run_def)
  from team_keeps_its_lead [OF demo_led this refl, where now' = 9 and l' = "''other''" and title' = "''T''"]
  show ?thesis by simp
qed

lemma check_batch_member:
  "check_batch t l cs = Inr u \<Longrightarrow> c \<in> set cs \<Longrightarrow>
     wc_team_id c = t \<and> wc_pid c = None \<and> wc_process_create_time c = None \<and> wc_worker_id c \<noteq> l"
  by (induction cs) (auto split: if_splits)

lemma check_batch_args_member:
  "check_batch_args t l cs n = Inr u \<Longrightarrow> c \<in> set cs \<Longrightarrow>
     wc_team_id c = t \<and> wc_pid c = None \<and> wc_process_create_time c = None \<and> wc_worker_id c \<noteq> l"
  using check_batch_member by (auto simp: check_batch_args_def split: if_splits sum.splits)

lemma loads_text_json: "wf_json v \<Longrightarrow> loads (text_json v) = Some v"
  unfolding text_json_def by (rule loads_dumps) (simp_all add: is_ws_def)

lemma row_to_session_of:
  assumes "good_config (se_config s)"
  shows "row_to_session (session_row_of s) = Inr s"
proof -
  obtain kvs where kvs: "config_dict (se_config s) = JObj kvs"
      "config_of_dict (se_session_id s) (se_team_id s) kvs = se_config s"
    using config_of_config_dict by blast
  have "loads (text_json (config_dict (se_config s))) = Some (JObj kvs)"
    using loads_text_json [OF wf_config_dict [OF assms]] kvs(1) by simp
  then show ?thesis using kvs(2) by (simp add: row_to_session_def session_row_of_def)
qed

lemma active_workers_new:
  "active_workers t (db\<lparr>td_sessions := td_sessions db @ map (session_row_of \<circ> new_worker now t) cs\<rparr>) =
     active_workers t db + length cs"
proof -
  have "filter (\<lambda>r. sr_team_id r = t \<and> sr_role r = AR_WORKER \<and> sr_status r \<noteq> WS_ARCHIVED)
      (map (session_row_of \<circ> new_worker now t) cs) = map (session_row_of \<circ> new_worker now t) cs"
    by (auto simp: filter_id_conv session_row_of_def new_worker_def)
  then show ?thesis by (simp add: active_workers_def)
qed

text \<open>
  C26: A batch of workers is registered as a whole.  A successful \<open>register_worker_batch_once\<close> adds
  exactly one idle worker session per configuration, in order, to the sessions already there, was asked
  for by the lead of the team, and leaves the team within its ceiling of workers; each of the new
  sessions is read back as it was returned.  A failing call changes nothing.
\<close>

theorem batch_registration_is_atomic:
  "case register_worker_batch_once now t l cs n db of
     (Inl e, db') \<Rightarrow> db' = db
   | (Inr sessions, db') \<Rightarrow>
       sessions = map (new_worker now t) cs \<and> is_lead_of l t db \<and>
       db' = db\<lparr>td_sessions := td_sessions db @ map session_row_of sessions\<rparr> \<and>
       int (active_workers t db') \<le> n \<and>
       list_all (\<lambda>s. load_session (se_session_id s) db' = Inr (Some s)) sessions"
proof (cases rule: register_batch_cases [of now t l cs n db])
  case (refused e)
  then show ?thesis by simp
next
  case registered
  let ?db = "db\<lparr>td_sessions := td_sessions db @ map (session_row_of \<circ> new_worker now t) cs\<rparr>"
  have "load_session (wc_worker_id c) ?db = Inr (Some (new_worker now t c))" if c: "c \<in> set cs" for c
  proof -
    have "row_at sr_session_id (wc_worker_id c) (td_sessions db) = None"
      using registered(5) c by (simp add: has_row_def)
    moreover have "row_at sr_session_id (wc_worker_id c) (map (session_row_of \<circ> new_worker now t) xs) =
        Some (session_row_of (new_worker now t c))" if "distinct (map wc_worker_id xs)" "c \<in> set xs" for xs
      using that by (induction xs) (auto simp: rev_image_eqI)
    ultimately have "row_at sr_session_id (wc_worker_id c) (td_sessions ?db) =
        Some (session_row_of (new_worker now t c))"
      using check_batch_distinct [OF registered(1)] c by (simp add: row_at_append)
    moreover have "row_to_session (session_row_of (new_worker now t c)) = Inr (new_worker now t c)"
      using check_batch_args_member [OF registered(1) c]
      by (intro row_to_session_of) (simp add: new_worker_def good_config_def)
    ultimately show ?thesis by (simp add: load_session_def read_one_def)
  qed
  then show ?thesis
    using registered(3,4,6) active_workers_new [of t db now cs]
    by (simp add: list_all_iff comp_def) (simp add: new_worker_def)
qed

lemma first_by_min:
  assumes "first_by k rows = Some r" "s \<in> set rows"
  shows "k r \<le> k s"
proof -
  obtain rs where "sort_key k rows = r # rs" using assms(1) by (auto simp: first_by_def split: list.splits)
  then show ?thesis using assms(2) sorted_sort_key [of k rows] set_sort [of k rows] by auto
qed

lemma first_by_stable:
  assumes "first_by k rows = Some r" "s \<in> set rows" "k s = k r" "sorted (map j rows)"
  shows "j r \<le> j s"
proof -
  obtain rs where rs: "sort_key k rows = r # rs" using assms(1) by (auto simp: first_by_def split: list.splits)
  have same: "filter (\<lambda>x. k x = k r) (sort_key k rows) = filter (\<lambda>x. k x = k r) rows"
    by (rule sort_key_stable)
  have "sorted (map j (filter (\<lambda>x. k x = k r) rows))"
    using assms(4) by (rule sorted_filter)
  then have "sorted (map j (r # filter (\<lambda>x. k x = k r) rs))" using same rs by simp
  moreover have "s \<in> set (r # filter (\<lambda>x. k x = k r) rs)"
  proof -
    have "s \<in> set (filter (\<lambda>x. k x = k r) (sort_key k rows))" using assms(2,3) by simp
    then show ?thesis using rs by simp
  qed
  ultimately show ?thesis by auto
qed

text \<open>
  The worker gets the most urgent task.  \<open>fetch_next_pending_task\<close> reads a pending item of the team
  addressed to the worker such that no other such item has a higher priority, or the same priority
  and an earlier creation time; it finds none exactly when there is none.
\<close>

theorem next_task_is_most_urgent:
  "case next_pending t w db of
     None \<Rightarrow> \<not> list_ex (pending_for t w) (td_queue db)
   | Some r \<Rightarrow> r \<in> set (td_queue db) \<and> pending_for t w r \<and>
       list_all (\<lambda>s. qr_priority s < qr_priority r \<or>
          (qr_priority s = qr_priority r \<and> qr_created_at r \<le> qr_created_at s))
         (filter (pending_for t w) (td_queue db))"
proof (cases "next_pending t w db")
  case None
  then have "filter (pending_for t w) (td_queue db) = []"
    by (simp add: next_pending_def first_by_None_iff)
       (metis length_0_conv length_sort)
  then show ?thesis using None by (auto simp: filter_empty_conv list_ex_iff)
next
  case (Some r)
  let ?rows = "sort_key qr_created_at (filter (pending_for t w) (td_queue db))"
  have f: "first_by (\<lambda>r. - qr_priority r) ?rows = Some r" using Some by (simp add: next_pending_def)
  have "r \<in> set (td_queue db)" "pending_for t w r" using first_by_SomeD [OF f] by auto
  moreover have "qr_priority s < qr_priority r \<or> (qr_priority s = qr_priority r \<and> qr_created_at r \<le> qr_created_at s)"
    if "s \<in> set (td_queue db)" "pending_for t w s" for s
    using first_by_min [OF f, of s] first_by_stable [OF f, of s qr_created_at] that by auto
  ultimately show ?thesis using Some by (auto simp: list_all_iff)
qed

end
