(* ===== verification/TeamManager.thy ===== *)
theory TeamManager
  imports TeamFacts QaGate "HOL-Library.AList"
begin

text \<open>
  \<open>src/subagentbridge/team/team_manager.py\<close>, the class \<open>TeamManager\<close>: the operations that leads and
  workers call, over the tables of \<open>TeamStore\<close>.  The object has no state beside its store.  A
  file-system path is the list of its parts (a leading \<open>/\<close> is a part; POSIX paths); the file system
  is a record of the probes the code makes and does not change during a call.  The metrics of a
  handoff are a dictionary, as its type says.  SHA-256, clock readings and fresh ids are arguments.
\<close>

section \<open>Teams, sessions and messages\<close>

definition create_team ::
  "real \<Rightarrow> string \<Rightarrow> string option \<Rightarrow> string \<Rightarrow> string \<Rightarrow> team_db \<Rightarrow> (exn + agent_team) \<times> team_db" where
  "create_team now fresh team_id lead_session_id title db =
     (let tid = (case team_id of None \<Rightarrow> ''team-'' @ fresh | Some t \<Rightarrow> if t = [] then ''team-'' @ fresh else t)
      in create_team_with_lead_once now tid lead_session_id title db)"

definition create_worker ::
  "real \<Rightarrow> string \<Rightarrow> worker_config \<Rightarrow> string option \<Rightarrow> string option \<Rightarrow> team_db
   \<Rightarrow> (exn + agent_session) \<times> team_db" where
  "create_worker now team_id config worktree_path branch_name db =
     register_single_worker_once now team_id config worktree_path branch_name db"

definition register_worker :: "real \<Rightarrow> worker_config \<Rightarrow> team_db \<Rightarrow> (exn + agent_session) \<times> team_db" where
  "register_worker now config db = create_worker now (wc_team_id config) config None None db"

definition create_workers_batch ::
  "real \<Rightarrow> string \<Rightarrow> string \<Rightarrow> worker_config list \<Rightarrow> int \<Rightarrow> team_db
   \<Rightarrow> (exn + agent_session list) \<times> team_db" where
  "create_workers_batch now lead_session_id team_id configs max_workers db =
     register_worker_batch_once now team_id lead_session_id configs max_workers db"

definition set_worker_status ::
  "real \<Rightarrow> string \<Rightarrow> worker_status \<Rightarrow> team_db \<Rightarrow> (exn + agent_session) \<times> team_db" where
  "set_worker_status now worker_id status db =
     (case load_session worker_id db of
        Inl e \<Rightarrow> (Inl e, db)
      | Inr None \<Rightarrow> (raise KeyError ''session not found'', db)
      | Inr (Some session) \<Rightarrow>
          let session' = session\<lparr>se_status := status, se_updated_at := now\<rparr>
          in (ok session', save_session session' db))"

definition archive_worker :: "real \<Rightarrow> string \<Rightarrow> team_db \<Rightarrow> (exn + agent_session) \<times> team_db" where
  "archive_worker now worker_id db = set_worker_status now worker_id WS_ARCHIVED db"

definition list_workers :: "string \<Rightarrow> team_db \<Rightarrow> exn + agent_session list" where
  "list_workers team_id db =
     (case list_sessions_by_team team_id db of
        Inl e \<Rightarrow> Inl e
      | Inr sessions \<Rightarrow> ok (filter (\<lambda>s. se_role s = AR_WORKER) sessions))"

text \<open>Loading both ends of a message or a dispatch: the sender, then the receiver, of one team.\<close>

fun role_value :: "agent_role \<Rightarrow> string" where
  "role_value AR_LEAD = ''lead''"
| "role_value AR_WORKER = ''worker''"

definition required_session :: "string \<Rightarrow> team_db \<Rightarrow> exn + agent_session" where
  "required_session session_id db =
     (case load_session session_id db of
        Inl e \<Rightarrow> Inl e
      | Inr None \<Rightarrow> raise ValueError ''session not found''
      | Inr (Some s) \<Rightarrow> ok s)"

definition post_message ::
  "real \<Rightarrow> string \<Rightarrow> string \<Rightarrow> string \<Rightarrow> string \<Rightarrow> team_db \<Rightarrow> (exn + channel_message) \<times> team_db" where
  "post_message now fresh from_session_id to_session_id content db =
     (case required_session from_session_id db of
        Inl e \<Rightarrow> (Inl e, db)
      | Inr sender \<Rightarrow>
        (case required_session to_session_id db of
           Inl e \<Rightarrow> (Inl e, db)
         | Inr receiver \<Rightarrow>
             if se_team_id sender \<noteq> se_team_id receiver
             then (raise ValueError ''cross-team messaging not permitted'', db)
             else
               let msg = \<lparr>cm_message_id = ''msg-'' @ fresh, cm_team_id = se_team_id sender,
                          cm_from_session_id = from_session_id, cm_to_session_id = to_session_id,
                          cm_content = content, cm_role = role_value (se_role sender),
                          cm_created_at = now\<rparr>
               in (ok msg, save_channel_message msg db)))"

definition read_lead_history :: "string \<Rightarrow> nat \<Rightarrow> team_db \<Rightarrow> exn + channel_message list" where
  "read_lead_history session_id limit db =
     and_then (required_session session_id db)
       (\<lambda>session. ok (list_channel_messages_by_team (se_team_id session) limit db))"

section \<open>The queue\<close>

text \<open>Both loads come before both presence checks here.\<close>

definition dispatch_ends :: "string \<Rightarrow> string \<Rightarrow> team_db \<Rightarrow> exn + agent_session \<times> agent_session" where
  "dispatch_ends from_session_id to_session_id db =
     and_then (load_session from_session_id db) (\<lambda>sender.
     and_then (load_session to_session_id db) (\<lambda>receiver.
       case sender of
         None \<Rightarrow> raise ValueError ''sender session not found''
       | Some s \<Rightarrow>
           (case receiver of
              None \<Rightarrow> raise ValueError ''receiver session not found''
            | Some r \<Rightarrow>
                if se_team_id s \<noteq> se_team_id r then raise ValueError ''cross-team dispatch not permitted''
                else ok (s, r))))"

definition new_queue_item ::
  "real \<Rightarrow> real \<Rightarrow> string \<Rightarrow> string \<Rightarrow> string \<Rightarrow> string \<Rightarrow> string \<Rightarrow> json \<Rightarrow> string option \<Rightarrow> int \<Rightarrow> queue_item"
  where
  "new_queue_item now now2 fresh team_id from_session_id to_session_id task_id payload dedup_key priority =
     \<lparr>qi_dispatch_id = ''dsp-'' @ fresh, qi_team_id = team_id, qi_from_session_id = from_session_id,
      qi_to_session_id = to_session_id, qi_task_id = task_id, qi_payload = payload,
      qi_status = QT_PENDING, qi_dedup_key = dedup_key, qi_priority = priority, qi_steering = [],
      qi_created_at = now, qi_updated_at = now2\<rparr>"

definition dispatch_task ::
  "real \<Rightarrow> real \<Rightarrow> string \<Rightarrow> string \<Rightarrow> string \<Rightarrow> string \<Rightarrow> json \<Rightarrow> string option \<Rightarrow> int \<Rightarrow> team_db
   \<Rightarrow> (exn + queue_item) \<times> team_db" where
  "dispatch_task now now2 fresh from_session_id to_session_id task_id payload dedup_key priority db =
     (case dispatch_ends from_session_id to_session_id db of
        Inl e \<Rightarrow> (Inl e, db)
      | Inr (sender, _) \<Rightarrow>
          insert_queue_item_once (new_queue_item now now2 fresh (se_team_id sender) from_session_id
            to_session_id task_id payload dedup_key priority) db)"

definition required_item :: "string \<Rightarrow> team_db \<Rightarrow> exn + queue_item" where
  "required_item dispatch_id db =
     (case load_queue_item dispatch_id db of
        Inl e \<Rightarrow> Inl e
      | Inr None \<Rightarrow> raise KeyError ''queue item not found''
      | Inr (Some item) \<Rightarrow> ok item)"

definition update_queue_status ::
  "real \<Rightarrow> string \<Rightarrow> queue_status \<Rightarrow> team_db \<Rightarrow> (exn + queue_item) \<times> team_db" where
  "update_queue_status now dispatch_id status db =
     (case required_item dispatch_id db of
        Inl e \<Rightarrow> (Inl e, db)
      | Inr item \<Rightarrow>
          let item' = item\<lparr>qi_status := status, qi_updated_at := now\<rparr>
          in (ok item', save_queue_item item' db))"

definition steer_task ::
  "(real \<Rightarrow> string) \<Rightarrow> real \<Rightarrow> real \<Rightarrow> string \<Rightarrow> string \<Rightarrow> json \<Rightarrow> team_db \<Rightarrow> (exn + queue_item) \<times> team_db" where
  "steer_task num now now2 lead_session_id dispatch_id guidance db =
     steer_queue_item_once num now now2 lead_session_id dispatch_id (Some guidance) None db"

definition reprioritize_task ::
  "(real \<Rightarrow> string) \<Rightarrow> real \<Rightarrow> real \<Rightarrow> string \<Rightarrow> string \<Rightarrow> int \<Rightarrow> team_db \<Rightarrow> (exn + queue_item) \<times> team_db" where
  "reprioritize_task num now now2 lead_session_id dispatch_id priority db =
     steer_queue_item_once num now now2 lead_session_id dispatch_id None (Some priority) db"

definition cancel_task ::
  "(real \<Rightarrow> string) \<Rightarrow> real \<Rightarrow> real \<Rightarrow> string \<Rightarrow> string \<Rightarrow> string \<Rightarrow> team_db \<Rightarrow> (exn + queue_item) \<times> team_db" where
  "cancel_task num now now2 lead_session_id dispatch_id reason db =
     (case load_session lead_session_id db of
        Inl e \<Rightarrow> (Inl e, db)
      | Inr None \<Rightarrow> (raise PermissionError ''Only lead session can cancel tasks'', db)
      | Inr (Some lead) \<Rightarrow>
          if se_role lead \<noteq> AR_LEAD then (raise PermissionError ''Only lead session can cancel tasks'', db)
          else (case required_item dispatch_id db of
             Inl e \<Rightarrow> (Inl e, db)
           | Inr item \<Rightarrow>
               if se_team_id lead \<noteq> qi_team_id item
               then (raise PermissionError ''cross-team task cancellation not permitted'', db)
               else cancel_active_queue_item num now now2 dispatch_id lead_session_id reason db))"

text \<open>
  Interruption: the session, then every active item of the worker, saved one by one; \<open>clock\<close> gives the
  two readings made for an item.
\<close>

definition interruption_entry :: "(real \<Rightarrow> string) \<Rightarrow> real \<Rightarrow> string \<Rightarrow> json" where
  "interruption_entry num now reason =
     JObj [(''interruption_reason'', JStr reason), (''timestamp'', JNum (num now))]"

definition interrupted_item ::
  "(real \<Rightarrow> string) \<Rightarrow> (string \<Rightarrow> real \<times> real) \<Rightarrow> string \<Rightarrow> queue_item \<Rightarrow> queue_item" where
  "interrupted_item num clock reason item =
     (case clock (qi_dispatch_id item) of (now, now2) \<Rightarrow>
        item\<lparr>qi_status := QT_INTERRUPTED,
             qi_steering := qi_steering item @
               (if reason = [] then [] else [interruption_entry num now reason]),
             qi_updated_at := now2\<rparr>)"

fun preempt_items ::
  "(real \<Rightarrow> string) \<Rightarrow> (string \<Rightarrow> real \<times> real) \<Rightarrow> string \<Rightarrow> string \<Rightarrow> queue_item list \<Rightarrow> team_db \<Rightarrow> team_db" where
  "preempt_items num clock reason worker_id [] db = db"
| "preempt_items num clock reason worker_id (item # items) db =
     preempt_items num clock reason worker_id items
       (if qi_to_session_id item = worker_id \<and> steerable (qi_status item)
        then save_queue_item (interrupted_item num clock reason item) db else db)"

definition interrupt_worker ::
  "(real \<Rightarrow> string) \<Rightarrow> real \<Rightarrow> (string \<Rightarrow> real \<times> real) \<Rightarrow> string \<Rightarrow> string \<Rightarrow> team_db \<Rightarrow> (exn + bool) \<times> team_db" where
  "interrupt_worker num now clock worker_id reason db =
     (case load_session worker_id db of
        Inl e \<Rightarrow> (Inl e, db)
      | Inr None \<Rightarrow> (ok False, db)
      | Inr (Some session) \<Rightarrow>
          let db1 = save_session (session\<lparr>se_status := WS_INTERRUPTED, se_updated_at := now\<rparr>) db
          in (case list_queue_by_team (se_team_id session) db1 of
                Inl e \<Rightarrow> (Inl e, db1)
              | Inr items \<Rightarrow> (ok True, preempt_items num clock reason worker_id items db1)))"

section \<open>Handoffs\<close>

text \<open>
  The truth value of a JSON value in Python; a number is zero when the digits of its mantissa are.
  \<open>exit_code != 0\<close> accepts the numbers equal to zero and \<open>False\<close>.
\<close>

definition zero_number :: "string \<Rightarrow> bool" where
  "zero_number t \<longleftrightarrow> list_all (\<lambda>c. c \<in> set ''-0.'') (takeWhile (\<lambda>c. c \<notin> set ''eE'') t)"

fun json_truthy :: "json \<Rightarrow> bool" where
  "json_truthy JNull = False"
| "json_truthy (JBool b) = b"
| "json_truthy (JNum t) = (\<not> zero_number t)"
| "json_truthy (JStr s) = (s \<noteq> [])"
| "json_truthy (JList xs) = (xs \<noteq> [])"
| "json_truthy (JObj kvs) = (kvs \<noteq> [])"

fun equals_zero :: "json \<Rightarrow> bool" where
  "equals_zero (JBool b) = (\<not> b)"
| "equals_zero (JNum t) = zero_number t"
| "equals_zero _ = False"

definition dict_items :: "json \<Rightarrow> (string \<times> json) list" where
  "dict_items v = (case v of JObj kvs \<Rightarrow> kvs | _ \<Rightarrow> [])"

definition metric :: "string \<Rightarrow> handoff_evidence \<Rightarrow> json" where
  "metric k h = json_get k JNull (dict_items (ho_metrics h))"

definition claims_success :: "handoff_evidence \<Rightarrow> bool" where
  "claims_success h \<longleftrightarrow> ho_status h \<in> {''SUCCESS'', ''PASSED''}"

definition contract_only :: "handoff_evidence \<Rightarrow> bool" where
  "contract_only h \<longleftrightarrow> ho_status h \<in> {''CONTRACT_FIXTURE'', ''CONTRACT_ONLY''}"

definition check_assignment :: "handoff_evidence \<Rightarrow> queue_item \<Rightarrow> exn + unit" where
  "check_assignment h item =
     (if ho_from_worker_id h \<noteq> qi_to_session_id item
      then raise PermissionError ''Worker identity mismatch''
      else if qi_status item = QT_PENDING
      then raise ValueError ''Cannot accept handoff for pending task: execution has not started''
      else if qi_status item \<notin> {QT_DISPATCHED, QT_RUNNING}
      then raise ValueError ''Cannot accept handoff for item in this status''
      else ok ())"

definition available_worker :: "string \<Rightarrow> team_db \<Rightarrow> exn + agent_session" where
  "available_worker worker_id db =
     (case load_session worker_id db of
        Inl e \<Rightarrow> Inl e
      | Inr None \<Rightarrow> raise ValueError ''Worker is interrupted or unavailable''
      | Inr (Some worker) \<Rightarrow>
          if se_status worker = WS_INTERRUPTED then raise ValueError ''Worker is interrupted or unavailable''
          else ok worker)"

definition check_receiving_lead :: "handoff_evidence \<Rightarrow> queue_item \<Rightarrow> team_db \<Rightarrow> exn + unit" where
  "check_receiving_lead h item db =
     (if map_option tm_lead_session_id (load_team (qi_team_id item) db) \<noteq> Some (ho_to_lead_id h)
      then raise PermissionError ''Lead identity mismatch'' else ok ())"

definition check_first_handoff :: "handoff_evidence \<Rightarrow> queue_item \<Rightarrow> team_db \<Rightarrow> exn + unit" where
  "check_first_handoff h item db =
     (case list_handoffs_by_team (qi_team_id item) db of
        Inl e \<Rightarrow> Inl e
      | Inr existing \<Rightarrow>
          if list_ex (\<lambda>x. ho_dispatch_id x = ho_dispatch_id h) existing
          then raise ValueError ''Handoff already finalized for dispatch'' else ok ())"

definition check_claim :: "handoff_evidence \<Rightarrow> bool \<Rightarrow> exn + unit" where
  "check_claim h verify_artifacts =
     (if \<not> claims_success h then ok ()
      else if \<not> verify_artifacts
      then raise PermissionError ''Bypassing artifact verification is forbidden for successful handoffs''
      else if blank (ho_summary h)
      then raise ValueError ''Handoff rejected: summary must be non-empty for successful handoffs''
      else if dict_items (ho_metrics h) = []
      then raise ValueError ''Handoff rejected: metrics must be non-empty for successful handoffs''
      else ok ())"

subsection \<open>Artifacts\<close>

record artifact_fs =
  af_exists :: "string list \<Rightarrow> bool"
  af_is_symlink :: "string list \<Rightarrow> bool"
  af_is_file :: "string list \<Rightarrow> bool"
  af_read :: "string list \<Rightarrow> string"
  af_resolve :: "string list \<Rightarrow> string list"

text \<open>\<open>Path.parent\<close> and \<open>base / art\<close>.\<close>

definition path_parent :: "string list \<Rightarrow> string list" where
  "path_parent p = (if p = [[slash]] then p else butlast p)"

definition join_path :: "string list \<Rightarrow> string \<Rightarrow> string list" where
  "join_path base art = (if posix_absolute art then posix_parts art else base @ posix_parts art)"

definition workspace_of ::
  "artifact_fs \<Rightarrow> handoff_evidence \<Rightarrow> agent_session \<Rightarrow> team_db \<Rightarrow> string list option" where
  "workspace_of fs h worker db =
     (let configured = (case wc_working_dir (se_config worker) of
            None \<Rightarrow> None
          | Some d \<Rightarrow> if d \<noteq> [] \<and> af_exists fs (posix_parts d) then Some (posix_parts d) else None)
      in case load_worktree (ho_from_worker_id h) db of
           None \<Rightarrow> configured
         | Some wt \<Rightarrow>
             if af_exists fs (posix_parts (wt_worktree_path wt)) then Some (posix_parts (wt_worktree_path wt))
             else configured)"

text \<open>The walk from the artifact up to the workspace.\<close>

function link_on_way :: "artifact_fs \<Rightarrow> string list \<Rightarrow> string list \<Rightarrow> bool" where
  "link_on_way fs base cur =
     (if cur = base \<or> cur = path_parent cur then False
      else af_is_symlink fs cur \<or> link_on_way fs base (path_parent cur))"
  by pat_completeness auto
lemma path_parent_shorter: "cur \<noteq> path_parent cur \<Longrightarrow> length (path_parent cur) < length cur"
  by (cases cur rule: rev_cases) (auto simp: path_parent_def split: if_splits)

termination link_on_way
  by (relation "measure (\<lambda>(fs, base, cur). length cur)") (auto intro: path_parent_shorter)

declare link_on_way.simps [simp del]

definition check_artifact_path :: "artifact_fs \<Rightarrow> string list \<Rightarrow> string \<Rightarrow> exn + unit" where
  "check_artifact_path fs base art =
     (let raw = join_path base art in
      if af_is_symlink fs raw then raise PermissionError ''Handoff artifact is a symlink''
      else if link_on_way fs base raw then raise PermissionError ''Handoff artifact path component is a symlink''
      else if take (length (af_resolve fs base)) (af_resolve fs raw) \<noteq> af_resolve fs base
      then raise PermissionError ''Handoff artifact path escape detected''
      else ok ())"

fun check_each :: "('a \<Rightarrow> exn + unit) \<Rightarrow> 'a list \<Rightarrow> exn + unit" where
  "check_each f [] = ok ()"
| "check_each f (x # xs) = and_then (f x) (\<lambda>_. check_each f xs)"

definition hex_sha256 :: "string \<Rightarrow> bool" where
  "hex_sha256 t \<longleftrightarrow> length t = 64 \<and> list_all (\<lambda>c. c \<in> set ''0123456789abcdefABCDEF'') t"

definition check_artifact_hash ::
  "(string \<Rightarrow> string) \<Rightarrow> artifact_fs \<Rightarrow> string list \<Rightarrow> (string \<times> json) list \<Rightarrow> string \<Rightarrow> exn + unit" where
  "check_artifact_hash sha fs base declared art =
     (let expected = json_get art JNull declared;
          path = af_resolve fs (join_path base art) in
      if \<not> json_truthy expected
      then raise ValueError ''Handoff rejected: missing required SHA256 hash for declared artifact''
      else case expected of
        JStr t \<Rightarrow>
          if \<not> hex_sha256 t then raise ValueError ''Handoff rejected: invalid SHA256 hash format for artifact''
          else if \<not> af_exists fs path \<or> \<not> af_is_file fs path
          then raise FileNotFoundError ''Handoff rejected: declared artifact does not exist on disk''
          else if lower_text (sha (af_read fs path)) \<noteq> lower_text t
          then raise ValueError ''Handoff rejected: hash mismatch for artifact''
          else ok ()
      | _ \<Rightarrow> raise ValueError ''Handoff rejected: invalid SHA256 hash format for artifact'')"

definition check_artifacts ::
  "(string \<Rightarrow> string) \<Rightarrow> artifact_fs \<Rightarrow> handoff_evidence \<Rightarrow> agent_session \<Rightarrow> team_db \<Rightarrow> exn + unit" where
  "check_artifacts sha fs h worker db =
     (if ho_artifacts h = [] then ok ()
      else case workspace_of fs h worker db of
        None \<Rightarrow> raise ValueError ''Worker has no verified workspace or worktree for artifact verification''
      | Some base \<Rightarrow>
          if af_is_symlink fs base then raise PermissionError ''Workspace directory is a symlink''
          else and_then (check_each (check_artifact_path fs base) (ho_artifacts h)) (\<lambda>_.
            case metric ''artifact_hashes'' h of
              JObj declared \<Rightarrow> check_each (check_artifact_hash sha fs base declared) (ho_artifacts h)
            | _ \<Rightarrow> raise ValueError ''Handoff rejected: artifact_hashes mapping is required''))"

subsection \<open>Receipt and verdict\<close>

text \<open>\<open>evidence.metrics["exit_code"] = exec_receipt["exit_code"]\<close> where the metrics have none.\<close>

definition adopt_exit_code :: "handoff_evidence \<Rightarrow> handoff_evidence" where
  "adopt_exit_code h =
     (case metric ''execution_receipt'' h of
        JObj receipt \<Rightarrow>
          (case map_of receipt ''exit_code'' of
             Some code \<Rightarrow>
               if metric ''exit_code'' h = JNull
               then h\<lparr>ho_metrics := JObj (AList.update ''exit_code'' code (dict_items (ho_metrics h)))\<rparr>
               else h
           | None \<Rightarrow> h)
      | _ \<Rightarrow> h)"

definition receipt_of :: "handoff_evidence \<Rightarrow> json" where
  "receipt_of h =
     (case metric ''execution_receipt'' h of
        JObj receipt \<Rightarrow>
          if json_truthy (metric ''receipt_id'' h) then metric ''receipt_id'' h
          else json_get ''receipt_id'' JNull receipt
      | _ \<Rightarrow> metric ''receipt_id'' h)"

definition exit_code_of :: "handoff_evidence \<Rightarrow> json" where
  "exit_code_of h =
     (if metric ''exit_code'' h = JNull
      then (case metric ''execution_receipt'' h of
              JObj receipt \<Rightarrow> json_get ''exit_code'' JNull receipt | _ \<Rightarrow> JNull)
      else metric ''exit_code'' h)"

definition genuine_receipt :: "json \<Rightarrow> bool" where
  "genuine_receipt v = (case v of JStr s \<Rightarrow> \<not> blank s | _ \<Rightarrow> False)"

definition check_receipt :: "handoff_evidence \<Rightarrow> exn + handoff_evidence" where
  "check_receipt evidence =
     (if \<not> claims_success evidence then ok evidence
      else let h = adopt_exit_code evidence in
        if \<not> genuine_receipt (receipt_of h)
        then raise ValueError ''Handoff rejected: missing genuine trusted execution receipt''
        else if exit_code_of h = JNull
        then raise ValueError ''Handoff rejected: missing required execution receipt (exit_code) in metrics''
        else if \<not> equals_zero (exit_code_of h)
        then raise ValueError ''Handoff rejected: execution receipt indicates non-zero exit code''
        else if metric ''qa_verdict'' h \<notin> {JStr ''PASS'', JStr ''VERIFIED''}
        then raise ValueError ''Handoff rejected: QA verdict must be PASS or VERIFIED''
        else ok h)"

subsection \<open>Submission\<close>

text \<open>
  The reads of a submission run one by one, outside of any transaction, and other processes may
  change the tables between them: \<open>handoff_reads\<close> are the databases that the five reads of the
  manager and the SELECTs of the finalization see.  Nothing is assumed of how they are related; a
  submission that nobody interrupts reads one database, \<open>undisturbed db\<close>.
\<close>

record handoff_reads =
  hs_item :: team_db
  hs_worker :: team_db
  hs_team :: team_db
  hs_handoffs :: team_db
  hs_worktree :: team_db
  hs_final :: team_db

definition undisturbed :: "team_db \<Rightarrow> handoff_reads" where
  "undisturbed db = \<lparr>hs_item = db, hs_worker = db, hs_team = db, hs_handoffs = db, hs_worktree = db,
     hs_final = db\<rparr>"

lemma undisturbed_reads [simp]:
  "hs_item (undisturbed db) = db" "hs_worker (undisturbed db) = db" "hs_team (undisturbed db) = db"
  "hs_handoffs (undisturbed db) = db" "hs_worktree (undisturbed db) = db" "hs_final (undisturbed db) = db"
  by (simp_all add: undisturbed_def)

definition admit_handoff ::
  "(string \<Rightarrow> string) \<Rightarrow> artifact_fs \<Rightarrow> handoff_evidence \<Rightarrow> bool \<Rightarrow> queue_item \<Rightarrow> handoff_reads
   \<Rightarrow> exn + handoff_evidence" where
  "admit_handoff sha fs evidence verify_artifacts item seen =
     and_then (check_assignment evidence item) (\<lambda>_.
     and_then (available_worker (ho_from_worker_id evidence) (hs_worker seen)) (\<lambda>worker.
     and_then (check_receiving_lead evidence item (hs_team seen)) (\<lambda>_.
     and_then (check_first_handoff evidence item (hs_handoffs seen)) (\<lambda>_.
     and_then (check_claim evidence verify_artifacts) (\<lambda>_.
     and_then (check_artifacts sha fs evidence worker (hs_worktree seen)) (\<lambda>_.
       check_receipt evidence))))))"

definition submit_worker_handoff ::
  "(string \<Rightarrow> string) \<Rightarrow> artifact_fs \<Rightarrow> real \<Rightarrow> handoff_evidence \<Rightarrow> bool \<Rightarrow> handoff_reads \<Rightarrow> team_db
   \<Rightarrow> (exn + string \<times> string) \<times> team_db" where
  "submit_worker_handoff sha fs now evidence verify_artifacts seen db =
     (case load_queue_item (ho_dispatch_id evidence) (hs_item seen) of
        Inl e \<Rightarrow> (Inl e, db)
      | Inr None \<Rightarrow> (raise KeyError ''dispatch not found'', db)
      | Inr (Some item) \<Rightarrow>
        (case admit_handoff sha fs evidence verify_artifacts item seen of
           Inl e \<Rightarrow> (Inl e, db)
         | Inr evidence' \<Rightarrow>
           (case finalize_handoff_transaction (hs_final seen) now (qi_team_id item) evidence'
                   (if contract_only evidence' then None else Some QT_COMPLETED) db of
              (Inl e, db') \<Rightarrow> (Inl e, db')
            | (Inr _, db') \<Rightarrow>
                (ok (if contract_only evidence' then ''CONTRACT_VERIFIED'' else ''RECEIVED'',
                     ho_dispatch_id evidence'), db'))))"

section \<open>Commands\<close>

definition execute_worker_command ::
  "real \<Rightarrow> string \<Rightarrow> string list \<Rightarrow> string option \<Rightarrow> bool \<Rightarrow> team_db \<Rightarrow> exn + string \<times> real option" where
  "execute_worker_command now worker_id command approver approved db =
     (case load_session worker_id db of
        Inl e \<Rightarrow> Inl e
      | Inr None \<Rightarrow> ok (''DENIED'', None)
      | Inr (Some _) \<Rightarrow>
          if \<not> approved \<or> approver = None \<or> approver = Some [] then ok (''DENIED'', None)
          else ok (''APPROVED'', Some now))"

end
