(* ===== verification/HarnessAdapters.thy ===== *)
theory HarnessAdapters
  imports TeamManager
begin

text \<open>
  \<open>src/subagentbridge/runners/harness_adapters.py\<close>: the harness adapters, to which a worker hands an
  instruction, and their registry.  What an adapter reads of its host (programs on the path,
  environment variables, the check of the router's configuration, the outcome of a file write) is the
  record \<open>host_env\<close>.  Executing gives the result dictionary, without time stamps and durations, and the
  files that were written.  Error texts are abbreviated to their constant beginning.
\<close>

datatype harness = NATIVE | ANTIGRAVITY | CODEX | CLAUDE_CODE | PI | NINE_ROUTER

fun harness_name :: "harness \<Rightarrow> string" where
  "harness_name NATIVE = ''native''"
| "harness_name ANTIGRAVITY = ''antigravity''"
| "harness_name CODEX = ''codex''"
| "harness_name CLAUDE_CODE = ''claude_code''"
| "harness_name PI = ''pi''"
| "harness_name NINE_ROUTER = ''9router''"

fun harness_title :: "harness \<Rightarrow> string" where
  "harness_title NATIVE = ''Native''"
| "harness_title ANTIGRAVITY = ''Antigravity''"
| "harness_title CODEX = ''Codex''"
| "harness_title CLAUDE_CODE = ''Claude Code''"
| "harness_title PI = ''Pi''"
| "harness_title NINE_ROUTER = ''9Router''"

definition CAPABILITIES :: "string list" where
  "CAPABILITIES = [''STREAMING'', ''TOOL_CALLING'', ''STRUCTURED_OUTPUT'', ''THINKING_BUDGET'',
     ''INTERRUPTIBLE'', ''LOCAL_EXECUTION'']"

record capabilities =
  hc_supported :: "string list"
  hc_models :: "string list"
  hc_providers :: "string list"
  hc_default_model :: string
  hc_default_provider :: string
  hc_available :: bool
  hc_diagnostic :: string

record host_env =
  hx_which :: "string \<Rightarrow> string option"
  hx_environ :: "string \<Rightarrow> string option"
  hx_router_config :: "string \<Rightarrow> string \<Rightarrow> bool"
  hx_cwd :: string
  hx_join :: "string \<Rightarrow> string \<Rightarrow> string"
  hx_write :: "string \<Rightarrow> exn option"

section \<open>Capabilities\<close>

text \<open>\<open>a or b\<close> on texts that may be missing.\<close>

definition given :: "string option \<Rightarrow> bool" where
  "given x = (case x of None \<Rightarrow> False | Some s \<Rightarrow> s \<noteq> [])"

definition or_default :: "string option \<Rightarrow> string \<Rightarrow> string" where
  "or_default x d = (case x of None \<Rightarrow> d | Some s \<Rightarrow> if s = [] then d else s)"

text \<open>An external program is available through its command or its API key.\<close>

definition found :: "host_env \<Rightarrow> string list \<Rightarrow> string \<Rightarrow> bool" where
  "found x programs key \<longleftrightarrow> list_ex (\<lambda>p. given (hx_which x p)) programs \<or> hx_environ x key \<noteq> None"

definition found_diagnostic :: "host_env \<Rightarrow> string list \<Rightarrow> string \<Rightarrow> string \<Rightarrow> string" where
  "found_diagnostic x programs key title =
     (if found x programs key
      then title @ '' available via '' @
        (case filter (\<lambda>p. given (hx_which x p)) programs of
           [] \<Rightarrow> ''API key'' | p # ps \<Rightarrow> or_default (hx_which x p) ''API key'')
      else title @ '' CLI not found in PATH and '' @ key @ '' not set'')"

definition router_setting :: "host_env \<Rightarrow> string \<Rightarrow> string" where
  "router_setting x key = py_strip (or_default (hx_environ x key) [])"

definition router_diagnostic :: "host_env \<Rightarrow> string" where
  "router_diagnostic x =
     (let base_url = router_setting x ''NINEROUTER_BASE_URL''; api_key = router_setting x ''NINEROUTER_API_KEY'' in
      if base_url = [] \<or> api_key = []
      then ''Local 9Router not configured: NINEROUTER_BASE_URL (literal loopback) and NINEROUTER_API_KEY required''
      else if hx_router_config x base_url api_key
      then ''Local 9Router configured, but authenticated execution and provider-terms gate are not connected''
      else ''Local 9Router configuration invalid'')"

definition native_capabilities :: capabilities where
  "native_capabilities =
     \<lparr>hc_supported = [''LOCAL_EXECUTION'', ''TOOL_CALLING'', ''INTERRUPTIBLE''],
      hc_models = [''native'', ''local-system''], hc_providers = [''local''],
      hc_default_model = ''native'', hc_default_provider = ''local'', hc_available = True,
      hc_diagnostic = ''Native execution runtime available''\<rparr>"

definition antigravity_capabilities :: "host_env \<Rightarrow> capabilities" where
  "antigravity_capabilities x =
     \<lparr>hc_supported = [''STREAMING'', ''TOOL_CALLING'', ''STRUCTURED_OUTPUT'', ''THINKING_BUDGET'', ''INTERRUPTIBLE''],
      hc_models = [''gemini-2.5-pro'', ''gemini-2.5-flash'', ''gemini-1.5-pro'', ''gemini-1.5-flash''],
      hc_providers = [''google''], hc_default_model = ''gemini-2.5-pro'', hc_default_provider = ''google'',
      hc_available = found x [''agy'', ''antigravity''] ''GEMINI_API_KEY'',
      hc_diagnostic = found_diagnostic x [''agy'', ''antigravity''] ''GEMINI_API_KEY'' ''Antigravity''\<rparr>"

definition codex_capabilities :: "host_env \<Rightarrow> capabilities" where
  "codex_capabilities x =
     \<lparr>hc_supported = [''STREAMING'', ''TOOL_CALLING'', ''STRUCTURED_OUTPUT'', ''THINKING_BUDGET'', ''INTERRUPTIBLE''],
      hc_models = [''o3-mini'', ''gpt-4o'', ''gpt-4o-mini'', ''gpt-4.5-preview''],
      hc_providers = [''openai''], hc_default_model = ''o3-mini'', hc_default_provider = ''openai'',
      hc_available = found x [''codex''] ''OPENAI_API_KEY'',
      hc_diagnostic = found_diagnostic x [''codex''] ''OPENAI_API_KEY'' ''Codex''\<rparr>"

definition claude_code_capabilities :: "host_env \<Rightarrow> capabilities" where
  "claude_code_capabilities x =
     \<lparr>hc_supported = [''STREAMING'', ''TOOL_CALLING'', ''THINKING_BUDGET'', ''INTERRUPTIBLE''],
      hc_models = [''claude-3-7-sonnet'', ''claude-3-5-sonnet'', ''claude-3-5-haiku''],
      hc_providers = [''anthropic''], hc_default_model = ''claude-3-7-sonnet'', hc_default_provider = ''anthropic'',
      hc_available = found x [''claude''] ''ANTHROPIC_API_KEY'',
      hc_diagnostic = found_diagnostic x [''claude''] ''ANTHROPIC_API_KEY'' ''Claude Code''\<rparr>"

definition pi_capabilities :: capabilities where
  "pi_capabilities =
     \<lparr>hc_supported = [''LOCAL_EXECUTION'', ''TOOL_CALLING'', ''INTERRUPTIBLE''],
      hc_models = [''pi-embedded'', ''pi-mini''], hc_providers = [''local'', ''pi''],
      hc_default_model = ''pi-embedded'', hc_default_provider = ''local'', hc_available = True,
      hc_diagnostic = ''Pi embedded runtime available''\<rparr>"

definition router_capabilities :: "host_env \<Rightarrow> capabilities" where
  "router_capabilities x =
     \<lparr>hc_supported = [''STRUCTURED_OUTPUT'', ''THINKING_BUDGET'', ''TOOL_CALLING'', ''INTERRUPTIBLE''],
      hc_models = [''openai/gpt-4o'', ''openai/o3-mini'', ''anthropic/claude-3-7-sonnet'', ''google/gemini-2.5-pro''],
      hc_providers = [''9router'', ''openai'', ''anthropic'', ''google''],
      hc_default_model = ''openai/gpt-4o'', hc_default_provider = ''9router'', hc_available = False,
      hc_diagnostic = router_diagnostic x\<rparr>"

fun get_capabilities :: "host_env \<Rightarrow> harness \<Rightarrow> capabilities" where
  "get_capabilities x NATIVE = native_capabilities"
| "get_capabilities x ANTIGRAVITY = antigravity_capabilities x"
| "get_capabilities x CODEX = codex_capabilities x"
| "get_capabilities x CLAUDE_CODE = claude_code_capabilities x"
| "get_capabilities x PI = pi_capabilities"
| "get_capabilities x NINE_ROUTER = router_capabilities x"

lemmas capabilities_defs [simp] =
  native_capabilities_def antigravity_capabilities_def codex_capabilities_def claude_code_capabilities_def
  pi_capabilities_def router_capabilities_def

section \<open>Validation\<close>

definition validate_model :: "host_env \<Rightarrow> harness \<Rightarrow> string option \<Rightarrow> bool" where
  "validate_model x a model =
     (\<not> given model \<or> lower_text (or_default model []) \<in> lower_text ` set (hc_models (get_capabilities x a)))"

definition validate_provider :: "host_env \<Rightarrow> harness \<Rightarrow> string option \<Rightarrow> bool" where
  "validate_provider x a provider =
     (\<not> given provider \<or> lower_text (or_default provider []) \<in> lower_text ` set (hc_providers (get_capabilities x a)))"

definition missing_capabilities :: "host_env \<Rightarrow> harness \<Rightarrow> string list \<Rightarrow> string list" where
  "missing_capabilities x a required = filter (\<lambda>c. c \<notin> set (hc_supported (get_capabilities x a))) required"

text \<open>Nothing when the configuration is valid, else the status and the reason.\<close>

definition validate_execution_config ::
  "host_env \<Rightarrow> harness \<Rightarrow> worker_config \<Rightarrow> string list \<Rightarrow> (string \<times> string) option" where
  "validate_execution_config x a config required =
     (let caps = get_capabilities x a in
      if \<not> hc_available caps then Some (''UNSUPPORTED_HOST'', harness_name a @ ''Unavailable: '' @ hc_diagnostic caps)
      else if missing_capabilities x a required \<noteq> [] then Some (''DENIED'', ''CapabilityMismatch'')
      else if given (wc_effort config) \<and> ''THINKING_BUDGET'' \<notin> set (hc_supported caps)
      then Some (''DENIED'', ''CapabilityMismatch'')
      else if given (wc_model config) \<and> \<not> validate_model x a (wc_model config)
      then Some (''DENIED'', ''ModelNotSupported'')
      else if given (wc_provider config) \<and> \<not> validate_provider x a (wc_provider config)
      then Some (''DENIED'', ''ProviderNotSupported'')
      else if (case wc_budget_tokens config of None \<Rightarrow> False | Some b \<Rightarrow> wc_tokens_consumed config \<ge> b)
      then Some (''DENIED'', ''BudgetExceeded'')
      else None)"

section \<open>Execution\<close>

type_synonym execution = "(exn + (string \<times> json) list) \<times> (string \<times> string) list"

definition harness_result :: "string \<Rightarrow> string \<Rightarrow> (string \<times> json) list \<Rightarrow> (string \<times> json) list" where
  "harness_result task_id status kvs =
     [(''type'', JStr ''RESULT''), (''task_id'', JStr task_id), (''status'', JStr status)] @ kvs"

definition refused :: "string \<Rightarrow> string \<times> string \<Rightarrow> execution" where
  "refused task_id reason = (ok (harness_result task_id (fst reason) [(''error'', JStr (snd reason))]), [])"

definition metered_length :: "string \<Rightarrow> json" where
  "metered_length s = JNum (show_int (max 1 (int (length s div 4))))"

text \<open>\<open>create_file:NAME:CONTENT\<close>: the name and the content, where both are there.\<close>

definition file_instruction :: "string \<Rightarrow> (string \<times> string) option" where
  "file_instruction s =
     (if take 12 s \<noteq> ''create_file:'' then None
      else let rest = drop 12 s in
        if CHR '':'' \<notin> set rest then None
        else Some (py_strip (takeWhile (\<lambda>c. c \<noteq> CHR '':'') rest), tl (dropWhile (\<lambda>c. c \<noteq> CHR '':'') rest)))"

definition native_execute ::
  "host_env \<Rightarrow> string \<Rightarrow> string \<Rightarrow> worker_config \<Rightarrow> string \<Rightarrow> string list \<Rightarrow> execution" where
  "native_execute x task_id instruction config workspace_path required =
     (case validate_execution_config x NATIVE config required of
        Some reason \<Rightarrow> refused task_id reason
      | None \<Rightarrow>
          (case file_instruction instruction of
             Some (filename, content) \<Rightarrow>
               let path = hx_join x (if workspace_path = [] then hx_cwd x else workspace_path) filename in
               (case hx_write x path of
                  Some e \<Rightarrow> (Inl e, [])
                | None \<Rightarrow>
                    (ok (harness_result task_id ''COMPLETED''
                       [(''summary'', JStr (''Native harness created file '' @ filename)),
                        (''metered_tokens'', metered_length content),
                        (''evidence'', JObj [(''file'', JStr path), (''size'', JNum (show_int (int (length content))))])]),
                     [(path, content)]))
           | None \<Rightarrow>
               (ok (harness_result task_id ''NOT_IMPLEMENTED''
                  [(''error'', JStr ''Abstract instruction execution is not implemented on native harness''),
                   (''reason'', JStr ''Abstract instruction execution is not implemented on native harness'')]), [])))"

definition native_config :: "worker_config \<Rightarrow> worker_config" where
  "native_config config = (default_config (wc_worker_id config) (wc_team_id config))\<lparr>
     wc_role := wc_role config, wc_harness := ''native'', wc_model := Some ''native'', wc_provider := Some ''local'',
     wc_system_prompt := wc_system_prompt config, wc_working_dir := wc_working_dir config,
     wc_budget_tokens := wc_budget_tokens config, wc_tokens_consumed := wc_tokens_consumed config,
     wc_fallback_to_native := True\<rparr>"

definition handle_unavailable_or_fallback ::
  "host_env \<Rightarrow> harness \<Rightarrow> string \<Rightarrow> string \<Rightarrow> worker_config \<Rightarrow> string \<Rightarrow> string list \<Rightarrow> execution" where
  "handle_unavailable_or_fallback x a task_id instruction config workspace_path required =
     (let diagnostic = hc_diagnostic (get_capabilities x a) in
      if wc_fallback_to_native config \<and> a \<noteq> NATIVE then
        (if missing_capabilities x NATIVE required \<noteq> [] then refused task_id (''DENIED'', ''FallbackDenied'')
         else if given (wc_effort config) \<and> ''THINKING_BUDGET'' \<notin> set (hc_supported (get_capabilities x NATIVE))
         then refused task_id (''DENIED'', ''FallbackDenied'')
         else (case native_execute x task_id instruction (native_config config) workspace_path required of
            (Inl e, written) \<Rightarrow> (Inl e, written)
          | (Inr res, written) \<Rightarrow>
              (ok (AList.update ''fallback_diagnostic'' (JStr diagnostic)
                    (AList.update ''fallback_from'' (JStr (harness_name a)) res)), written)))
      else (ok (harness_result task_id ''UNSUPPORTED_HOST''
             [(''error'', JStr (harness_name a @ ''Unavailable: '' @ diagnostic)), (''diagnostic'', JStr diagnostic)]), []))"

definition reported_completion :: "host_env \<Rightarrow> harness \<Rightarrow> string \<Rightarrow> string \<Rightarrow> worker_config \<Rightarrow> execution" where
  "reported_completion x a task_id instruction config =
     (ok (harness_result task_id ''COMPLETED''
        [(''summary'', JStr (harness_title a @ '' harness executed: '' @ instruction)),
         (''metered_tokens'', metered_length instruction),
         (''evidence'', JObj [(''harness'', JStr (harness_name a)),
            (''model'', JStr (or_default (wc_model config) (hc_default_model (get_capabilities x a)))),
            (''provider'', JStr (or_default (wc_provider config) (hc_default_provider (get_capabilities x a))))])]), [])"

text \<open>The three adapters of external programs have the same body.\<close>

definition host_execute ::
  "host_env \<Rightarrow> harness \<Rightarrow> string \<Rightarrow> string \<Rightarrow> worker_config \<Rightarrow> string \<Rightarrow> string list \<Rightarrow> execution" where
  "host_execute x a task_id instruction config workspace_path required =
     (if \<not> hc_available (get_capabilities x a)
      then handle_unavailable_or_fallback x a task_id instruction config workspace_path required
      else case validate_execution_config x a config required of
        Some reason \<Rightarrow> refused task_id reason
      | None \<Rightarrow> reported_completion x a task_id instruction config)"

definition antigravity_execute :: "host_env \<Rightarrow> string \<Rightarrow> string \<Rightarrow> worker_config \<Rightarrow> string \<Rightarrow> string list \<Rightarrow> execution" where
  "antigravity_execute x task_id instruction config workspace_path required =
     host_execute x ANTIGRAVITY task_id instruction config workspace_path required"

definition codex_execute :: "host_env \<Rightarrow> string \<Rightarrow> string \<Rightarrow> worker_config \<Rightarrow> string \<Rightarrow> string list \<Rightarrow> execution" where
  "codex_execute x task_id instruction config workspace_path required =
     host_execute x CODEX task_id instruction config workspace_path required"

definition claude_code_execute :: "host_env \<Rightarrow> string \<Rightarrow> string \<Rightarrow> worker_config \<Rightarrow> string \<Rightarrow> string list \<Rightarrow> execution" where
  "claude_code_execute x task_id instruction config workspace_path required =
     host_execute x CLAUDE_CODE task_id instruction config workspace_path required"

definition pi_execute ::
  "host_env \<Rightarrow> string \<Rightarrow> string \<Rightarrow> worker_config \<Rightarrow> string list \<Rightarrow> execution" where
  "pi_execute x task_id instruction config required =
     (case validate_execution_config x PI config required of
        Some reason \<Rightarrow> refused task_id reason
      | None \<Rightarrow> reported_completion x PI task_id instruction config)"

definition router_execute ::
  "host_env \<Rightarrow> string \<Rightarrow> string \<Rightarrow> worker_config \<Rightarrow> string \<Rightarrow> string list \<Rightarrow> execution" where
  "router_execute x task_id instruction config workspace_path required =
     (if \<not> hc_available (get_capabilities x NINE_ROUTER)
      then handle_unavailable_or_fallback x NINE_ROUTER task_id instruction config workspace_path required
      else case validate_execution_config x NINE_ROUTER config required of
        Some reason \<Rightarrow> refused task_id reason
      | None \<Rightarrow> refused task_id (''UNSUPPORTED_HOST'', ''9Router execution is not wired to an authenticated transport''))"

definition execute ::
  "host_env \<Rightarrow> harness \<Rightarrow> string \<Rightarrow> string \<Rightarrow> worker_config \<Rightarrow> string \<Rightarrow> string list \<Rightarrow> execution" where
  "execute x a task_id instruction config workspace_path required =
     (case a of
        NATIVE \<Rightarrow> native_execute x task_id instruction config workspace_path required
      | PI \<Rightarrow> pi_execute x task_id instruction config required
      | NINE_ROUTER \<Rightarrow> router_execute x task_id instruction config workspace_path required
      | ANTIGRAVITY \<Rightarrow> antigravity_execute x task_id instruction config workspace_path required
      | CODEX \<Rightarrow> codex_execute x task_id instruction config workspace_path required
      | CLAUDE_CODE \<Rightarrow> claude_code_execute x task_id instruction config workspace_path required)"

lemmas host_executes [simp] = antigravity_execute_def codex_execute_def claude_code_execute_def

section \<open>Registry\<close>

type_synonym harness_registry = "(string \<times> harness) list"

definition register_adapter :: "harness \<Rightarrow> harness_registry \<Rightarrow> harness_registry" where
  "register_adapter a reg = AList.update (lower_text (harness_name a)) a reg"

definition default_registry :: harness_registry where
  "default_registry = fold register_adapter [NATIVE, ANTIGRAVITY, CODEX, CLAUDE_CODE, PI, NINE_ROUTER] []"

definition get_adapter :: "harness_registry \<Rightarrow> string \<Rightarrow> exn + harness" where
  "get_adapter reg name =
     (let slug = lower_text name;
          slug = (if slug = ''9router'' \<or> slug = ''ninerouter'' then ''9router'' else slug)
      in case map_of reg slug of
           None \<Rightarrow> raise KeyError ''Unsupported harness''
         | Some a \<Rightarrow> ok a)"

definition list_available :: "harness_registry \<Rightarrow> string list" where
  "list_available reg = sort (map fst reg)"

section \<open>Properties\<close>

lemma execution_simps [simp]:
  "map_of (harness_result t st kvs) ''status'' = Some (JStr st)"
  "fst (refused t r) = Inr res \<Longrightarrow> map_of res ''status'' = Some (JStr (fst r))"
  "snd (refused t r) = []" "snd (reported_completion x a t i c) = []"
  by (auto simp: harness_result_def refused_def reported_completion_def)

lemma validate_refusal:
  "validate_execution_config x a config required = Some (st, r) \<Longrightarrow> st = ''UNSUPPORTED_HOST'' \<or> st = ''DENIED''"
  by (auto simp: validate_execution_config_def Let_def split: if_splits)

lemma validate_ok:
  assumes "validate_execution_config x a config required = None"
  shows "hc_available (get_capabilities x a) \<and> set required \<subseteq> set (hc_supported (get_capabilities x a)) \<and>
    (given (wc_effort config) \<longrightarrow> ''THINKING_BUDGET'' \<in> set (hc_supported (get_capabilities x a))) \<and>
    validate_model x a (wc_model config) \<and> validate_provider x a (wc_provider config) \<and>
    (\<forall>b. wc_budget_tokens config = Some b \<longrightarrow> wc_tokens_consumed config < b)"
  using assms
  by (simp add: validate_execution_config_def Let_def missing_capabilities_def filter_empty_conv
        validate_model_def validate_provider_def split: if_splits option.splits) (auto simp: not_le)

definition completed :: "execution \<Rightarrow> bool" where
  "completed r = (case fst r of Inl e \<Rightarrow> False | Inr res \<Rightarrow> map_of res ''status'' = Some (JStr ''COMPLETED''))"

lemma refused_not_completed:
  "validate_execution_config x a config required = Some r \<Longrightarrow> \<not> completed (refused t r)"
  using validate_refusal [of x a config required "fst r" "snd r"]
  by (auto simp: completed_def refused_def)

lemma native_execute_cases:
  shows "completed (native_execute x t i config ws required) \<Longrightarrow> validate_execution_config x NATIVE config required = None"
    and "snd (native_execute x t i config ws required) \<noteq> [] \<Longrightarrow> validate_execution_config x NATIVE config required = None"
  using refused_not_completed
  by (auto simp: native_execute_def split: option.splits)

lemma fallback_cases:
  assumes "completed (handle_unavailable_or_fallback x a t i config ws required)
      \<or> snd (handle_unavailable_or_fallback x a t i config ws required) \<noteq> []"
  shows "wc_fallback_to_native config \<and> \<not> given (wc_effort config) \<and>
    validate_execution_config x NATIVE (native_config config) required = None"
proof -
  have status: "map_of (AList.update k v (AList.update k' v' res)) ''status'' = map_of res ''status''"
    if "k \<noteq> ''status''" "k' \<noteq> ''status''" for k k' :: string and v v' :: json and res
    using that by (simp add: update_conv')
  show ?thesis
  proof (cases "wc_fallback_to_native config \<and> a \<noteq> NATIVE \<and> missing_capabilities x NATIVE required = [] \<and>
      \<not> given (wc_effort config)")
    case True
    let ?r = "native_execute x t i (native_config config) ws required"
    have "completed ?r \<or> snd ?r \<noteq> []"
      using assms True
      by (auto simp: handle_unavailable_or_fallback_def Let_def completed_def status split: prod.splits sum.splits)
    then show ?thesis using True native_execute_cases by blast
  next
    case False
    then show ?thesis
      using assms by (auto simp: handle_unavailable_or_fallback_def Let_def completed_def refused_def harness_result_def
          split: if_splits)
  qed
qed

text \<open>
  C40: A harness completes only what it declares.  Whatever adapter is asked, a result COMPLETED, and
  any file that is written, comes from an available adapter whose declared capabilities, models and
  providers cover the request, within the token budget: the one asked, or the native one where the
  configuration permits the fallback, the one asked is not available and no reasoning effort is
  demanded.  The router completes nothing, and only the native adapter writes.
\<close>

theorem completion_is_declared:
  assumes "completed (execute x a t i config ws required) \<or> snd (execute x a t i config ws required) \<noteq> []"
  shows "\<exists>runner cfg. validate_execution_config x runner cfg required = None \<and> runner \<noteq> NINE_ROUTER \<and>
    set required \<subseteq> set (hc_supported (get_capabilities x runner)) \<and>
    validate_model x runner (wc_model cfg) \<and> validate_provider x runner (wc_provider cfg) \<and>
    (\<forall>b. wc_budget_tokens config = Some b \<longrightarrow> wc_tokens_consumed config < b) \<and>
    (snd (execute x a t i config ws required) \<noteq> [] \<longrightarrow> runner = NATIVE) \<and>
    (runner = a \<and> cfg = config \<or>
     runner = NATIVE \<and> cfg = native_config config \<and> wc_fallback_to_native config \<and>
     \<not> given (wc_effort config) \<and> \<not> hc_available (get_capabilities x a))"
proof -
  have own: ?thesis if "validate_execution_config x a config required = None" "a \<noteq> NINE_ROUTER"
      "snd (execute x a t i config ws required) \<noteq> [] \<longrightarrow> a = NATIVE"
    using validate_ok [OF that(1)] that by blast
  have fallback: ?thesis if f: "completed (handle_unavailable_or_fallback x a t i config ws required)
      \<or> snd (handle_unavailable_or_fallback x a t i config ws required) \<noteq> []"
      "\<not> hc_available (get_capabilities x a)"
  proof -
    note n = fallback_cases [OF f(1)]
    have "wc_budget_tokens (native_config config) = wc_budget_tokens config"
      "wc_tokens_consumed (native_config config) = wc_tokens_consumed config"
      by (simp_all add: native_config_def)
    then show ?thesis using n f(2) validate_ok [of x NATIVE "native_config config" required]
      by (intro exI [of _ NATIVE] exI [of _ "native_config config"]) auto
  qed
  show ?thesis
  proof (cases a)
    case NATIVE
    then show ?thesis using assms own native_execute_cases by (auto simp: execute_def)
  next
    case PI
    then show ?thesis using assms own refused_not_completed
      by (auto simp: execute_def pi_execute_def split: option.splits)
  next
    case NINE_ROUTER
    then show ?thesis using assms fallback by (simp add: execute_def router_execute_def)
  qed (use assms own fallback refused_not_completed in
      \<open>auto simp: execute_def host_execute_def split: option.splits if_splits\<close>)
qed

definition demo_host :: host_env where
  "demo_host = \<lparr>hx_which = (\<lambda>p. None), hx_environ = (\<lambda>k. None), hx_router_config = (\<lambda>u k. False), hx_cwd = ''/w'',
     hx_join = (\<lambda>a b. a @ ''/'' @ b), hx_write = (\<lambda>p. None)\<rparr>"

theorem completion_is_declared_witness:
  "\<exists>runner cfg. validate_execution_config demo_host runner cfg [''TOOL_CALLING''] = None \<and> runner = NATIVE \<and>
     snd (execute demo_host CODEX ''t'' ''create_file:a:b'' ((default_config ''w'' ''t'')\<lparr>wc_fallback_to_native := True\<rparr>)
       ''/r'' [''TOOL_CALLING'']) = [(''/r/a'', ''b'')]"
proof -
  let ?config = "(default_config ''w'' ''t'')\<lparr>wc_fallback_to_native := True\<rparr>"
  let ?r = "execute demo_host CODEX ''t'' ''create_file:a:b'' ?config ''/r'' [''TOOL_CALLING'']"
  have "py_strip ''a'' = ''a''" by (simp add: py_strip_def py_isspace_def)
  then have r: "snd ?r = [(''/r/a'', ''b'')]"
    by (simp add: execute_def host_execute_def handle_unavailable_or_fallback_def native_execute_def demo_host_def
        found_def given_def missing_capabilities_def validate_execution_config_def native_config_def default_config_def
        validate_model_def validate_provider_def or_default_def lower_text_def file_instruction_def Let_def)
  then show ?thesis using completion_is_declared [of demo_host CODEX "''t''" "''create_file:a:b''" ?config "''/r''" "[''TOOL_CALLING'']"]
    by auto
qed

text \<open>
  The registry knows six adapters.  A name in any mixture of cases resolves to the adapter of that
  name, the router also under its second spelling, and every other name is refused with \<open>KeyError\<close>.
\<close>

lemma default_registry_eq: "default_registry =
   [(''native'', NATIVE), (''antigravity'', ANTIGRAVITY), (''codex'', CODEX), (''claude_code'', CLAUDE_CODE),
    (''pi'', PI), (''9router'', NINE_ROUTER)]"
  by (simp add: default_registry_def register_adapter_def lower_text_def code_of_def Let_def)

theorem registry_resolves:
  "(get_adapter default_registry name = ok a \<longleftrightarrow>
      lower_text name = harness_name a \<or> a = NINE_ROUTER \<and> lower_text name = ''ninerouter'') \<and>
   (get_adapter default_registry name = raise KeyError ''Unsupported harness'' \<longleftrightarrow>
      lower_text name \<notin> range harness_name \<union> {''ninerouter''})"
proof -
  have names: "range harness_name = {''native'', ''antigravity'', ''codex'', ''claude_code'', ''pi'', ''9router''}"
  proof -
    have all: "UNIV = {NATIVE, ANTIGRAVITY, CODEX, CLAUDE_CODE, PI, NINE_ROUTER}" using harness.exhaust by blast
    show ?thesis unfolding all by simp
  qed
  show ?thesis
  proof (cases "lower_text name = ''ninerouter''")
    case True
    then show ?thesis by (cases a) (simp_all add: get_adapter_def default_registry_eq names)
  next
    case False
    then show ?thesis
      by (cases a) (auto simp: get_adapter_def default_registry_eq names Let_def)
  qed
qed

text \<open>An external harness reports COMPLETED for every valid request, and nothing is run for it.\<close>

lemma external_completion_unsupported:
  "hc_available (get_capabilities x a) \<Longrightarrow> a \<noteq> NATIVE \<Longrightarrow>
   validate_execution_config x a config required = None \<Longrightarrow>
   completed (execute x a t i config ws required) \<and> snd (execute x a t i config ws required) = []"
  by (cases a) (simp_all add: execute_def host_execute_def pi_execute_def completed_def reported_completion_def)

end
