(* ===== verification/WorkerRuntime.thy ===== *)
theory WorkerRuntime
  imports TrustedAuthority HarnessAdapters
begin

text \<open>
  \<open>src/subagentbridge/execution/worker_runtime_entrypoint.py\<close>: the worker process.  It reads the
  controller's messages from its standard input, one at a time, and answers with events.  A message
  yields effects in order: a child process that is started, and the events that are written (without
  their time stamps and durations), and the files that a harness adapter writes.  What happens around the process during a message (an interrupt that arrives, what a
  child process does, the host of the harness adapters) is the argument \<open>env\<close>; Python's \<open>str\<close>, \<open>int\<close>,
  \<open>float\<close> and number literals are in the record \<open>python\<close>.  An exception outside the \<open>try\<close> blocks ends
  the process.
\<close>

record python =
  py_sha :: "string \<Rightarrow> string"
  py_mac :: "string \<Rightarrow> string \<Rightarrow> string"
  py_fixed :: "ticket_time \<Rightarrow> string"
  py_number :: "string \<Rightarrow> ticket_time"
  py_literal :: "ticket_time \<Rightarrow> string"
  py_repr :: "json \<Rightarrow> string"
  py_int :: "json \<Rightarrow> int option"
  py_float :: "json \<Rightarrow> real option"

definition py_str :: "python \<Rightarrow> json \<Rightarrow> string" where
  "py_str h v = (case v of JStr s \<Rightarrow> s | _ \<Rightarrow> py_repr h v)"

text \<open>
  The numeric value of an operand of \<open>+\<close> and \<open>>\<close>; none where Python raises \<open>TypeError\<close>.  A literal may be
  too large for a float.
\<close>

definition operand :: "python \<Rightarrow> json \<Rightarrow> ticket_time option" where
  "operand h v = (case v of
     JNum t \<Rightarrow> Some (py_number h t)
   | JBool b \<Rightarrow> Some (Finite (if b then 1 else 0))
   | _ \<Rightarrow> None)"

definition exceeds :: "ticket_time \<Rightarrow> real \<Rightarrow> bool" where
  "exceeds t limit = (case t of Finite x \<Rightarrow> x > limit | PosInf \<Rightarrow> True | _ \<Rightarrow> False)"

section \<open>Tickets as JSON\<close>

text \<open>
  \<open>verify_ticket_binding\<close> on the dictionary that arrives.  The command is a list of texts, the
  workspace any JSON value that the payload holds.
\<close>

definition resource_of_json :: "python \<Rightarrow> string list \<Rightarrow> json \<Rightarrow> string \<Rightarrow> string" where
  "resource_of_json h command workspace_path task_id =
     py_sha h (dumps True '' '' (sort_keys (JObj [(''command'', JList (map JStr command)),
       (''workspace_path'', workspace_path), (''task_id'', JStr task_id)])))"

definition ticket_json :: "python \<Rightarrow> ticket \<Rightarrow> json" where
  "ticket_json h tk = JObj
     [(''action_id'', JStr (tk_action_id tk)), (''worker_id'', JStr (tk_worker_id tk)),
      (''task_id'', JStr (tk_task_id tk)), (''resource'', JStr (tk_resource tk)),
      (''expiry'', JNum (py_literal h (tk_expiry tk))), (''signature'', JStr (tk_signature tk))]"

definition json_time :: "python \<Rightarrow> json \<Rightarrow> ticket_time" where
  "json_time h v = (case v of JNum t \<Rightarrow> py_number h t | _ \<Rightarrow> Malformed)"

definition signed_text :: "python \<Rightarrow> (string \<times> json) list \<Rightarrow> string" where
  "signed_text h kvs =
     py_str h (json_get ''action_id'' (JStr []) kvs) @ '':'' @
     py_str h (json_get ''worker_id'' (JStr []) kvs) @ '':'' @
     py_str h (json_get ''task_id'' (JStr []) kvs) @ '':'' @
     py_str h (json_get ''resource'' (JStr []) kvs) @ '':'' @
     py_fixed h (json_time h (json_get ''expiry'' (JNum ''0.0'') kvs))"

definition well_formed_signature :: "json \<Rightarrow> bool" where
  "well_formed_signature v = (case v of JStr s \<Rightarrow> length s = 64 \<and> is_ascii s | _ \<Rightarrow> False)"

definition verify_ticket ::
  "python \<Rightarrow> real \<Rightarrow> json \<Rightarrow> string \<Rightarrow> string \<Rightarrow> string \<Rightarrow> string list \<Rightarrow> json \<Rightarrow> bool \<times> string" where
  "verify_ticket h now ticket session_secret worker_id task_id command workspace_path =
     (case ticket of
        JObj kvs \<Rightarrow>
          let t_expiry = json_time h (json_get ''expiry'' (JNum ''0.0'') kvs);
              sig = json_get ''signature'' (JStr []) kvs in
          if \<not> json_truthy (json_get ''action_id'' (JStr []) kvs)
          then (False, ''DENIED: ticket missing action_id'')
          else if json_get ''worker_id'' (JStr []) kvs \<noteq> JStr worker_id
          then (False, ''DENIED: ticket worker mismatch'')
          else if json_get ''task_id'' (JStr []) kvs \<noteq> JStr task_id
          then (False, ''DENIED: ticket task mismatch'')
          else if t_expiry = Malformed then (False, ''DENIED: ticket expiry malformed'')
          else if \<not> well_formed_signature sig then (False, ''DENIED: ticket signature malformed'')
          else if \<not> (before_expiry now t_expiry \<and> expiry_within t_expiry (now + 60))
          then (if expiry_within t_expiry now then (False, ''DENIED: ticket expired'')
                else (False, ''DENIED: ticket expiry malformed or exceeds maximum TTL''))
          else if json_get ''resource'' (JStr []) kvs \<noteq> JStr (resource_of_json h command workspace_path task_id)
          then (False, ''DENIED: ticket resource mismatch with command/task/workspace'')
          else if sig \<noteq> JStr (py_mac h session_secret (signed_text h kvs))
          then (False, ''DENIED: ticket cryptographic signature invalid'')
          else (True, ''VALID'')
      | _ \<Rightarrow> (False, ''DENIED: invalid ticket format''))"

section \<open>State, messages and effects\<close>

record worker_state =
  ws_worker_id :: string
  ws_team_id :: string
  ws_role :: string
  ws_budget_tokens :: "int option"
  ws_session_secret :: string
  ws_worktree_path :: "string option"
  ws_harness :: string
  ws_model :: json
  ws_provider :: json
  ws_effort :: json
  ws_fallback :: bool
  ws_tokens :: int
  ws_consumed :: "json set"

text \<open>
  The start: the command line, the secret from it or from the environment, else from the first line
  of standard input if that is the controller's \<open>INIT_ACK\<close>.
\<close>

definition ack_secret :: "python \<Rightarrow> string \<Rightarrow> string" where
  "ack_secret h line =
     (case loads line of
        Some (JObj kvs) \<Rightarrow>
          if json_get ''command'' JNull kvs = JStr ''INIT_ACK''
          then py_str h (json_get ''session_secret'' (JStr []) kvs) else []
      | _ \<Rightarrow> [])"

definition start_worker ::
  "python \<Rightarrow> worker_config \<Rightarrow> string option \<Rightarrow> string \<Rightarrow> string \<Rightarrow> worker_state" where
  "start_worker h config worktree_path given_secret ack_line =
     \<lparr>ws_worker_id = wc_worker_id config, ws_team_id = wc_team_id config, ws_role = wc_role config,
      ws_budget_tokens = wc_budget_tokens config,
      ws_session_secret = (if given_secret = [] then ack_secret h ack_line else given_secret),
      ws_worktree_path = worktree_path, ws_harness = wc_harness config,
      ws_model = opt_text (wc_model config), ws_provider = opt_text (wc_provider config),
      ws_effort = opt_text (wc_effort config), ws_fallback = wc_fallback_to_native config,
      ws_tokens = wc_tokens_consumed config, ws_consumed = {}\<rparr>"

text \<open>The messages; the controller's task ids are texts.\<close>

datatype worker_message =
    Ping
  | Interrupt json
  | Reconfigure "(string \<times> json) list"
  | Task string "(string \<times> json) list"
  | BadTask
  | Stop
  | Other

definition worker_message_of :: "(string \<times> json) list \<Rightarrow> worker_message" where
  "worker_message_of kvs =
     (case json_get ''command'' JNull kvs of
        JStr c \<Rightarrow>
          if c = ''PING'' then Ping
          else if c = ''INTERRUPT'' then Interrupt (json_get ''task_id'' (JStr []) kvs)
          else if c = ''RECONFIGURE'' then Reconfigure kvs
          else if c = ''TASK''
          then (case json_get ''payload'' (JObj []) kvs of
                  JObj payload \<Rightarrow> Task (text_of (json_get ''task_id'' (JStr ''unknown'') kvs)) payload
                | _ \<Rightarrow> BadTask)
          else if c = ''STOP'' then Stop else Other
      | _ \<Rightarrow> Other)"

datatype effect =
    Send "(string \<times> json) list"
  | Spawn "string list" "string option"
  | Write string string

datatype flow = Continue | Ended | Crashed exn

datatype run_outcome =
    SpawnFailed string
  | Cancelled
  | TimedOut
  | Exited int string string int

record task_env =
  te_now :: real
  te_cancelled_before :: bool
  te_is_dir :: "string \<Rightarrow> bool"
  te_run :: run_outcome
  te_cancelled_waiting :: bool
  te_host :: host_env

definition result_event :: "string \<Rightarrow> string \<Rightarrow> (string \<times> json) list \<Rightarrow> effect" where
  "result_event task_id status kvs =
     Send ([(''type'', JStr ''RESULT''), (''task_id'', JStr task_id), (''status'', JStr status)] @ kvs)"

definition denied :: "string \<Rightarrow> string \<Rightarrow> string \<Rightarrow> effect" where
  "denied task_id reason err = result_event task_id ''DENIED'' [(''reason'', JStr reason), (''error'', JStr err)]"

definition int_json :: "int \<Rightarrow> json" where
  "int_json i = JNum (show_int i)"

section \<open>Tasks\<close>

text \<open>
  Admission: the budget, then the booleans that a payload must not carry.  Where the requested tokens
  are no number, the addition raises.
\<close>

definition over_budget :: "python \<Rightarrow> (string \<times> json) list \<Rightarrow> worker_state \<Rightarrow> exn + bool" where
  "over_budget h payload w =
     (case ws_budget_tokens w of
        None \<Rightarrow> ok False
      | Some budget \<Rightarrow>
          (case operand h (json_get ''tokens_requested'' (JNum ''0'') payload) of
             None \<Rightarrow> raise TypeError ''unsupported operand''
           | Some requested \<Rightarrow> ok (exceeds requested (real_of_int budget - real_of_int (ws_tokens w)))))"

definition remaining_tokens :: "worker_state \<Rightarrow> json" where
  "remaining_tokens w =
     (case ws_budget_tokens w of None \<Rightarrow> JNull | Some b \<Rightarrow> int_json (b - ws_tokens w))"

definition budget_denial :: "string \<Rightarrow> worker_state \<Rightarrow> effect" where
  "budget_denial task_id w = result_event task_id ''DENIED''
     [(''reason'', JStr ''BudgetExceeded''), (''error'', JStr ''BudgetExceeded''),
      (''tokens_consumed'', int_json (ws_tokens w)),
      (''remaining_tokens'', (case ws_budget_tokens w of
          None \<Rightarrow> JNull | Some b \<Rightarrow> int_json (max 0 (b - ws_tokens w))))]"

definition command_list :: "python \<Rightarrow> json \<Rightarrow> string list option" where
  "command_list h command =
     (case command of
        JStr s \<Rightarrow> Some [s]
      | JList xs \<Rightarrow> Some (map (py_str h) xs)
      | _ \<Rightarrow> None)"

definition effective_workspace :: "(string \<times> json) list \<Rightarrow> worker_state \<Rightarrow> json" where
  "effective_workspace payload w =
     (if json_truthy (json_get ''workspace_path'' JNull payload) then json_get ''workspace_path'' JNull payload
      else case ws_worktree_path w of None \<Rightarrow> JStr [] | Some p \<Rightarrow> JStr p)"

text \<open>After a child process has ended: the meter, then the event.\<close>

definition metered_tokens :: "python \<Rightarrow> (string \<times> json) list \<Rightarrow> string \<Rightarrow> int option" where
  "metered_tokens h payload stdout =
     py_int h (json_get ''tokens_metered'' (int_json (max 1 (int (length stdout div 4)))) payload)"

definition finish_command ::
  "python \<Rightarrow> string \<Rightarrow> (string \<times> json) list \<Rightarrow> string list \<Rightarrow> int \<Rightarrow> string \<Rightarrow> string \<Rightarrow> int \<Rightarrow> worker_state
   \<Rightarrow> effect list \<times> worker_state" where
  "finish_command h task_id payload command returncode stdout stderr pid w =
     (case metered_tokens h payload stdout of
        None \<Rightarrow> ([result_event task_id ''FAILED'' [(''error'', JStr ''SubprocessExecutionError'')]], w)
      | Some metered \<Rightarrow>
          let w' = w\<lparr>ws_tokens := ws_tokens w + metered\<rparr>;
              report = [(''stdout'', JStr stdout), (''stderr'', JStr stderr),
                (''exit_code'', int_json returncode), (''metered_tokens'', int_json metered),
                (''tokens_consumed'', int_json (ws_tokens w')), (''remaining_tokens'', remaining_tokens w')]
          in if returncode = 0
             then ([result_event task_id ''COMPLETED'' ([(''summary'', JStr ''executed command successfully'')] @ report @
                     [(''evidence'', JObj [(''command'', JList (map JStr command)), (''exit_code'', int_json 0),
                        (''pid'', int_json pid)])])], w')
             else ([result_event task_id ''FAILED'' ([(''error'', JStr ''Command failed'')] @ report)], w'))"

definition working_directory :: "task_env \<Rightarrow> json \<Rightarrow> string option" where
  "working_directory env workspace =
     (if text_of workspace \<noteq> [] \<and> te_is_dir env (text_of workspace) then Some (text_of workspace) else None)"

text \<open>Running an authorized command; the time limit is read before the process is started.\<close>

definition run_command ::
  "python \<Rightarrow> task_env \<Rightarrow> string \<Rightarrow> (string \<times> json) list \<Rightarrow> string list \<Rightarrow> json \<Rightarrow> worker_state
   \<Rightarrow> flow \<times> effect list \<times> worker_state" where
  "run_command h env task_id payload command workspace w =
     (if te_cancelled_before env
      then (Continue, [result_event task_id ''CANCELLED''
              [(''reason'', JStr ''Task execution was cancelled before spawn'')]], w)
      else if py_float h (json_get ''timeout'' (JNum ''30.0'') payload) = None
      then (Crashed (ValueError, ''could not convert timeout to float''), [], w)
      else (case te_run env of
         SpawnFailed e \<Rightarrow> (Continue, [result_event task_id ''FAILED''
            [(''error'', JStr (''SubprocessExecutionError: '' @ e))]], w)
       | Cancelled \<Rightarrow> (Continue, [Spawn command (working_directory env workspace), result_event task_id ''CANCELLED''
            [(''reason'', JStr ''Task was interrupted by controller'')]], w)
       | TimedOut \<Rightarrow> (Continue, [Spawn command (working_directory env workspace), result_event task_id ''FAILED''
            [(''error'', JStr ''Command timed out'')]], w)
       | Exited returncode stdout stderr pid \<Rightarrow>
           (case finish_command h task_id payload command returncode stdout stderr pid w of
              (es, w') \<Rightarrow> (Continue, Spawn command (working_directory env workspace) # es, w'))))"

definition unapproved :: string where
  "unapproved = ''Default-deny: unapproved command execution blocked by policy''"

definition handle_command ::
  "python \<Rightarrow> task_env \<Rightarrow> string \<Rightarrow> (string \<times> json) list \<Rightarrow> json \<Rightarrow> worker_state
   \<Rightarrow> flow \<times> effect list \<times> worker_state" where
  "handle_command h env task_id payload command w =
     (case command_list h command of
        None \<Rightarrow> (Continue, [denied task_id ''Default-deny: invalid command payload'' ''InvalidCommandFormat''], w)
      | Some cmd \<Rightarrow>
          let ticket = json_get ''execution_ticket'' JNull payload;
              workspace = effective_workspace payload w in
          if \<not> json_truthy ticket \<or> ws_session_secret w = []
          then (Continue, [denied task_id unapproved
                  ''AuthorizationFailed: missing execution ticket or session secret''], w)
          else (case verify_ticket h (te_now env) ticket (ws_session_secret w) (ws_worker_id w) task_id cmd workspace of
             (valid, reason) \<Rightarrow>
               if \<not> valid
               then (Continue, [denied task_id (''Default-deny: '' @ reason) (''AuthorizationFailed: '' @ reason)], w)
               else let action_id = json_get ''action_id'' (JStr []) (dict_items ticket) in
                 if action_id \<in> ws_consumed w
                 then (Continue, [denied task_id ''Default-deny: replayed execution ticket rejected''
                         ''TicketReplayPrevented''], w)
                 else run_command h env task_id payload cmd workspace
                        (w\<lparr>ws_consumed := insert action_id (ws_consumed w)\<rparr>)))"

text \<open>Instructions go to the configured harness adapter.\<close>

definition check_capabilities :: "(string \<times> json) list \<Rightarrow> exn + string list" where
  "check_capabilities payload =
     (let raw = json_get ''required_capabilities'' JNull payload in
      if \<not> json_truthy raw then ok []
      else case raw of
        JList xs \<Rightarrow>
          if length xs > length CAPABILITIES \<or> \<not> list_all (\<lambda>x. x \<in> JStr ` set CAPABILITIES) xs
          then raise ValueError ''invalid capability set'' else ok (remdups (map text_of xs))
      | _ \<Rightarrow> raise ValueError ''invalid capability set'')"

definition or_json :: "json \<Rightarrow> json \<Rightarrow> json" where
  "or_json a b = (if json_truthy a then a else b)"

definition instruction_config :: "(string \<times> json) list \<Rightarrow> worker_state \<Rightarrow> worker_config" where
  "instruction_config payload w = (default_config (ws_worker_id w) (ws_team_id w))\<lparr>
     wc_role := ws_role w, wc_harness := ws_harness w,
     wc_model := text_opt_of (or_json (json_get ''model'' JNull payload) (ws_model w)),
     wc_provider := text_opt_of (or_json (json_get ''provider'' JNull payload) (ws_provider w)),
     wc_effort := text_opt_of (or_json (json_get ''effort'' JNull payload) (ws_effort w)),
     wc_budget_tokens := ws_budget_tokens w, wc_tokens_consumed := ws_tokens w,
     wc_fallback_to_native := json_truthy (json_get ''fallback_to_native'' (JBool (ws_fallback w)) payload)\<rparr>"

definition adapter_failure :: "string \<Rightarrow> exn \<Rightarrow> worker_state \<Rightarrow> flow \<times> effect list \<times> worker_state" where
  "adapter_failure task_id e w =
     (if caught_by [KeyError] e
      then (Continue, [result_event task_id ''UNSUPPORTED_HOST'' [(''error'', JStr (snd e))]], w)
      else if caught_by [ValueError, TypeError] e
      then (Continue, [result_event task_id ''DENIED'' [(''error'', JStr ''InvalidCapabilityOrExecutionConfig'')]], w)
      else (Crashed e, [], w))"

definition handle_instruction ::
  "python \<Rightarrow> task_env \<Rightarrow> string \<Rightarrow> (string \<times> json) list \<Rightarrow> json \<Rightarrow> worker_state
   \<Rightarrow> flow \<times> effect list \<times> worker_state" where
  "handle_instruction h env task_id payload instruction w =
     (case get_adapter default_registry (ws_harness w) of
        Inl e \<Rightarrow> adapter_failure task_id e w
      | Inr adapter \<Rightarrow>
     (case check_capabilities payload of
        Inl e \<Rightarrow> adapter_failure task_id e w
      | Inr required \<Rightarrow>
     (case execute (te_host env) adapter task_id (py_str h instruction) (instruction_config payload w)
             (text_of (effective_workspace payload w)) required of
        (Inl e, written) \<Rightarrow> adapter_failure task_id e w
      | (Inr res, written) \<Rightarrow>
          let writes = map (\<lambda>(p, c). Write p c) written in
          (case map_of res ''metered_tokens'' of
             None \<Rightarrow> (Continue, writes @ [Send res], w)
           | Some m \<Rightarrow>
               (case py_int h m of
                  None \<Rightarrow> (Continue, writes @ [result_event task_id ''DENIED''
                    [(''error'', JStr ''InvalidCapabilityOrExecutionConfig'')]], w)
                | Some n \<Rightarrow>
                    let w' = w\<lparr>ws_tokens := ws_tokens w + n\<rparr>;
                        res1 = AList.update ''tokens_consumed'' (int_json (ws_tokens w')) res;
                        res2 = (case ws_budget_tokens w of
                                  None \<Rightarrow> res1
                                | Some b \<Rightarrow> AList.update ''remaining_tokens'' (int_json (max 0 (b - ws_tokens w'))) res1)
                    in (Continue, writes @ [Send res2], w'))))))"

text \<open>A task without a command: a wait that never completes it, an instruction, or nothing.\<close>

definition handle_other ::
  "python \<Rightarrow> task_env \<Rightarrow> string \<Rightarrow> (string \<times> json) list \<Rightarrow> worker_state
   \<Rightarrow> flow \<times> effect list \<times> worker_state" where
  "handle_other h env task_id payload w =
     (case operand h (json_get ''duration'' (JNum ''0'') payload) of
        None \<Rightarrow> (Crashed (TypeError, ''duration is not a number''), [], w)
      | Some duration \<Rightarrow>
          if exceeds duration 0
          then (Continue,
            [if te_cancelled_waiting env
             then result_event task_id ''CANCELLED'' [(''reason'', JStr ''Task was interrupted by controller'')]
             else result_event task_id ''NOT_IMPLEMENTED''
               [(''reason'', JStr ''Simulated sleep cannot report COMPLETED without real tool execution''),
                (''error'', JStr ''Simulated sleep cannot report COMPLETED without real tool execution'')]], w)
          else let instruction = json_get ''instruction'' JNull payload in
            if json_truthy instruction then handle_instruction h env task_id payload instruction w
            else (Continue, [result_event task_id ''NOT_IMPLEMENTED''
              [(''reason'', JStr ''Task without command or instruction cannot be executed''),
               (''error'', JStr ''Task without command or instruction cannot be executed'')]], w))"

definition handle_task ::
  "python \<Rightarrow> task_env \<Rightarrow> string \<Rightarrow> (string \<times> json) list \<Rightarrow> worker_state
   \<Rightarrow> flow \<times> effect list \<times> worker_state" where
  "handle_task h env task_id payload w =
     (case over_budget h payload w of
        Inl e \<Rightarrow> (Crashed e, [], w)
      | Inr True \<Rightarrow> (Continue, [budget_denial task_id w], w)
      | Inr False \<Rightarrow>
          if map_of payload ''approved'' \<noteq> None \<or> map_of payload ''approver'' \<noteq> None
          then (Continue, [denied task_id unapproved
                  ''ApprovalSpoofingDetected: in-payload approval booleans are untrusted and rejected by policy''], w)
          else (case map_of payload ''command'' of
             Some command \<Rightarrow> handle_command h env task_id payload command w
           | None \<Rightarrow> handle_other h env task_id payload w))"

section \<open>The loop\<close>

definition reconfigured :: "python \<Rightarrow> (string \<times> json) list \<Rightarrow> worker_state \<Rightarrow> worker_state" where
  "reconfigured h kvs w = w\<lparr>
     ws_harness := (if json_truthy (json_get ''harness'' JNull kvs)
                    then py_str h (json_get ''harness'' JNull kvs) else ws_harness w),
     ws_model := (case map_of kvs ''model'' of None \<Rightarrow> ws_model w | Some v \<Rightarrow> v),
     ws_provider := (case map_of kvs ''provider'' of None \<Rightarrow> ws_provider w | Some v \<Rightarrow> v),
     ws_effort := (case map_of kvs ''effort'' of None \<Rightarrow> ws_effort w | Some v \<Rightarrow> v),
     ws_fallback := (case map_of kvs ''fallback_to_native'' of None \<Rightarrow> ws_fallback w | Some v \<Rightarrow> json_truthy v)\<rparr>"

definition handle_message ::
  "python \<Rightarrow> task_env \<Rightarrow> worker_message \<Rightarrow> worker_state \<Rightarrow> flow \<times> effect list \<times> worker_state" where
  "handle_message h env msg w =
     (case msg of
        Ping \<Rightarrow> (Continue, [Send [(''type'', JStr ''PONG''), (''worker_id'', JStr (ws_worker_id w))]], w)
      | Interrupt task_id \<Rightarrow>
          (Continue, [Send [(''type'', JStr ''INTERRUPTED''), (''worker_id'', JStr (ws_worker_id w)),
             (''task_id'', task_id)]], w)
      | Reconfigure kvs \<Rightarrow>
          let w' = reconfigured h kvs w in
          (Continue, [Send [(''type'', JStr ''RECONFIGURED''), (''worker_id'', JStr (ws_worker_id w)),
             (''request_id'', json_get ''request_id'' JNull kvs), (''harness'', JStr (ws_harness w')),
             (''model'', ws_model w'), (''provider'', ws_provider w'), (''effort'', ws_effort w'),
             (''fallback_to_native'', JBool (ws_fallback w'))]], w')
      | Task task_id payload \<Rightarrow> handle_task h env task_id payload w
      | BadTask \<Rightarrow> (Crashed (AttributeError, ''payload.get''), [], w)
      | Stop \<Rightarrow> (Ended, [Send [(''type'', JStr ''STOPPED''), (''worker_id'', JStr (ws_worker_id w))]], w)
      | Other \<Rightarrow> (Continue, [], w))"

text \<open>
  The reader thread: what a line puts into the queue of the loop.  A line that is no JSON is answered
  with an error event.
\<close>

definition read_line :: "string \<Rightarrow> worker_message option + string" where
  "read_line line =
     (if blank line then Inl None
      else case loads (py_strip line) of
        None \<Rightarrow> Inr ''Invalid JSON''
      | Some (JObj kvs) \<Rightarrow> Inl (Some (worker_message_of kvs))
      | Some _ \<Rightarrow> Inl None)"

fun inbox :: "string list \<Rightarrow> worker_message list" where
  "inbox [] = []"
| "inbox (l # ls) = (case read_line l of Inl (Some msg) \<Rightarrow> msg # inbox ls | _ \<Rightarrow> inbox ls)"

fun worker_loop ::
  "python \<Rightarrow> (task_env \<times> worker_message) list \<Rightarrow> worker_state \<Rightarrow> flow \<times> effect list \<times> worker_state" where
  "worker_loop h [] w = (Ended, [], w)"
| "worker_loop h ((env, msg) # msgs) w =
     (case handle_message h env msg w of
        (Continue, es, w') \<Rightarrow>
          (case worker_loop h msgs w' of (flow, es', w'') \<Rightarrow> (flow, es @ es', w''))
      | (flow, es, w') \<Rightarrow> (flow, es, w'))"

end
