(* ===== verification/WorkerIsolation.thy ===== *)
theory WorkerIsolation
  imports Prelude
begin

text \<open>
  \<open>src/subagentbridge/execution/worker_isolation.py\<close>: the isolation policy of worker processes, the
  environment they get, and the check that a worker cannot rewrite the code it runs.  The platform,
  the supervisor's environment and user database, and the file system are the record \<open>launcher\<close>; the
  Windows job object calls are the operating system's and not modelled.
\<close>

section \<open>Policy\<close>

record isolation_policy =
  ip_mode :: string
  ip_uid :: "int option"
  ip_gid :: "int option"
  ip_require_distinct :: bool

definition positive :: "int option \<Rightarrow> bool" where
  "positive x = (case x of None \<Rightarrow> False | Some i \<Rightarrow> 0 < i)"

definition mk_isolation_policy :: "string \<Rightarrow> int option \<Rightarrow> int option \<Rightarrow> bool \<Rightarrow> exn + isolation_policy" where
  "mk_isolation_policy mode uid gid require_distinct =
     (if mode \<notin> {''inherited'', ''dedicated_user'', ''windows_job_restricted''}
      then raise ValueError ''Unsupported isolation mode''
      else if require_distinct \<and> mode \<noteq> ''dedicated_user''
      then raise PermissionError ''E18_BLOCKED: distinct OS worker identity requires Linux dedicated_user''
      else if mode \<in> {''inherited'', ''windows_job_restricted''} \<and> (uid \<noteq> None \<or> gid \<noteq> None)
      then raise ValueError ''UID/GID cannot be set when isolation mode is not dedicated_user''
      else if mode = ''dedicated_user'' \<and> (\<not> positive uid \<or> \<not> positive gid)
      then raise ValueError ''Dedicated-user isolation requires explicit positive non-root UID/GID''
      else ok \<lparr>ip_mode = mode, ip_uid = uid, ip_gid = gid, ip_require_distinct = require_distinct\<rparr>)"

definition default_policy :: isolation_policy where
  "default_policy = \<lparr>ip_mode = ''inherited'', ip_uid = None, ip_gid = None, ip_require_distinct = False\<rparr>"

section \<open>Trusted code\<close>

text \<open>
  \<open>lstat\<close> of a path: links, owner, group and the three mode bits that are looked at.  The candidates
  are the root, its parents, the package directory, everything below it and the modules beside it.
\<close>

record path_meta =
  pm_symlink :: bool
  pm_uid :: int
  pm_gid :: int
  pm_group_write :: bool
  pm_world_write :: bool
  pm_sticky :: bool

definition worker_can_modify :: "int \<Rightarrow> int \<Rightarrow> bool \<Rightarrow> path_meta \<Rightarrow> bool" where
  "worker_can_modify uid gid is_parent m \<longleftrightarrow>
     (let worker_owned = pm_uid m = uid;
          group_write = pm_gid m = gid \<and> pm_group_write m;
          sticky_protected = is_parent \<and> pm_sticky m \<and> \<not> worker_owned
      in worker_owned \<or> group_write \<or> (pm_world_write m \<and> \<not> sticky_protected))"

fun check_candidates :: "int \<Rightarrow> int \<Rightarrow> (bool \<times> path_meta) list \<Rightarrow> exn + unit" where
  "check_candidates uid gid [] = ok ()"
| "check_candidates uid gid ((is_parent, m) # rest) =
     (if pm_symlink m then raise PermissionError ''Trusted runtime contains a symlink''
      else if worker_can_modify uid gid is_parent m
      then raise PermissionError ''Worker UID/GID can modify trusted runtime path''
      else check_candidates uid gid rest)"

record launcher =
  ln_linux :: bool
  ln_windows :: bool
  ln_euid :: int
  ln_environ :: "string \<Rightarrow> string option"
  ln_account :: "int \<Rightarrow> (int \<times> string \<times> string) option"
  ln_code_root :: string
  ln_package_ok :: bool
  ln_candidates :: "(bool \<times> path_meta) list"
  ln_defpath :: string

definition verify_trusted_code_path :: "launcher \<Rightarrow> int \<Rightarrow> int \<Rightarrow> exn + unit" where
  "verify_trusted_code_path h uid gid =
     (if \<not> ln_package_ok h then raise PermissionError ''Trusted Simpul package directory is missing or a symlink''
      else check_candidates uid gid (ln_candidates h))"

section \<open>Launch configuration\<close>

definition WORKER_ENV_KEYS :: "string list" where
  "WORKER_ENV_KEYS = [''PATH'', ''SYSTEMROOT'', ''WINDIR'', ''COMSPEC'', ''PATHEXT'', ''TEMP'', ''TMP'',
     ''TMPDIR'', ''HOME'', ''USERPROFILE'', ''LANG'', ''LC_ALL'', ''LC_CTYPE'', ''PYTHONIOENCODING'',
     ''PYTHONUTF8'', ''VIRTUAL_ENV'']"

definition env_values :: "launcher \<Rightarrow> (string \<Rightarrow> bool) \<Rightarrow> string list \<Rightarrow> (string \<times> string) list" where
  "env_values h keep keys = concat (map (\<lambda>k. case ln_environ h k of
     None \<Rightarrow> [] | Some v \<Rightarrow> if keep v then [(k, v)] else []) keys)"

definition python_env :: "launcher \<Rightarrow> (string \<times> string) list" where
  "python_env h = [(''PYTHONPATH'', ln_code_root h), (''PYTHONNOUSERSITE'', ''1'')]"

text \<open>The result: the child's environment and, for a dedicated user, its uid and gid.\<close>

definition worker_launch_configuration ::
  "launcher \<Rightarrow> isolation_policy \<Rightarrow> exn + (string \<times> string) list \<times> (int \<times> int) option" where
  "worker_launch_configuration h policy =
     (if ip_mode policy = ''inherited'' then ok (env_values h (\<lambda>v. v \<noteq> []) WORKER_ENV_KEYS @ python_env h, None)
      else if ip_mode policy = ''windows_job_restricted'' then
        (if \<not> ln_windows h
         then raise RuntimeError ''WINDOWS_JOB_RESTRICTED_UNAVAILABLE: Windows Job Object is only available on win32''
         else ok (env_values h (\<lambda>v. v \<noteq> []) WORKER_ENV_KEYS @ python_env h, None))
      else if \<not> ln_linux h
      then raise RuntimeError ''DEDICATED_USER_UNAVAILABLE: Linux OS identity separation required''
      else if ln_euid h \<noteq> 0
      then raise PermissionError ''DEDICATED_USER_UNAVAILABLE: supervisor must have permission to set UID/GID''
      else (case (ip_uid policy, ip_gid policy) of
         (Some uid, Some gid) \<Rightarrow>
           (case ln_account h uid of
              None \<Rightarrow> raise ValueError ''DEDICATED_USER_UNAVAILABLE: UID has no dedicated Linux account''
            | Some (pw_gid, pw_name, pw_dir) \<Rightarrow>
                if pw_gid \<noteq> gid
                then raise ValueError ''Configured GID must be the dedicated worker account primary group''
                else if ln_environ h ''HOME'' = Some pw_dir
                then raise ValueError ''Dedicated worker HOME must not equal supervisor HOME''
                else and_then (verify_trusted_code_path h uid gid) (\<lambda>_.
                  ok ([(''PATH'', ln_defpath h), (''HOME'', pw_dir), (''USER'', pw_name), (''LOGNAME'', pw_name)]
                      @ python_env h @ env_values h (\<lambda>_. True) [''LANG'', ''LC_ALL'', ''LC_CTYPE''],
                      Some (uid, gid))))
       | _ \<Rightarrow> raise AssertionError []))"

section \<open>Properties\<close>

lemma env_values_keys: "fst ` set (env_values h keep keys) \<subseteq> set keys"
  by (auto simp: env_values_def split: option.splits if_splits)

lemma check_candidates_ok:
  "check_candidates uid gid cs = Inr () \<longleftrightarrow>
   list_all (\<lambda>(p, m). \<not> pm_symlink m \<and> \<not> worker_can_modify uid gid p m) cs"
  by (induction cs) (auto split: if_splits)

lemma allowed_keys:
  "''PYTHONPATH'' \<notin> set WORKER_ENV_KEYS" "''GITHUB_TOKEN'' \<notin> set WORKER_ENV_KEYS"
  "set [''PATH'', ''HOME'', ''LANG'', ''LC_ALL'', ''LC_CTYPE''] \<subseteq> set WORKER_ENV_KEYS"
  by (simp_all add: WORKER_ENV_KEYS_def)

lemma mk_isolation_policy_ok:
  assumes "mk_isolation_policy mode uid gid require_distinct = Inr policy"
  shows "ip_mode policy = mode" "ip_uid policy = uid" "ip_gid policy = gid"
    "require_distinct \<Longrightarrow> mode = ''dedicated_user''"
    "mode = ''dedicated_user'' \<Longrightarrow> positive uid \<and> positive gid"
    "mode = ''inherited'' \<or> mode = ''dedicated_user'' \<or> mode = ''windows_job_restricted''"
  using assms unfolding mk_isolation_policy_def by (simp_all split: if_split_asm) (drule sym, simp)+

lemma path_of_inherited:
  "map_of (env_values h keep WORKER_ENV_KEYS @ python_env h) ''PYTHONPATH'' = Some (ln_code_root h)"
proof -
  have "''PYTHONPATH'' \<notin> fst ` set (env_values h keep WORKER_ENV_KEYS)"
    using env_values_keys [of h keep WORKER_ENV_KEYS] allowed_keys(1) by blast
  then have "map_of (env_values h keep WORKER_ENV_KEYS) ''PYTHONPATH'' = None"
    by (rule map_of_eq_None_iff [THEN iffD2])
  then show ?thesis by (simp add: map_add_def python_env_def split: option.split)
qed


definition demo_launcher :: launcher where
  "demo_launcher = \<lparr>ln_linux = True, ln_windows = False, ln_euid = 0,
     ln_environ = [''PATH'' \<mapsto> ''/bin'', ''GITHUB_TOKEN'' \<mapsto> ''secret''],
     ln_account = [1000 \<mapsto> (1000, ''worker'', ''/home/worker'')], ln_code_root = ''/opt/simpul'',
     ln_package_ok = True,
     ln_candidates = [(False, \<lparr>pm_symlink = False, pm_uid = 0, pm_gid = 0, pm_group_write = True,
       pm_world_write = False, pm_sticky = False\<rparr>)], ln_defpath = ''/bin:/usr/bin''\<rparr>"


end
