(* ===== verification/WorkerProcess.thy ===== *)
theory WorkerProcess
  imports WorkerRuntime WorkerIsolation
begin

text \<open>
  \<open>src/subagentbridge/execution/worker_process.py\<close>: the controller of the worker processes.  A call
  sees the operating system through its argument \<open>env\<close>: the exit codes of its children, the table of
  processes with their creation times, the lines that arrive from the worker during the call and how
  many of them it can read before its deadline.  What it does to the outside (processes started and
  killed, lines written to a worker) is appended to \<open>ct_log\<close>.  A child is named by its process id.  A
  call is atomic (and its answers are without time stamps); the controller's locks are therefore not modelled, and neither are the handles of
  Windows jobs.
\<close>

section \<open>Readers\<close>

text \<open>
  The line reader of a worker: the lines put back by an earlier search, and the queue that the reader
  thread fills; \<open>None\<close> marks the end of the stream.
\<close>

record line_reader =
  rd_pending :: "string list"
  rd_queue :: "string option list"

definition new_reader :: line_reader where
  "new_reader = \<lparr>rd_pending = [], rd_queue = []\<rparr>"

fun match_pending :: "(string \<Rightarrow> bool) \<Rightarrow> string list \<Rightarrow> (string \<times> string list) option" where
  "match_pending p [] = None"
| "match_pending p (l # ls) =
     (if p l then Some (l, ls)
      else case match_pending p ls of None \<Rightarrow> None | Some (m, rest) \<Rightarrow> Some (m, l # rest))"

text \<open>The search in the queue, of which \<open>n\<close> entries come before the deadline: the unmatched lines are put back.\<close>

fun match_queue ::
  "(string \<Rightarrow> bool) \<Rightarrow> nat \<Rightarrow> string option list \<Rightarrow> string option \<times> string list \<times> string option list" where
  "match_queue p 0 q = (None, [], q)"
| "match_queue p (Suc n) [] = (None, [], [])"
| "match_queue p (Suc n) (None # q) = (None, [], q)"
| "match_queue p (Suc n) (Some l # q) =
     (if p l then (Some l, [], q)
      else case match_queue p n q of (m, unmatched, q') \<Rightarrow> (m, l # unmatched, q'))"

definition readline_matching ::
  "(string \<Rightarrow> bool) \<Rightarrow> nat \<Rightarrow> line_reader \<Rightarrow> string option \<times> line_reader" where
  "readline_matching p n r =
     (case match_pending p (rd_pending r) of
        Some (l, rest) \<Rightarrow> (Some l, r\<lparr>rd_pending := rest\<rparr>)
      | None \<Rightarrow>
          (case match_queue p n (rd_queue r) of
             (m, unmatched, q) \<Rightarrow> (m, r\<lparr>rd_pending := rd_pending r @ unmatched, rd_queue := q\<rparr>)))"

definition readline :: "nat \<Rightarrow> line_reader \<Rightarrow> string option \<times> line_reader" where
  "readline n r =
     (case rd_pending r of
        l # ls \<Rightarrow> (Some l, r\<lparr>rd_pending := ls\<rparr>)
      | [] \<Rightarrow> if n = 0 then (None, r)
              else case rd_queue r of
                [] \<Rightarrow> (None, r)
              | l # q \<Rightarrow> (l, r\<lparr>rd_queue := q\<rparr>))"

section \<open>Events\<close>

definition reply_of :: "string \<Rightarrow> (string \<times> json) list option" where
  "reply_of raw = (case loads (py_strip raw) of Some (JObj kvs) \<Rightarrow> Some kvs | _ \<Rightarrow> None)"

definition has_field :: "string \<Rightarrow> string \<Rightarrow> (string \<times> json) list \<Rightarrow> bool" where
  "has_field k v kvs \<longleftrightarrow> json_get k JNull kvs = JStr v"

definition is_task_result :: "string \<Rightarrow> string \<Rightarrow> bool" where
  "is_task_result raw task_id \<longleftrightarrow>
     (case reply_of raw of None \<Rightarrow> False | Some kvs \<Rightarrow> has_field ''type'' ''RESULT'' kvs \<and> has_field ''task_id'' task_id kvs)"

definition is_reconfigure_ack :: "string \<Rightarrow> string \<Rightarrow> bool" where
  "is_reconfigure_ack raw request_id \<longleftrightarrow>
     (case reply_of raw of None \<Rightarrow> False
      | Some kvs \<Rightarrow> has_field ''type'' ''RECONFIGURED'' kvs \<and> has_field ''request_id'' request_id kvs)"

definition is_control_event :: "string \<Rightarrow> string \<Rightarrow> string \<Rightarrow> bool" where
  "is_control_event raw event_type worker_id \<longleftrightarrow>
     (case reply_of raw of None \<Rightarrow> False
      | Some kvs \<Rightarrow> has_field ''type'' event_type kvs \<and> has_field ''worker_id'' worker_id kvs)"

section \<open>Processes\<close>

record os_process =
  op_create_time :: real
  op_running :: bool

type_synonym process_table = "int \<Rightarrow> os_process option"

definition is_process_identically_alive :: "process_table \<Rightarrow> int \<Rightarrow> real option \<Rightarrow> bool" where
  "is_process_identically_alive ps pid expected =
     (if pid \<le> 0 then False
      else case ps pid of
        None \<Rightarrow> False
      | Some p \<Rightarrow> op_running p \<and>
          (case expected of None \<Rightarrow> True | Some t \<Rightarrow> \<not> \<bar>op_create_time p - t\<bar> > 1))"

text \<open>What a call does to the outside; a process is started with its command, directory, environment and ids.\<close>

datatype ipc =
    Started string "string list" "string option" "(string \<times> string) list \<times> (int \<times> int) option" int
  | Killed int
  | Written string string

definition kill_process_tree :: "process_table \<Rightarrow> int \<Rightarrow> ipc list" where
  "kill_process_tree ps pid = (if pid \<le> 0 \<or> ps pid = None then [] else [Killed pid])"

section \<open>The controller\<close>

record worker_record =
  rc_worker_id :: string
  rc_team_id :: string
  rc_pid :: int
  rc_status :: worker_status
  rc_started_at :: real
  rc_last_heartbeat :: real
  rc_create_time :: "real option"
  rc_tokens :: int
  rc_worktree :: "string option"
  rc_exit_code :: "int option"
  rc_secret :: string
  rc_mode :: string

record 'a controller =
  ct_policy :: isolation_policy
  ct_store :: team_db
  ct_authority :: 'a
  ct_procs :: "(string \<times> int) list"
  ct_readers :: "string \<Rightarrow> line_reader option"
  ct_records :: "(string \<times> worker_record) list"
  ct_busy :: "string set"
  ct_busy_ids :: "string \<Rightarrow> string option"
  ct_log :: "ipc list"

definition mk_controller :: "team_db \<Rightarrow> 'a \<Rightarrow> isolation_policy option \<Rightarrow> 'a controller" where
  "mk_controller store authority policy =
     \<lparr>ct_policy = (case policy of None \<Rightarrow> default_policy | Some p \<Rightarrow> p), ct_store = store, ct_authority = authority,
      ct_procs = [], ct_readers = (\<lambda>w. None), ct_records = [], ct_busy = {}, ct_busy_ids = (\<lambda>w. None), ct_log = []\<rparr>"

record call_env =
  ce_now :: real
  ce_poll :: "int \<Rightarrow> int option"
  ce_ps :: process_table
  ce_pipe :: bool
  ce_arrived :: "string option list"
  ce_in_time :: nat
  ce_stop_code :: "int option"

text \<open>The child of a worker, if it is still running.\<close>

definition running_child :: "call_env \<Rightarrow> string \<Rightarrow> 'a controller \<Rightarrow> int option" where
  "running_child env w c =
     (case map_of (ct_procs c) w of
        None \<Rightarrow> None
      | Some pid \<Rightarrow> if ce_poll env pid = None then Some pid else None)"

definition record_of :: "string \<Rightarrow> 'a controller \<Rightarrow> worker_record option" where
  "record_of w c = map_of (ct_records c) w"

definition put_record :: "string \<Rightarrow> worker_record \<Rightarrow> 'a controller \<Rightarrow> 'a controller" where
  "put_record w r c = c\<lparr>ct_records := AList.update w r (ct_records c)\<rparr>"

definition with_record :: "string \<Rightarrow> (worker_record \<Rightarrow> worker_record) \<Rightarrow> 'a controller \<Rightarrow> 'a controller" where
  "with_record w f c = (case record_of w c of None \<Rightarrow> c | Some r \<Rightarrow> put_record w (f r) c)"

definition write_message :: "string \<Rightarrow> (string \<times> json) list \<Rightarrow> 'a controller \<Rightarrow> 'a controller" where
  "write_message w msg c = c\<lparr>ct_log := ct_log c @ [Written w (dumps True '' '' (JObj msg) @ [CHR 0x0A])]\<rparr>"

text \<open>A search in a worker's reader; the lines of this call arrive first.\<close>

definition receive ::
  "call_env \<Rightarrow> string \<Rightarrow> (string \<Rightarrow> bool) \<Rightarrow> 'a controller \<Rightarrow> string option \<times> 'a controller" where
  "receive env w p c =
     (case ct_readers c w of
        None \<Rightarrow> (None, c)
      | Some r \<Rightarrow>
          (case readline_matching p (ce_in_time env) (r\<lparr>rd_queue := rd_queue r @ ce_arrived env\<rparr>) of
             (l, r') \<Rightarrow> (l, c\<lparr>ct_readers := (ct_readers c)(w \<mapsto> r')\<rparr>)))"

text \<open>Changing the durable session of a worker, where there is one.\<close>

definition update_session ::
  "string \<Rightarrow> real \<Rightarrow> (agent_session \<Rightarrow> agent_session) \<Rightarrow> 'a controller \<Rightarrow> exn + 'a controller" where
  "update_session w now f c =
     (case load_session w (ct_store c) of
        Inl e \<Rightarrow> Inl e
      | Inr None \<Rightarrow> ok c
      | Inr (Some s) \<Rightarrow> ok (c\<lparr>ct_store := save_session ((f s)\<lparr>se_updated_at := now\<rparr>) (ct_store c)\<rparr>))"

text \<open>The operations return what they raise or give, and the controller as it is then.\<close>

definition finish :: "'a controller \<Rightarrow> 'r \<Rightarrow> exn + 'a controller \<Rightarrow> (exn + 'r) \<times> 'a controller" where
  "finish c r res = (case res of Inl e \<Rightarrow> (Inl e, c) | Inr c' \<Rightarrow> (ok r, c'))"

section \<open>Spawning\<close>

definition option_arg :: "string \<Rightarrow> string \<Rightarrow> string list" where
  "option_arg name v = (if v = [] then [] else [name, v])"

definition worker_arguments :: "worker_config \<Rightarrow> string \<Rightarrow> string list" where
  "worker_arguments config worktree_path =
     [''--worker-id'', wc_worker_id config, ''--team-id'', wc_team_id config, ''--role'', wc_role config]
     @ (case wc_budget_tokens config of None \<Rightarrow> [] | Some b \<Rightarrow> [''--budget-tokens'', show_int b])
     @ (if wc_tokens_consumed config = 0 then [] else [''--tokens-consumed'', show_int (wc_tokens_consumed config)])
     @ option_arg ''--harness'' (wc_harness config)
     @ option_arg ''--model'' (or_default (wc_model config) [])
     @ option_arg ''--provider'' (or_default (wc_provider config) [])
     @ option_arg ''--effort'' (or_default (wc_effort config) [])
     @ (if wc_fallback_to_native config then [''--fallback-to-native''] else [])
     @ option_arg ''--worktree-path'' worktree_path"

record spawn_env =
  sp_executable :: string
  sp_secret :: string
  sp_is_dir :: "string \<Rightarrow> bool"
  sp_resolve :: "string \<Rightarrow> exn + string \<times> bool"
  sp_launcher :: launcher
  sp_popen :: "exn + int"
  sp_pipes :: bool
  sp_job :: "exn option"
  sp_init :: "string option"
  sp_uid_gid :: "exn + int \<times> int"
  sp_create_time :: "real option"

definition worker_command :: "spawn_env \<Rightarrow> worker_config \<Rightarrow> string \<Rightarrow> string list" where
  "worker_command sp config worktree_path =
     [sp_executable sp, ''-P'', ''-m'', ''subagentbridge.execution.worker_runtime_entrypoint'']
     @ worker_arguments config worktree_path"

text \<open>The working directory; a dedicated user never falls back to the supervisor's.\<close>

definition working_dir :: "spawn_env \<Rightarrow> isolation_policy \<Rightarrow> string \<Rightarrow> exn + string option" where
  "working_dir sp policy worktree_path =
     (if ip_mode policy = ''dedicated_user''
      then (if worktree_path = [] then raise ValueError ''Dedicated worker requires an explicit working directory''
            else and_then (sp_resolve sp worktree_path) (\<lambda>(workspace, is_dir).
              if is_dir then ok (Some workspace)
              else raise OSError ''Dedicated worker workspace is not a directory''))
      else ok (if worktree_path \<noteq> [] \<and> sp_is_dir sp worktree_path then Some worktree_path else None))"

text \<open>The \<open>INIT\<close> event: the process id it names and the creation time.\<close>

definition int_error :: "json \<Rightarrow> exn" where
  "int_error v = (case v of JNum t \<Rightarrow> (ValueError, ''int()'') | JStr t \<Rightarrow> (ValueError, ''int()'') | _ \<Rightarrow> (TypeError, ''int()''))"

definition init_event :: "string \<Rightarrow> exn + (string \<times> json) list" where
  "init_event line =
     (case loads (py_strip line) of
        None \<Rightarrow> raise ValueError ''JSONDecodeError''
      | Some (JObj kvs) \<Rightarrow> ok kvs
      | Some _ \<Rightarrow> raise AttributeError ''init_event.get'')"

definition init_pid :: "python \<Rightarrow> int \<Rightarrow> (string \<times> json) list \<Rightarrow> exn + int" where
  "init_pid h pid kvs =
     (case map_of kvs ''pid'' of
        None \<Rightarrow> ok pid
      | Some v \<Rightarrow> (case py_int h v of None \<Rightarrow> Inl (int_error v) | Some i \<Rightarrow> ok i))"

definition init_create_time :: "python \<Rightarrow> spawn_env \<Rightarrow> real \<Rightarrow> (string \<times> json) list \<Rightarrow> exn + real" where
  "init_create_time h sp now kvs =
     (case map_of kvs ''create_time'' of
        None \<Rightarrow> ok (case sp_create_time sp of Some t \<Rightarrow> t | None \<Rightarrow> now)
      | Some v \<Rightarrow>
          (case py_float h v of
             None \<Rightarrow> Inl (int_error v)
           | Some t \<Rightarrow> ok (if t \<le> 0 then (case sp_create_time sp of Some t \<Rightarrow> t | None \<Rightarrow> now) else t)))"

text \<open>The checks of the started child: the process that is started is killed where they say so.\<close>

definition killed :: "call_env \<Rightarrow> int \<Rightarrow> 'a controller \<Rightarrow> 'a controller" where
  "killed env pid c = c\<lparr>ct_log := ct_log c @ kill_process_tree (ce_ps env) pid\<rparr>"

definition check_child ::
  "python \<Rightarrow> spawn_env \<Rightarrow> call_env \<Rightarrow> int \<Rightarrow> 'a controller \<Rightarrow> (exn + (string \<times> json) list) \<times> 'a controller" where
  "check_child h sp env pid c =
     (case sp_init sp of
        None \<Rightarrow> (raise RuntimeError ''worker failed to emit INIT event within deadline'', killed env pid c)
      | Some line \<Rightarrow>
          (case and_then (init_event line) (\<lambda>kvs. map_sum id (Pair kvs) (init_pid h pid kvs)) of
             Inl e \<Rightarrow> (Inl e, c)
           | Inr (kvs, child_pid) \<Rightarrow>
               if child_pid \<noteq> pid
               then (raise RuntimeError ''Worker INIT PID mismatch with child process handle'', killed env pid c)
               else if ip_mode (ct_policy c) = ''dedicated_user''
               then (case (ip_uid (ct_policy c), ip_gid (ct_policy c)) of
                       (Some uid, Some gid) \<Rightarrow>
                         (case sp_uid_gid sp of
                            Inl e \<Rightarrow> (Inl e, c)
                          | Inr ids \<Rightarrow>
                              if ids = (uid, gid) then (ok kvs, c)
                              else (raise PermissionError ''Dedicated worker OS UID/GID verification failed'',
                                    killed env pid c))
                     | _ \<Rightarrow> (raise AssertionError [], c))
               else (ok kvs, c)))"

definition spawned_record :: "call_env \<Rightarrow> spawn_env \<Rightarrow> worker_config \<Rightarrow> string \<Rightarrow> int \<Rightarrow> real \<Rightarrow> isolation_policy \<Rightarrow> worker_record" where
  "spawned_record env sp config worktree_path pid create_time policy =
     \<lparr>rc_worker_id = wc_worker_id config, rc_team_id = wc_team_id config, rc_pid = pid, rc_status = WS_IDLE,
      rc_started_at = ce_now env, rc_last_heartbeat = ce_now env, rc_create_time = Some create_time,
      rc_tokens = wc_tokens_consumed config, rc_worktree = (if worktree_path = [] then None else Some worktree_path),
      rc_exit_code = None, rc_secret = sp_secret sp, rc_mode = ip_mode policy\<rparr>"

definition spawned_session :: "python \<Rightarrow> call_env \<Rightarrow> worker_config \<Rightarrow> int \<Rightarrow> real \<Rightarrow> agent_session" where
  "spawned_session h env config pid create_time =
     \<lparr>se_session_id = wc_worker_id config, se_role = AR_WORKER, se_team_id = wc_team_id config, se_status = WS_IDLE,
      se_config = config\<lparr>wc_pid := Some pid, wc_process_create_time := Some (py_literal h (Finite create_time))\<rparr>,
      se_created_at = ce_now env, se_updated_at = ce_now env\<rparr>"

definition release :: "string \<Rightarrow> 'a controller \<Rightarrow> 'a controller" where
  "release w c = c\<lparr>ct_busy := ct_busy c - {w}, ct_busy_ids := (ct_busy_ids c)(w := None)\<rparr>"

text \<open>After the checks: the secret over the pipe, the record, the durable session, no claim of a predecessor.\<close>

definition adopt_child ::
  "python \<Rightarrow> spawn_env \<Rightarrow> call_env \<Rightarrow> worker_config \<Rightarrow> string \<Rightarrow> int \<Rightarrow> (string \<times> json) list \<Rightarrow> 'a controller
   \<Rightarrow> (exn + worker_record) \<times> 'a controller" where
  "adopt_child h sp env config worktree_path pid kvs c =
     (if \<not> ce_pipe env
      then (raise RuntimeError ''failed to send INIT_ACK to worker'', killed env pid c)
      else let w = wc_worker_id config;
               c1 = write_message w [(''command'', JStr ''INIT_ACK''), (''session_secret'', JStr (sp_secret sp))] c
      in case init_create_time h sp (ce_now env) kvs of
           Inl e \<Rightarrow> (Inl e, c1)
         | Inr t \<Rightarrow>
             let record = spawned_record env sp config worktree_path pid t (ct_policy c) in
             (ok record, release w (put_record w record (c1\<lparr>ct_procs := AList.update w pid (ct_procs c1),
                ct_store := save_session (spawned_session h env config pid t) (ct_store c1)\<rparr>))))"

definition start_child ::
  "python \<Rightarrow> spawn_env \<Rightarrow> call_env \<Rightarrow> worker_config \<Rightarrow> string \<Rightarrow> int \<Rightarrow> 'a controller
   \<Rightarrow> (exn + worker_record) \<times> 'a controller" where
  "start_child h sp env config worktree_path pid c =
     (if \<not> sp_pipes sp
      then (raise RuntimeError ''failed to initialize IPC pipes for worker'', c\<lparr>ct_log := ct_log c @ [Killed pid]\<rparr>)
      else if ip_mode (ct_policy c) = ''windows_job_restricted'' \<and> (\<not> ln_windows (sp_launcher sp) \<or> sp_job sp \<noteq> None)
      then (raise RuntimeError ''Failed to apply Windows Job Object restrictions'', killed env pid c)
      else let c1 = c\<lparr>ct_readers := (ct_readers c)(wc_worker_id config \<mapsto> new_reader)\<rparr> in
        (case check_child h sp env pid c1 of
           (Inl e, c2) \<Rightarrow> (Inl e, c2)
         | (Inr kvs, c2) \<Rightarrow> adopt_child h sp env config worktree_path pid kvs c2))"

definition launch_child ::
  "spawn_env \<Rightarrow> isolation_policy \<Rightarrow> string
   \<Rightarrow> exn + string option \<times> ((string \<times> string) list \<times> (int \<times> int) option) \<times> int" where
  "launch_child sp policy worktree_path =
     and_then (working_dir sp policy worktree_path) (\<lambda>cwd.
       and_then (worker_launch_configuration (sp_launcher sp) policy) (\<lambda>launch.
         and_then (sp_popen sp) (\<lambda>pid. ok (cwd, launch, pid))))"

definition spawn_worker ::
  "python \<Rightarrow> spawn_env \<Rightarrow> call_env \<Rightarrow> worker_config \<Rightarrow> string option \<Rightarrow> 'a controller
   \<Rightarrow> (exn + worker_record) \<times> 'a controller" where
  "spawn_worker h sp env config worktree_path c =
     (let w = wc_worker_id config;
          path = (if given worktree_path then or_default worktree_path [] else or_default (wc_working_dir config) [])
      in if running_child env w c \<noteq> None then (raise RuntimeError ''Worker ID already owns a live process'', c)
         else case launch_child sp (ct_policy c) path of
           Inl e \<Rightarrow> (Inl e, c)
         | Inr (cwd, launch, pid) \<Rightarrow>
             start_child h sp env config path pid
               (c\<lparr>ct_log := ct_log c @ [Started w (worker_command sp config path) cwd launch pid]\<rparr>))"

section \<open>Status and liveness\<close>

definition has_attached_worker_ipc :: "call_env \<Rightarrow> string \<Rightarrow> 'a controller \<Rightarrow> bool" where
  "has_attached_worker_ipc env w c \<longleftrightarrow>
     (case (running_child env w c, ct_readers c w, record_of w c) of
        (Some pid, Some r, Some record) \<Rightarrow> is_process_identically_alive (ce_ps env) pid (rc_create_time record)
      | _ \<Rightarrow> False)"

definition is_worker_dispatchable :: "call_env \<Rightarrow> string \<Rightarrow> 'a controller \<Rightarrow> bool" where
  "is_worker_dispatchable env w c \<longleftrightarrow>
     (if (case record_of w c of None \<Rightarrow> False
          | Some record \<Rightarrow> rc_status record \<in> {WS_PAUSED, WS_INTERRUPTED, WS_FAILED, WS_ARCHIVED})
      then False else has_attached_worker_ipc env w c \<and> w \<notin> ct_busy c)"

definition time_of_literal :: "python \<Rightarrow> string option \<Rightarrow> real option" where
  "time_of_literal h t =
     (case t of None \<Rightarrow> None | Some s \<Rightarrow> (case py_number h s of Finite x \<Rightarrow> Some x | _ \<Rightarrow> None))"

definition is_worker_alive :: "python \<Rightarrow> call_env \<Rightarrow> string \<Rightarrow> 'a controller \<Rightarrow> exn + bool" where
  "is_worker_alive h env w c =
     (case (running_child env w c, record_of w c) of
        (Some pid, record) \<Rightarrow>
          ok (is_process_identically_alive (ce_ps env) pid
                (case record of None \<Rightarrow> None | Some r \<Rightarrow> rc_create_time r))
      | (None, Some r) \<Rightarrow> ok (is_process_identically_alive (ce_ps env) (rc_pid r) (rc_create_time r))
      | (None, None) \<Rightarrow>
          and_then (load_session w (ct_store c)) (\<lambda>session.
            ok (case session of
                  None \<Rightarrow> False
                | Some s \<Rightarrow>
                    (case wc_pid (se_config s) of
                       None \<Rightarrow> False
                     | Some pid \<Rightarrow> pid \<noteq> 0 \<and> is_process_identically_alive (ce_ps env) pid
                         (time_of_literal h (wc_process_create_time (se_config s)))))))"

definition record_of_session :: "python \<Rightarrow> agent_session \<Rightarrow> worker_record" where
  "record_of_session h s =
     \<lparr>rc_worker_id = se_session_id s, rc_team_id = se_team_id s,
      rc_pid = (case wc_pid (se_config s) of None \<Rightarrow> 0 | Some pid \<Rightarrow> pid), rc_status = se_status s,
      rc_started_at = se_created_at s, rc_last_heartbeat = se_updated_at s,
      rc_create_time = time_of_literal h (wc_process_create_time (se_config s)),
      rc_tokens = wc_tokens_consumed (se_config s), rc_worktree = wc_working_dir (se_config s),
      rc_exit_code = None, rc_secret = [], rc_mode = ''inherited''\<rparr>"

definition get_worker_record :: "python \<Rightarrow> string \<Rightarrow> 'a controller \<Rightarrow> exn + worker_record option" where
  "get_worker_record h w c =
     (case record_of w c of
        Some r \<Rightarrow> ok (Some r)
      | None \<Rightarrow> and_then (load_session w (ct_store c)) (\<lambda>session. ok (map_option (record_of_session h) session)))"

definition ping_worker ::
  "call_env \<Rightarrow> string \<Rightarrow> 'a controller \<Rightarrow> (string \<times> json) list option \<times> 'a controller" where
  "ping_worker env w c =
     (if running_child env w c = None \<or> ct_readers c w = None \<or> \<not> ce_pipe env then (None, c)
      else case receive env w (\<lambda>raw. is_control_event raw ''PONG'' w)
                  (write_message w [(''command'', JStr ''PING'')] c) of
        (None, c1) \<Rightarrow> (None, c1)
      | (Some line, c1) \<Rightarrow>
          (reply_of line, with_record w (\<lambda>r. r\<lparr>rc_last_heartbeat := ce_now env\<rparr>) c1))"

section \<open>Dispatching\<close>

text \<open>
  The authority is a parameter of a call: the function that issues an execution ticket, with its own
  clock readings, on the authority's state.
\<close>

type_synonym 'a issuer =
  "string \<Rightarrow> string \<Rightarrow> string \<Rightarrow> string list \<Rightarrow> string \<Rightarrow> string \<Rightarrow> 'a
   \<Rightarrow> (exn + bool \<times> string \<times> ticket option) \<times> 'a"

definition requested_command :: "python \<Rightarrow> json \<Rightarrow> string list" where
  "requested_command h v = (case v of JList xs \<Rightarrow> map (py_str h) xs | _ \<Rightarrow> [py_str h v])"

text \<open>The payload that is sent, with a ticket if it holds a command, or the reason of the denial.\<close>

definition attach_ticket ::
  "python \<Rightarrow> 'a issuer \<Rightarrow> string \<Rightarrow> string \<Rightarrow> worker_record \<Rightarrow> (string \<times> json) list \<Rightarrow> 'a controller
   \<Rightarrow> (exn + string + (string \<times> json) list) \<times> 'a controller" where
  "attach_ticket h issue w task_id record payload c =
     (case map_of payload ''command'' of
        None \<Rightarrow> (ok (Inr payload), c)
      | Some command \<Rightarrow>
          let ws = or_default (rc_worktree record) [] in
          (case issue (text_of (or_json (json_get ''approval_action_id'' JNull payload) (JStr []))) w task_id
                  (requested_command h command) ws (rc_secret record) (ct_authority c) of
             (Inl e, a) \<Rightarrow> (Inl e, c\<lparr>ct_authority := a\<rparr>)
           | (Inr (valid, reason, ticket), a) \<Rightarrow>
               (case ticket of
                  None \<Rightarrow> (ok (Inl reason), c\<lparr>ct_authority := a\<rparr>)
                | Some tk \<Rightarrow>
                    if \<not> valid then (ok (Inl reason), c\<lparr>ct_authority := a\<rparr>)
                    else (ok (Inr (AList.update ''workspace_path'' (JStr ws)
                                (AList.update ''execution_ticket'' (ticket_json h tk) payload))),
                          c\<lparr>ct_authority := a\<rparr>))))"

definition unavailable :: "worker_status \<Rightarrow> bool" where
  "unavailable st \<longleftrightarrow> st \<in> {WS_PAUSED, WS_INTERRUPTED, WS_FAILED, WS_ARCHIVED}"

definition claim :: "string \<Rightarrow> string \<Rightarrow> 'a controller \<Rightarrow> 'a controller" where
  "claim w task_id c = c\<lparr>ct_busy := insert w (ct_busy c), ct_busy_ids := (ct_busy_ids c)(w \<mapsto> task_id)\<rparr>"

definition task_message :: "string \<Rightarrow> (string \<times> json) list \<Rightarrow> (string \<times> json) list" where
  "task_message task_id payload =
     [(''command'', JStr ''TASK''), (''task_id'', JStr task_id), (''payload'', JObj payload)]"

definition answer :: "string \<Rightarrow> string \<Rightarrow> string \<Rightarrow> (string \<times> json) list" where
  "answer status task_id reason =
     [(''status'', JStr status), (''task_id'', JStr task_id), (''reason'', JStr reason)]"

definition denied_answer :: "string \<Rightarrow> string \<Rightarrow> string \<Rightarrow> (string \<times> json) list" where
  "denied_answer task_id err reason =
     [(''status'', JStr ''DENIED''), (''task_id'', JStr task_id), (''error'', JStr err), (''reason'', JStr reason)]"

definition late_answer :: "string \<Rightarrow> (string \<times> json) list" where
  "late_answer task_id =
     [(''status'', JStr ''TIMEOUT''), (''task_id'', JStr task_id), (''error'', JStr ''Worker IPC deadline exceeded'')]"

definition ipc_error :: "string \<Rightarrow> (string \<times> json) list" where
  "ipc_error err = [(''status'', JStr ''ERROR''), (''error'', JStr err)]"

text \<open>The result of the outstanding task: the token account is saved before the claim is given up.\<close>

definition settle ::
  "python \<Rightarrow> call_env \<Rightarrow> string \<Rightarrow> (string \<times> json) list \<Rightarrow> 'a controller
   \<Rightarrow> (exn + (string \<times> json) list) \<times> 'a controller" where
  "settle h env w res c =
     (case map_of res ''tokens_consumed'' of
        None \<Rightarrow> (ok res, release w c)
      | Some v \<Rightarrow>
          (case py_int h v of
             None \<Rightarrow> (Inl (int_error v), c)
           | Some n \<Rightarrow>
               let c1 = with_record w (\<lambda>r. r\<lparr>rc_tokens := n\<rparr>) c in
               finish c1 res (map_sum id (release w)
                 (update_session w (ce_now env)
                    (\<lambda>s. s\<lparr>se_config := (se_config s)\<lparr>wc_tokens_consumed := n\<rparr>\<rparr>) c1))))"

definition await_result ::
  "python \<Rightarrow> call_env \<Rightarrow> string \<Rightarrow> string \<Rightarrow> (string \<times> json) list \<Rightarrow> 'a controller
   \<Rightarrow> (exn + (string \<times> json) list) \<times> 'a controller" where
  "await_result h env w task_id late c =
     (case receive env w (\<lambda>raw. is_task_result raw task_id) c of
        (None, c1) \<Rightarrow> (ok late, c1)
      | (Some line, c1) \<Rightarrow>
          (case reply_of line of
             None \<Rightarrow> (raise RuntimeError ''Invalid worker result envelope'', c1)
           | Some res \<Rightarrow> settle h env w res c1))"

definition dispatch_task_to_worker ::
  "python \<Rightarrow> 'a issuer \<Rightarrow> call_env \<Rightarrow> string \<Rightarrow> string \<Rightarrow> (string \<times> json) list \<Rightarrow> 'a controller
   \<Rightarrow> (exn + (string \<times> json) list) \<times> 'a controller" where
  "dispatch_task_to_worker h issue env w task_id payload c =
     (case (running_child env w c, ct_readers c w, record_of w c) of
        (Some pid, Some reader, Some record) \<Rightarrow>
          if rc_status record \<in> {WS_PAUSED, WS_INTERRUPTED} \<or> w \<in> ct_busy c
          then (ok (denied_answer task_id ''WorkerNotDispatchable: worker is paused, interrupted or busy''
                    ''Worker is paused, interrupted, or has an outstanding task''), c)
          else (case attach_ticket h issue w task_id record payload c of
             (Inl e, c1) \<Rightarrow> (Inl e, c1)
           | (Inr (Inl reason), c1) \<Rightarrow> (ok (denied_answer task_id (''AuthorizationFailed: '' @ reason) (''Default-deny: '' @ reason)), c1)
           | (Inr (Inr payload'), c1) \<Rightarrow>
               if unavailable (rc_status record)
               then (ok (answer ''DENIED'' task_id ''Worker became busy or unavailable before task admission''), c1)
               else if \<not> ce_pipe env
               then (ok (ipc_error ''IPC pipe write failed''), release w (claim w task_id c1))
               else await_result h env w task_id (late_answer task_id) (write_message w (task_message task_id payload') (claim w task_id c1)))
      | _ \<Rightarrow> (ok (ipc_error ''worker not alive''), c))"

definition send_task_async ::
  "python \<Rightarrow> 'a issuer \<Rightarrow> call_env \<Rightarrow> string \<Rightarrow> string \<Rightarrow> (string \<times> json) list \<Rightarrow> 'a controller
   \<Rightarrow> (exn + unit) \<times> 'a controller" where
  "send_task_async h issue env w task_id payload c =
     (case (running_child env w c, record_of w c) of
        (Some pid, Some record) \<Rightarrow>
          if rc_status record \<in> {WS_PAUSED, WS_INTERRUPTED} \<or> w \<in> ct_busy c
          then (raise RuntimeError ''worker is paused, interrupted or busy'', c)
          else (case attach_ticket h issue w task_id record payload c of
             (Inl e, c1) \<Rightarrow> (Inl e, c1)
           | (Inr (Inl reason), c1) \<Rightarrow> (raise PermissionError (''Default-deny: '' @ reason), c1)
           | (Inr (Inr payload'), c1) \<Rightarrow>
               if unavailable (rc_status record)
               then (raise RuntimeError ''Worker became busy or unavailable before async admission'', c1)
               else if \<not> ce_pipe env
               then (raise OSError ''write'', release w (claim w task_id c1))
               else (ok (), write_message w (task_message task_id payload') (claim w task_id c1)))
      | _ \<Rightarrow> (raise RuntimeError ''worker not running'', c))"

definition collect_async_result ::
  "python \<Rightarrow> call_env \<Rightarrow> string \<Rightarrow> string \<Rightarrow> 'a controller
   \<Rightarrow> (exn + (string \<times> json) list) \<times> 'a controller" where
  "collect_async_result h env w task_id c =
     (if ct_busy_ids c w \<noteq> Some task_id
      then (raise ValueError ''No outstanding IPC task with this worker/task identity'', c)
      else if ct_readers c w = None \<or> \<not> has_attached_worker_ipc env w c
      then (ok (answer ''RECOVERY_BLOCKED'' task_id ''Worker IPC detached; operator reconciliation required''), c)
      else await_result h env w task_id (answer ''TIMEOUT'' task_id ''Worker task outcome is still ambiguous'') c)"

section \<open>Control\<close>

definition set_record_status :: "string \<Rightarrow> worker_status \<Rightarrow> 'a controller \<Rightarrow> 'a controller" where
  "set_record_status w st c = with_record w (\<lambda>r. r\<lparr>rc_status := st\<rparr>) c"

definition save_status :: "string \<Rightarrow> call_env \<Rightarrow> worker_status \<Rightarrow> 'a controller \<Rightarrow> exn + 'a controller" where
  "save_status w env st c = update_session w (ce_now env) (\<lambda>s. s\<lparr>se_status := st\<rparr>) c"

text \<open>The status of the record, then of the durable session.\<close>

definition change_status ::
  "string \<Rightarrow> call_env \<Rightarrow> worker_status \<Rightarrow> 'a controller \<Rightarrow> (exn + bool) \<times> 'a controller" where
  "change_status w env st c =
     (let c1 = set_record_status w st c in finish c1 True (save_status w env st c1))"

definition interrupt_worker_process ::
  "call_env \<Rightarrow> string \<Rightarrow> string \<Rightarrow> 'a controller \<Rightarrow> (exn + bool) \<times> 'a controller" where
  "interrupt_worker_process env w task_id c =
     (if running_child env w c = None \<or> \<not> ce_pipe env then (ok False, c)
      else change_status w env WS_INTERRUPTED
             (snd (receive env w (\<lambda>raw. is_control_event raw ''INTERRUPTED'' w)
               (write_message w [(''command'', JStr ''INTERRUPT''), (''task_id'', JStr task_id)] c))))"

text \<open>\<open>pause_worker\<close> and \<open>resume_worker\<close>: the guard on the record, then the change.\<close>

definition guarded_status ::
  "python \<Rightarrow> call_env \<Rightarrow> string \<Rightarrow> worker_status set \<Rightarrow> bool \<Rightarrow> worker_status \<Rightarrow> 'a controller
   \<Rightarrow> (exn + bool) \<times> 'a controller" where
  "guarded_status h env w allowed free st c =
     (case record_of w c of
        None \<Rightarrow> (ok False, c)
      | Some record \<Rightarrow>
          (case is_worker_alive h env w c of
             Inl e \<Rightarrow> (Inl e, c)
           | Inr alive \<Rightarrow>
               if \<not> alive \<or> rc_status record \<notin> allowed \<or> \<not> free then (ok False, c)
               else change_status w env st c))"

definition pause_worker :: "python \<Rightarrow> call_env \<Rightarrow> string \<Rightarrow> 'a controller \<Rightarrow> (exn + bool) \<times> 'a controller" where
  "pause_worker h env w c = guarded_status h env w {WS_IDLE, WS_RUNNING} True WS_PAUSED c"

definition resume_worker :: "python \<Rightarrow> call_env \<Rightarrow> string \<Rightarrow> 'a controller \<Rightarrow> (exn + bool) \<times> 'a controller" where
  "resume_worker h env w c = guarded_status h env w {WS_PAUSED, WS_INTERRUPTED} (w \<notin> ct_busy c) WS_IDLE c"

section \<open>Termination\<close>

text \<open>
  The exit code of a terminated worker: that of the child if it ended before or on request, none if
  it had to be killed, and 0 where the controller never had a child.
\<close>

definition final_code :: "call_env \<Rightarrow> string \<Rightarrow> 'a controller \<Rightarrow> int option" where
  "final_code env w c =
     (case map_of (ct_procs c) w of
        None \<Rightarrow> Some 0
      | Some pid \<Rightarrow>
          (case ce_poll env pid of
             Some code \<Rightarrow> Some code
           | None \<Rightarrow> if ce_pipe env then ce_stop_code env else None))"

definition final_status :: "int option \<Rightarrow> worker_status" where
  "final_status code = (if code = Some 0 then WS_ARCHIVED else WS_FAILED)"

definition forget :: "string \<Rightarrow> 'a controller \<Rightarrow> 'a controller" where
  "forget w c = release w (c\<lparr>ct_procs := AList.delete w (ct_procs c), ct_readers := (ct_readers c)(w := None)\<rparr>)"

definition terminate_worker ::
  "call_env \<Rightarrow> string \<Rightarrow> 'a controller \<Rightarrow> (exn + bool) \<times> 'a controller" where
  "terminate_worker env w c =
     (let pid = (case map_of (ct_procs c) w of
                   Some pid \<Rightarrow> pid
                 | None \<Rightarrow> (case record_of w c of Some r \<Rightarrow> rc_pid r | None \<Rightarrow> 0));
          c1 = (if running_child env w c \<noteq> None \<and> ce_pipe env
                then write_message w [(''command'', JStr ''STOP'')] c else c);
          code = final_code env w c;
          c2 = with_record w (\<lambda>r. r\<lparr>rc_exit_code := code, rc_status := final_status code\<rparr>) (killed env pid c1)
      in finish c2 True (map_sum id (forget w) (save_status w env (final_status code) c2)))"

fun terminate_each :: "(string \<Rightarrow> call_env) \<Rightarrow> string list \<Rightarrow> 'a controller \<Rightarrow> (exn + unit) \<times> 'a controller" where
  "terminate_each env [] c = (ok (), c)"
| "terminate_each env (w # ws) c =
     (case terminate_worker (env w) w c of
        (Inl e, c1) \<Rightarrow> (Inl e, c1)
      | (Inr b, c1) \<Rightarrow> terminate_each env ws c1)"

definition terminate_all :: "(string \<Rightarrow> call_env) \<Rightarrow> 'a controller \<Rightarrow> (exn + unit) \<times> 'a controller" where
  "terminate_all env c = terminate_each env (map fst (ct_procs c)) c"

fun reap_each ::
  "call_env \<Rightarrow> (string \<times> int) list \<Rightarrow> 'a controller \<Rightarrow> (exn + string list) \<times> 'a controller" where
  "reap_each env [] c = (ok [], c)"
| "reap_each env ((w, pid) # ps) c =
     (case ce_poll env pid of
        None \<Rightarrow> reap_each env ps c
      | Some code \<Rightarrow>
          let c1 = with_record w (\<lambda>r. r\<lparr>rc_exit_code := Some code, rc_status := WS_FAILED\<rparr>) c in
          (case save_status w env WS_FAILED c1 of
             Inl e \<Rightarrow> (Inl e, c1)
           | Inr c2 \<Rightarrow>
               (case reap_each env ps (forget w c2) of
                  (res, c3) \<Rightarrow> (map_sum id (Cons w) res, c3))))"

definition reap_dead_workers :: "call_env \<Rightarrow> 'a controller \<Rightarrow> (exn + string list) \<times> 'a controller" where
  "reap_dead_workers env c = reap_each env (ct_procs c) c"

section \<open>Persisted sessions\<close>

definition register_persisted_session ::
  "python \<Rightarrow> call_env \<Rightarrow> string \<Rightarrow> worker_config \<Rightarrow> int \<Rightarrow> real option \<Rightarrow> 'a controller \<Rightarrow> 'a controller" where
  "register_persisted_session h env w config pid create_time c =
     (let record = \<lparr>rc_worker_id = w, rc_team_id = wc_team_id config, rc_pid = pid, rc_status = WS_RUNNING,
            rc_started_at = ce_now env, rc_last_heartbeat = ce_now env, rc_create_time = create_time,
            rc_tokens = wc_tokens_consumed config, rc_worktree = None, rc_exit_code = None, rc_secret = [],
            rc_mode = ''inherited''\<rparr>;
          session = \<lparr>se_session_id = w, se_role = AR_WORKER, se_team_id = wc_team_id config, se_status = WS_RUNNING,
            se_config = config\<lparr>wc_pid := Some pid,
              wc_process_create_time := map_option (\<lambda>t. py_literal h (Finite t)) create_time\<rparr>,
            se_created_at = ce_now env, se_updated_at = ce_now env\<rparr>
      in put_record w record (c\<lparr>ct_store := save_session session (ct_store c)\<rparr>))"

text \<open>The records in memory whose process is gone, or is another one.\<close>

fun reconcile_records ::
  "call_env \<Rightarrow> (string \<times> worker_record) list \<Rightarrow> 'a controller \<Rightarrow> (exn + string list) \<times> 'a controller" where
  "reconcile_records env [] c = (ok [], c)"
| "reconcile_records env ((w, record) # rs) c =
     (if is_process_identically_alive (ce_ps env) (rc_pid record) (rc_create_time record)
      then reconcile_records env rs c
      else let c1 = set_record_status w WS_FAILED c in
        (case save_status w env WS_FAILED c1 of
           Inl e \<Rightarrow> (Inl e, c1)
         | Inr c2 \<Rightarrow>
             (case reconcile_records env rs c2 of
                (res, c3) \<Rightarrow> (map_sum id (Cons w) res, c3))))"

definition lost :: "python \<Rightarrow> call_env \<Rightarrow> agent_session \<Rightarrow> bool" where
  "lost h env s \<longleftrightarrow>
     se_role s = AR_WORKER \<and> se_status s \<in> {WS_RUNNING, WS_IDLE} \<and>
     (case wc_pid (se_config s) of
        None \<Rightarrow> True
      | Some pid \<Rightarrow> \<not> is_process_identically_alive (ce_ps env) pid (time_of_literal h (wc_process_create_time (se_config s))))"

definition fail_session :: "python \<Rightarrow> call_env \<Rightarrow> agent_session \<Rightarrow> 'a controller \<Rightarrow> 'a controller" where
  "fail_session h env s c =
     (let s' = s\<lparr>se_status := WS_FAILED, se_updated_at := ce_now env\<rparr> in
      put_record (se_session_id s) ((record_of_session h s')\<lparr>rc_worktree := None\<rparr>)
        (c\<lparr>ct_store := save_session s' (ct_store c)\<rparr>))"

fun reconcile_sessions ::
  "python \<Rightarrow> call_env \<Rightarrow> string list \<Rightarrow> agent_session list \<Rightarrow> 'a controller \<Rightarrow> string list \<times> 'a controller" where
  "reconcile_sessions h env done_ids [] c = (done_ids, c)"
| "reconcile_sessions h env done_ids (s # ss) c =
     (if se_session_id s \<notin> set done_ids \<and> lost h env s
      then reconcile_sessions h env (done_ids @ [se_session_id s]) ss (fail_session h env s c)
      else reconcile_sessions h env done_ids ss c)"

text \<open>The workers that are reconciled, all to FAILED.\<close>

definition reconcile_rehydrated_sessions ::
  "python \<Rightarrow> call_env \<Rightarrow> 'a controller \<Rightarrow> (exn + string list) \<times> 'a controller" where
  "reconcile_rehydrated_sessions h env c =
     (case reconcile_records env (ct_records c) c of
        (Inl e, c1) \<Rightarrow> (Inl e, c1)
      | (Inr ws, c1) \<Rightarrow>
          (case list_all_sessions (ct_store c1) of
             Inl e \<Rightarrow> (Inl e, c1)
           | Inr sessions \<Rightarrow>
               (case reconcile_sessions h env ws sessions c1 of (ws', c2) \<Rightarrow> (ok ws', c2))))"

section \<open>Switching the harness\<close>

record harness_switch =
  hs_harness :: string
  hs_model :: "string option"
  hs_provider :: "string option"
  hs_effort :: "string option"
  hs_fallback :: "bool option"

definition check_switch :: "host_env \<Rightarrow> harness_switch \<Rightarrow> exn + harness" where
  "check_switch x sw =
     and_then (get_adapter default_registry (hs_harness sw)) (\<lambda>a.
       if given (hs_model sw) \<and> \<not> validate_model x a (hs_model sw) then raise ValueError ''ModelNotSupported''
       else if given (hs_provider sw) \<and> \<not> validate_provider x a (hs_provider sw)
       then raise ValueError ''ProviderNotSupported''
       else if given (hs_effort sw) \<and> ''THINKING_BUDGET'' \<notin> set (hc_supported (get_capabilities x a))
       then raise ValueError ''CapabilityMismatch''
       else ok a)"

definition reconfigure_message :: "host_env \<Rightarrow> harness_switch \<Rightarrow> harness \<Rightarrow> string \<Rightarrow> bool \<Rightarrow> (string \<times> json) list" where
  "reconfigure_message x sw a request_id fallback =
     [(''command'', JStr ''RECONFIGURE''), (''request_id'', JStr request_id), (''harness'', JStr (hs_harness sw)),
      (''model'', JStr (or_default (hs_model sw) (hc_default_model (get_capabilities x a)))),
      (''provider'', JStr (or_default (hs_provider sw) (hc_default_provider (get_capabilities x a)))),
      (''effort'', opt_text (hs_effort sw)), (''fallback_to_native'', JBool fallback)]"

definition acknowledges :: "string \<Rightarrow> harness_switch \<Rightarrow> bool \<Rightarrow> string \<Rightarrow> bool" where
  "acknowledges w sw fallback line \<longleftrightarrow>
     (case reply_of line of
        None \<Rightarrow> False
      | Some kvs \<Rightarrow> has_field ''worker_id'' w kvs \<and> has_field ''harness'' (hs_harness sw) kvs \<and>
          json_get ''fallback_to_native'' JNull kvs = JBool fallback)"

text \<open>Telling the running child; the second component says whether it confirmed.\<close>

definition confirm_switch ::
  "host_env \<Rightarrow> call_env \<Rightarrow> string \<Rightarrow> harness_switch \<Rightarrow> harness \<Rightarrow> string \<Rightarrow> bool \<Rightarrow> 'a controller \<Rightarrow> bool \<times> 'a controller" where
  "confirm_switch x env w sw a request_id fallback c =
     (if \<not> ce_pipe env then (False, c)
      else let c1 = write_message w (reconfigure_message x sw a request_id fallback) c in
        if ct_readers c w = None then (False, c1)
        else case receive env w (\<lambda>raw. is_reconfigure_ack raw request_id) c1 of
          (None, c2) \<Rightarrow> (False, c2)
        | (Some line, c2) \<Rightarrow> (acknowledges w sw fallback line, c2))"

definition switched_config :: "host_env \<Rightarrow> harness_switch \<Rightarrow> harness \<Rightarrow> bool \<Rightarrow> worker_config \<Rightarrow> worker_config" where
  "switched_config x sw a fallback config = config\<lparr>
     wc_harness := hs_harness sw,
     wc_model := Some (or_default (hs_model sw)
       (if hs_harness sw \<noteq> ''native'' then hc_default_model (get_capabilities x a) else ''native'')),
     wc_provider := Some (or_default (hs_provider sw)
       (if hs_harness sw \<noteq> ''native'' then hc_default_provider (get_capabilities x a) else ''local'')),
     wc_effort := hs_effort sw, wc_fallback_to_native := fallback\<rparr>"

definition apply_switch ::
  "host_env \<Rightarrow> call_env \<Rightarrow> string \<Rightarrow> harness_switch \<Rightarrow> harness \<Rightarrow> string \<Rightarrow> agent_session \<Rightarrow> 'a controller
   \<Rightarrow> (exn + bool) \<times> 'a controller" where
  "apply_switch x env w sw a request_id session c =
     (let fallback = (case hs_fallback sw of Some b \<Rightarrow> b | None \<Rightarrow> wc_fallback_to_native (se_config session));
          save = (\<lambda>c. c\<lparr>ct_store := save_session (session\<lparr>
             se_config := switched_config x sw a fallback (se_config session), se_updated_at := ce_now env\<rparr>) (ct_store c)\<rparr>)
      in if running_child env w c = None then (ok True, save c)
         else case confirm_switch x env w sw a request_id fallback c of
           (True, c1) \<Rightarrow> (ok True, save c1)
         | (False, c1) \<Rightarrow>
             (case terminate_worker env w c1 of
                (Inl e, c2) \<Rightarrow> (Inl e, c2)
              | (Inr b, c2) \<Rightarrow> (raise RuntimeError ''Failed to confirm worker RECONFIGURE'', c2)))"

definition switch_worker_harness ::
  "python \<Rightarrow> host_env \<Rightarrow> call_env \<Rightarrow> string \<Rightarrow> harness_switch \<Rightarrow> string \<Rightarrow> 'a controller
   \<Rightarrow> (exn + bool) \<times> 'a controller" where
  "switch_worker_harness h x env w sw request_id c =
     (case (record_of w c, is_worker_alive h env w c) of
        (None, _) \<Rightarrow> (ok False, c)
      | (Some record, Inl e) \<Rightarrow> (Inl e, c)
      | (Some record, Inr alive) \<Rightarrow>
          if \<not> alive then (ok False, c)
          else if rc_status record \<notin> {WS_IDLE, WS_PAUSED}
          then (raise RuntimeError ''Cannot switch harness on worker in this state'', c)
          else if w \<in> ct_busy c
          then (raise RuntimeError ''Cannot switch harness while task response is still outstanding'', c)
          else (case check_switch x sw of
             Inl e \<Rightarrow> (Inl e, c)
           | Inr a \<Rightarrow>
               (case load_session w (ct_store c) of
                  Inl e \<Rightarrow> (Inl e, c)
                | Inr None \<Rightarrow> (raise RuntimeError ''Cannot reconfigure worker without durable session'', c)
                | Inr (Some session) \<Rightarrow> apply_switch x env w sw a request_id session c)))"

section \<open>Calls\<close>

text \<open>
  Every call on the controller, and what happens to the authority beside it.  A dispatch carries the
  parameters \<open>'i\<close> of the authority's ticket function (its clock readings, for instance).
\<close>

type_synonym payload = "(string \<times> json) list"

datatype ('i, 'e) call =
    Spawn_worker spawn_env call_env worker_config "string option"
  | Ping_worker call_env string
  | Dispatch 'i call_env string string payload
  | Send_async 'i call_env string string payload
  | Collect call_env string string
  | Interrupt_worker call_env string string
  | Pause_worker call_env string
  | Resume_worker call_env string
  | Switch_harness host_env call_env string harness_switch string
  | Terminate call_env string
  | Terminate_all "string \<Rightarrow> call_env"
  | Reap call_env
  | Register call_env string worker_config int "real option"
  | Reconcile call_env
  | Authority 'e

fun control ::
  "python \<Rightarrow> ('i \<Rightarrow> 'a issuer) \<Rightarrow> ('a \<Rightarrow> 'e \<Rightarrow> 'a) \<Rightarrow> 'a controller \<Rightarrow> ('i, 'e) call \<Rightarrow> 'a controller" where
  "control h issue step c (Spawn_worker sp env config path) = snd (spawn_worker h sp env config path c)"
| "control h issue step c (Ping_worker env w) = snd (ping_worker env w c)"
| "control h issue step c (Dispatch i env w t payload) = snd (dispatch_task_to_worker h (issue i) env w t payload c)"
| "control h issue step c (Send_async i env w t payload) = snd (send_task_async h (issue i) env w t payload c)"
| "control h issue step c (Collect env w t) = snd (collect_async_result h env w t c)"
| "control h issue step c (Interrupt_worker env w t) = snd (interrupt_worker_process env w t c)"
| "control h issue step c (Pause_worker env w) = snd (pause_worker h env w c)"
| "control h issue step c (Resume_worker env w) = snd (resume_worker h env w c)"
| "control h issue step c (Switch_harness x env w sw r) = snd (switch_worker_harness h x env w sw r c)"
| "control h issue step c (Terminate env w) = snd (terminate_worker env w c)"
| "control h issue step c (Terminate_all env) = snd (terminate_all env c)"
| "control h issue step c (Reap env) = snd (reap_dead_workers env c)"
| "control h issue step c (Register env w config pid t) = register_persisted_session h env w config pid t c"
| "control h issue step c (Reconcile env) = snd (reconcile_rehydrated_sessions h env c)"
| "control h issue step c (Authority e) = c\<lparr>ct_authority := step (ct_authority c) e\<rparr>"

end
