(* ===== verification/WorkerRuntimeFacts.thy ===== *)
theory WorkerRuntimeFacts
  imports WorkerRuntime
begin

text \<open>
  What the worker process guarantees: a command runs only under a ticket that verifies for it, each
  ticket runs once in the life of the process, and every message gets exactly one answer unless the
  process dies; the check of tickets as JSON agrees with the one of \<open>TrustedAuthority\<close>.
\<close>

section \<open>Tickets\<close>

lemma resource_of_json_text:
  "resource_of_json h cmd (JStr w) t = compute_action_resource (py_sha h) cmd w t"
  by (simp add: resource_of_json_def compute_action_resource_def resource_text_def)

lemma verify_ticket_eq:
  assumes "py_number h (py_literal h (tk_expiry tk)) = tk_expiry tk" "tk_expiry tk \<noteq> Malformed"
  shows "verify_ticket h now (ticket_json h tk) secret w t cmd (JStr ws) =
    verify_ticket_binding (py_sha h) (py_mac h) (py_fixed h) now tk secret w t cmd ws"
proof -
  let ?kvs = "dict_items (ticket_json h tk)"
  have f: "json_get ''action_id'' (JStr []) ?kvs = JStr (tk_action_id tk)"
      "json_get ''worker_id'' (JStr []) ?kvs = JStr (tk_worker_id tk)"
      "json_get ''task_id'' (JStr []) ?kvs = JStr (tk_task_id tk)"
      "json_get ''resource'' (JStr []) ?kvs = JStr (tk_resource tk)"
      "json_get ''signature'' (JStr []) ?kvs = JStr (tk_signature tk)"
      "json_time h (json_get ''expiry'' (JNum ''0.0'') ?kvs) = tk_expiry tk"
    using assms(1) by (simp_all add: ticket_json_def dict_items_def json_get_def json_time_def)
  have signed: "signed_text h ?kvs = ticket_text (py_fixed h) (tk_action_id tk) (tk_worker_id tk) (tk_task_id tk)
      (tk_resource tk) (tk_expiry tk)"
    by (simp add: signed_text_def f ticket_text_def py_str_def)
  have obj: "ticket_json h tk = JObj ?kvs" by (simp add: ticket_json_def dict_items_def)
  show ?thesis
    by (subst obj) (simp add: verify_ticket_def verify_ticket_binding_def Let_def f signed assms(2)
        well_formed_signature_def resource_of_json_text)
qed

text \<open>
  The worker's check is the authority's.  On a ticket as the supervisor writes it into a message,
  with an expiry whose text reads back as the number it is, the check that the worker makes on the
  JSON dictionary gives the verdict and the reason of \<open>verify_ticket_binding\<close>.
\<close>

theorem worker_checks_the_ticket:
  assumes "py_number h (py_literal h (tk_expiry tk)) = tk_expiry tk" "tk_expiry tk \<noteq> Malformed"
  shows "verify_ticket h now (ticket_json h tk) secret w t cmd (JStr ws) =
    verify_ticket_binding (py_sha h) (py_mac h) (py_fixed h) now tk secret w t cmd ws"
  using assms by (rule verify_ticket_eq)

definition demo_python :: python where
  "demo_python = \<lparr>py_sha = (\<lambda>s. []), py_mac = (\<lambda>k s. replicate 64 CHR ''a''), py_fixed = (\<lambda>t. []),
     py_number = (\<lambda>s. Finite 10), py_literal = (\<lambda>t. ''10''), py_repr = (\<lambda>v. []), py_int = (\<lambda>v. None), py_float = (\<lambda>v. None)\<rparr>"

definition demo_ticket :: ticket where
  "demo_ticket = \<lparr>tk_action_id = ''a'', tk_worker_id = ''w'', tk_task_id = ''t'', tk_resource = [],
     tk_expiry = Finite 10, tk_signature = replicate 64 CHR ''a''\<rparr>"

theorem worker_checks_the_ticket_witness:
  "verify_ticket demo_python 5 (ticket_json demo_python demo_ticket) ''k'' ''w'' ''t'' [''ls''] (JStr [])
     = (True, ''VALID'')"
proof -
  have eq: "verify_ticket demo_python 5 (ticket_json demo_python demo_ticket) ''k'' ''w'' ''t'' [''ls''] (JStr [])
    = verify_ticket_binding (py_sha demo_python) (py_mac demo_python) (py_fixed demo_python) 5 demo_ticket
        ''k'' ''w'' ''t'' [''ls''] []"
    by (rule worker_checks_the_ticket) (simp_all add: demo_python_def demo_ticket_def)
  show ?thesis
    unfolding eq by (simp add: verify_ticket_binding_def demo_python_def demo_ticket_def compute_action_resource_def
        before_expiry_def expiry_within_def is_ascii_def Let_def code_of_def list_all_iff)
qed

text \<open>A verified ticket: every field, and the signature over exactly them.\<close>

lemma verify_ticket_ok:
  assumes "verify_ticket h now ticket secret w t cmd ws = (True, reason)"
  obtains kvs where "ticket = JObj kvs" "json_get ''worker_id'' (JStr []) kvs = JStr w"
    "json_get ''task_id'' (JStr []) kvs = JStr t"
    "json_get ''resource'' (JStr []) kvs = JStr (resource_of_json h cmd ws t)"
    "json_get ''signature'' (JStr []) kvs = JStr (py_mac h secret (signed_text h kvs))"
    "before_expiry now (json_time h (json_get ''expiry'' (JNum ''0.0'') kvs))"
proof (cases ticket)
  case (JObj kvs)
  show ?thesis
    by (rule that [OF JObj])
      (use assms in \<open>simp_all add: JObj verify_ticket_def Let_def split: if_splits\<close>)
qed (use assms in \<open>simp_all add: verify_ticket_def\<close>)

section \<open>Commands\<close>

definition spawned :: "effect list \<Rightarrow> (string list \<times> string option) list" where
  "spawned es = concat (map (\<lambda>e. case e of Spawn c d \<Rightarrow> [(c, d)] | _ \<Rightarrow> []) es)"

definition answers :: "effect list \<Rightarrow> (string \<times> json) list list" where
  "answers es = concat (map (\<lambda>e. case e of Send kvs \<Rightarrow> [kvs] | _ \<Rightarrow> []) es)"

lemma effects_simps [simp]:
  "spawned [] = []" "spawned (Spawn c d # es) = (c, d) # spawned es" "spawned (Send kvs # es) = spawned es"
  "spawned (map (\<lambda>(p, c). Write p c) ws @ es) = spawned es" "answers (map (\<lambda>(p, c). Write p c) ws @ es) = answers es"
  "answers [] = []" "answers (Spawn c d # es) = answers es" "answers (Send kvs # es) = kvs # answers es"
  "spawned [result_event t s f] = []" "spawned [denied t r e] = []" "spawned [budget_denial t w] = []"
  "spawned (result_event t s f # es) = spawned es"
  "length (answers [result_event t s f]) = 1" "length (answers [denied t r e]) = 1"
  "length (answers [budget_denial t w]) = 1"
  by (simp_all add: spawned_def answers_def result_event_def denied_def budget_denial_def split_def comp_def)

lemma finish_command_effects:
  "finish_command h t payload cmd code out err pid w = (es, w') \<Longrightarrow>
   spawned es = [] \<and> length (answers es) = 1 \<and> ws_consumed w' = ws_consumed w"
  by (auto simp: finish_command_def Let_def split: option.splits if_splits)

lemma run_command_effects:
  assumes "run_command h env t payload cmd ws w = (flow, es, w')"
  shows "(spawned es = [] \<or> spawned es = [(cmd, working_directory env ws)]) \<and> ws_consumed w' = ws_consumed w \<and>
    length (answers es) = (case flow of Crashed e \<Rightarrow> 0 | _ \<Rightarrow> 1)"
  using assms finish_command_effects
  by (fastforce simp: run_command_def split: if_splits run_outcome.splits prod.splits)

text \<open>
  What authorizes a command in a message: the ticket of the payload, verified for this worker, task,
  command and workspace, whose action this process has not run.
\<close>

definition authorizes :: "python \<Rightarrow> real \<Rightarrow> (string \<times> json) list \<Rightarrow> string \<Rightarrow> string list \<Rightarrow> worker_state \<Rightarrow> json \<Rightarrow> bool" where
  "authorizes h now payload task_id cmd w action_id \<longleftrightarrow>
     (let ticket = json_get ''execution_ticket'' JNull payload in
        ws_session_secret w \<noteq> [] \<and> map_of payload ''approved'' = None \<and> map_of payload ''approver'' = None \<and>
        map_option (command_list h) (map_of payload ''command'') = Some (Some cmd) \<and>
        fst (verify_ticket h now ticket (ws_session_secret w) (ws_worker_id w) task_id cmd
               (effective_workspace payload w)) \<and>
        action_id = json_get ''action_id'' (JStr []) (dict_items ticket) \<and> action_id \<notin> ws_consumed w)"

lemma handle_command_effects:
  assumes "handle_command h env t payload command w = (flow, es, w')"
    and "map_of payload ''command'' = Some command"
    and "map_of payload ''approved'' = None" "map_of payload ''approver'' = None"
  shows "(spawned es = [] \<or> (\<exists>cmd action. spawned es = [(cmd, working_directory env (effective_workspace payload w))] \<and>
      authorizes h (te_now env) payload t cmd w action \<and> ws_consumed w' = insert action (ws_consumed w))) \<and>
    ws_consumed w \<subseteq> ws_consumed w' \<and>
    length (answers es) = (case flow of Crashed e \<Rightarrow> 0 | _ \<Rightarrow> 1)"
proof (cases "command_list h command")
  case None
  then show ?thesis using assms(1) by (auto simp: handle_command_def)
next
  case (Some cmd)
  let ?ticket = "json_get ''execution_ticket'' JNull payload"
  let ?ws = "effective_workspace payload w"
  let ?action = "json_get ''action_id'' (JStr []) (dict_items ?ticket)"
  let ?w = "w\<lparr>ws_consumed := insert ?action (ws_consumed w)\<rparr>"
  obtain valid reason where v: "verify_ticket h (te_now env) ?ticket (ws_session_secret w) (ws_worker_id w) t cmd ?ws = (valid, reason)"
    by (cases "verify_ticket h (te_now env) ?ticket (ws_session_secret w) (ws_worker_id w) t cmd ?ws")
  show ?thesis
  proof (cases "json_truthy ?ticket \<and> ws_session_secret w \<noteq> [] \<and> valid \<and> ?action \<notin> ws_consumed w")
    case True
    then have run: "run_command h env t payload cmd ?ws ?w = (flow, es, w')"
      using assms(1) Some v unfolding handle_command_def Let_def by simp
    have "authorizes h (te_now env) payload t cmd w ?action"
      using True Some v assms(2-4) by (simp add: authorizes_def)
    then show ?thesis using run_command_effects [OF run] by auto
  next
    case False
    then have "spawned es = [] \<and> w' = w \<and> flow = Continue \<and> length (answers es) = 1"
      using assms(1) Some v unfolding handle_command_def Let_def
      by (cases "json_truthy ?ticket"; cases "ws_session_secret w = []"; cases valid) auto
    then show ?thesis by auto
  qed
qed

lemma handle_instruction_effects:
  assumes "handle_instruction h env t payload i w = (flow, es, w')"
  shows "spawned es = [] \<and> ws_consumed w' = ws_consumed w \<and>
    length (answers es) = (case flow of Crashed e \<Rightarrow> 0 | _ \<Rightarrow> 1)"
  using assms by (auto simp: handle_instruction_def adapter_failure_def Let_def split: sum.splits option.splits prod.splits if_splits)

lemma handle_task_effects:
  assumes "handle_task h env t payload w = (flow, es, w')"
  shows "(spawned es = [] \<or> (\<exists>cmd action. spawned es = [(cmd, working_directory env (effective_workspace payload w))] \<and>
      authorizes h (te_now env) payload t cmd w action \<and> ws_consumed w' = insert action (ws_consumed w))) \<and>
    ws_consumed w \<subseteq> ws_consumed w' \<and>
    length (answers es) = (case flow of Crashed e \<Rightarrow> 0 | _ \<Rightarrow> 1)"
proof (cases "over_budget h payload w")
  case (Inl e)
  then show ?thesis using assms by (auto simp: handle_task_def)
next
  case (Inr over)
  show ?thesis
  proof (cases "over \<or> map_of payload ''approved'' \<noteq> None \<or> map_of payload ''approver'' \<noteq> None")
    case True
    then show ?thesis using assms Inr by (cases over) (auto simp: handle_task_def)
  next
    case free: False
    show ?thesis
    proof (cases "map_of payload ''command''")
      case (Some command)
      then have "handle_command h env t payload command w = (flow, es, w')"
        using assms Inr free by (simp add: handle_task_def)
      then show ?thesis using handle_command_effects Some free by blast
    next
      case None
      then show ?thesis using assms Inr free handle_instruction_effects
        by (fastforce simp: handle_task_def handle_other_def Let_def split: option.splits if_splits)
    qed
  qed
qed

lemma handle_message_effects:
  assumes "handle_message h env msg w = (flow, es, w')"
  shows "(spawned es = [] \<or> (\<exists>t payload cmd action. msg = Task t payload \<and>
      spawned es = [(cmd, working_directory env (effective_workspace payload w))] \<and>
      authorizes h (te_now env) payload t cmd w action \<and> ws_consumed w' = insert action (ws_consumed w))) \<and>
    ws_consumed w \<subseteq> ws_consumed w' \<and>
    length (answers es) = (case flow of Crashed e \<Rightarrow> 0 | _ \<Rightarrow> if msg = Other then 0 else 1)"
proof (cases msg)
  case (Task t payload)
  then have "handle_task h env t payload w = (flow, es, w')" using assms by (simp add: handle_message_def)
  from handle_task_effects [OF this] show ?thesis using Task by auto
qed (use assms in \<open>auto simp: handle_message_def reconfigured_def Let_def\<close>)

section \<open>Properties of the worker\<close>

text \<open>
  C31: The worker runs what it has a ticket for.  A message makes the worker start at most one process,
  and then it is a task whose payload carries no approval boolean and holds a ticket that verifies,
  under the session secret, for this worker, this task, exactly the command that is run, and the
  workspace it runs in; the action of the ticket was not run before by this process and is now spent.
\<close>

theorem worker_runs_only_ticketed_commands:
  "case handle_message h env msg w of (flow, es, w') \<Rightarrow>
     spawned es = [] \<or> (\<exists>t payload cmd action. msg = Task t payload \<and>
       spawned es = [(cmd, working_directory env (effective_workspace payload w))] \<and>
       authorizes h (te_now env) payload t cmd w action \<and> ws_consumed w' = insert action (ws_consumed w))"
  using handle_message_effects by (auto split: prod.splits)


text \<open>The process as a machine, and the action whose command a message runs.\<close>

definition worker_step :: "python \<Rightarrow> worker_state \<Rightarrow> task_env \<times> worker_message \<Rightarrow> worker_state" where
  "worker_step h w e = snd (snd (handle_message h (fst e) (snd e) w))"

fun ticket_action :: "worker_message \<Rightarrow> json" where
  "ticket_action (Task t payload) =
     json_get ''action_id'' (JStr []) (dict_items (json_get ''execution_ticket'' JNull payload))"
| "ticket_action _ = JNull"

definition runs_action :: "python \<Rightarrow> worker_state \<Rightarrow> task_env \<times> worker_message \<Rightarrow> json option" where
  "runs_action h w e =
     (if spawned (fst (snd (handle_message h (fst e) (snd e) w))) = [] then None else Some (ticket_action (snd e)))"

lemma worker_step_spends:
  "ws_consumed w \<subseteq> ws_consumed (worker_step h w e) \<and>
   (runs_action h w e = Some a \<longrightarrow> a \<notin> ws_consumed w \<and> a \<in> ws_consumed (worker_step h w e))"
proof -
  obtain flow es w' where m: "handle_message h (fst e) (snd e) w = (flow, es, w')"
    by (cases "handle_message h (fst e) (snd e) w") auto
  show ?thesis using handle_message_effects [OF m]
    by (auto simp: worker_step_def runs_action_def m authorizes_def Let_def)
qed

interpretation worker_tickets: single_use_authority "worker_step h" "\<lambda>_. True" "runs_action h" ws_consumed
  for h
  by unfold_locales (use worker_step_spends in blast)+

text \<open>
  A ticket runs once.  In no sequence of messages does the worker process run commands under two
  tickets of one action.
\<close>

theorem worker_runs_a_ticket_once: "distinct (granted_in (worker_step h) (runs_action h) w es)"
  by (rule worker_tickets.granted_once [OF TrueI])

end
