(* ===== verification/WorkerProcessFacts.thy ===== *)
theory WorkerProcessFacts
  imports WorkerProcess WorkerRuntimeFacts VerifiedAuthority
begin

text \<open>
  What the controller guarantees: no line of a worker is lost by a search, a worker has at most one
  outstanding task, a command leaves only with a ticket of the authority, and what a worker runs on
  a line of the controller was granted for it.
\<close>

section \<open>Readers\<close>

definition unread :: "line_reader \<Rightarrow> string list" where
  "unread r = rd_pending r @ concat (map (\<lambda>l. case l of None \<Rightarrow> [] | Some s \<Rightarrow> [s]) (rd_queue r))"

lemma match_pending_Some:
  "match_pending p ls = Some (l, rest) \<Longrightarrow>
   \<exists>us vs. ls = us @ l # vs \<and> rest = us @ vs \<and> p l \<and> (\<forall>u \<in> set us. \<not> p u)"
proof (induction ls arbitrary: rest)
  case (Cons x ls)
  show ?case
  proof (cases "p x")
    case True
    then show ?thesis using Cons.prems by (auto intro: exI [of _ "[]"])
  next
    case False
    then obtain rest' where r: "match_pending p ls = Some (l, rest')" "rest = x # rest'"
      using Cons.prems by (auto split: option.splits)
    from Cons.IH [OF r(1)] obtain us vs where
      "ls = us @ l # vs" "rest' = us @ vs" "p l" "\<forall>u \<in> set us. \<not> p u" by blast
    then show ?thesis using r(2) False by (intro exI [of _ "x # us"] exI [of _ vs]) simp
  qed
qed simp

lemma match_pending_None: "match_pending p ls = None \<longleftrightarrow> (\<forall>l \<in> set ls. \<not> p l)"
  by (induction ls) (auto split: option.splits)

lemma match_queue_unread:
  "match_queue p n q = (m, unmatched, q') \<Longrightarrow>
   (\<forall>u \<in> set unmatched. \<not> p u) \<and>
   (case m of
      None \<Rightarrow> unread \<lparr>rd_pending = unmatched, rd_queue = q'\<rparr> = unread \<lparr>rd_pending = [], rd_queue = q\<rparr>
    | Some l \<Rightarrow> p l \<and> (\<exists>vs. unread \<lparr>rd_pending = [], rd_queue = q\<rparr> = unmatched @ l # vs \<and>
        unread \<lparr>rd_pending = unmatched, rd_queue = q'\<rparr> = unmatched @ vs))"
proof (induction p n q arbitrary: m unmatched q' rule: match_queue.induct)
  case (4 p n l q)
  then show ?case by (auto simp: unread_def split: if_splits prod.splits option.splits)
qed (auto simp: unread_def)

text \<open>
  A search loses nothing.  \<open>readline_matching\<close> gives the first matching line it can see and removes
  exactly that line; without a match it removes nothing.  The other lines keep their order, so an
  answer to one request never swallows the result of a task.
\<close>

theorem search_loses_nothing:
  "case readline_matching p n r of
     (None, r') \<Rightarrow> unread r' = unread r
   | (Some l, r') \<Rightarrow> p l \<and> (\<exists>us vs. unread r = us @ l # vs \<and> unread r' = us @ vs \<and> (\<forall>u \<in> set us. \<not> p u))"
proof (cases "match_pending p (rd_pending r)")
  case None
  obtain m unmatched q where q: "match_queue p n (rd_queue r) = (m, unmatched, q)"
    by (cases "match_queue p n (rd_queue r)")
  have free: "\<forall>u \<in> set (rd_pending r). \<not> p u" using None by (simp add: match_pending_None)
  show ?thesis
  proof (cases m)
    case None': None
    then show ?thesis using match_queue_unread [OF q] None q
      by (simp add: readline_matching_def unread_def)
  next
    case (Some l)
    then obtain vs where "p l" "unread \<lparr>rd_pending = [], rd_queue = rd_queue r\<rparr> = unmatched @ l # vs"
        "unread \<lparr>rd_pending = unmatched, rd_queue = q\<rparr> = unmatched @ vs" "\<forall>u \<in> set unmatched. \<not> p u"
      using match_queue_unread [OF q] by auto
    then have "unread r = (rd_pending r @ unmatched) @ l # vs \<and>
        unread (snd (readline_matching p n r)) = (rd_pending r @ unmatched) @ vs \<and>
        (\<forall>u \<in> set (rd_pending r @ unmatched). \<not> p u)" and "p l"
      using None q free by (auto simp: readline_matching_def unread_def)
    moreover from None q Some have "fst (readline_matching p n r) = Some l"
      by (simp add: readline_matching_def)
    ultimately have "p l \<and> (\<exists>us vs. unread r = us @ l # vs \<and>
        unread (snd (readline_matching p n r)) = us @ vs \<and> (\<forall>u \<in> set us. \<not> p u))" by blast
    with \<open>fst (readline_matching p n r) = Some l\<close> show ?thesis
      by (cases "readline_matching p n r") (simp only: fst_conv snd_conv prod.case option.case)
  qed
next
  case (Some x)
  then obtain l rest where lr: "match_pending p (rd_pending r) = Some (l, rest)" by (cases x) auto
  from match_pending_Some [OF lr] obtain us vs where
    "rd_pending r = us @ l # vs" "rest = us @ vs" "p l" "\<forall>u \<in> set us. \<not> p u" by blast
  then show ?thesis using lr by (auto simp: readline_matching_def unread_def)
qed

section \<open>What a call changes\<close>

text \<open>A line other than a task, and the outside changes_rules other than the lines of tasks.\<close>

definition line_of :: "(string \<times> json) list \<Rightarrow> string" where
  "line_of msg = dumps True '' '' (JObj msg) @ [CHR 0x0A]"

definition control_message :: "(string \<times> json) list \<Rightarrow> bool" where
  "control_message msg \<longleftrightarrow> wf_json (JObj msg) \<and>
     (\<exists>cmd. map_of msg ''command'' = Some (JStr cmd) \<and> cmd \<noteq> ''TASK'')"

fun quiet :: "ipc \<Rightarrow> bool" where
  "quiet (Written w l) \<longleftrightarrow> (\<exists>msg. l = line_of msg \<and> control_message msg)"
| "quiet _ \<longleftrightarrow> True"

text \<open>A change that sends no task, leaves the authority alone and gives up the claims of the workers \<open>F\<close>.\<close>

definition changes :: "string set \<Rightarrow> 'a controller \<Rightarrow> 'a controller \<Rightarrow> bool" where
  "changes F c c' \<longleftrightarrow>
     (\<exists>es. ct_log c' = ct_log c @ es \<and> list_all quiet es) \<and> ct_authority c' = ct_authority c \<and>
     ct_busy c' = ct_busy c - F \<and> ct_busy_ids c' = (\<lambda>w. if w \<in> F then None else ct_busy_ids c w)"

named_theorems changes_rules

lemma changes_refl [changes_rules]: "changes {} c c"
  by (simp add: changes_def)

lemma changes_trans:
  assumes "changes F c c'" "changes G c' c''"
  shows "changes (F \<union> G) c c''"
proof -
  obtain es ds where "ct_log c' = ct_log c @ es" "ct_log c'' = ct_log c' @ ds"
      "list_all quiet es" "list_all quiet ds"
    using assms unfolding changes_def by blast
  then have "ct_log c'' = ct_log c @ (es @ ds) \<and> list_all quiet (es @ ds)" by simp
  then show ?thesis using assms unfolding changes_def by (intro conjI exI) auto
qed

lemma changes_then: "changes {} c c' \<Longrightarrow> changes F c' c'' \<Longrightarrow> changes F c c''"
  using changes_trans [of "{}" c c' F c''] by simp

lemma changes_after: "changes F c c' \<Longrightarrow> changes {} c' c'' \<Longrightarrow> changes F c c''"
  using changes_trans [of F c c' "{}" c''] by simp

lemma changes_put_record [changes_rules]: "changes {} c (put_record w r c)"
  by (simp add: changes_def put_record_def)

lemma changes_with_record [changes_rules]: "changes {} c (with_record w f c)"
  by (simp add: with_record_def changes_rules split: option.splits)

lemma changes_store [changes_rules]: "changes {} c (c\<lparr>ct_store := st\<rparr>)"
  by (simp add: changes_def)

lemma changes_readers [changes_rules]: "changes {} c (c\<lparr>ct_readers := rs\<rparr>)"
  by (simp add: changes_def)

lemma changes_procs [changes_rules]: "changes {} c (c\<lparr>ct_procs := ps\<rparr>)"
  by (simp add: changes_def)

lemma changes_log: "list_all quiet es \<Longrightarrow> changes {} c (c\<lparr>ct_log := ct_log c @ es\<rparr>)"
  by (auto simp: changes_def)

lemma changes_killed [changes_rules]: "changes {} c (killed env pid c)"
  unfolding killed_def by (rule changes_log) (simp add: kill_process_tree_def)

lemma changes_write: "control_message msg \<Longrightarrow> changes {} c (write_message w msg c)"
  unfolding write_message_def by (rule changes_log) (auto simp: line_of_def)

lemma changes_receive: "receive env w p c = (l, c') \<Longrightarrow> changes {} c c'"
  by (auto simp: receive_def changes_rules split: option.splits prod.splits)

lemma changes_release [changes_rules]: "changes {w} c (release w c)"
  by (auto simp: changes_def release_def)

lemma changes_forget [changes_rules]: "changes {w} c (forget w c)"
  by (auto simp: changes_def release_def forget_def)

lemma changes_update_session: "update_session w now f c = Inr c' \<Longrightarrow> changes {} c c'"
  by (auto simp: update_session_def changes_rules split: sum.splits option.splits)

lemma changes_change_status [changes_rules]: "changes {} c (snd (change_status w env st c))"
proof -
  have "changes {} c (set_record_status w st c)" by (simp add: set_record_status_def changes_rules)
  then show ?thesis
    by (auto simp: change_status_def Let_def finish_def save_status_def
        intro: changes_then dest: changes_update_session split: sum.splits)
qed

lemmas control_messages = control_message_def

lemma changes_terminate:
  "\<exists>F \<subseteq> {w}. changes F c (snd (terminate_worker env w c)) \<and> (is_ok (fst (terminate_worker env w c)) \<longrightarrow> F = {w})"
proof -
  have stop: "control_message [(''command'', JStr ''STOP'')]" by (simp add: control_messages)
  define c2 where "c2 = with_record w (\<lambda>r. r\<lparr>rc_exit_code := final_code env w c, rc_status := final_status (final_code env w c)\<rparr>)
     (killed env (case map_of (ct_procs c) w of Some pid \<Rightarrow> pid
                 | None \<Rightarrow> (case record_of w c of Some r \<Rightarrow> rc_pid r | None \<Rightarrow> 0))
       (if running_child env w c \<noteq> None \<and> ce_pipe env then write_message w [(''command'', JStr ''STOP'')] c else c))"
  have c2: "changes {} c c2"
    unfolding c2_def by (intro changes_then [OF _ changes_with_record] changes_then [OF _ changes_killed])
      (simp add: changes_rules changes_write stop)
  have eq: "terminate_worker env w c =
      finish c2 True (map_sum id (forget w) (save_status w env (final_status (final_code env w c)) c2))"
    by (simp add: terminate_worker_def Let_def c2_def)
  show ?thesis
  proof (cases "save_status w env (final_status (final_code env w c)) c2")
    case (Inl e)
    then show ?thesis using c2 by (auto simp: eq finish_def)
  next
    case (Inr c3)
    then have "changes {} c2 c3" unfolding save_status_def by (rule changes_update_session)
    then have "changes {w} c (forget w c3)" using c2 changes_then changes_forget by metis
    then show ?thesis by (auto simp: eq finish_def Inr)
  qed
qed

lemma changes_ping: "changes {} c (snd (ping_worker env w c))"
proof -
  let ?c1 = "write_message w [(''command'', JStr ''PING'')] c"
  obtain l c2 where l: "receive env w (\<lambda>raw. is_control_event raw ''PONG'' w) ?c1 = (l, c2)"
    by (cases "receive env w (\<lambda>raw. is_control_event raw ''PONG'' w) ?c1")
  have "changes {} c ?c1" by (rule changes_write) (simp add: control_messages)
  then have c2: "changes {} c c2" using changes_receive [OF l] by (rule changes_then)
  then have "changes {} c (with_record w f c2)" for f using changes_with_record by (rule changes_then)
  then show ?thesis using c2 by (simp add: ping_worker_def l changes_rules split: option.split)
qed

lemma changes_interrupt: "changes {} c (snd (interrupt_worker_process env w t c))"
proof -
  let ?c1 = "write_message w [(''command'', JStr ''INTERRUPT''), (''task_id'', JStr t)] c"
  let ?c2 = "snd (receive env w (\<lambda>raw. is_control_event raw ''INTERRUPTED'' w) ?c1)"
  have "changes {} c ?c1" by (rule changes_write) (simp add: control_messages)
  moreover have "changes {} ?c1 ?c2"
    by (cases "receive env w (\<lambda>raw. is_control_event raw ''INTERRUPTED'' w) ?c1") (auto dest: changes_receive)
  ultimately have "changes {} c ?c2" by (rule changes_then)
  then have "changes {} c (snd (change_status w env WS_INTERRUPTED ?c2))"
    using changes_change_status by (rule changes_then)
  then show ?thesis by (simp add: interrupt_worker_process_def changes_rules)
qed

lemma changes_guarded: "changes {} c (snd (guarded_status h env w sts free st c))"
  by (auto simp: guarded_status_def changes_rules split: option.splits sum.splits)

lemma changes_confirm:
  assumes "confirm_switch x env w sw a r fb c = (b, c')"
  shows "changes {} c c'"
proof -
  have "control_message (reconfigure_message x sw a r fb)"
    by (simp add: control_messages reconfigure_message_def opt_text_def split: option.split)
  then have "changes {} c (write_message w (reconfigure_message x sw a r fb) c)" by (rule changes_write)
  then show ?thesis using assms
    by (auto simp: confirm_switch_def Let_def changes_rules split: if_splits prod.splits option.splits
        dest!: changes_receive intro: changes_then)
qed

lemma changes_switch:
  "\<exists>F \<subseteq> {w} - ct_busy c. changes F c (snd (switch_worker_harness h x env w sw r c))"
proof -
  have switched: "\<exists>F \<subseteq> {w}. changes F c (snd (apply_switch x env w sw a r session c))" for a session
  proof -
    define fb where "fb = (case hs_fallback sw of Some b \<Rightarrow> b | None \<Rightarrow> wc_fallback_to_native (se_config session))"
    obtain b c1 where c1: "confirm_switch x env w sw a r fb c = (b, c1)"
      by (cases "confirm_switch x env w sw a r fb c")
    note e1 = changes_confirm [OF c1]
    obtain F where F: "F \<subseteq> {w}" "changes F c1 (snd (terminate_worker env w c1))" using changes_terminate by blast
    show ?thesis
    proof (cases "running_child env w c = None \<or> b")
      case True
      then have "changes {} c (snd (apply_switch x env w sw a r session c))"
        using c1 e1 changes_then [OF e1 changes_store]
        by (cases "running_child env w c") (simp_all add: apply_switch_def Let_def fb_def changes_rules)
      then show ?thesis by blast
    next
      case False
      then have "snd (apply_switch x env w sw a r session c) = snd (terminate_worker env w c1)"
        using c1 by (auto simp: apply_switch_def Let_def fb_def split: prod.splits sum.splits)
      then show ?thesis using F changes_then [OF e1 F(2)] by auto
    qed
  qed
  show ?thesis
  proof (cases "\<exists>rec a session. record_of w c = Some rec \<and> is_worker_alive h env w c = Inr True \<and>
      rc_status rec \<in> {WS_IDLE, WS_PAUSED} \<and> w \<notin> ct_busy c \<and> check_switch x sw = Inr a \<and>
      load_session w (ct_store c) = Inr (Some session)")
    case True
    then obtain rec a session where t: "record_of w c = Some rec" "is_worker_alive h env w c = Inr True"
        "rc_status rec \<in> {WS_IDLE, WS_PAUSED}" "w \<notin> ct_busy c" "check_switch x sw = Inr a"
        "load_session w (ct_store c) = Inr (Some session)" by blast
    have "snd (switch_worker_harness h x env w sw r c) = snd (apply_switch x env w sw a r session c)"
      using t by (simp add: switch_worker_harness_def)
    then show ?thesis using switched [of a session] t(4) by auto
  next
    case False
    then have "snd (switch_worker_harness h x env w sw r c) = c"
      by (auto simp: switch_worker_harness_def split: option.splits sum.splits)
    then show ?thesis using changes_refl by auto
  qed
qed

lemma changes_terminate_each:
  "\<exists>F \<subseteq> set ws. changes F c (snd (terminate_each env ws c))"
proof (induction ws arbitrary: c)
  case (Cons w ws)
  obtain r c1 where t: "terminate_worker (env w) w c = (r, c1)" by (cases "terminate_worker (env w) w c")
  obtain F where F: "F \<subseteq> {w}" "changes F c c1" using changes_terminate [of w c "env w"] t by auto
  obtain G where G: "G \<subseteq> set ws" "changes G c1 (snd (terminate_each env ws c1))" using Cons by blast
  show ?case
  proof (cases r)
    case (Inl e)
    then show ?thesis using t F by auto
  next
    case (Inr b)
    then show ?thesis using t F G changes_trans [OF F(2) G(2)] by (intro exI [of _ "F \<union> G"]) auto
  qed
qed (use changes_refl in auto)

lemma changes_reap_each:
  "\<exists>F \<subseteq> {w. \<exists>pid. (w, pid) \<in> set ps \<and> ce_poll env pid \<noteq> None}. changes F c (snd (reap_each env ps c))"
proof (induction ps arbitrary: c)
  case (Cons q ps)
  obtain w pid where q: "q = (w, pid)" by (cases q)
  show ?case
  proof (cases "ce_poll env pid")
    case None
    obtain G where "G \<subseteq> {w. \<exists>pid. (w, pid) \<in> set ps \<and> ce_poll env pid \<noteq> None}"
        "changes G c (snd (reap_each env ps c))" using Cons by blast
    moreover have "{w. \<exists>pid. (w, pid) \<in> set ps \<and> ce_poll env pid \<noteq> None} \<subseteq>
        {w. \<exists>pid. (w, pid) \<in> set (q # ps) \<and> ce_poll env pid \<noteq> None}" by auto
    moreover have "reap_each env (q # ps) c = reap_each env ps c" using None q by simp
    ultimately show ?thesis by (intro exI [of _ G]) (simp only:, blast)
  next
    case (Some code)
    define c1 where "c1 = with_record w (\<lambda>r. r\<lparr>rc_exit_code := Some code, rc_status := WS_FAILED\<rparr>) c"
    have e1: "changes {} c c1" by (simp add: c1_def changes_rules)
    show ?thesis
    proof (cases "save_status w env WS_FAILED c1")
      case (Inl e)
      then show ?thesis using e1 Some q by (auto simp: c1_def [symmetric] Let_def)
    next
      case (Inr c2)
      then have "changes {} c1 c2" unfolding save_status_def by (rule changes_update_session)
      then have e2: "changes {w} c (forget w c2)" using e1 changes_then changes_forget by metis
      obtain G where G: "G \<subseteq> {w. \<exists>pid. (w, pid) \<in> set ps \<and> ce_poll env pid \<noteq> None}"
          "changes G (forget w c2) (snd (reap_each env ps (forget w c2)))" using Cons by blast
      have "snd (reap_each env (q # ps) c) = snd (reap_each env ps (forget w c2))"
        using Some Inr q by (simp add: c1_def [symmetric] Let_def split: prod.splits)
      then have "changes ({w} \<union> G) c (snd (reap_each env (q # ps) c))" using changes_trans [OF e2 G(2)] by simp
      moreover have "{w} \<union> G \<subseteq> {w. \<exists>pid. (w, pid) \<in> set (q # ps) \<and> ce_poll env pid \<noteq> None}"
        using G(1) q Some by auto
      ultimately show ?thesis by blast
    qed
  qed
qed (use changes_refl in auto)

lemma changes_register: "changes {} c (register_persisted_session h env w config pid t c)"
  by (auto simp: register_persisted_session_def Let_def intro: changes_then [OF changes_store changes_put_record])

lemma changes_reconcile: "changes {} c (snd (reconcile_rehydrated_sessions h env c))"
proof -
  have records: "changes {} c (snd (reconcile_records env rs c))" for rs and c :: "'a controller"
  proof (induction rs arbitrary: c)
    case (Cons q rs)
    obtain w rec where q: "q = (w, rec)" by (cases q)
    have e1: "changes {} c (set_record_status w WS_FAILED c)" by (simp add: set_record_status_def changes_rules)
    show ?case
    proof (cases "save_status w env WS_FAILED (set_record_status w WS_FAILED c)")
      case (Inl e)
      then show ?thesis using Cons e1 q by simp
    next
      case (Inr c2)
      then have "changes {} (set_record_status w WS_FAILED c) c2"
        unfolding save_status_def by (rule changes_update_session)
      from changes_then [OF changes_then [OF e1 this] Cons] Cons show ?thesis
        using q Inr by (simp split: prod.split) (metis snd_conv)
    qed
  qed (simp add: changes_rules)
  have sessions: "changes {} c (snd (reconcile_sessions h env ds ss c))" for ds ss and c :: "'a controller"
  proof (induction ss arbitrary: ds c)
    case (Cons s ss)
    have "changes {} c (fail_session h env s c)"
      unfolding fail_session_def Let_def by (rule changes_then [OF changes_store changes_put_record])
    from changes_then [OF this Cons] show ?case using Cons by simp
  qed (simp add: changes_rules)
  obtain r c1 where r: "reconcile_records env (ct_records c) c = (r, c1)"
    by (cases "reconcile_records env (ct_records c) c")
  have c1: "changes {} c c1" using records [of c "ct_records c"] r by simp
  have "changes {} c (snd (reconcile_sessions h env ds ss c1))" for ds ss
    using changes_then [OF c1 sessions] .
  then show ?thesis using c1
    by (simp add: reconcile_rehydrated_sessions_def r split: sum.split prod.split) (metis snd_conv)
qed

lemma changes_check_child:
  assumes "check_child h sp env pid c = (r, c')"
  shows "changes {} c c'"
proof -
  have "c' = c \<or> c' = killed env pid c"
    using assms by (auto simp: check_child_def split: option.splits sum.splits if_splits)
  then show ?thesis using changes_rules by auto
qed

lemma changes_adopt:
  "\<exists>F \<subseteq> {wc_worker_id config}. changes F c (snd (adopt_child h sp env config path pid kvs c))"
proof -
  let ?w = "wc_worker_id config"
  let ?c1 = "write_message ?w [(''command'', JStr ''INIT_ACK''), (''session_secret'', JStr (sp_secret sp))] c"
  have e1: "changes {} c ?c1" by (rule changes_write) (simp add: control_messages)
  show ?thesis
  proof (cases "ce_pipe env")
    case True
    show ?thesis
    proof (cases "init_create_time h sp (ce_now env) kvs")
      case (Inl e)
      then show ?thesis using True e1 by (auto simp: adopt_child_def Let_def)
    next
      case (Inr t)
      let ?c2 = "?c1\<lparr>ct_procs := AList.update ?w pid (ct_procs ?c1)\<rparr>"
      let ?c3 = "?c2\<lparr>ct_store := save_session (spawned_session h env config pid t) (ct_store ?c2)\<rparr>"
      let ?r = "spawned_record env sp config path pid t (ct_policy c)"
      have "changes {} c (put_record ?w ?r ?c3)"
        by (rule changes_then [OF e1 changes_then [OF changes_procs changes_then [OF changes_store changes_put_record]]])
      then have "changes {?w} c (release ?w (put_record ?w ?r ?c3))" using changes_release by (rule changes_then)
      then show ?thesis using True Inr by (simp add: adopt_child_def Let_def) blast
    qed
  qed (use changes_killed in \<open>auto simp: adopt_child_def\<close>)
qed

lemma changes_start:
  "\<exists>F \<subseteq> {wc_worker_id config}. changes F c (snd (start_child h sp env config path pid c))"
proof -
  let ?c1 = "c\<lparr>ct_readers := (ct_readers c)(wc_worker_id config \<mapsto> new_reader)\<rparr>"
  obtain r c2 where r: "check_child h sp env pid ?c1 = (r, c2)" by (cases "check_child h sp env pid ?c1")
  have e2: "changes {} c c2" by (rule changes_then [OF changes_readers changes_check_child [OF r]])
  let ?s = "snd (start_child h sp env config path pid c)"
  have log: "changes {} c (c\<lparr>ct_log := ct_log c @ [Killed pid]\<rparr>)" by (rule changes_log) simp
  have "?s \<in> {c\<lparr>ct_log := ct_log c @ [Killed pid]\<rparr>, killed env pid c, c2} \<or>
      (\<exists>kvs. ?s = snd (adopt_child h sp env config path pid kvs c2))"
    by (cases r) (auto simp: start_child_def Let_def r)
  then show ?thesis
  proof (elim disjE exE)
    assume "?s \<in> {c\<lparr>ct_log := ct_log c @ [Killed pid]\<rparr>, killed env pid c, c2}"
    then have "changes {} c ?s" using log e2 changes_killed [of c env pid] by (elim insertE emptyE) simp_all
    then show ?thesis by (intro exI [of _ "{}"]) simp
  next
    fix kvs
    assume s: "?s = snd (adopt_child h sp env config path pid kvs c2)"
    obtain F where F: "F \<subseteq> {wc_worker_id config}" "changes F c2 (snd (adopt_child h sp env config path pid kvs c2))"
      using changes_adopt [of config c2 h sp env path pid kvs] by (elim exE conjE)
    show ?thesis unfolding s using F(1) changes_then [OF e2 F(2)] by (intro exI [of _ F]) simp
  qed
qed

lemma changes_spawn:
  "\<exists>F \<subseteq> {w. w = wc_worker_id config \<and> running_child env w c = None}.
     changes F c (snd (spawn_worker h sp env config path c))"
proof (cases "running_child env (wc_worker_id config) c")
  case None
  define dir where "dir = (if given path then or_default path [] else or_default (wc_working_dir config) [])"
  show ?thesis
  proof (cases "launch_child sp (ct_policy c) dir")
    case (Inl e)
    then have "snd (spawn_worker h sp env config path c) = c"
      using None by (simp add: spawn_worker_def Let_def dir_def [symmetric])
    then show ?thesis using changes_refl by auto
  next
    case (Inr x)
    obtain cwd launch pid where x: "x = (cwd, launch, pid)" by (cases x)
    let ?c1 = "c\<lparr>ct_log := ct_log c @ [Started (wc_worker_id config) (worker_command sp config dir) cwd launch pid]\<rparr>"
    have s: "snd (spawn_worker h sp env config path c) = snd (start_child h sp env config dir pid ?c1)"
      using None Inr x by (simp add: spawn_worker_def Let_def dir_def [symmetric])
    have e1: "changes {} c ?c1" by (rule changes_log) simp
    obtain F where F: "F \<subseteq> {wc_worker_id config}" "changes F ?c1 (snd (start_child h sp env config dir pid ?c1))"
      using changes_start [of config ?c1 h sp env dir pid] by (elim exE conjE)
    have "changes F c (snd (spawn_worker h sp env config path c))" unfolding s using e1 F(2) by (rule changes_then)
    then show ?thesis using F(1) None by (intro exI [of _ F]) auto
  qed
qed (use changes_refl in \<open>auto simp: spawn_worker_def Let_def\<close>)

section \<open>Tasks\<close>

text \<open>The result of the task \<open>t\<close> is what a search in the worker's reader finds during this call.\<close>

definition result_came :: "call_env \<Rightarrow> string \<Rightarrow> string \<Rightarrow> 'a controller \<Rightarrow> bool" where
  "result_came env w t c \<longleftrightarrow> fst (receive env w (\<lambda>raw. is_task_result raw t) c) \<noteq> None"

lemma changes_settle:
  "\<exists>F \<subseteq> {w}. changes F c (snd (settle h env w res c))"
proof -
  have "changes {} c c1 \<Longrightarrow> \<exists>F \<subseteq> {w}. changes F c (snd (finish c1 res (map_sum id (release w) (update_session w now f c1))))"
    for c1 now f
  proof (cases "update_session w now f c1")
    case (Inr c2)
    assume "changes {} c c1"
    then have "changes {} c c2" using changes_update_session [OF Inr] by (rule changes_then)
    then have "changes {w} c (release w c2)" using changes_release by (rule changes_then)
    then show ?thesis using Inr by (auto simp: finish_def)
  qed (auto simp: finish_def)
  note finished = this
  show ?thesis
  proof (cases "map_of res ''tokens_consumed''")
    case None
    then show ?thesis using changes_release [of w c] by (auto simp: settle_def)
  next
    case (Some v)
    show ?thesis
    proof (cases "py_int h v")
      case None
      then show ?thesis using Some changes_refl by (auto simp: settle_def)
    next
      case n: (Some n)
      show ?thesis using finished [OF changes_with_record] Some n by (simp add: settle_def Let_def)
    qed
  qed
qed

lemma changes_await:
  "\<exists>F. F \<subseteq> {w} \<and> (w \<in> F \<longrightarrow> result_came env w t c) \<and> changes F c (snd (await_result h env w t late c))"
proof -
  obtain l c1 where l: "receive env w (\<lambda>raw. is_task_result raw t) c = (l, c1)"
    by (cases "receive env w (\<lambda>raw. is_task_result raw t) c")
  note e1 = changes_receive [OF l]
  show ?thesis
  proof (cases l)
    case None
    then show ?thesis using e1 l by (intro exI [of _ "{}"]) (simp add: await_result_def)
  next
    case (Some line)
    then have came: "result_came env w t c" using l by (simp add: result_came_def)
    have "\<exists>F \<subseteq> {w}. changes F c1 (snd (await_result h env w t late c))"
      using changes_settle [of w c1] Some l changes_refl
      by (simp add: await_result_def split: option.split) blast
    then show ?thesis using changes_then [OF e1] came by blast
  qed
qed

lemma changes_collect:
  "\<exists>F. F \<subseteq> {w} \<and> (w \<in> F \<longrightarrow> ct_busy_ids c w = Some t \<and> result_came env w t c) \<and>
     changes F c (snd (collect_async_result h env w t c))"
proof (cases "ct_busy_ids c w = Some t \<and> ct_readers c w \<noteq> None \<and> has_attached_worker_ipc env w c")
  case True
  then have "collect_async_result h env w t c =
      await_result h env w t (answer ''TIMEOUT'' t ''Worker task outcome is still ambiguous'') c"
    by (auto simp: collect_async_result_def)
  then show ?thesis using changes_await [of w env t c h] True by metis
next
  case False
  then have "snd (collect_async_result h env w t c) = c" by (auto simp: collect_async_result_def)
  then show ?thesis using changes_refl by (intro exI [of _ "{}"]) simp
qed

text \<open>What is sent for a payload: the payload, and with a command the ticket that was issued for it.\<close>

definition approval_id :: "payload \<Rightarrow> string" where
  "approval_id payload = text_of (or_json (json_get ''approval_action_id'' JNull payload) (JStr []))"

definition granted_for ::
  "python \<Rightarrow> 'a issuer \<Rightarrow> string \<Rightarrow> string \<Rightarrow> worker_record \<Rightarrow> payload \<Rightarrow> string list \<Rightarrow> ticket \<Rightarrow> 'a \<Rightarrow> bool" where
  "granted_for h issue w t r payload cmd tk a \<longleftrightarrow>
     (\<exists>reason. fst (issue (approval_id payload) w t cmd (or_default (rc_worktree r) []) (rc_secret r) a)
        = Inr (True, reason, Some tk))"

definition ticketed ::
  "python \<Rightarrow> 'a issuer \<Rightarrow> string \<Rightarrow> string \<Rightarrow> worker_record \<Rightarrow> payload \<Rightarrow> payload \<Rightarrow> 'a \<Rightarrow> bool" where
  "ticketed h issue w t r payload p a \<longleftrightarrow>
     (case map_of payload ''command'' of
        None \<Rightarrow> p = payload
      | Some v \<Rightarrow> \<exists>tk. granted_for h issue w t r payload (requested_command h v) tk a \<and>
          p = AList.update ''workspace_path'' (JStr (or_default (rc_worktree r) []))
                (AList.update ''execution_ticket'' (ticket_json h tk) payload))"

text \<open>What a dispatch asks of the authority.\<close>

definition asked :: "python \<Rightarrow> 'a issuer \<Rightarrow> string \<Rightarrow> string \<Rightarrow> worker_record \<Rightarrow> payload \<Rightarrow> 'a \<Rightarrow> 'a \<Rightarrow> bool" where
  "asked h issue w t r payload a a' \<longleftrightarrow>
     a' = a \<or> (\<exists>v. map_of payload ''command'' = Some v \<and>
       a' = snd (issue (approval_id payload) w t (requested_command h v) (or_default (rc_worktree r) []) (rc_secret r) a))"

lemma attach_ticket_asks:
  assumes "attach_ticket h issue w t r payload c = (res, c1)"
  shows "c1 = c\<lparr>ct_authority := ct_authority c1\<rparr> \<and> asked h issue w t r payload (ct_authority c) (ct_authority c1)"
  using assms unfolding attach_ticket_def asked_def approval_id_def
  by (auto simp: Let_def split: option.splits sum.splits prod.splits if_splits)

lemma attach_ticket_sends:
  assumes "attach_ticket h issue w t r payload c = (Inr (Inr p), c1)"
  shows "ticketed h issue w t r payload p (ct_authority c)"
  using assms unfolding attach_ticket_def ticketed_def granted_for_def approval_id_def
  by (auto simp: Let_def split: option.splits sum.splits prod.splits if_splits)

lemma receive_same_reader:
  "ct_readers c w = ct_readers c' w \<Longrightarrow> fst (receive env w p c) = fst (receive env w p c')"
  by (simp add: receive_def split: option.split prod.split)

text \<open>The two outcomes of a dispatch: nothing is sent, or the task is sent and claimed.\<close>

definition silent :: "python \<Rightarrow> 'a issuer \<Rightarrow> string \<Rightarrow> string \<Rightarrow> payload \<Rightarrow> 'a controller \<Rightarrow> 'a controller \<Rightarrow> bool" where
  "silent h issue w t payload c c' \<longleftrightarrow>
     (\<exists>F a. F \<subseteq> {w} - ct_busy c \<and> changes F (c\<lparr>ct_authority := a\<rparr>) c' \<and>
       (a = ct_authority c \<or> (\<exists>r. asked h issue w t r payload (ct_authority c) a)))"

definition sent :: "python \<Rightarrow> 'a issuer \<Rightarrow> call_env \<Rightarrow> string \<Rightarrow> string \<Rightarrow> payload \<Rightarrow> 'a controller \<Rightarrow> 'a controller \<Rightarrow> bool" where
  "sent h issue env w t payload c c' \<longleftrightarrow>
     (\<exists>r p a F. record_of w c = Some r \<and> running_child env w c \<noteq> None \<and> w \<notin> ct_busy c \<and> \<not> unavailable (rc_status r) \<and>
       ticketed h issue w t r payload p (ct_authority c) \<and> asked h issue w t r payload (ct_authority c) a \<and>
       F \<subseteq> {w} \<and> (w \<in> F \<longrightarrow> result_came env w t c) \<and>
       changes F (write_message w (task_message t p) (claim w t (c\<lparr>ct_authority := a\<rparr>))) c')"

lemma silent_same: "silent h issue w t payload c c"
  unfolding silent_def
  by (intro exI [of _ "{}"] exI [of _ "ct_authority c"]) (simp add: changes_rules)

lemma silent_asked:
  "asked h issue w t r payload (ct_authority c) a \<Longrightarrow> silent h issue w t payload c (c\<lparr>ct_authority := a\<rparr>)"
  unfolding silent_def by (intro exI [of _ "{}"] exI [of _ a]) (auto simp: changes_rules)

lemma silent_unwritten:
  assumes "asked h issue w t r payload (ct_authority c) a" "w \<notin> ct_busy c"
  shows "silent h issue w t payload c (release w (claim w t (c\<lparr>ct_authority := a\<rparr>)))"
proof -
  have "changes {w} (c\<lparr>ct_authority := a\<rparr>) (release w (claim w t (c\<lparr>ct_authority := a\<rparr>)))"
    by (auto simp: changes_def release_def claim_def)
  then show ?thesis using assms unfolding silent_def by blast
qed

lemma dispatch_outcome:
  "silent h issue w t payload c (snd (dispatch_task_to_worker h issue env w t payload c)) \<or>
   sent h issue env w t payload c (snd (dispatch_task_to_worker h issue env w t payload c))"
proof (cases "\<exists>pid reader r. running_child env w c = Some pid \<and> ct_readers c w = Some reader \<and> record_of w c = Some r \<and>
    rc_status r \<notin> {WS_PAUSED, WS_INTERRUPTED} \<and> w \<notin> ct_busy c")
  case False
  then have "snd (dispatch_task_to_worker h issue env w t payload c) = c"
    by (auto simp: dispatch_task_to_worker_def split: option.splits)
  then show ?thesis by (simp add: silent_same)
next
  case True
  then obtain pid reader r where t: "running_child env w c = Some pid" "ct_readers c w = Some reader"
      "record_of w c = Some r" "rc_status r \<notin> {WS_PAUSED, WS_INTERRUPTED}" "w \<notin> ct_busy c" by blast
  obtain res c1 where a: "attach_ticket h issue w t r payload c = (res, c1)"
    by (cases "attach_ticket h issue w t r payload c")
  note asks = attach_ticket_asks [OF a]
  have quietly: "silent h issue w t payload c c1"
    using silent_asked [of h issue w t r payload c "ct_authority c1"] asks by metis
  show ?thesis
  proof (cases "\<exists>p. res = Inr (Inr p) \<and> \<not> unavailable (rc_status r)")
    case False
    then have "snd (dispatch_task_to_worker h issue env w t payload c) = c1"
      using t a by (auto simp: dispatch_task_to_worker_def split: sum.splits)
    then show ?thesis using quietly by simp
  next
    case True
    then obtain p where p: "res = Inr (Inr p)" "\<not> unavailable (rc_status r)" by blast
    show ?thesis
    proof (cases "ce_pipe env")
      case False
      then have "snd (dispatch_task_to_worker h issue env w t payload c) = release w (claim w t c1)"
        using t a p by (simp add: dispatch_task_to_worker_def)
      then show ?thesis using silent_unwritten [of h issue w t r payload c "ct_authority c1"] asks t(5) by metis
    next
      case True
      let ?c2 = "write_message w (task_message t p) (claim w t c1)"
      have s: "snd (dispatch_task_to_worker h issue env w t payload c) = snd (await_result h env w t (late_answer t) ?c2)"
        using t a p True by (simp add: dispatch_task_to_worker_def)
      obtain F where F: "F \<subseteq> {w}" "w \<in> F \<longrightarrow> result_came env w t ?c2" "changes F ?c2 (snd (await_result h env w t (late_answer t) ?c2))"
        using changes_await by metis
      have "ct_readers ?c2 w = ct_readers c w"
        by (subst asks [THEN conjunct1]) (simp add: write_message_def claim_def)
      then have "result_came env w t ?c2 = result_came env w t c"
        unfolding result_came_def by (metis receive_same_reader)
      moreover have "ticketed h issue w t r payload p (ct_authority c)"
        using attach_ticket_sends a p by metis
      moreover obtain a where c1: "c1 = c\<lparr>ct_authority := a\<rparr>" and "asked h issue w t r payload (ct_authority c) a"
        using asks by metis
      ultimately have "sent h issue env w t payload c (snd (await_result h env w t (late_answer t) ?c2))"
        using t p(2) F unfolding sent_def c1 by blast
      then show ?thesis unfolding s ..
    qed
  qed
qed

lemma send_outcome:
  "silent h issue w t payload c (snd (send_task_async h issue env w t payload c)) \<or>
   sent h issue env w t payload c (snd (send_task_async h issue env w t payload c))"
proof (cases "\<exists>pid r. running_child env w c = Some pid \<and> record_of w c = Some r \<and>
    rc_status r \<notin> {WS_PAUSED, WS_INTERRUPTED} \<and> w \<notin> ct_busy c")
  case False
  then have "snd (send_task_async h issue env w t payload c) = c"
    by (auto simp: send_task_async_def split: option.splits)
  then show ?thesis by (simp add: silent_same)
next
  case True
  then obtain pid r where t: "running_child env w c = Some pid"
      "record_of w c = Some r" "rc_status r \<notin> {WS_PAUSED, WS_INTERRUPTED}" "w \<notin> ct_busy c" by blast
  obtain res c1 where a: "attach_ticket h issue w t r payload c = (res, c1)"
    by (cases "attach_ticket h issue w t r payload c")
  note asks = attach_ticket_asks [OF a]
  have quietly: "silent h issue w t payload c c1"
    using silent_asked [of h issue w t r payload c "ct_authority c1"] asks by metis
  show ?thesis
  proof (cases "\<exists>p. res = Inr (Inr p) \<and> \<not> unavailable (rc_status r)")
    case False
    then have "snd (send_task_async h issue env w t payload c) = c1"
      using t a by (auto simp: send_task_async_def split: sum.splits)
    then show ?thesis using quietly by simp
  next
    case True
    then obtain p where p: "res = Inr (Inr p)" "\<not> unavailable (rc_status r)" by blast
    show ?thesis
    proof (cases "ce_pipe env")
      case False
      then have "snd (send_task_async h issue env w t payload c) = release w (claim w t c1)"
        using t a p by (simp add: send_task_async_def)
      then show ?thesis using silent_unwritten [of h issue w t r payload c "ct_authority c1"] asks t(4) by metis
    next
      case True
      then have s: "snd (send_task_async h issue env w t payload c) = write_message w (task_message t p) (claim w t c1)"
        using t a p by (simp add: send_task_async_def)
      moreover have "c1 = c\<lparr>ct_authority := ct_authority c1\<rparr>" using asks ..
      moreover have "ticketed h issue w t r payload p (ct_authority c)"
        using attach_ticket_sends a p by metis
      ultimately have "sent h issue env w t payload c (snd (send_task_async h issue env w t payload c))"
        unfolding sent_def s using t p(2) asks changes_refl
        by (intro exI [of _ r] exI [of _ p] exI [of _ "ct_authority c1"] exI [of _ "{}"]) simp
      then show ?thesis ..
    qed
  qed
qed

section \<open>Runs\<close>

text \<open>The claims are the tasks that are outstanding.\<close>

definition claims_ok :: "'a controller \<Rightarrow> bool" where
  "claims_ok c \<longleftrightarrow> ct_busy c = dom (ct_busy_ids c)"

lemma claims_changes: "changes F c c' \<Longrightarrow> claims_ok c \<Longrightarrow> claims_ok c'"
  by (auto simp: changes_def claims_ok_def dom_def)

lemma claims_silent: "silent h issue w t payload c c' \<Longrightarrow> claims_ok c \<Longrightarrow> claims_ok c'"
  unfolding silent_def using claims_changes by (fastforce simp: claims_ok_def)

lemma claims_sent: "sent h issue env w t payload c c' \<Longrightarrow> claims_ok c \<Longrightarrow> claims_ok c'"
proof -
  assume "sent h issue env w t payload c c'" and ok: "claims_ok c"
  then obtain p a F where "changes F (write_message w (task_message t p) (claim w t (c\<lparr>ct_authority := a\<rparr>))) c'"
    unfolding sent_def by blast
  then show "claims_ok c'"
    by (rule claims_changes) (use ok in \<open>auto simp: claims_ok_def write_message_def claim_def dom_def\<close>)
qed

text \<open>The calls that end an outstanding task of a worker without a task of their own.\<close>

fun gives_up :: "('i, 'e) call \<Rightarrow> 'a controller \<Rightarrow> string \<Rightarrow> bool" where
  "gives_up (Spawn_worker sp env config path) c v \<longleftrightarrow> v = wc_worker_id config \<and> running_child env v c = None"
| "gives_up (Collect env w t) c v \<longleftrightarrow> v = w \<and> ct_busy_ids c w = Some t \<and> result_came env w t c"
| "gives_up (Terminate env w) c v \<longleftrightarrow> v = w"
| "gives_up (Terminate_all env) c v \<longleftrightarrow> v \<in> fst ` set (ct_procs c)"
| "gives_up (Reap env) c v \<longleftrightarrow> (\<exists>pid. (v, pid) \<in> set (ct_procs c) \<and> ce_poll env pid \<noteq> None)"
| "gives_up (Switch_harness x env w sw r) c v \<longleftrightarrow> v \<notin> ct_busy c"
| "gives_up (Dispatch i env w t p) c v \<longleftrightarrow> v \<notin> ct_busy c"
| "gives_up (Send_async i env w t p) c v \<longleftrightarrow> v \<notin> ct_busy c"
| "gives_up _ c v \<longleftrightarrow> False"

fun starts :: "('i, 'e) call \<Rightarrow> 'i \<Rightarrow> call_env \<Rightarrow> string \<Rightarrow> string \<Rightarrow> payload \<Rightarrow> bool" where
  "starts (Dispatch i env w t p) i' env' w' t' p' \<longleftrightarrow> (i, env, w, t, p) = (i', env', w', t', p')"
| "starts (Send_async i env w t p) i' env' w' t' p' \<longleftrightarrow> (i, env, w, t, p) = (i', env', w', t', p')"
| "starts _ i' env' w' t' p' \<longleftrightarrow> False"

lemma call_outcome:
  obtains (quietly) F a where "\<forall>v \<in> F. gives_up e c v" "changes F (c\<lparr>ct_authority := a\<rparr>) (control h issue step c e)"
      "a = ct_authority c \<or> (\<exists>x. e = Authority x \<and> a = step (ct_authority c) x) \<or>
       (\<exists>i env w t p r. starts e i env w t p \<and> asked h (issue i) w t r p (ct_authority c) a)"
  | (sends) i env w t p where "starts e i env w t p" "sent h (issue i) env w t p c (control h issue step c e)"
proof -
  have other: thesis if "changes F c (control h issue step c e)" "\<forall>v \<in> F. gives_up e c v" for F
    using that quietly [of F "ct_authority c"] by simp
  have task: thesis if "starts e i env w t p"
      "silent h (issue i) w t p c (control h issue step c e) \<or> sent h (issue i) env w t p c (control h issue step c e)"
      "\<And>v. v \<notin> ct_busy c \<Longrightarrow> gives_up e c v" for i env w t p
    using that(2)
  proof
    assume "silent h (issue i) w t p c (control h issue step c e)"
    then obtain F a where "F \<subseteq> {w} - ct_busy c" "changes F (c\<lparr>ct_authority := a\<rparr>) (control h issue step c e)"
        "a = ct_authority c \<or> (\<exists>r. asked h (issue i) w t r p (ct_authority c) a)" unfolding silent_def by blast
    then show thesis using quietly [of F a] that(1,3) by blast
  next
    assume "sent h (issue i) env w t p c (control h issue step c e)"
    then show thesis using sends that(1) by blast
  qed
  show thesis
  proof (cases e)
    case (Spawn_worker sp env config path)
    then show thesis using changes_spawn [of config env c h sp path] other by fastforce
  next
    case (Ping_worker env w)
    then show thesis using changes_ping [of c env w] other [of "{}"] by simp
  next
    case (Dispatch i env w t p)
    then show thesis using dispatch_outcome [of h "issue i" w t p c env] task [of i env w t p] by simp
  next
    case (Send_async i env w t p)
    then show thesis using send_outcome [of h "issue i" w t p c env] task [of i env w t p] by simp
  next
    case (Collect env w t)
    obtain F where "F \<subseteq> {w}" "w \<in> F \<longrightarrow> ct_busy_ids c w = Some t \<and> result_came env w t c"
        "changes F c (snd (collect_async_result h env w t c))" using changes_collect by metis
    then show thesis using other [of F] Collect by auto
  next
    case (Interrupt_worker env w t)
    then show thesis using changes_interrupt [of c env w t] other [of "{}"] by simp
  next
    case (Pause_worker env w)
    then show thesis using other [of "{}"] by (simp add: pause_worker_def changes_guarded)
  next
    case (Resume_worker env w)
    then show thesis using other [of "{}"] by (simp add: resume_worker_def changes_guarded)
  next
    case (Switch_harness x env w sw r)
    then show thesis using changes_switch [of w c h x env sw r] other by fastforce
  next
    case (Terminate env w)
    then show thesis using changes_terminate [of w c env] other by fastforce
  next
    case (Terminate_all env)
    then show thesis using changes_terminate_each [of "map fst (ct_procs c)" c env] other
      by (fastforce simp: terminate_all_def)
  next
    case (Reap env)
    then show thesis using changes_reap_each [of "ct_procs c" env c] other
      by (fastforce simp: reap_dead_workers_def)
  next
    case (Register env w config pid t)
    then show thesis using changes_register [of c h env w config pid t] other [of "{}"] by simp
  next
    case (Reconcile env)
    then show thesis using changes_reconcile [of c h env] other [of "{}"] by simp
  next
    case (Authority x)
    then show thesis using quietly [of "{}" "step (ct_authority c) x"] by (simp add: changes_refl)
  qed
qed

lemma claims_control: "claims_ok c \<Longrightarrow> claims_ok (control h issue step c e)"
proof (cases rule: call_outcome [of e c h issue step])
  case (quietly F a)
  assume "claims_ok c"
  then have "claims_ok (c\<lparr>ct_authority := a\<rparr>)" by (simp add: claims_ok_def)
  then show ?thesis using claims_changes quietly(2) by blast
next
  case (sends i env w t p)
  assume "claims_ok c"
  then show ?thesis using claims_sent sends(2) by blast
qed

interpretation claims: invariant_machine "control h issue step" claims_ok
  for h and issue :: "'i \<Rightarrow> 'a issuer" and step :: "'a \<Rightarrow> 'e \<Rightarrow> 'a"
  by unfold_locales (rule claims_control)

lemma one_task_step:
  assumes "claims_ok c" and c': "c' = control h issue step c e"
  shows "(\<exists>new. ct_log c' = ct_log c @ new \<and> list_all quiet new \<and>
      (\<forall>v. ct_busy_ids c' v = ct_busy_ids c v \<or> ct_busy_ids c' v = None \<and> gives_up e c v)) \<or>
   (\<exists>i env w t payload p new. starts e i env w t payload \<and> ct_busy_ids c w = None \<and>
      ct_log c' = ct_log c @ Written w (line_of (task_message t p)) # new \<and> list_all quiet new \<and>
      (ct_busy_ids c' = (ct_busy_ids c)(w \<mapsto> t) \<or> ct_busy_ids c' = ct_busy_ids c \<and> result_came env w t c))"
proof (cases rule: call_outcome [of e c h issue step])
  case (quietly F a)
  then have "ct_busy_ids c' = (\<lambda>w. if w \<in> F then None else ct_busy_ids c w)"
      "\<exists>new. ct_log c' = ct_log c @ new \<and> list_all quiet new"
    by (simp_all add: changes_def c' cong: if_cong)
  then show ?thesis using quietly(1) by auto
next
  case (sends i env w t payload)
  obtain r p a F where s: "w \<notin> ct_busy c" "F \<subseteq> {w}" "w \<in> F \<longrightarrow> result_came env w t c"
      "changes F (write_message w (task_message t p) (claim w t (c\<lparr>ct_authority := a\<rparr>))) c'"
    using sends(2) unfolding sent_def c' by blast
  have idle: "ct_busy_ids c w = None" using s(1) assms(1) by (auto simp: claims_ok_def)
  obtain new where new: "ct_log c' = ct_log c @ Written w (line_of (task_message t p)) # new" "list_all quiet new"
      "ct_busy_ids c' = (\<lambda>v. if v \<in> F then None else ((ct_busy_ids c)(w \<mapsto> t)) v)"
    using s(4) by (auto simp: changes_def write_message_def claim_def line_of_def simp del: dumps.simps cong: if_cong)
  have "ct_busy_ids c' = (ct_busy_ids c)(w \<mapsto> t) \<or> ct_busy_ids c' = ct_busy_ids c \<and> result_came env w t c"
  proof (cases "w \<in> F")
    case True
    then have "F = {w}" using s(2) by blast
    then have "ct_busy_ids c' = ct_busy_ids c" using new(3) idle by (auto simp: fun_eq_iff)
    then show ?thesis using True s(3) by blast
  next
    case False
    then have "F = {}" using s(2) by blast
    then show ?thesis using new(3) by (simp add: fun_eq_iff)
  qed
  then show ?thesis using sends(1) idle new(1,2) by blast
qed

text \<open>
  C32: One task at a time.  Whatever calls are made on a controller, a call writes the line of a task
  only as a dispatch of it, to a worker without an outstanding task, and then the task is outstanding,
  unless its result came within the call.  An outstanding task is replaced by no other call, and given
  up only when its result is collected, a new process is spawned after the old one ended, or the
  process is terminated or found dead.
\<close>

theorem one_task_outstanding:
  "let c = foldl (control h issue step) (mk_controller db a policy) es; c' = control h issue step c e in
   (\<exists>new. ct_log c' = ct_log c @ new \<and> list_all quiet new \<and>
      (\<forall>v. ct_busy_ids c' v = ct_busy_ids c v \<or> ct_busy_ids c' v = None \<and> gives_up e c v)) \<or>
   (\<exists>i env w t payload p new. starts e i env w t payload \<and> ct_busy_ids c w = None \<and>
      ct_log c' = ct_log c @ Written w (line_of (task_message t p)) # new \<and> list_all quiet new \<and>
      (ct_busy_ids c' = (ct_busy_ids c)(w \<mapsto> t) \<or> ct_busy_ids c' = ct_busy_ids c \<and> result_came env w t c))"
  unfolding Let_def
  by (rule one_task_step [OF claims.run_inv refl]) (simp add: claims_ok_def mk_controller_def)

text \<open>The entries of the log that a call adds.\<close>

definition new_entries :: "python \<Rightarrow> ('i \<Rightarrow> 'a issuer) \<Rightarrow> ('a \<Rightarrow> 'e \<Rightarrow> 'a) \<Rightarrow> 'a controller \<Rightarrow> ('i, 'e) call \<Rightarrow> ipc list" where
  "new_entries h issue step c e = drop (length (ct_log c)) (ct_log (control h issue step c e))"

definition task_line ::
  "python \<Rightarrow> ('i \<Rightarrow> 'a issuer) \<Rightarrow> 'a controller \<Rightarrow> ('i, 'e) call \<Rightarrow> ipc \<Rightarrow> bool" where
  "task_line h issue c e x \<longleftrightarrow>
     (\<exists>i env w t payload p r. starts e i env w t payload \<and> record_of w c = Some r \<and>
        x = Written w (line_of (task_message t p)) \<and> ticketed h (issue i) w t r payload p (ct_authority c))"

lemma new_entries_kinds: "list_all (\<lambda>x. quiet x \<or> task_line h issue c e x) (new_entries h issue step c e)"
proof (cases rule: call_outcome [of e c h issue step])
  case (quietly F a)
  then show ?thesis by (auto simp: changes_def new_entries_def list_all_iff)
next
  case (sends i env w t payload)
  obtain r p a F where s: "record_of w c = Some r" "ticketed h (issue i) w t r payload p (ct_authority c)"
      "changes F (write_message w (task_message t p) (claim w t (c\<lparr>ct_authority := a\<rparr>))) (control h issue step c e)"
    using sends(2) unfolding sent_def by blast
  obtain new where new: "new_entries h issue step c e = Written w (line_of (task_message t p)) # new" "list_all quiet new"
    using s(3) by (auto simp: changes_def write_message_def claim_def line_of_def new_entries_def)
  have "task_line h issue c e (Written w (line_of (task_message t p)))"
    unfolding task_line_def using sends(1) s by blast
  then show ?thesis using new by (auto simp: list_all_iff)
qed

text \<open>
  C33: A command leaves with a ticket.  Whatever a call writes to a worker is a control message or the
  line of the task that the call dispatches; if the payload holds a command, the authority granted, in
  this call, a ticket for this worker, this task, exactly this command and the worker's workspace under
  its session secret, and that ticket and workspace are in the line.
\<close>

theorem commands_leave_with_a_ticket:
  "list_all (\<lambda>x. quiet x \<or> (\<exists>i env w t payload p r. starts e i env w t payload \<and> record_of w c = Some r \<and>
       x = Written w (line_of (task_message t p)) \<and> ticketed h (issue i) w t r payload p (ct_authority c)))
     (drop (length (ct_log c)) (ct_log (control h issue step c e)))"
  using new_entries_kinds [of h issue c e step] unfolding new_entries_def task_line_def .

text \<open>Termination does not look at the identity of a process: a process id that was reused is killed.\<close>

lemma terminate_kills_reused_pid:
  assumes "record_of w c = Some r" "map_of (ct_procs c) w = None" "ce_ps env (rc_pid r) = Some other" "0 < rc_pid r"
    and "\<not> is_process_identically_alive (ce_ps env) (rc_pid r) (rc_create_time r)"
  shows "Killed (rc_pid r) \<in> set (ct_log (snd (terminate_worker env w c)))"
proof -
  have "Killed (rc_pid r) \<in> set (ct_log (killed env (rc_pid r) c))"
    using assms by (simp add: killed_def kill_process_tree_def)
  then show ?thesis using assms(1,2)
    by (auto simp: terminate_worker_def running_child_def Let_def finish_def with_record_def put_record_def
        save_status_def update_session_def forget_def release_def map_sum_def split: option.split sum.split)
qed

end
