(* ===== verification/WorkerEndToEnd.thy ===== *)
theory WorkerEndToEnd
  imports WorkerProcessFacts
begin

text \<open>
  The controller and the worker together: a line that the controller writes is read back by the worker
  as the message it was, and a command that the worker starts on a line of the controller was granted
  by the authority in the call that wrote the line.
\<close>

section \<open>Reading a line back\<close>

lemma py_strip_line: "\<not> py_isspace a \<Longrightarrow> \<not> py_isspace b \<Longrightarrow> py_strip (a # s @ [b, CHR 0x0A]) = a # s @ [b]"
  by (simp add: py_strip_def) (simp add: py_isspace_def)

lemma read_line_of:
  assumes "wf_json (JObj msg)"
  shows "read_line (line_of msg) = Inl (Some (worker_message_of msg))"
proof -
  obtain s where s: "dumps True '' '' (JObj msg) = CHR ''{'' # s @ [CHR ''}'']" by simp
  have strip: "py_strip (line_of msg) = dumps True '' '' (JObj msg)"
    unfolding line_of_def s using py_strip_line [of "CHR ''{''" "CHR ''}''" s] by (simp add: py_isspace_def)
  moreover have "loads (dumps True '' '' (JObj msg)) = Some (JObj msg)"
    using assms by (rule loads_dumps) (simp add: is_ws_def)
  moreover have "\<not> blank (line_of msg)" unfolding blank_def strip s by simp
  ultimately show ?thesis by (simp add: read_line_def)
qed

lemma wf_update:
  assumes "wf_json (JObj kvs)" "wf_json v"
  shows "wf_json (JObj (AList.update k v kvs))"
proof -
  have "set (AList.update k v kvs) \<subseteq> insert (k, v) (set kvs)"
    by (induction kvs) auto
  then show ?thesis using assms distinct_update by fastforce
qed

definition literals_ok :: "python \<Rightarrow> bool" where
  "literals_ok h \<longleftrightarrow> (\<forall>x. num_literal (py_literal h (Finite x)))"

fun wf_call :: "('i, 'e) call \<Rightarrow> bool" where
  "wf_call (Dispatch i env w t payload) \<longleftrightarrow> wf_json (JObj payload)"
| "wf_call (Send_async i env w t payload) \<longleftrightarrow> wf_json (JObj payload)"
| "wf_call _ \<longleftrightarrow> True"

lemma starts_wf: "starts e i env w t payload \<Longrightarrow> wf_call e \<Longrightarrow> wf_json (JObj payload)"
  by (cases e) auto

lemma quiet_runs_nothing:
  assumes "quiet (Written w line)" "read_line line = Inl (Some msg)" "handle_message h env msg wst = (flow, es, wst')"
  shows "spawned es = []"
proof -
  obtain kvs where kvs: "line = line_of kvs" "control_message kvs" using assms(1) by auto
  then have "msg = worker_message_of kvs"
    using assms(2) read_line_of [of kvs] by (simp add: control_message_def)
  then have "\<forall>t payload. msg \<noteq> Task t payload"
    using kvs(2) by (auto simp: control_message_def worker_message_of_def json_get_def split: if_splits json.splits)
  then show ?thesis using handle_message_effects [OF assms(3)] by blast
qed

section \<open>What a ticket function promises\<close>

locale ticket_issuer =
  fixes issue :: "'i \<Rightarrow> 'a issuer"
  assumes ticket_of_grant:
    "fst (issue i action w t cmd ws secret a) = Inr (True, reason, Some tk) \<Longrightarrow>
     tk_action_id tk = action \<and> tk_worker_id tk = w \<and> tk_task_id tk = t \<and> (\<exists>x. tk_expiry tk = Finite x)"
begin

lemma ticketed_wf:
  assumes "ticketed h (issue i) w t r payload p a" "wf_json (JObj payload)" "literals_ok h"
  shows "wf_json (JObj (task_message t p))"
proof -
  have "wf_json (JObj p)"
  proof (cases "map_of payload ''command''")
    case None
    then show ?thesis using assms by (simp add: ticketed_def)
  next
    case (Some v)
    then obtain tk where tk: "granted_for h (issue i) w t r payload (requested_command h v) tk a"
        "p = AList.update ''workspace_path'' (JStr (or_default (rc_worktree r) []))
           (AList.update ''execution_ticket'' (ticket_json h tk) payload)"
      using assms(1) by (auto simp: ticketed_def)
    then obtain x where "tk_expiry tk = Finite x" using ticket_of_grant unfolding granted_for_def by blast
    then have "wf_json (ticket_json h tk)" using assms(3) by (simp add: ticket_json_def literals_ok_def)
    then show ?thesis unfolding tk(2) using assms(2) by (intro wf_update) simp_all
  qed
  then show ?thesis by (simp add: task_message_def)
qed

text \<open>What a worker runs on a line of the controller was granted in the call that wrote it.\<close>

lemma executed_was_granted:
  assumes "Written v line \<in> set (new_entries h issue step c e)" "wf_call e" "literals_ok h"
    and "read_line line = Inl (Some msg)" "handle_message h wenv msg wst = (flow, es, wst')"
    and "(cmd, dir) \<in> set (spawned es)"
  obtains i env t payload r tk where "starts e i env v t payload" "record_of v c = Some r"
    "granted_for h (issue i) v t r payload cmd tk (ct_authority c)" "ws_worker_id wst = v"
    "dir = working_directory wenv (JStr (or_default (rc_worktree r) [])) \<or>
     or_default (rc_worktree r) [] = []"
proof -
  have "quiet (Written v line) \<or> task_line h issue c e (Written v line)"
    using new_entries_kinds [of h issue c e step] assms(1) by (auto simp: list_all_iff)
  moreover have "\<not> quiet (Written v line)"
    using quiet_runs_nothing [OF _ assms(4,5)] assms(6) by (metis list.set(1) empty_iff)
  ultimately obtain i env t payload p r where s: "starts e i env v t payload" "record_of v c = Some r"
      "line = line_of (task_message t p)" "ticketed h (issue i) v t r payload p (ct_authority c)"
    unfolding task_line_def by auto
  have wf: "wf_json (JObj (task_message t p))"
    using ticketed_wf [OF s(4) starts_wf [OF s(1) assms(2)] assms(3)] .
  have "msg = worker_message_of (task_message t p)"
    using assms(4) s(3) read_line_of [OF wf] by simp
  then have msg: "msg = Task t p" by (simp add: worker_message_of_def task_message_def json_get_def text_of_def)
  obtain action where a: "spawned es = [(cmd, working_directory wenv (effective_workspace p wst))]"
      "dir = working_directory wenv (effective_workspace p wst)" "authorizes h (te_now wenv) p t cmd wst action"
    using handle_message_effects [OF assms(5)] assms(6) msg by auto
  obtain v' where v': "map_of payload ''command'' = Some v'"
    using a(3) s(4) by (cases "map_of payload ''command''") (auto simp: authorizes_def ticketed_def Let_def)
  then obtain tk where tk: "granted_for h (issue i) v t r payload (requested_command h v') tk (ct_authority c)"
      "p = AList.update ''workspace_path'' (JStr (or_default (rc_worktree r) []))
         (AList.update ''execution_ticket'' (ticket_json h tk) payload)"
    using s(4) by (auto simp: ticketed_def)
  have p: "map_of p ''command'' = Some v'" "json_get ''execution_ticket'' JNull p = ticket_json h tk"
      "json_get ''workspace_path'' JNull p = JStr (or_default (rc_worktree r) [])"
    unfolding tk(2) by (simp_all add: update_conv' v' json_get_def)
  have "command_list h v' = Some cmd" using a(3) p(1) by (simp add: authorizes_def Let_def)
  then have cmd: "requested_command h v' = cmd"
    by (auto simp: command_list_def requested_command_def py_str_def split: json.splits)
  have verified: "fst (verify_ticket h (te_now wenv) (ticket_json h tk) (ws_session_secret wst) (ws_worker_id wst) t cmd
      (effective_workspace p wst))"
    using a(3) p(2) by (simp add: authorizes_def Let_def)
  have "tk_worker_id tk = v" using tk(1) ticket_of_grant unfolding granted_for_def by blast
  moreover have "tk_worker_id tk = ws_worker_id wst"
    using verified by (auto simp: verify_ticket_def ticket_json_def json_get_def Let_def split: if_splits)
  moreover have "effective_workspace p wst = JStr (or_default (rc_worktree r) []) \<or> or_default (rc_worktree r) [] = []"
    using p(3) by (auto simp: effective_workspace_def)
  ultimately show thesis using that s(1,2) tk(1) cmd a(2) by metis
qed

end

section \<open>The two authorities\<close>

text \<open>The ticket functions of both authorities, with the default lifetime that the controller uses.\<close>

definition trusted_issue ::
  "(string \<Rightarrow> string) \<Rightarrow> (string \<Rightarrow> string \<Rightarrow> string) \<Rightarrow> (ticket_time \<Rightarrow> string) \<Rightarrow> real \<times> real \<Rightarrow> authority issuer" where
  "trusted_issue sha mac fmt clock action w t cmd ws secret s =
     map_prod Inr id (issue_execution_ticket sha mac fmt (fst clock) (snd clock) action w t cmd ws secret (Finite 60) s)"

definition verified_issue :: "host \<Rightarrow> real \<times> real \<times> real \<times> bool \<Rightarrow> (boundary \<times> op_store) issuer" where
  "verified_issue hst args action w t cmd ws secret s =
     (case args of (now, now2, reload, available) \<Rightarrow>
        va_issue_execution_ticket hst now now2 reload available action w t cmd ws secret (Finite 60) (fst s) (snd s))"

interpretation trusted: ticket_issuer "trusted_issue sha mac fmt" for sha mac fmt
proof unfold_locales
  fix clock action w t cmd ws secret s reason tk
  assume g: "fst (trusted_issue sha mac fmt clock action w t cmd ws secret s) = Inr (True, reason, Some tk)"
  show "tk_action_id tk = action \<and> tk_worker_id tk = w \<and> tk_task_id tk = t \<and> (\<exists>x. tk_expiry tk = Finite x)"
    using g by (auto simp: trusted_issue_def issue_execution_ticket_def Let_def split: prod.splits if_splits)
qed

interpretation verified: ticket_issuer "verified_issue hst" for hst
proof unfold_locales
  fix args action w t cmd ws secret s reason tk
  assume g: "fst (verified_issue hst args action w t cmd ws secret s) = Inr (True, reason, Some tk)"
  show "tk_action_id tk = action \<and> tk_worker_id tk = w \<and> tk_task_id tk = t \<and> (\<exists>x. tk_expiry tk = Finite x)"
    using g by (auto simp: verified_issue_def va_issue_execution_ticket_def Let_def
        split: prod.splits if_splits sum.splits option.splits)
qed

text \<open>The authority behind a controller makes the steps of an authority, with the broker calls of the run.\<close>

lemma asked_trusted:
  assumes "asked h (trusted_issue sha mac fmt i) w t r payload a a'"
  shows "\<exists>evs. a' = foldl (authority_step sha mac fmt) a evs \<and> (\<forall>b. BrokerOp b \<notin> set evs)"
  using assms unfolding asked_def
proof (elim disjE exE conjE)
  assume "a' = a"
  then show ?thesis by (intro exI [of _ "[]"]) simp
next
  fix v
  assume "a' = snd (trusted_issue sha mac fmt i (approval_id payload) w t
    (requested_command h v) (or_default (rc_worktree r) []) (rc_secret r) a)"
  then show ?thesis
    by (intro exI [of _ "[TrustedAuthority.Issue (fst i) (snd i) (approval_id payload) w t (requested_command h v)
          (or_default (rc_worktree r) []) (rc_secret r) (Finite 60)]"]) (simp add: trusted_issue_def)
qed

lemma control_authority:
  "\<exists>evs. ct_authority (control h (trusted_issue sha mac fmt) (authority_step sha mac fmt) c e)
      = foldl (authority_step sha mac fmt) (ct_authority c) evs \<and>
     (\<forall>b. BrokerOp b \<in> set evs \<longrightarrow> e = Authority (BrokerOp b))"
proof (cases rule: call_outcome [of e c h "trusted_issue sha mac fmt" "authority_step sha mac fmt"])
  case (quietly F a)
  have a: "ct_authority (control h (trusted_issue sha mac fmt) (authority_step sha mac fmt) c e) = a"
    using quietly(2) by (simp add: changes_def)
  let ?P = "\<lambda>a. \<exists>evs. a = foldl (authority_step sha mac fmt) (ct_authority c) evs \<and>
    (\<forall>b. BrokerOp b \<in> set evs \<longrightarrow> e = Authority (BrokerOp b))"
  have "?P a"
    using quietly(3)
  proof (elim disjE exE conjE)
    assume "a = ct_authority c"
    then show "?P a" by (intro exI [of _ "[]"]) simp
  next
    fix x
    assume "e = Authority x" "a = authority_step sha mac fmt (ct_authority c) x"
    then show "?P a" by (intro exI [of _ "[x]"]) simp
  next
    fix i env w t p r
    assume "asked h (trusted_issue sha mac fmt i) w t r p (ct_authority c) a"
    then show "?P a" using asked_trusted by metis
  qed
  then show ?thesis unfolding a .
next
  case (sends i env w t p)
  then obtain r a where a: "asked h (trusted_issue sha mac fmt i) w t r p (ct_authority c) a"
      "ct_authority (control h (trusted_issue sha mac fmt) (authority_step sha mac fmt) c e) = a"
    unfolding sent_def changes_def by (auto simp: write_message_def claim_def)
  show ?thesis unfolding a(2) using asked_trusted [OF a(1)] by metis
qed

lemma run_authority:
  "\<exists>evs. ct_authority (foldl (control h (trusted_issue sha mac fmt) (authority_step sha mac fmt)) c cs)
      = foldl (authority_step sha mac fmt) (ct_authority c) evs \<and>
     (\<forall>b. BrokerOp b \<in> set evs \<longrightarrow> Authority (BrokerOp b) \<in> set cs)"
proof (induction cs rule: rev_induct)
  case Nil
  then show ?case by (intro exI [of _ "[]"]) simp
next
  case (snoc e cs)
  let ?c = "foldl (control h (trusted_issue sha mac fmt) (authority_step sha mac fmt)) c cs"
  obtain evs where "ct_authority ?c = foldl (authority_step sha mac fmt) (ct_authority c) evs"
      "\<forall>b. BrokerOp b \<in> set evs \<longrightarrow> Authority (BrokerOp b) \<in> set cs" using snoc by blast
  moreover obtain ds where "ct_authority (control h (trusted_issue sha mac fmt) (authority_step sha mac fmt) ?c e)
      = foldl (authority_step sha mac fmt) (ct_authority ?c) ds"
      "\<forall>b. BrokerOp b \<in> set ds \<longrightarrow> e = Authority (BrokerOp b)" using control_authority by blast
  ultimately show ?case by (intro exI [of _ "evs @ ds"]) auto
qed

text \<open>
  C2: What runs was approved.  Take any run of a controller with a new trusted authority, and a line
  that a further call writes to the worker \<open>v\<close>.  If a worker process starts a command on that line, it
  is the worker \<open>v\<close> itself, the call dispatched a task of it, and the broker holds an action for this
  worker with the digest of exactly this command, workspace and task, which a call with the broker's
  secret approved in the run, before the action's deadline.
\<close>

theorem executed_command_was_approved:
  assumes "mk_broker key fresh bttl = Inr b0"
    and "c = foldl (control h (trusted_issue sha mac fmt) (authority_step sha mac fmt))
               (mk_controller db (mk_authority b0) policy) cs"
    and "Written v line \<in> set (drop (length (ct_log c))
           (ct_log (control h (trusted_issue sha mac fmt) (authority_step sha mac fmt) c e)))"
    and "wf_call e" "literals_ok h" "read_line line = Inl (Some msg)"
    and "handle_message h wenv msg wst = (flow, es, wst')" "(cmd, dir) \<in> set (spawned es)"
  shows "ws_worker_id wst = v \<and>
    (\<exists>i env t payload ws action a before reason.
       starts e i env v t payload \<and> find_action action (ta_broker (ct_authority c)) = Some a \<and>
       aa_session_id a = v \<and> aa_resource a = sha (resource_text cmd ws t) \<and>
       (dir = working_directory wenv (JStr ws) \<or> ws = []) \<and>
       Authority (BrokerOp (Resolve before action True (bk_secret b0) reason)) \<in> set cs \<and>
       before < aa_expires_at a)"
proof -
  note new = assms(3) [folded new_entries_def]
  obtain i env t payload r tk where g: "starts e i env v t payload" "record_of v c = Some r"
      "granted_for h (trusted_issue sha mac fmt i) v t r payload cmd tk (ct_authority c)" "ws_worker_id wst = v"
      "dir = working_directory wenv (JStr (or_default (rc_worktree r) [])) \<or> or_default (rc_worktree r) [] = []"
    by (rule trusted.executed_was_granted [OF new assms(4,5,6,7,8)])
  let ?ws = "or_default (rc_worktree r) []"
  obtain reason where "fst (trusted_issue sha mac fmt i (approval_id payload) v t cmd ?ws (rc_secret r) (ct_authority c))
      = Inr (True, reason, Some tk)" using g(3) unfolding granted_for_def by blast
  then have granted: "authority_grants sha mac fmt (ct_authority c)
      (TrustedAuthority.Issue (fst i) (snd i) (approval_id payload) v t cmd ?ws (rc_secret r) (Finite 60)) = Some (approval_id payload)"
    by (simp add: trusted_issue_def)
  obtain evs where evs: "ct_authority c = foldl (authority_step sha mac fmt) (mk_authority b0) evs"
      "\<forall>b. BrokerOp b \<in> set evs \<longrightarrow> Authority (BrokerOp b) \<in> set cs"
    using run_authority [of h sha mac fmt "mk_controller db (mk_authority b0) policy" cs] assms(2)
    by (auto simp: mk_controller_def)
  obtain a before reason' where "find_action (approval_id payload) (ta_broker (ct_authority c)) = Some a"
      "aa_session_id a = v" "aa_resource a = sha (resource_text cmd ?ws t)"
      "BrokerOp (Resolve before (approval_id payload) True (bk_secret b0) reason') \<in> set evs" "before < aa_expires_at a"
    using spending_needs_a_human [OF assms(1) evs(1) _ granted, of "fst i" v t cmd ?ws] by blast
  then show ?thesis using evs(2) g(1,4,5) by blast
qed

text \<open>A run in which a command is approved, dispatched and run.\<close>

definition demo_py :: python where
  "demo_py = \<lparr>py_sha = demo_hash, py_mac = demo_mac, py_fixed = demo_fmt, py_number = (\<lambda>s. Finite 81),
     py_literal = (\<lambda>t. ''81''), py_repr = (\<lambda>v. []), py_int = (\<lambda>v. None), py_float = (\<lambda>v. Some 30)\<rparr>"

definition demo_env :: call_env where
  "demo_env = \<lparr>ce_now = 0, ce_poll = (\<lambda>p. None), ce_ps = (\<lambda>p. None), ce_pipe = True, ce_arrived = [],
     ce_in_time = 0, ce_stop_code = None\<rparr>"

definition demo_spawn :: spawn_env where
  "demo_spawn = \<lparr>sp_executable = ''python'', sp_secret = ''s'', sp_is_dir = (\<lambda>p. False),
     sp_resolve = (\<lambda>p. raise OSError []), sp_launcher = demo_launcher, sp_popen = ok 5, sp_pipes = True,
     sp_job = None, sp_init = Some ''{}'', sp_uid_gid = raise OSError [], sp_create_time = None\<rparr>"

definition demo_payload :: payload where
  "demo_payload = [(''command'', JList [JStr ''ls'']), (''approval_action_id'', JStr ''act_h'')]"

definition demo_start :: "authority controller" where
  "demo_start = mk_controller empty_team_db (mk_authority demo_broker) None"

definition demo_calls :: "(real \<times> real, authority_event) call list" where
  "demo_calls = Spawn_worker demo_spawn demo_env (default_config ''w'' ''team'') (Some ''/ws'') #
     map Authority demo_authority_events"

lemma demo_spawned:
  "\<exists>st. snd (spawn_worker demo_py demo_spawn demo_env (default_config ''w'' ''team'') (Some ''/ws'') demo_start) =
     demo_start\<lparr>ct_store := st, ct_procs := [(''w'', 5)], ct_readers := (\<lambda>w. None)(''w'' \<mapsto> new_reader),
       ct_records := [(''w'', spawned_record demo_env demo_spawn (default_config ''w'' ''team'') ''/ws'' 5 0 default_policy)],
       ct_busy := {}, ct_busy_ids := (\<lambda>w. None),
       ct_log := [Started ''w'' (worker_command demo_spawn (default_config ''w'' ''team'') ''/ws'') None
           (env_values demo_launcher (\<lambda>v. v \<noteq> []) WORKER_ENV_KEYS @ python_env demo_launcher, None) 5,
         Written ''w'' (line_of [(''command'', JStr ''INIT_ACK''), (''session_secret'', JStr ''s'')])]\<rparr>"
proof -
  have init: "init_event ''{}'' = Inr []" by code_simp
  show ?thesis
    by (simp add: spawn_worker_def running_child_def demo_start_def mk_controller_def given_def or_default_def
        launch_child_def working_dir_def default_policy_def worker_launch_configuration_def demo_spawn_def
        start_child_def check_child_def init init_pid_def adopt_child_def demo_env_def write_message_def
        default_config_def init_create_time_def put_record_def release_def line_of_def fun_upd_def Let_def
        del: dumps.simps cong: if_cong)
qed

lemma run_authority_events:
  "foldl (control h issue step) c (map Authority evs) = c\<lparr>ct_authority := foldl step (ct_authority c) evs\<rparr>"
  by (induction evs arbitrary: c) simp_all

definition demo_run :: "authority controller" where
  "demo_run = foldl (control demo_py (trusted_issue demo_hash demo_mac demo_fmt)
     (authority_step demo_hash demo_mac demo_fmt)) demo_start demo_calls"

lemma demo_run_state:
  "ct_procs demo_run = [(''w'', 5)] \<and> ct_readers demo_run ''w'' = Some new_reader \<and> ct_busy demo_run = {} \<and>
   record_of ''w'' demo_run = Some (spawned_record demo_env demo_spawn (default_config ''w'' ''team'') ''/ws'' 5 0 default_policy) \<and>
   ct_authority demo_run = foldl (authority_step demo_hash demo_mac demo_fmt) (mk_authority demo_broker) demo_authority_events"
proof -
  obtain st where st: "snd (spawn_worker demo_py demo_spawn demo_env (default_config ''w'' ''team'') (Some ''/ws'') demo_start) =
     demo_start\<lparr>ct_store := st, ct_procs := [(''w'', 5)], ct_readers := (\<lambda>w. None)(''w'' \<mapsto> new_reader),
       ct_records := [(''w'', spawned_record demo_env demo_spawn (default_config ''w'' ''team'') ''/ws'' 5 0 default_policy)],
       ct_busy := {}, ct_busy_ids := (\<lambda>w. None),
       ct_log := [Started ''w'' (worker_command demo_spawn (default_config ''w'' ''team'') ''/ws'') None
           (env_values demo_launcher (\<lambda>v. v \<noteq> []) WORKER_ENV_KEYS @ python_env demo_launcher, None) 5,
         Written ''w'' (line_of [(''command'', JStr ''INIT_ACK''), (''session_secret'', JStr ''s'')])]\<rparr>"
    using demo_spawned by blast
  show ?thesis
    unfolding demo_run_def demo_calls_def
    by (simp add: run_authority_events st record_of_def) (simp add: demo_start_def mk_controller_def)
qed

definition demo_issued :: ticket where
  "demo_issued = \<lparr>tk_action_id = ''act_h'', tk_worker_id = ''w'', tk_task_id = ''t'',
     tk_resource = compute_action_resource demo_hash [''ls''] ''/ws'' ''t'', tk_expiry = Finite 81,
     tk_signature = replicate 64 (CHR ''0'')\<rparr>"

definition demo_sent :: payload where
  "demo_sent = AList.update ''workspace_path'' (JStr ''/ws'')
     (AList.update ''execution_ticket'' (ticket_json demo_py demo_issued) demo_payload)"

lemma demo_dispatch:
  "drop (length (ct_log demo_run)) (ct_log (snd (dispatch_task_to_worker demo_py
       (trusted_issue demo_hash demo_mac demo_fmt (20, 21)) demo_env ''w'' ''t'' demo_payload demo_run))) =
     [Written ''w'' (line_of (task_message ''t'' demo_sent))]"
proof -
  have "fst (issue_execution_ticket demo_hash demo_mac demo_fmt 20 21 ''act_h'' ''w'' ''t'' [''ls''] ''/ws'' ''s''
      (Finite 60) (ct_authority demo_run)) = (True, ''APPROVED'', Some demo_issued)"
    using demo_spendable demo_run_state
    by (cases rule: verify_and_consume_cases [of demo_hash 20 "''act_h''" "''w''" "''t''" "[''ls'']" "''/ws''" "ct_authority demo_run"])
      (auto simp: issue_execution_ticket_def Let_def demo_issued_def demo_mac_def split: prod.splits)
  then obtain a where issued: "trusted_issue demo_hash demo_mac demo_fmt (20, 21) ''act_h'' ''w'' ''t'' [''ls''] ''/ws'' ''s''
      (ct_authority demo_run) = (Inr (True, ''APPROVED'', Some demo_issued), a)"
    by (cases "issue_execution_ticket demo_hash demo_mac demo_fmt 20 21 ''act_h'' ''w'' ''t'' [''ls''] ''/ws'' ''s''
      (Finite 60) (ct_authority demo_run)") (auto simp: trusted_issue_def)
  let ?r = "spawned_record demo_env demo_spawn (default_config ''w'' ''team'') ''/ws'' 5 0 default_policy"
  have r: "rc_worktree ?r = Some ''/ws''" "rc_secret ?r = ''s''" "rc_status ?r = WS_IDLE"
    by (simp_all add: spawned_record_def demo_spawn_def)
  have p: "map_of demo_payload ''command'' = Some (JList [JStr ''ls''])"
      "json_get ''approval_action_id'' JNull demo_payload = JStr ''act_h''"
    by (simp_all add: demo_payload_def json_get_def)
  have attach: "attach_ticket demo_py (trusted_issue demo_hash demo_mac demo_fmt (20, 21)) ''w'' ''t'' ?r demo_payload demo_run
      = (Inr (Inr demo_sent), demo_run\<lparr>ct_authority := a\<rparr>)"
    using issued by (simp add: attach_ticket_def p r requested_command_def py_str_def or_json_def text_of_def or_default_def
        demo_sent_def Let_def)
  have env: "ce_pipe demo_env" "ce_in_time demo_env = 0" "ce_arrived demo_env = []" "ce_poll demo_env 5 = None"
    by (simp_all add: demo_env_def)
  show ?thesis
    using demo_run_state attach r env
    by (simp add: dispatch_task_to_worker_def running_child_def unavailable_def await_result_def receive_def
        write_message_def claim_def new_reader_def readline_matching_def line_of_def del: dumps.simps)
qed

definition demo_worker :: worker_state where
  "demo_worker = start_worker demo_py (default_config ''w'' ''team'') None ''s'' []"

definition demo_task_env :: task_env where
  "demo_task_env = \<lparr>te_now = 30, te_cancelled_before = False, te_is_dir = (\<lambda>d. True), te_run = Cancelled,
     te_cancelled_waiting = False, te_host = HarnessAdapters.demo_host\<rparr>"

lemma demo_runs:
  "\<exists>flow es w'. handle_message demo_py demo_task_env (Task ''t'' demo_sent) demo_worker = (flow, es, w') \<and>
     ([''ls''], Some ''/ws'') \<in> set (spawned es)"
proof -
  have p: "map_of demo_sent ''command'' = Some (JList [JStr ''ls''])" "map_of demo_sent ''approved'' = None"
      "map_of demo_sent ''approver'' = None" "json_get ''execution_ticket'' JNull demo_sent = ticket_json demo_py demo_issued"
      "json_get ''workspace_path'' JNull demo_sent = JStr ''/ws''"
    by (simp_all add: demo_sent_def demo_payload_def update_conv' json_get_def)
  have w: "ws_budget_tokens demo_worker = None" "ws_session_secret demo_worker = ''s''"
      "ws_worker_id demo_worker = ''w''" "ws_consumed demo_worker = {}"
    by (simp_all add: demo_worker_def start_worker_def default_config_def)
  have "verify_ticket demo_py 30 (ticket_json demo_py demo_issued) ''s'' ''w'' ''t'' [''ls''] (JStr ''/ws'')
    = verify_ticket_binding demo_hash demo_mac demo_fmt 30 demo_issued ''s'' ''w'' ''t'' [''ls''] ''/ws''"
    using verify_ticket_eq [of demo_py demo_issued 30 "''s''" "''w''" "''t''" "[''ls'']" "''/ws''"]
    by (simp add: demo_py_def demo_issued_def)
  also have "\<dots> = (True, ''VALID'')"
    by (simp add: verify_ticket_binding_def demo_issued_def demo_mac_def before_expiry_def expiry_within_def
        is_ascii_def code_of_def list_all_iff)
  finally have v: "verify_ticket demo_py 30 (ticket_json demo_py demo_issued) ''s'' ''w'' ''t'' [''ls''] (JStr ''/ws'')
    = (True, ''VALID'')" .
  have ws: "effective_workspace demo_sent demo_worker = JStr ''/ws''" by (simp add: effective_workspace_def p)
  have t: "json_truthy (ticket_json demo_py demo_issued)" by (simp add: ticket_json_def)
  have c: "command_list demo_py (JList [JStr ''ls'']) = Some [''ls'']" by (simp add: command_list_def py_str_def)
  have f: "py_float demo_py x = Some 30" for x by (simp add: demo_py_def)
  show ?thesis
    by (simp add: handle_message_def handle_task_def over_budget_def w p handle_command_def c ws t v Let_def run_command_def f
        demo_task_env_def working_directory_def text_of_def)
qed

theorem executed_command_was_approved_witness:
  "ws_worker_id demo_worker = ''w'' \<and>
   (\<exists>action before reason. Authority (BrokerOp (Resolve before action True (bk_secret demo_broker) reason)) \<in> set demo_calls)"
proof -
  let ?e = "Dispatch (20, 21) demo_env ''w'' ''t'' demo_payload :: (real \<times> real, authority_event) call"
  have key: "mk_broker (Some ''key'') ''x'' 900 = Inr demo_broker"
    by (simp add: mk_broker_def demo_broker_def)
  have run: "demo_run = foldl (control demo_py (trusted_issue demo_hash demo_mac demo_fmt)
      (authority_step demo_hash demo_mac demo_fmt)) (mk_controller empty_team_db (mk_authority demo_broker) None) demo_calls"
    by (simp add: demo_run_def demo_start_def)
  have line: "Written ''w'' (line_of (task_message ''t'' demo_sent)) \<in> set (drop (length (ct_log demo_run))
      (ct_log (control demo_py (trusted_issue demo_hash demo_mac demo_fmt)
        (authority_step demo_hash demo_mac demo_fmt) demo_run ?e)))"
    by (simp add: demo_dispatch)
  have wf: "wf_call ?e" by (simp add: demo_payload_def)
  have num: "num_literal ''81''" by code_simp
  then have lit: "literals_ok demo_py" by (simp add: literals_ok_def demo_py_def)
  have "wf_json (JObj (task_message ''t'' demo_sent))"
    by (simp add: task_message_def demo_sent_def demo_payload_def ticket_json_def demo_py_def num)
  then have msg: "read_line (line_of (task_message ''t'' demo_sent)) = Inl (Some (Task ''t'' demo_sent))"
    by (simp add: read_line_of) (simp add: worker_message_of_def task_message_def json_get_def text_of_def)
  obtain flow es w' where h: "handle_message demo_py demo_task_env (Task ''t'' demo_sent) demo_worker = (flow, es, w')"
      "([''ls''], Some ''/ws'') \<in> set (spawned es)" using demo_runs by blast
  show ?thesis using executed_command_was_approved [OF key run line wf lit msg h] by blast
qed

end
