(* ===== verification/CrashRecovery.thy ===== *)
theory CrashRecovery
  imports WorkerProcess
begin

text \<open>
  \<open>src/subagentbridge/recovery/crash_recovery.py\<close>: what happens to a team's workers and tasks after a
  crash.  The store is the controller's.  A queue item's payload and its steps are dictionaries, as the
  store writes them; two JSON values are equal when they are the same value.  This theory has the
  reconciliation of a team, of a task with an unknown outcome and of stale sessions
  (\<open>recovery/checkpoints.py\<close>), and the restart of a worker; \<open>TaskResume\<close> has the resumption of a task.
\<close>

section \<open>Reconciling a team\<close>

definition session_alive :: "python \<Rightarrow> process_table \<Rightarrow> agent_session \<Rightarrow> bool" where
  "session_alive h ps s =
     (case wc_pid (se_config s) of
        None \<Rightarrow> False
      | Some pid \<Rightarrow> 0 < pid \<and> is_process_identically_alive ps pid (time_of_literal h (wc_process_create_time (se_config s))))"

definition crashed :: "python \<Rightarrow> process_table \<Rightarrow> agent_session \<Rightarrow> bool" where
  "crashed h ps s \<longleftrightarrow> se_role s = AR_WORKER \<and> \<not> session_alive h ps s \<and> se_status s \<in> {WS_RUNNING, WS_PAUSED, WS_IDLE}"

definition handed_over :: "queue_status \<Rightarrow> bool" where
  "handed_over st \<longleftrightarrow> st \<in> {QT_DISPATCHED, QT_RUNNING}"

definition crash_status :: "bool \<Rightarrow> queue_status \<Rightarrow> queue_status" where
  "crash_status ambiguous st = (if ambiguous \<and> handed_over st then QT_AMBIGUOUS else QT_FAILED)"

text \<open>The tasks of a dead worker; the two lists are the ambiguous and the failed ones.\<close>

fun fail_items ::
  "real \<Rightarrow> bool \<Rightarrow> string \<Rightarrow> queue_item list \<Rightarrow> team_db \<Rightarrow> (string list \<times> string list) \<times> team_db" where
  "fail_items now ambiguous worker [] db = (([], []), db)"
| "fail_items now ambiguous worker (item # items) db =
     (if qi_to_session_id item = worker \<and> (qi_status item = QT_PENDING \<or> handed_over (qi_status item))
      then let st = crash_status ambiguous (qi_status item) in
        (case fail_items now ambiguous worker items (save_queue_item (item\<lparr>qi_status := st, qi_updated_at := now\<rparr>) db) of
           ((as, fs), db') \<Rightarrow>
             ((if st = QT_AMBIGUOUS then (qi_dispatch_id item # as, fs) else (as, qi_dispatch_id item # fs)), db'))
      else fail_items now ambiguous worker items db)"

record crash_report =
  cp_dead :: "string list"
  cp_ambiguous :: "string list"
  cp_failed :: "string list"

fun reconcile_each ::
  "python \<Rightarrow> process_table \<Rightarrow> real \<Rightarrow> bool \<Rightarrow> string \<Rightarrow> agent_session list \<Rightarrow> crash_report \<Rightarrow> team_db
   \<Rightarrow> (exn + crash_report) \<times> team_db" where
  "reconcile_each h ps now ambiguous team_id [] rep db = (ok rep, db)"
| "reconcile_each h ps now ambiguous team_id (s # ss) rep db =
     (if \<not> crashed h ps s then reconcile_each h ps now ambiguous team_id ss rep db
      else let db1 = save_session (s\<lparr>se_status := WS_FAILED, se_updated_at := now\<rparr>) db in
        (case list_queue_by_team team_id db1 of
           Inl e \<Rightarrow> (Inl e, db1)
         | Inr items \<Rightarrow>
             (case fail_items now ambiguous (se_session_id s) items db1 of
                ((as, fs), db2) \<Rightarrow>
                  reconcile_each h ps now ambiguous team_id ss
                    \<lparr>cp_dead = cp_dead rep @ [se_session_id s], cp_ambiguous = cp_ambiguous rep @ as,
                     cp_failed = cp_failed rep @ fs\<rparr> db2)))"

definition reconcile_team_after_crash ::
  "python \<Rightarrow> process_table \<Rightarrow> real \<Rightarrow> string \<Rightarrow> bool \<Rightarrow> team_db \<Rightarrow> (exn + crash_report) \<times> team_db" where
  "reconcile_team_after_crash h ps now team_id ambiguous db =
     (case list_sessions_by_team team_id db of
        Inl e \<Rightarrow> (Inl e, db)
      | Inr sessions \<Rightarrow>
          reconcile_each h ps now ambiguous team_id sessions \<lparr>cp_dead = [], cp_ambiguous = [], cp_failed = []\<rparr> db)"

text \<open>An operator's answer for a task whose outcome is not known.\<close>

definition resolution_status :: "string \<Rightarrow> queue_status" where
  "resolution_status resolution =
     (if resolution = ''RETRY'' then QT_PENDING
      else if resolution = ''MARK_COMPLETED'' then QT_COMPLETED else QT_FAILED)"

definition reconcile_ambiguous_task ::
  "real \<Rightarrow> string \<Rightarrow> string \<Rightarrow> string \<Rightarrow> string \<Rightarrow> team_db \<Rightarrow> (exn + queue_item) \<times> team_db" where
  "reconcile_ambiguous_task now now_text dispatch_id resolution notes db =
     (if resolution \<notin> {''RETRY'', ''MARK_COMPLETED'', ''MARK_FAILED''}
      then (raise ValueError ''Invalid resolution'', db)
      else case load_queue_item dispatch_id db of
        Inl e \<Rightarrow> (Inl e, db)
      | Inr None \<Rightarrow> (raise KeyError ''Queue item not found'', db)
      | Inr (Some item) \<Rightarrow>
          if qi_status item \<notin> {QT_AMBIGUOUS, QT_FAILED, QT_DISPATCHED}
          then (raise ValueError ''not eligible for ambiguous reconciliation'', db)
          else let item' = item\<lparr>qi_status := resolution_status resolution,
                     qi_payload := JObj (AList.update ''_reconciliation''
                       (JObj [(''resolved_at'', JNum now_text), (''resolution'', JStr resolution),
                          (''operator_notes'', JStr notes)]) (dict_items (qi_payload item))),
                     qi_updated_at := now\<rparr>
               in (ok item', save_queue_item item' db))"

section \<open>Restarting a worker\<close>

text \<open>\<open>str\<close> of a \<open>PurePosixPath\<close>.\<close>

definition path_text :: "string \<Rightarrow> string" where
  "path_text p =
     (let ps = posix_parts p in
      if ps = [] then ''.''
      else if posix_absolute p then slash # join [slash] (tl ps) else join [slash] ps)"

definition with_tokens :: "worker_checkpoint option \<Rightarrow> agent_session \<Rightarrow> agent_session" where
  "with_tokens cp s =
     (case cp of None \<Rightarrow> s
      | Some k \<Rightarrow> s\<lparr>se_config := (se_config s)\<lparr>wc_tokens_consumed := wp_tokens_consumed k\<rparr>\<rparr>)"

text \<open>The worktree of the worker, if it is still a directory.\<close>

definition live_worktree :: "(string \<Rightarrow> bool) \<Rightarrow> string \<Rightarrow> team_db \<Rightarrow> string option" where
  "live_worktree is_dir w db =
     (case load_worktree w db of
        None \<Rightarrow> None
      | Some wt \<Rightarrow> if is_dir (wt_worktree_path wt) then Some (path_text (wt_worktree_path wt)) else None)"

definition with_worktree :: "string option \<Rightarrow> agent_session \<Rightarrow> agent_session" where
  "with_worktree path s =
     (case path of None \<Rightarrow> s | Some p \<Rightarrow> s\<lparr>se_config := (se_config s)\<lparr>wc_working_dir := Some p\<rparr>\<rparr>)"

definition respawned :: "python \<Rightarrow> real \<Rightarrow> worker_record \<Rightarrow> agent_session \<Rightarrow> agent_session" where
  "respawned h now r s =
     s\<lparr>se_config := (se_config s)\<lparr>wc_pid := Some (rc_pid r),
         wc_process_create_time := map_option (\<lambda>t. py_literal h (Finite t)) (rc_create_time r)\<rparr>,
       se_status := WS_IDLE, se_updated_at := now\<rparr>"

definition resume_worker_from_checkpoint ::
  "python \<Rightarrow> spawn_env \<Rightarrow> call_env \<Rightarrow> (string \<Rightarrow> bool) \<Rightarrow> bool \<Rightarrow> string \<Rightarrow> 'a controller
   \<Rightarrow> (exn + agent_session) \<times> 'a controller" where
  "resume_worker_from_checkpoint h sp env is_dir with_controller w c =
     (case load_session w (ct_store c) of
        Inl e \<Rightarrow> (Inl e, c)
      | Inr None \<Rightarrow> (raise KeyError ''worker session not found'', c)
      | Inr (Some s) \<Rightarrow>
          (case load_latest_checkpoint w (ct_store c) of
             Inl e \<Rightarrow> (Inl e, c)
           | Inr cp \<Rightarrow>
               let path = live_worktree is_dir w (ct_store c);
                   s1 = with_worktree path (with_tokens cp s)
               in if \<not> with_controller then (ok s1, c)
                  else (case spawn_worker h sp env (se_config s1) path c of
                    (Inl e, c1) \<Rightarrow> (Inl e, c1)
                  | (Inr r, c1) \<Rightarrow>
                      let s2 = respawned h (ce_now env) r s1
                      in (ok s2, c1\<lparr>ct_store := save_session s2 (ct_store c1)\<rparr>))))"

end
