(* ===== verification/TeamManagerFacts.thy ===== *)
theory TeamManagerFacts
  imports TeamManager
begin

text \<open>
  What \<open>TeamManager\<close> guarantees.  Every call is a sequence of transactions of the store, so what the
  store keeps is kept here; a handoff that claims success is accepted only with its evidence, and
  once; an interruption leaves the worker nothing to run; tasks stay in their team.
\<close>

section \<open>Evidence\<close>

lemma link_on_way_prefixes:
  "\<not> link_on_way fs base cur \<Longrightarrow> length base < n \<Longrightarrow> n \<le> length cur \<Longrightarrow> take n cur \<noteq> [[slash]] \<Longrightarrow>
   \<not> af_is_symlink fs (take n cur)"
proof (induction fs base cur rule: link_on_way.induct)
  case (1 fs base cur)
  show ?case
  proof (cases "cur = base \<or> cur = path_parent cur")
    case True
    then have "cur = [[slash]]"
    proof
      assume "cur = path_parent cur"
      then show ?thesis using 1(3,4) by (cases cur rule: rev_cases) (auto simp: path_parent_def split: if_splits)
    qed (use 1(3,4) in simp)
    then show ?thesis using 1(3,4,5) by (cases n) auto
  next
    case False
    then have now: "\<not> af_is_symlink fs cur" and up: "\<not> link_on_way fs base (path_parent cur)"
      using 1(2) link_on_way.simps [of fs base cur] by auto
    show ?thesis
    proof (cases "n = length cur")
      case True
      then show ?thesis using now by simp
    next
      case n: False
      have "path_parent cur = butlast cur" using False by (auto simp: path_parent_def)
      moreover have "take n (butlast cur) = take n cur" using n 1(4) by (simp add: take_butlast)
      ultimately show ?thesis using 1(1) [OF False up 1(3)] 1(4,5) n by simp
    qed
  qed
qed

definition artifact_verified ::
  "(string \<Rightarrow> string) \<Rightarrow> artifact_fs \<Rightarrow> handoff_evidence \<Rightarrow> agent_session \<Rightarrow> team_db \<Rightarrow> string \<Rightarrow> bool" where
  "artifact_verified sha fs h worker db art \<longleftrightarrow>
     (\<exists>base t. workspace_of fs h worker db = Some base \<and> \<not> af_is_symlink fs base \<and>
        (let path = join_path base art in
           (\<forall>n. length base < n \<and> n \<le> length path \<and> take n path \<noteq> [[slash]] \<longrightarrow> \<not> af_is_symlink fs (take n path)) \<and>
           take (length (af_resolve fs base)) (af_resolve fs path) = af_resolve fs base \<and>
           af_is_file fs (af_resolve fs path) \<and>
           json_get art JNull (dict_items (metric ''artifact_hashes'' h)) = JStr t \<and> hex_sha256 t \<and>
           lower_text (sha (af_read fs (af_resolve fs path))) = lower_text t))"

lemma check_each_ok_iff: "check_each f xs = Inr () \<longleftrightarrow> list_all (\<lambda>x. f x = Inr ()) xs"
  by (induction xs) (auto simp: and_then_ok_iff)

lemma check_artifacts_verified:
  assumes "check_artifacts sha fs h worker db = Inr ()"
  shows "list_all (artifact_verified sha fs h worker db) (ho_artifacts h)"
proof (cases "ho_artifacts h = []")
  case False
  then obtain base declared where w: "workspace_of fs h worker db = Some base" "\<not> af_is_symlink fs base"
      "list_all (\<lambda>a. check_artifact_path fs base a = Inr ()) (ho_artifacts h)"
      "metric ''artifact_hashes'' h = JObj declared"
      "list_all (\<lambda>a. check_artifact_hash sha fs base declared a = Inr ()) (ho_artifacts h)"
    using assms by (auto simp: check_artifacts_def and_then_ok_iff check_each_ok_iff
        split: option.splits if_splits json.splits)
  have "artifact_verified sha fs h worker db a"
    if p: "check_artifact_path fs base a = Inr ()" and d: "check_artifact_hash sha fs base declared a = Inr ()" for a
  proof -
    let ?path = "join_path base a"
    have path: "\<not> link_on_way fs base ?path"
        "take (length (af_resolve fs base)) (af_resolve fs ?path) = af_resolve fs base"
      using p by (auto simp: check_artifact_path_def Let_def split: if_splits)
    obtain t where "json_get a JNull declared = JStr t" "hex_sha256 t" "af_is_file fs (af_resolve fs ?path)"
        "lower_text (sha (af_read fs (af_resolve fs ?path))) = lower_text t"
      using d by (auto simp: check_artifact_hash_def Let_def split: if_splits json.splits)
    then show ?thesis unfolding artifact_verified_def Let_def
      using w path link_on_way_prefixes [OF path(1)] by (auto simp: dict_items_def)
  qed
  then show ?thesis using w(3,5) by (simp add: list_all_iff)
qed simp

lemma metric_adopt: "k \<noteq> ''exit_code'' \<Longrightarrow> metric k (adopt_exit_code h) = metric k h"
  by (auto simp: adopt_exit_code_def metric_def json_get_def dict_items_def update_conv
      split: json.splits option.splits)

lemma exit_code_adopt: "exit_code_of (adopt_exit_code h) = exit_code_of h"
proof (cases "metric ''execution_receipt'' h")
  case (JObj receipt)
  show ?thesis
  proof (cases "map_of receipt ''exit_code''")
    case (Some code)
    show ?thesis
    proof (cases "metric ''exit_code'' h = JNull")
      case True
      have "metric ''exit_code'' (adopt_exit_code h) = code"
        using JObj Some True by (simp add: adopt_exit_code_def)
          (simp add: metric_def json_get_def dict_items_def update_conv)
      moreover have "metric ''execution_receipt'' (adopt_exit_code h) = JObj receipt"
        using JObj by (simp add: metric_adopt)
      ultimately show ?thesis using JObj Some True by (simp add: exit_code_of_def json_get_def)
    qed (use JObj Some in \<open>simp add: adopt_exit_code_def\<close>)
  qed (use JObj in \<open>simp add: adopt_exit_code_def\<close>)
qed (simp_all add: adopt_exit_code_def)

lemma receipt_adopt: "receipt_of (adopt_exit_code h) = receipt_of h"
  by (simp add: receipt_of_def metric_adopt split: json.split)

lemma check_receipt_evidence:
  assumes "check_receipt h = Inr h'" "claims_success h"
  shows "genuine_receipt (receipt_of h)" "equals_zero (exit_code_of h)"
    "metric ''qa_verdict'' h \<in> {JStr ''PASS'', JStr ''VERIFIED''}"
  using assms by (auto simp: check_receipt_def Let_def receipt_adopt exit_code_adopt metric_adopt split: if_splits)

text \<open>
  What a handoff rests on: the item as it was read was running for that worker, who was not
  interrupted, and the lead of its team receives it; its artifacts are verified; and a claim of
  success comes with a summary, an execution receipt with exit code zero and a passing verdict.
\<close>

definition handoff_backed ::
  "(string \<Rightarrow> string) \<Rightarrow> artifact_fs \<Rightarrow> handoff_evidence \<Rightarrow> bool \<Rightarrow> handoff_reads \<Rightarrow> queue_item \<Rightarrow>
   agent_session \<Rightarrow> bool" where
  "handoff_backed sha fs h v seen item worker \<longleftrightarrow>
     load_queue_item (ho_dispatch_id h) (hs_item seen) = Inr (Some item) \<and>
     qi_status item \<in> {QT_DISPATCHED, QT_RUNNING} \<and> qi_to_session_id item = ho_from_worker_id h \<and>
     load_session (ho_from_worker_id h) (hs_worker seen) = Inr (Some worker) \<and>
     se_status worker \<noteq> WS_INTERRUPTED \<and>
     map_option tm_lead_session_id (load_team (qi_team_id item) (hs_team seen)) = Some (ho_to_lead_id h) \<and>
     list_all (artifact_verified sha fs h worker (hs_worktree seen)) (ho_artifacts h) \<and>
     (claims_success h \<longrightarrow> v \<and> \<not> blank (ho_summary h) \<and> genuine_receipt (receipt_of h) \<and>
        equals_zero (exit_code_of h) \<and> metric ''qa_verdict'' h \<in> {JStr ''PASS'', JStr ''VERIFIED''})"

lemma admitted_handoff_is_backed:
  assumes "load_queue_item (ho_dispatch_id h) (hs_item seen) = Inr (Some item)"
    and "admit_handoff sha fs h v item seen = Inr h'"
  obtains worker where "handoff_backed sha fs h v seen item worker"
proof -
  obtain worker where w: "check_assignment h item = Inr ()"
      "available_worker (ho_from_worker_id h) (hs_worker seen) = Inr worker"
      "check_receiving_lead h item (hs_team seen) = Inr ()" "check_claim h v = Inr ()"
      "check_artifacts sha fs h worker (hs_worktree seen) = Inr ()" "check_receipt h = Inr h'"
    using assms(2) by (auto simp: admit_handoff_def and_then_ok_iff)
  have "qi_status item \<in> {QT_DISPATCHED, QT_RUNNING}" "qi_to_session_id item = ho_from_worker_id h"
    using w(1) by (auto simp: check_assignment_def split: if_splits)
  moreover have "load_session (ho_from_worker_id h) (hs_worker seen) = Inr (Some worker)"
      "se_status worker \<noteq> WS_INTERRUPTED"
    using w(2) by (auto simp: available_worker_def split: sum.splits option.splits if_splits)
  moreover have "map_option tm_lead_session_id (load_team (qi_team_id item) (hs_team seen)) = Some (ho_to_lead_id h)"
    using w(3) by (auto simp: check_receiving_lead_def split: if_splits)
  moreover have "v \<and> \<not> blank (ho_summary h)" if "claims_success h"
    using w(4) that by (auto simp: check_claim_def split: if_splits)
  ultimately show ?thesis
    using assms(1) check_artifacts_verified [OF w(5)] check_receipt_evidence [OF w(6)]
    by (intro that [of worker]) (simp add: handoff_backed_def)
qed

section \<open>Calls as transactions\<close>

datatype manager_op =
    MCreateTeam real string "string option" string string
  | MCreateWorker real string worker_config "string option" "string option"
  | MCreateBatch real string string "worker_config list" int
  | MSetStatus real string worker_status
  | MPost real string string string string
  | MDispatch real real string string string string json "string option" int
  | MUpdateStatus real string queue_status
  | MSteer real real string string json
  | MReprioritize real real string string int
  | MCancel real real string string string
  | MInterrupt real "string \<Rightarrow> real \<times> real" string string
  | MSubmit artifact_fs real handoff_evidence bool handoff_reads

fun manager_step ::
  "(string \<Rightarrow> string) \<Rightarrow> (real \<Rightarrow> string) \<Rightarrow> team_db \<Rightarrow> manager_op \<Rightarrow> team_db" where
  "manager_step sha num db (MCreateTeam now f t l title) = snd (create_team now f t l title db)"
| "manager_step sha num db (MCreateWorker now t c wp bn) = snd (create_worker now t c wp bn db)"
| "manager_step sha num db (MCreateBatch now l t cs n) = snd (create_workers_batch now l t cs n db)"
| "manager_step sha num db (MSetStatus now w s) = snd (set_worker_status now w s db)"
| "manager_step sha num db (MPost now f a b c) = snd (post_message now f a b c db)"
| "manager_step sha num db (MDispatch now now2 f a b t p k n) = snd (dispatch_task now now2 f a b t p k n db)"
| "manager_step sha num db (MUpdateStatus now i s) = snd (update_queue_status now i s db)"
| "manager_step sha num db (MSteer now now2 l i g) = snd (steer_task num now now2 l i g db)"
| "manager_step sha num db (MReprioritize now now2 l i p) = snd (reprioritize_task num now now2 l i p db)"
| "manager_step sha num db (MCancel now now2 l i r) = snd (cancel_task num now now2 l i r db)"
| "manager_step sha num db (MInterrupt now clock w r) = snd (interrupt_worker num now clock w r db)"
| "manager_step sha num db (MSubmit fs now h v seen) =
     snd (submit_worker_handoff sha fs now h v seen db)"

text \<open>
  The transactions a call may issue on the database \<open>db\<close> it starts from, and what must hold there:
  a message and a dispatch need both ends in one team, a cancellation needs the lead of the team of the
  item, a status change rewrites the stored row in its status only, an interruption closes the items of
  that worker, and a submission finalizes a backed handoff.
\<close>

definition in_one_team :: "string \<Rightarrow> string \<Rightarrow> team_db \<Rightarrow> string \<Rightarrow> bool" where
  "in_one_team a b db tm \<longleftrightarrow> (\<exists>s r. load_session a db = Inr (Some s) \<and> load_session b db = Inr (Some r) \<and>
     se_team_id s = tm \<and> se_team_id r = tm)"

definition leads_item :: "string \<Rightarrow> string \<Rightarrow> team_db \<Rightarrow> bool" where
  "leads_item l i db \<longleftrightarrow> (\<exists>lead item. load_session l db = Inr (Some lead) \<and> se_role lead = AR_LEAD \<and>
     load_queue_item i db = Inr (Some item) \<and> qi_team_id item = se_team_id lead)"

definition may_issue ::
  "(string \<Rightarrow> string) \<Rightarrow> (real \<Rightarrow> string) \<Rightarrow> team_db \<Rightarrow> manager_op \<Rightarrow> store_op \<Rightarrow> bool" where
  "may_issue sha num db op t = (case op of
     MCreateTeam now f tm l title \<Rightarrow>
       t = CreateTeam now (if tm \<in> {None, Some []} then ''team-'' @ f else the tm) l title
   | MCreateWorker now tm c wp bn \<Rightarrow> t = RegisterWorker now tm c wp bn
   | MCreateBatch now l tm cs n \<Rightarrow> t = RegisterBatch now tm l cs n
   | MSetStatus now w s \<Rightarrow> (\<exists>x. load_session w db = Inr (Some x) \<and>
       t = SaveSession (x\<lparr>se_status := s, se_updated_at := now\<rparr>))
   | MPost now f a b c \<Rightarrow> (case t of SaveMessage m \<Rightarrow>
        cm_from_session_id m = a \<and> cm_to_session_id m = b \<and> cm_content m = c \<and>
        in_one_team a b db (cm_team_id m) | _ \<Rightarrow> False)
   | MDispatch now now2 f a b task p k n \<Rightarrow> (\<exists>tm. in_one_team a b db tm \<and>
       t = InsertOnce (new_queue_item now now2 f tm a b task p k n))
   | MUpdateStatus now i s \<Rightarrow> (\<exists>q. load_queue_item i db = Inr (Some q) \<and>
       t = SaveQueueItem (q\<lparr>qi_status := s, qi_updated_at := now\<rparr>))
   | MSteer now now2 l i g \<Rightarrow> t = Steer now now2 l i (Some g) None
   | MReprioritize now now2 l i p \<Rightarrow> t = Steer now now2 l i None (Some p)
   | MCancel now now2 l i r \<Rightarrow> t = Cancel now now2 i l r \<and> leads_item l i db
   | MInterrupt now clock w r \<Rightarrow> (\<exists>x. load_session w db = Inr (Some x) \<and>
       (t = SaveSession (x\<lparr>se_status := WS_INTERRUPTED, se_updated_at := now\<rparr>) \<or>
        (\<exists>row \<in> set (td_queue db). \<exists>q. row_to_queue_item row = Inr q \<and> qi_team_id q = se_team_id x \<and>
           qi_to_session_id q = w \<and> steerable (qi_status q) \<and>
           t = SaveQueueItem (interrupted_item num clock r q))))
   | MSubmit fs now h v seen \<Rightarrow> (\<exists>item worker h'. handoff_backed sha fs h v seen item worker \<and>
       check_receipt h = Inr h' \<and>
       t = Finalize (hs_final seen) now (qi_team_id item) h' (if contract_only h then None else Some QT_COMPLETED)))"

definition runs_as ::
  "(string \<Rightarrow> string) \<Rightarrow> (real \<Rightarrow> string) \<Rightarrow> manager_op \<Rightarrow> team_db \<Rightarrow> team_db \<Rightarrow> bool" where
  "runs_as sha num op db db' \<longleftrightarrow>
     (\<exists>ts. db' = foldl (store_step num) db ts \<and> list_all (may_issue sha num db op) ts)"

lemma runs_as_same [simp]: "runs_as sha num op db db"
  unfolding runs_as_def by (rule exI [of _ "[]"]) simp

lemma runs_as_one: "may_issue sha num db op t \<Longrightarrow> runs_as sha num op db (store_step num db t)"
  unfolding runs_as_def by (rule exI [of _ "[t]"]) simp

lemma runs_as_more:
  "runs_as sha num op db0 db \<Longrightarrow> may_issue sha num db0 op t \<Longrightarrow> runs_as sha num op db0 (store_step num db t)"
  unfolding runs_as_def by (elim exE conjE, rule exI, rule conjI [of _ "list_all _ (_ @ [t])"]) simp_all

lemma load_sessionD:
  assumes "load_session i db = Inr (Some s)"
  obtains r where "row_at sr_session_id i (td_sessions db) = Some r" "row_to_session r = Inr s"
    "se_session_id s = i" "se_role s = sr_role r" "se_team_id s = sr_team_id r" "se_status s = sr_status r"
proof -
  obtain r where r: "row_at sr_session_id i (td_sessions db) = Some r" "row_to_session r = Inr s"
    using assms by (auto simp: load_session_def read_one_def split: option.splits sum.splits)
  moreover have "sr_session_id r = i" using r(1) by (auto dest: row_at_SomeD)
  ultimately show ?thesis using that
    by (auto simp: row_to_session_def split: option.splits json.splits)
qed

lemma row_to_queue_itemD:
  assumes "row_to_queue_item r = Inr q"
  shows "qi_dispatch_id q = qr_dispatch_id r" "qi_team_id q = qr_team_id r"
    "qi_from_session_id q = qr_from_session_id r" "qi_to_session_id q = qr_to_session_id r"
    "qi_task_id q = qr_task_id r" "qi_status q = qr_status r" "qi_dedup_key q = qr_dedup_key r"
    "qi_priority q = qr_priority r" "qi_created_at q = qr_created_at r" "qi_updated_at q = qr_updated_at r"
  using assms by (auto simp: row_to_queue_item_def split: option.splits)

lemma load_queue_itemD:
  assumes "load_queue_item i db = Inr (Some q)"
  obtains r where "queue_at i db = Some r" "row_to_queue_item r = Inr q" "qi_dispatch_id q = i"
proof -
  obtain r where r: "queue_at i db = Some r" "row_to_queue_item r = Inr q"
    using assms by (auto simp: load_queue_item_def read_one_def split: option.splits sum.splits)
  moreover have "qr_dispatch_id r = i" using r(1) by (auto simp: queue_at_def dest: row_at_SomeD)
  ultimately show ?thesis using that row_to_queue_itemD(1) by simp
qed

lemma required_itemD: "required_item i db = Inr q \<Longrightarrow> load_queue_item i db = Inr (Some q)"
  by (auto simp: required_item_def split: sum.splits option.splits)

lemma list_queue_by_team_ok:
  "list_queue_by_team t db = Inr items \<Longrightarrow> q \<in> set items \<Longrightarrow>
   \<exists>r \<in> set (td_queue db). qr_team_id r = t \<and> row_to_queue_item r = Inr q"
proof -
  have read: "read_all f rows = Inr xs \<Longrightarrow> x \<in> set xs \<Longrightarrow> \<exists>r \<in> set rows. f r = Inr x"
    for f :: "queue_row \<Rightarrow> exn + queue_item" and rows xs x
    by (induction rows arbitrary: xs) (auto split: sum.splits)
  show "list_queue_by_team t db = Inr items \<Longrightarrow> q \<in> set items \<Longrightarrow> ?thesis"
    unfolding list_queue_by_team_def by (drule read) auto
qed

lemma preempt_runs_as:
  assumes "runs_as sha num (MInterrupt now clock w r) db0 db" "load_session w db0 = Inr (Some x)"
    and "\<forall>q \<in> set items. \<exists>row \<in> set (td_queue db0). qr_team_id row = se_team_id x \<and> row_to_queue_item row = Inr q"
  shows "runs_as sha num (MInterrupt now clock w r) db0 (preempt_items num clock r w items db)"
  using assms(1,3)
proof (induction items arbitrary: db)
  case (Cons q qs)
  have "runs_as sha num (MInterrupt now clock w r) db0
      (store_step num db (SaveQueueItem (interrupted_item num clock r q)))"
    if q: "qi_to_session_id q = w" "steerable (qi_status q)"
  proof (rule runs_as_more [OF Cons.prems(1)])
    obtain row where "row \<in> set (td_queue db0)" "row_to_queue_item row = Inr q" "qi_team_id q = se_team_id x"
      using Cons.prems(2) row_to_queue_itemD(2) by force
    then show "may_issue sha num db0 (MInterrupt now clock w r) (SaveQueueItem (interrupted_item num clock r q))"
      using q assms(2) by (auto simp: may_issue_def)
  qed
  then show ?case using Cons by simp
qed simp

lemma receipt_dispatch:
  "check_receipt h = Inr h' \<Longrightarrow> ho_dispatch_id h' = ho_dispatch_id h \<and> ho_status h' = ho_status h"
  by (auto simp: check_receipt_def adopt_exit_code_def Let_def split: if_splits json.splits option.splits)

lemma admit_receipt:
  "admit_handoff sha fs h v item seen = Inr h' \<Longrightarrow> check_receipt h = Inr h' \<and>
     ho_dispatch_id h' = ho_dispatch_id h \<and> ho_status h' = ho_status h"
  by (auto simp: admit_handoff_def and_then_ok_iff dest: receipt_dispatch)

text \<open>A submission is refused and changes nothing, or is one finalization of its dispatch.\<close>

lemma submit_cases:
  obtains (refused) e where "submit_worker_handoff sha fs now h v seen db = (Inl e, db)"
  | (accepted) item h' where "load_queue_item (ho_dispatch_id h) (hs_item seen) = Inr (Some item)"
      "admit_handoff sha fs h v item seen = Inr h'"
      "fst (finalize_handoff_transaction (hs_final seen) now (qi_team_id item) h'
         (if contract_only h then None else Some QT_COMPLETED) db) = Inr ()"
      "submit_worker_handoff sha fs now h v seen db =
        (Inr (if contract_only h then ''CONTRACT_VERIFIED'' else ''RECEIVED'', ho_dispatch_id h),
         snd (finalize_handoff_transaction (hs_final seen) now (qi_team_id item) h'
           (if contract_only h then None else Some QT_COMPLETED) db))"
proof (cases "load_queue_item (ho_dispatch_id h) (hs_item seen)")
  case (Inl e)
  then show ?thesis using refused by (simp add: submit_worker_handoff_def)
next
  case (Inr found)
  show ?thesis
  proof (cases found)
    case None
    then show ?thesis using refused Inr by (simp add: submit_worker_handoff_def)
  next
    case item: (Some item)
    show ?thesis
    proof (cases "admit_handoff sha fs h v item seen")
      case (Inl e)
      then show ?thesis using refused Inr item by (simp add: submit_worker_handoff_def)
    next
      case h': (Inr h')
      then have same: "contract_only h' = contract_only h" "ho_dispatch_id h' = ho_dispatch_id h"
        using admit_receipt by (auto simp: contract_only_def)
      let ?f = "finalize_handoff_transaction (hs_final seen) now (qi_team_id item) h'
          (if contract_only h then None else Some QT_COMPLETED) db"
      show ?thesis
      proof (cases rule: finalize_cases [of "hs_final seen" now "qi_team_id item" h'
            "if contract_only h then None else Some QT_COMPLETED" db])
        case (refused e)
        then have "submit_worker_handoff sha fs now h v seen db = (Inl e, db)"
          using Inr item h' same by (simp add: submit_worker_handoff_def)
        then show ?thesis by (rule that(1))
      next
        case (finalized row)
        have "submit_worker_handoff sha fs now h v seen db =
          (case ?f of (Inl e, db') \<Rightarrow> (Inl e, db') | (Inr _, db') \<Rightarrow>
             (Inr (if contract_only h then ''CONTRACT_VERIFIED'' else ''RECEIVED'', ho_dispatch_id h), db'))"
          using Inr item h' same by (simp add: submit_worker_handoff_def split: prod.split sum.split)
        moreover obtain db' where "?f = (Inr (), db')" using finalized(4) by blast
        ultimately show ?thesis using accepted Inr item h' by simp
      qed
    qed
  qed
qed

lemma dispatch_endsD:
  assumes "dispatch_ends a b db = Inr (s, r)"
  shows "load_session a db = Inr (Some s)" "load_session b db = Inr (Some r)" "se_team_id r = se_team_id s"
  using assms by (cases "load_session a db"; cases "load_session b db";
      auto simp: dispatch_ends_def split: option.splits if_splits)+

lemma manager_runs_as: "runs_as sha num op db (manager_step sha num db op)"
proof (cases op)
  case (MCreateTeam now f t l title)
  have "runs_as sha num op db (store_step num db (CreateTeam now
      (if t \<in> {None, Some []} then ''team-'' @ f else the t) l title))"
    by (rule runs_as_one) (simp add: MCreateTeam may_issue_def)
  moreover have "(case t of None \<Rightarrow> ''team-'' @ f | Some t \<Rightarrow> if t = [] then ''team-'' @ f else t) =
      (if t \<in> {None, Some []} then ''team-'' @ f else the t)" by (cases t) auto
  ultimately show ?thesis using MCreateTeam by (simp add: create_team_def Let_def)
next
  case (MCreateWorker now t c wp bn)
  have "runs_as sha num op db (store_step num db (RegisterWorker now t c wp bn))"
    by (rule runs_as_one) (simp add: MCreateWorker may_issue_def)
  then show ?thesis using MCreateWorker by (simp add: create_worker_def)
next
  case (MCreateBatch now l t cs n)
  have "runs_as sha num op db (store_step num db (RegisterBatch now t l cs n))"
    by (rule runs_as_one) (simp add: MCreateBatch may_issue_def)
  then show ?thesis using MCreateBatch by (simp add: create_workers_batch_def)
next
  case (MSetStatus now w s)
  have "runs_as sha num op db (store_step num db (SaveSession (x\<lparr>se_status := s, se_updated_at := now\<rparr>)))"
    if "load_session w db = Inr (Some x)" for x
    by (rule runs_as_one) (simp add: MSetStatus may_issue_def that)
  then show ?thesis using MSetStatus
    by (auto simp: set_worker_status_def Let_def split: sum.splits option.splits)
next
  case (MPost now f a b c)
  have "runs_as sha num op db (store_step num db (SaveMessage m))"
    if "cm_from_session_id m = a" "cm_to_session_id m = b" "cm_content m = c" "in_one_team a b db (cm_team_id m)" for m
    by (rule runs_as_one) (simp add: MPost may_issue_def that)
  then show ?thesis using MPost
    by (auto simp: post_message_def Let_def required_session_def in_one_team_def
        split: sum.splits option.splits)
next
  case (MDispatch now now2 f a b t p k n)
  show ?thesis
  proof (cases "dispatch_ends a b db")
    case (Inr ends)
    obtain s r where "ends = (s, r)" by (cases ends)
    note sr = Inr [unfolded this]
    have "in_one_team a b db (se_team_id s)" using dispatch_endsD [OF sr] by (auto simp: in_one_team_def)
    then have "runs_as sha num op db
        (store_step num db (InsertOnce (new_queue_item now now2 f (se_team_id s) a b t p k n)))"
      by (intro runs_as_one) (auto simp: MDispatch may_issue_def)
    then show ?thesis using MDispatch sr by (simp add: dispatch_task_def)
  qed (use MDispatch in \<open>simp add: dispatch_task_def\<close>)
next
  case (MUpdateStatus now i s)
  have "runs_as sha num op db (store_step num db (SaveQueueItem (q\<lparr>qi_status := s, qi_updated_at := now\<rparr>)))"
    if "required_item i db = Inr q" for q
    by (rule runs_as_one) (simp add: MUpdateStatus may_issue_def required_itemD [OF that])
  then show ?thesis using MUpdateStatus
    by (auto simp: update_queue_status_def Let_def split: sum.splits)
next
  case (MSteer now now2 l i g)
  have "runs_as sha num op db (store_step num db (Steer now now2 l i (Some g) None))"
    by (rule runs_as_one) (simp add: MSteer may_issue_def)
  then show ?thesis using MSteer by (simp add: steer_task_def)
next
  case (MReprioritize now now2 l i p)
  have "runs_as sha num op db (store_step num db (Steer now now2 l i None (Some p)))"
    by (rule runs_as_one) (simp add: MReprioritize may_issue_def)
  then show ?thesis using MReprioritize by (simp add: reprioritize_task_def)
next
  case (MCancel now now2 l i r)
  have "runs_as sha num op db (store_step num db (Cancel now now2 i l r))"
    if "load_session l db = Inr (Some lead)" "se_role lead = AR_LEAD" "required_item i db = Inr item"
      "qi_team_id item = se_team_id lead" for lead item
    by (rule runs_as_one) (use that required_itemD [OF that(3)] in \<open>simp add: MCancel may_issue_def leads_item_def\<close>)
  then show ?thesis using MCancel
    by (auto simp: cancel_task_def split: sum.splits option.splits)
next
  case (MInterrupt now clock w r)
  have saved: "runs_as sha num op db (save_session (x\<lparr>se_status := WS_INTERRUPTED, se_updated_at := now\<rparr>) db)"
    if "load_session w db = Inr (Some x)" for x
    using runs_as_one [of sha num db op "SaveSession (x\<lparr>se_status := WS_INTERRUPTED, se_updated_at := now\<rparr>)"] that
    by (simp add: MInterrupt may_issue_def)
  have "runs_as sha num op db (preempt_items num clock r w items
        (save_session (x\<lparr>se_status := WS_INTERRUPTED, se_updated_at := now\<rparr>) db))"
    if x: "load_session w db = Inr (Some x)" and l: "list_queue_by_team (se_team_id x)
        (save_session (x\<lparr>se_status := WS_INTERRUPTED, se_updated_at := now\<rparr>) db) = Inr items" for x items
    unfolding MInterrupt using saved [OF x] list_queue_by_team_ok [OF l]
    by (intro preempt_runs_as [OF _ x]) (auto simp: MInterrupt save_session_def)
  then show ?thesis using MInterrupt saved
    by (auto simp: interrupt_worker_def Let_def split: sum.splits option.splits)
next
  case (MSubmit fs now h v seen)
  show ?thesis
  proof (cases rule: submit_cases [of sha fs now h v seen db])
    case (refused e)
    then show ?thesis using MSubmit by simp
  next
    case (accepted item h')
    obtain worker where "handoff_backed sha fs h v seen item worker"
      using admitted_handoff_is_backed [OF accepted(1,2)] by metis
    then have "may_issue sha num db op (Finalize (hs_final seen) now (qi_team_id item) h'
        (if contract_only h then None else Some QT_COMPLETED))"
      using admit_receipt [OF accepted(2)] unfolding MSubmit may_issue_def by auto
    then show ?thesis using MSubmit accepted(4) runs_as_one by fastforce
  qed
qed

text \<open>
  C30: The manager refines its store.  Whatever a caller asks of the manager, and whether the call
  raises or not, the database changes by a sequence of the store's transactions, each of the kind,
  with the arguments and under the preconditions of this call: both ends of a message or a dispatch are
  in one team, a cancellation is by the lead of the team of the item, a status change rewrites the
  stored row in its status only, an interruption closes active items of that worker, and a submission
  finalizes a handoff that is backed by its evidence.
\<close>

theorem manager_refines_store:
  "\<exists>ts. manager_step sha num db op = foldl (store_step num) db ts \<and> list_all (may_issue sha num db op) ts"
  using manager_runs_as unfolding runs_as_def .

text \<open>The dispatch whose handoff a call accepts.\<close>

fun accepts :: "(string \<Rightarrow> string) \<Rightarrow> team_db \<Rightarrow> manager_op \<Rightarrow> string option" where
  "accepts sha db (MSubmit fs now h v seen) =
     (case fst (submit_worker_handoff sha fs now h v seen db) of Inl _ \<Rightarrow> None | Inr (_, i) \<Rightarrow> Some i)"
| "accepts sha db _ = None"

lemma handed_off_run: "handed_off db \<subseteq> handed_off (foldl (store_step num) db ts)"
proof (induction ts arbitrary: db)
  case (Cons t ts)
  then show ?case using handed_off_step [of db num t] by (auto simp: subset_iff)
qed simp

lemma accepts_finalizes:
  assumes "accepts sha db op = Some i"
  shows "i \<notin> handed_off db \<and> i \<in> handed_off (manager_step sha num db op)"
proof -
  obtain fs now h v seen st where op: "op = MSubmit fs now h v seen"
      and "fst (submit_worker_handoff sha fs now h v seen db) = Inr (st, i)"
    using assms by (cases "(sha, db, op)" rule: accepts.cases) (auto split: sum.splits)
  then show ?thesis
  proof (cases rule: submit_cases [of sha fs now h v seen db])
    case (accepted item h')
    let ?t = "Finalize (hs_final seen) now (qi_team_id item) h' (if contract_only h then None else Some QT_COMPLETED)"
    have "finalizes db ?t = Some i"
      using accepted(3,4) admit_receipt [OF accepted(2)]
        \<open>fst (submit_worker_handoff sha fs now h v seen db) = Inr (st, i)\<close> by simp
    then show ?thesis using handed_off_step [of db num ?t i] op accepted(4) by simp
  qed simp
qed

interpretation handoffs: single_use_authority "manager_step sha num" "\<lambda>_. True" "accepts sha" handed_off
  for sha num
proof unfold_locales
  fix db op
  obtain ts where "manager_step sha num db op = foldl (store_step num) db ts"
    using manager_runs_as unfolding runs_as_def by blast
  then show "handed_off db \<subseteq> handed_off (manager_step sha num db op)" by (simp add: handed_off_run)
qed (use accepts_finalizes in blast)+

text \<open>
  C29: A task is handed over once.  In no sequence of calls, with the files on disk changing in any way
  between them, is a handoff accepted for a dispatch that has one already.
\<close>

theorem handoff_accepted_once:
  "distinct (granted_in (manager_step sha num) (accepts sha) db ops) \<and>
   set (granted_in (manager_step sha num) (accepts sha) db ops) \<inter> handed_off db = {}"
  using handoffs.granted_once handoffs.granted_unspent by blast

text \<open>
  C28: Success needs evidence.  An accepted handoff that claims success names an item that was
  dispatched to or running for that worker when it was read, reported to the lead of its team, by a
  worker that was not interrupted when it was read; the item was neither completed nor cancelled when
  the finalization read it again, and has no handoff in the database that the handoff is written to.
  The handoff has a summary; each artifact lies in the worker's workspace, reached over no symbolic
  link, and has the declared hash; there is an execution receipt with exit code zero and a passing QA
  verdict.  Other processes may change the tables between any two reads.
\<close>

theorem success_needs_evidence:
  assumes "fst (submit_worker_handoff sha fs now h v seen db) = Inr (st, i)" "claims_success h"
  shows "\<exists>row worker. i = ho_dispatch_id h \<and> queue_at i (hs_item seen) = Some row \<and>
    qr_status row \<in> {QT_DISPATCHED, QT_RUNNING} \<and> qr_to_session_id row = ho_from_worker_id h \<and>
    load_session (ho_from_worker_id h) (hs_worker seen) = Inr (Some worker) \<and>
    se_status worker \<noteq> WS_INTERRUPTED \<and>
    map_option tm_lead_session_id (load_team (qr_team_id row) (hs_team seen)) = Some (ho_to_lead_id h) \<and>
    (\<exists>row'. queue_at i (hs_final seen) = Some row' \<and> qr_status row' \<notin> {QT_COMPLETED, QT_CANCELLED}) \<and>
    i \<notin> handed_off db \<and> v \<and> \<not> blank (ho_summary h) \<and>
    list_all (artifact_verified sha fs h worker (hs_worktree seen)) (ho_artifacts h) \<and>
    genuine_receipt (receipt_of h) \<and> equals_zero (exit_code_of h) \<and>
    metric ''qa_verdict'' h \<in> {JStr ''PASS'', JStr ''VERIFIED''}"
proof (cases rule: submit_cases [of sha fs now h v seen db])
  case (refused e)
  then show ?thesis using assms(1) by simp
next
  case (accepted item h')
  obtain row where row: "queue_at (ho_dispatch_id h) (hs_item seen) = Some row" "row_to_queue_item row = Inr item"
    using load_queue_itemD [OF accepted(1)] by metis
  obtain worker where w: "handoff_backed sha fs h v seen item worker"
    using admitted_handoff_is_backed [OF accepted(1,2)] by metis
  have i: "i = ho_dispatch_id h" using assms(1) accepted(4) by simp
  have "\<exists>row'. queue_at i (hs_final seen) = Some row' \<and> qr_status row' \<notin> {QT_COMPLETED, QT_CANCELLED}"
    using accepted(3) admit_receipt [OF accepted(2)] i
    by (cases rule: finalize_cases [of "hs_final seen" now "qi_team_id item" h'
          "if contract_only h then None else Some QT_COMPLETED" db]) auto
  moreover have "i \<notin> handed_off db"
    using accepts_finalizes [of sha db "MSubmit fs now h v seen" i] assms(1) by simp
  ultimately show ?thesis
    using row(1) row_to_queue_itemD [OF row(2)] w assms(2) i by (auto simp: handoff_backed_def)
qed

text \<open>An example: a worker hands over one file.\<close>

definition demo_fs :: artifact_fs where
  "demo_fs = \<lparr>af_exists = (\<lambda>_. True), af_is_symlink = (\<lambda>_. False), af_is_file = (\<lambda>_. True),
     af_read = (\<lambda>_. []), af_resolve = (\<lambda>p. p)\<rparr>"

definition demo_hash :: string where "demo_hash = replicate 64 (CHR ''a'')"

definition demo_worker :: agent_session where
  "demo_worker = new_worker 0 ''t'' ((default_config ''w'' ''t'')\<lparr>wc_working_dir := Some ''ws''\<rparr>)"

definition demo_running :: team_db where
  "demo_running = empty_team_db\<lparr>
     td_teams := [\<lparr>tm_team_id = ''t'', tm_lead_session_id = ''lead'', tm_title = [], tm_created_at = 0\<rparr>],
     td_sessions := [session_row_of demo_worker],
     td_queue := [queue_row_of (demo_item ''d'' QT_RUNNING)]\<rparr>"

definition demo_success :: handoff_evidence where
  "demo_success = demo_handoff\<lparr>ho_status := ''SUCCESS'', ho_summary := ''done'', ho_artifacts := [''a''],
     ho_metrics := JObj [(''artifact_hashes'', JObj [(''a'', JStr demo_hash)]), (''receipt_id'', JStr ''r''),
       (''exit_code'', JNum ''0''), (''qa_verdict'', JStr ''PASS'')]\<rparr>"

lemma no_links: "\<not> link_on_way demo_fs base cur"
proof (induction demo_fs base cur rule: link_on_way.induct)
  case (1 base cur)
  then show ?case by (subst link_on_way.simps) (auto simp: demo_fs_def)
qed

lemma row_to_queue_item_of: "wf_json (qi_payload q) \<Longrightarrow> wf_json (JList (qi_steering q)) \<Longrightarrow>
  row_to_queue_item (queue_row_of q) = Inr q"
  using loads_text_json [of "JList (qi_steering q)"] loads_text_json [of "qi_payload q"]
  by (simp add: row_to_queue_item_def queue_row_of_def steering_of_def)

lemma demo_load_item: "load_queue_item ''d'' demo_running = Inr (Some (demo_item ''d'' QT_RUNNING))"
proof -
  have "row_to_queue_item (queue_row_of (demo_item ''d'' QT_RUNNING)) = Inr (demo_item ''d'' QT_RUNNING)"
    by (rule row_to_queue_item_of) (simp_all add: demo_item_def)
  moreover have "queue_at ''d'' demo_running = Some (queue_row_of (demo_item ''d'' QT_RUNNING))"
    by (simp add: queue_at_def demo_running_def queue_row_of_def demo_item_def)
  ultimately show ?thesis by (simp add: load_queue_item_def read_one_def)
qed

lemma demo_load_worker: "load_session ''w'' demo_running = Inr (Some demo_worker)"
proof -
  have "row_to_session (session_row_of demo_worker) = Inr demo_worker"
    by (intro row_to_session_of) (simp add: demo_worker_def new_worker_def good_config_def default_config_def)
  moreover have "row_at sr_session_id ''w'' (td_sessions demo_running) = Some (session_row_of demo_worker)"
    by (simp add: demo_running_def session_row_of_def demo_worker_def new_worker_def default_config_def)
  ultimately show ?thesis by (simp add: load_session_def read_one_def)
qed

lemma demo_artifacts: "check_artifacts (\<lambda>_. demo_hash) demo_fs demo_success demo_worker demo_running = Inr ()"
proof -
  have ws: "workspace_of demo_fs demo_success demo_worker demo_running = Some [''ws'']"
    by (simp add: workspace_of_def demo_fs_def demo_worker_def new_worker_def default_config_def load_worktree_def
        demo_running_def empty_team_db_def posix_parts_def posix_absolute_def slash_def)
  have path: "join_path [''ws''] ''a'' = [''ws'', ''a'']"
    by (simp add: join_path_def posix_absolute_def posix_parts_def slash_def)
  have "check_artifact_path demo_fs [''ws''] ''a'' = Inr ()"
    using no_links by (simp add: check_artifact_path_def path) (simp add: demo_fs_def)
  moreover have "hex_sha256 demo_hash" "demo_hash \<noteq> []"
    by (simp_all add: hex_sha256_def demo_hash_def list_all_iff)
  then have "check_artifact_hash (\<lambda>_. demo_hash) demo_fs [''ws''] [(''a'', JStr demo_hash)] ''a'' = Inr ()"
    by (simp add: check_artifact_hash_def json_get_def demo_fs_def)
  moreover have "metric ''artifact_hashes'' demo_success = JObj [(''a'', JStr demo_hash)]"
      "ho_artifacts demo_success = [''a'']" "\<not> af_is_symlink demo_fs [''ws'']"
    by (simp_all add: metric_def demo_success_def dict_items_def json_get_def demo_fs_def)
  ultimately show ?thesis using ws by (simp add: check_artifacts_def)
qed

lemma demo_receipt: "check_receipt demo_success = Inr demo_success"
  by (simp add: check_receipt_def adopt_exit_code_def metric_def receipt_of_def exit_code_of_def demo_success_def
      dict_items_def json_get_def genuine_receipt_def zero_number_def py_isspace_def)

lemma demo_admitted: "admit_handoff (\<lambda>_. demo_hash) demo_fs demo_success True (demo_item ''d'' QT_RUNNING)
    (undisturbed demo_running) = Inr demo_success"
proof -
  have "check_assignment demo_success (demo_item ''d'' QT_RUNNING) = Inr ()"
      "check_receiving_lead demo_success (demo_item ''d'' QT_RUNNING) demo_running = Inr ()"
      "check_first_handoff demo_success (demo_item ''d'' QT_RUNNING) demo_running = Inr ()"
      "check_claim demo_success True = Inr ()" "ho_from_worker_id demo_success = ''w''"
    by (simp_all add: check_assignment_def check_receiving_lead_def check_first_handoff_def check_claim_def
        demo_success_def demo_handoff_def demo_item_def demo_running_def empty_team_db_def load_team_def
        list_handoffs_by_team_def claims_success_def dict_items_def py_isspace_def)
  moreover have "available_worker ''w'' demo_running = Inr demo_worker"
    using demo_load_worker by (simp add: available_worker_def demo_worker_def new_worker_def)
  ultimately show ?thesis using demo_artifacts demo_receipt by (simp add: admit_handoff_def)
qed

theorem success_needs_evidence_witness:
  "fst (submit_worker_handoff (\<lambda>_. demo_hash) demo_fs 1 demo_success True (undisturbed demo_running) demo_running) = Inr (''RECEIVED'', ''d'') \<and>
   ''d'' \<notin> handed_off demo_running \<and> genuine_receipt (receipt_of demo_success)"
proof -
  have id: "ho_dispatch_id demo_success = ''d''" "\<not> contract_only demo_success" "claims_success demo_success"
    by (simp_all add: demo_success_def demo_handoff_def contract_only_def claims_success_def)
  have "queue_at ''d'' demo_running = Some (queue_row_of (demo_item ''d'' QT_RUNNING))"
      "\<not> has_row hr_dispatch_id ''d'' (td_handoffs demo_running)"
    by (simp_all add: queue_at_def demo_running_def queue_row_of_def demo_item_def empty_team_db_def has_row_def)
  then have "fst (finalize_handoff_transaction demo_running 1 t demo_success (Some QT_COMPLETED) demo_running) = Inr ()" for t
    by (simp add: finalize_handoff_transaction_def finalize_read_def finalize_write_def id) (simp add: queue_row_of_def demo_item_def)
  then obtain db' where "finalize_handoff_transaction demo_running 1 (qi_team_id (demo_item ''d'' QT_RUNNING)) demo_success
      (Some QT_COMPLETED) demo_running = (Inr (), db')" by (metis prod.collapse)
  then have "fst (submit_worker_handoff (\<lambda>_. demo_hash) demo_fs 1 demo_success True (undisturbed demo_running) demo_running) =
      Inr (''RECEIVED'', ''d'')"
    by (simp add: submit_worker_handoff_def id demo_load_item demo_admitted)
  then show ?thesis using success_needs_evidence [OF _ id(3)] by blast
qed

text \<open>
  A handoff is written at once.  A refused handoff changes nothing.  An accepted one appends exactly
  one handoff row for the dispatch, completes the item unless it is a contract fixture, makes the
  assigned worker idle, and leaves every other row and table as it was.
\<close>

theorem handoff_is_atomic:
  "case submit_worker_handoff sha fs now h v seen db of
     (Inl e, db') \<Rightarrow> db' = db
   | (Inr (st, i), db') \<Rightarrow>
       st = (if contract_only h then ''CONTRACT_VERIFIED'' else ''RECEIVED'') \<and> i = ho_dispatch_id h \<and>
       (\<exists>item row h'. load_queue_item i (hs_item seen) = Inr (Some item) \<and> check_receipt h = Inr h' \<and>
          queue_at i (hs_final seen) = Some row \<and>
          db' = db\<lparr>
            td_handoffs := td_handoffs db @ [handoff_row_of (qi_team_id item) h'],
            td_queue := update_where (\<lambda>r. \<not> contract_only h \<and> qr_dispatch_id r = i)
              (\<lambda>r. r\<lparr>qr_status := QT_COMPLETED, qr_updated_at := now\<rparr>) (td_queue db),
            td_sessions := update_where (\<lambda>r. sr_session_id r = qr_to_session_id row)
              (\<lambda>r. r\<lparr>sr_status := WS_IDLE, sr_updated_at := now\<rparr>) (td_sessions db)\<rparr>)"
proof (cases rule: submit_cases [of sha fs now h v seen db])
  case (refused e)
  then show ?thesis by simp
next
  case (accepted item h')
  let ?ns = "if contract_only h then None else Some QT_COMPLETED"
  note receipt = admit_receipt [OF accepted(2)]
  show ?thesis
  proof (cases rule: finalize_cases [of "hs_final seen" now "qi_team_id item" h' ?ns db])
    case (refused e)
    then show ?thesis using accepted(3) by simp
  next
    case (finalized row)
    have "update_where (\<lambda>r. ?ns \<noteq> None \<and> qr_dispatch_id r = ho_dispatch_id h)
          (\<lambda>r. r\<lparr>qr_status := the ?ns, qr_updated_at := now\<rparr>) (td_queue db) =
        update_where (\<lambda>r. \<not> contract_only h \<and> qr_dispatch_id r = ho_dispatch_id h)
          (\<lambda>r. r\<lparr>qr_status := QT_COMPLETED, qr_updated_at := now\<rparr>) (td_queue db)"
      by (simp add: update_where_def)
    then show ?thesis using accepted(1,4) receipt finalized(1,4) by simp
  qed
qed

text \<open>
  Tasks stay in their team.  A dispatch that returns an item has a sender and a receiver that are
  sessions of the team of the item; the item is a new pending one, appended to the queue, or the
  database is unchanged and it is the live item that already carries the deduplication key.
\<close>

theorem dispatch_stays_in_team:
  "case dispatch_task now now2 fresh a b task payload key prio db of
     (Inl e, db') \<Rightarrow> db' = db
   | (Inr q, db') \<Rightarrow> \<exists>s r. load_session a db = Inr (Some s) \<and> load_session b db = Inr (Some r) \<and>
       se_team_id r = se_team_id s \<and> qi_team_id q = se_team_id s \<and>
       (q = new_queue_item now now2 fresh (se_team_id s) a b task payload key prio \<and>
          db' = db\<lparr>td_queue := td_queue db @ [queue_row_of q]\<rparr>
        \<or> db' = db \<and> qi_dedup_key q = key \<and> key \<noteq> None \<and> live (qi_status q))"
proof (cases "dispatch_ends a b db")
  case (Inl e)
  then show ?thesis by (simp add: dispatch_task_def)
next
  case (Inr ends)
  obtain s r where "ends = (s, r)" by (cases ends)
  then have sr: "dispatch_ends a b db = Inr (s, r)" using Inr by simp
  note ends = dispatch_endsD [OF sr]
  let ?q = "new_queue_item now now2 fresh (se_team_id s) a b task payload key prio"
  have q: "qi_team_id ?q = se_team_id s" "qi_dedup_key ?q = key" by (simp_all add: new_queue_item_def)
  have step: "dispatch_task now now2 fresh a b task payload key prio db = insert_queue_item_once ?q db"
    by (simp add: dispatch_task_def sr)
  show ?thesis
  proof (cases rule: insert_once_cases [of ?q db])
    case (found row k)
    show ?thesis
    proof (cases "row_to_queue_item row")
      case (Inr x)
      then show ?thesis
        using step found(1,4,5) ends q row_to_queue_itemD [OF Inr] by (simp add: same_work_def)
    qed (use step found(5) in simp)
  qed (use step ends q in auto)
qed

section \<open>Interruption\<close>

definition preempts :: "string \<Rightarrow> queue_item list \<Rightarrow> (queue_row \<Rightarrow> queue_row) \<Rightarrow> queue_row \<Rightarrow> bool" where
  "preempts w items g r \<longleftrightarrow>
     qr_dispatch_id (g r) = qr_dispatch_id r \<and> qr_team_id (g r) = qr_team_id r \<and>
     qr_to_session_id (g r) = qr_to_session_id r \<and> (g r = r \<or> qr_status (g r) = QT_INTERRUPTED) \<and>
     (qr_dispatch_id r \<notin> qi_dispatch_id ` {q \<in> set items. qi_to_session_id q = w} \<longrightarrow> g r = r) \<and>
     ((\<exists>q \<in> set items. qi_dispatch_id q = qr_dispatch_id r \<and> qi_to_session_id q = w \<and> steerable (qi_status q)) \<longrightarrow>
        qr_status (g r) = QT_INTERRUPTED)"

lemma preempt_items_effect:
  assumes "\<forall>q \<in> set items. has_row qr_dispatch_id (qi_dispatch_id q) (td_queue db)"
  shows "\<exists>g. preempt_items num clock reason w items db = db\<lparr>td_queue := map g (td_queue db)\<rparr> \<and>
    list_all (preempts w items g) (td_queue db)"
  using assms
proof (induction items arbitrary: db)
  case Nil
  show ?case by (intro exI [of _ "\<lambda>r. r"]) (simp add: preempts_def list_all_iff)
next
  case (Cons q qs)
  let ?act = "qi_to_session_id q = w \<and> steerable (qi_status q)"
  let ?q = "interrupted_item num clock reason q"
  define f where "f = (\<lambda>r. if ?act \<and> qr_dispatch_id r = qi_dispatch_id q then merge_queue r (queue_row_of ?q) else r)"
  have id: "qi_dispatch_id ?q = qi_dispatch_id q" "qi_status ?q = QT_INTERRUPTED"
    by (simp_all add: interrupted_item_def split: prod.split)
  have f: "qr_dispatch_id (f r) = qr_dispatch_id r" "qr_team_id (f r) = qr_team_id r"
      "qr_to_session_id (f r) = qr_to_session_id r" "f r = r \<or> qr_status (f r) = QT_INTERRUPTED"
      "?act \<and> qr_dispatch_id r = qi_dispatch_id q \<Longrightarrow> qr_status (f r) = QT_INTERRUPTED"
      "\<not> (?act \<and> qr_dispatch_id r = qi_dispatch_id q) \<Longrightarrow> f r = r" for r
    using id by (auto simp: f_def merge_queue_def queue_row_of_def)
  let ?db = "if ?act then save_queue_item ?q db else db"
  have db: "?db = db\<lparr>td_queue := map f (td_queue db)\<rparr>"
  proof (cases ?act)
    case True
    then show ?thesis using Cons.prems id
      by (simp add: save_queue_item_def upsert_def update_where_def f_def queue_row_of_def)
  next
    case False
    then have "f = (\<lambda>r. r)" by (auto simp: f_def)
    then show ?thesis using False by auto
  qed
  have "\<forall>x \<in> set qs. has_row qr_dispatch_id (qi_dispatch_id x) (td_queue ?db)"
    using Cons.prems db f(1) by (auto simp: has_row_iff image_image)
  then obtain g where g: "preempt_items num clock reason w qs ?db = ?db\<lparr>td_queue := map g (td_queue ?db)\<rparr>"
      "list_all (preempts w qs g) (td_queue ?db)"
    using Cons.IH by blast
  have all: "preempts w qs g (f r)" if "r \<in> set (td_queue db)" for r
    using g(2) db that by (simp add: list_all_iff)
  have "preempts w (q # qs) (g \<circ> f) r" if r: "r \<in> set (td_queue db)" for r
  proof -
    have ids: "qr_dispatch_id (g (f r)) = qr_dispatch_id r \<and> qr_team_id (g (f r)) = qr_team_id r \<and>
        qr_to_session_id (g (f r)) = qr_to_session_id r"
      using all [OF r] f(1-3) [of r] by (simp add: preempts_def)
    have status: "g (f r) = f r \<or> qr_status (g (f r)) = QT_INTERRUPTED"
      using all [OF r] by (simp add: preempts_def)
    have other: "g (f r) = r"
      if o: "qr_dispatch_id r \<notin> qi_dispatch_id ` {x \<in> set (q # qs). qi_to_session_id x = w}"
    proof -
      have "f r = r" using f(6) [of r] o by (auto simp: image_iff)
      moreover have "qr_dispatch_id r \<notin> qi_dispatch_id ` {x \<in> set qs. qi_to_session_id x = w}" using o by auto
      ultimately show ?thesis using all [OF r] by (simp add: preempts_def)
    qed
    have hit: "qr_status (g (f r)) = QT_INTERRUPTED"
      if "x \<in> set (q # qs)" "qi_dispatch_id x = qr_dispatch_id r" "qi_to_session_id x = w" "steerable (qi_status x)" for x
    proof (cases "x \<in> set qs")
      case True
      then show ?thesis using all [OF r] that f(1) [of r] by (auto simp: preempts_def)
    next
      case False
      then have "qr_status (f r) = QT_INTERRUPTED" using that f(5) [of r] by simp
      then show ?thesis using status by auto
    qed
    have same: "g (f r) = r \<or> qr_status (g (f r)) = QT_INTERRUPTED" using status f(4) [of r] by auto
    show ?thesis unfolding preempts_def comp_def
    proof (intro conjI impI)
      assume "\<exists>x \<in> set (q # qs). qi_dispatch_id x = qr_dispatch_id r \<and> qi_to_session_id x = w \<and> steerable (qi_status x)"
      then show "qr_status (g (f r)) = QT_INTERRUPTED" using hit by blast
    next
      assume "qr_dispatch_id r \<notin> qi_dispatch_id ` {x \<in> set (q # qs). qi_to_session_id x = w}"
      then show "g (f r) = r" by (rule other)
    qed (use ids same in \<open>simp_all only:\<close>)
  qed
  then have "list_all (preempts w (q # qs) (g \<circ> f)) (td_queue db)" by (simp add: list_all_iff)
  moreover have "preempt_items num clock reason w (q # qs) db = db\<lparr>td_queue := map (g \<circ> f) (td_queue db)\<rparr>"
    using g(1) db by simp
  ultimately show ?case by blast
qed

lemma list_queue_by_team_complete:
  assumes "list_queue_by_team t db = Inr items" "r \<in> set (td_queue db)" "qr_team_id r = t"
  shows "\<exists>q \<in> set items. row_to_queue_item r = Inr q"
proof -
  have read: "read_all f rows = Inr xs \<Longrightarrow> r \<in> set rows \<Longrightarrow> \<exists>x \<in> set xs. f r = Inr x"
    for f :: "queue_row \<Rightarrow> exn + queue_item" and rows xs
    by (induction rows arbitrary: xs) (auto split: sum.splits)
  have "r \<in> set (sort_key qr_created_at (filter (\<lambda>r. qr_team_id r = t) (td_queue db)))"
    using assms(2,3) by simp
  then show ?thesis using read assms(1) unfolding list_queue_by_team_def by blast
qed

text \<open>
  An interrupted worker has nothing to run.  After a call of \<open>interrupt_worker\<close> that returns True,
  the session of the worker is INTERRUPTED, no item of its team addressed to it is pending, dispatched
  or running, and every item that was not addressed to it, and every other table, is as before.
\<close>

theorem interrupted_worker_is_idle:
  assumes "interrupt_worker num now clock w reason db = (Inr True, db')" "tables_ok db"
    and "load_session w db = Inr (Some s)"
  shows "map_option sr_status (row_at sr_session_id w (td_sessions db')) = Some WS_INTERRUPTED \<and>
    \<not> list_ex (\<lambda>r. qr_team_id r = se_team_id s \<and> qr_to_session_id r = w \<and> steerable (qr_status r)) (td_queue db') \<and>
    filter (\<lambda>r. qr_to_session_id r \<noteq> w) (td_queue db') = filter (\<lambda>r. qr_to_session_id r \<noteq> w) (td_queue db) \<and>
    (td_teams db', td_worktrees db', td_handoffs db', td_messages db', td_checkpoints db') =
    (td_teams db, td_worktrees db, td_handoffs db, td_messages db, td_checkpoints db)"
proof -
  let ?s = "s\<lparr>se_status := WS_INTERRUPTED, se_updated_at := now\<rparr>"
  define db1 where "db1 = save_session ?s db"
  have queue1: "td_queue db1 = td_queue db" by (simp add: db1_def save_session_def)
  obtain row where row: "row_at sr_session_id w (td_sessions db) = Some row" "se_session_id s = w"
    using load_sessionD [OF assms(3)] by metis
  obtain items where items: "list_queue_by_team (se_team_id s) db1 = Inr items"
      "db' = preempt_items num clock reason w items db1"
    using assms(1,3) by (auto simp: interrupt_worker_def Let_def db1_def split: sum.splits)
  have source: "\<exists>r \<in> set (td_queue db). qr_team_id r = se_team_id s \<and> row_to_queue_item r = Inr q"
    if "q \<in> set items" for q
    using list_queue_by_team_ok [OF items(1) that] queue1 by simp
  have "\<forall>q \<in> set items. has_row qr_dispatch_id (qi_dispatch_id q) (td_queue db1)"
    using source row_to_queue_itemD(1) queue1 by (force simp: has_row_iff)
  then obtain g where g: "db' = db1\<lparr>td_queue := map g (td_queue db)\<rparr>" "list_all (preempts w items g) (td_queue db)"
    using preempt_items_effect [of items db1 num clock reason w] items(2) queue1 by auto
  have effect: "preempts w items g r" if "r \<in> set (td_queue db)" for r
    using g(2) that by (simp add: list_all_iff)
  have keys: "keys_distinct qr_dispatch_id (td_queue db)" using assms(2) by (simp add: tables_ok_def)
  have "\<not> steerable (qr_status (g r))"
    if r: "r \<in> set (td_queue db)" "qr_team_id r = se_team_id s" "qr_to_session_id r = w" for r
  proof (cases "steerable (qr_status r)")
    case True
    obtain q where q: "q \<in> set items" "row_to_queue_item r = Inr q"
      using list_queue_by_team_complete [OF items(1)] r queue1 by auto
    have "\<exists>q \<in> set items. qi_dispatch_id q = qr_dispatch_id r \<and> qi_to_session_id q = w \<and> steerable (qi_status q)"
      by (rule bexI [OF _ q(1)]) (use row_to_queue_itemD [OF q(2)] r(3) True in simp)
    then have "qr_status (g r) = QT_INTERRUPTED" using effect [OF r(1)] by (simp add: preempts_def)
    then show ?thesis by (simp add: steerable_def)
  next
    case False
    then show ?thesis using effect [OF r(1)] by (auto simp: preempts_def steerable_def)
  qed
  then have quiet: "\<not> list_ex (\<lambda>r. qr_team_id r = se_team_id s \<and> qr_to_session_id r = w \<and> steerable (qr_status r)) (td_queue db')"
    using g(1) effect by (auto simp: list_ex_iff preempts_def)
  have other: "g r = r" if r: "r \<in> set (td_queue db)" "qr_to_session_id r \<noteq> w" for r
  proof -
    have "qr_dispatch_id r \<noteq> qi_dispatch_id q" if q: "q \<in> set items" "qi_to_session_id q = w" for q
    proof
      assume same: "qr_dispatch_id r = qi_dispatch_id q"
      obtain r' where r': "r' \<in> set (td_queue db)" "row_to_queue_item r' = Inr q" using source [OF q(1)] by blast
      then have "qr_dispatch_id r' = qr_dispatch_id r" "qr_to_session_id r' = w"
        using row_to_queue_itemD [OF r'(2)] q(2) same by simp_all
      then show False using keys r r'(1) by (auto simp: keys_distinct_def distinct_map inj_on_def)
    qed
    then show ?thesis using effect [OF r(1)] by (auto simp: preempts_def)
  qed
  have "filter (\<lambda>r. qr_to_session_id r \<noteq> w) (map g rows) = filter (\<lambda>r. qr_to_session_id r \<noteq> w) rows"
    if "set rows \<subseteq> set (td_queue db)" for rows
    using that
  proof (induction rows)
    case (Cons r rows)
    then show ?case using other [of r] effect [of r] by (auto simp: preempts_def)
  qed simp
  moreover have "map_option sr_status (row_at sr_session_id w (td_sessions db')) = Some WS_INTERRUPTED"
    using g(1) row by (simp add: db1_def save_session_def session_table.row_at_upsert)
      (simp add: session_row_of_def merge_session_def)
  ultimately show ?thesis using quiet g(1) by (simp add: db1_def save_session_def)
qed

theorem interrupted_worker_is_idle_witness:
  "\<exists>db'. interrupt_worker (\<lambda>_. ''0'') 1 (\<lambda>_. (1, 1)) ''w'' ''stop'' demo_running = (Inr True, db') \<and>
     \<not> list_ex (\<lambda>r. qr_team_id r = ''t'' \<and> qr_to_session_id r = ''w'' \<and> steerable (qr_status r)) (td_queue db')"
proof -
  let ?db = "save_session (demo_worker\<lparr>se_status := WS_INTERRUPTED, se_updated_at := 1\<rparr>) demo_running"
  have "row_to_queue_item (queue_row_of (demo_item ''d'' QT_RUNNING)) = Inr (demo_item ''d'' QT_RUNNING)"
    by (rule row_to_queue_item_of) (simp_all add: demo_item_def)
  moreover have "td_queue ?db = [queue_row_of (demo_item ''d'' QT_RUNNING)]" and team: "se_team_id demo_worker = ''t''"
    by (simp_all add: save_session_def demo_running_def demo_worker_def new_worker_def)
  moreover have "qr_team_id (queue_row_of (demo_item ''d'' QT_RUNNING)) = ''t''"
    by (simp add: queue_row_of_def demo_item_def)
  ultimately have "list_queue_by_team ''t'' ?db = Inr [demo_item ''d'' QT_RUNNING]"
    by (simp add: list_queue_by_team_def)
  then obtain db' where run: "interrupt_worker (\<lambda>_. ''0'') 1 (\<lambda>_. (1, 1)) ''w'' ''stop'' demo_running = (Inr True, db')"
    using demo_load_worker team by (simp add: interrupt_worker_def Let_def)
  have "tables_ok demo_running"
    by (simp add: tables_ok_def demo_running_def empty_team_db_def keys_distinct_def)
  then show ?thesis using run interrupted_worker_is_idle [OF run _ demo_load_worker] team by auto
qed

end
