(* ===== verification/CrashRecoveryFacts.thy ===== *)
theory CrashRecoveryFacts
  imports CrashRecovery TeamManagerFacts
begin

text \<open>
  What the reconciliation of a team leaves behind: the rows of dead workers are failed, their live items
  are closed as ambiguous or failed and never as completed, and nothing else changes.
\<close>

section \<open>Saving a list of items\<close>

text \<open>Rows under a sequence of saves, one row at a time.\<close>

definition resave :: "(queue_item \<Rightarrow> queue_item) \<Rightarrow> queue_item \<Rightarrow> queue_row \<Rightarrow> queue_row" where
  "resave u q r = (if qr_dispatch_id r = qi_dispatch_id q then merge_queue r (queue_row_of (u q)) else r)"

lemma resave_fields [simp]:
  "qr_dispatch_id (resave u q r) = qr_dispatch_id r" "qr_team_id (resave u q r) = qr_team_id r"
  "qr_to_session_id (resave u q r) = qr_to_session_id r"
  by (simp_all add: resave_def merge_queue_def)

lemma resaves_fields [simp]:
  "qr_dispatch_id (fold (resave u) qs r) = qr_dispatch_id r" "qr_team_id (fold (resave u) qs r) = qr_team_id r"
  "qr_to_session_id (fold (resave u) qs r) = qr_to_session_id r"
  by (induction qs arbitrary: r) simp_all

lemma resaves_other: "\<forall>q \<in> set qs. qi_dispatch_id q \<noteq> qr_dispatch_id r \<Longrightarrow> fold (resave u) qs r = r"
  by (induction qs arbitrary: r) (auto simp: resave_def)

lemma resaves_status:
  assumes "\<forall>q \<in> set qs. qi_dispatch_id q = qr_dispatch_id r \<longrightarrow> qi_status (u q) = st"
    and "\<exists>q \<in> set qs. qi_dispatch_id q = qr_dispatch_id r"
  shows "qr_status (fold (resave u) qs r) = st"
proof -
  have keep: "\<forall>q \<in> set qs. qi_dispatch_id q = qr_dispatch_id r \<longrightarrow> qi_status (u q) = st \<Longrightarrow> qr_status r = st \<Longrightarrow>
      qr_status (fold (resave u) qs r) = st" for qs r
    by (induction qs arbitrary: r) (auto simp: resave_def merge_queue_def queue_row_of_def)
  show ?thesis using assms
  proof (induction qs arbitrary: r)
    case (Cons q qs)
    show ?case
    proof (cases "qi_dispatch_id q = qr_dispatch_id r")
      case True
      have "qr_status (resave u q r) = st" using True Cons.prems(1) by (simp add: resave_def merge_queue_def queue_row_of_def)
      then show ?thesis using keep [of qs "resave u q r"] Cons.prems(1) by simp
    next
      case False
      then show ?thesis using Cons by (simp add: resave_def)
    qed
  qed simp
qed

lemma save_items:
  assumes "\<forall>q \<in> set qs. has_row qr_dispatch_id (qi_dispatch_id q) (td_queue db)"
    and "\<And>q. qi_dispatch_id (u q) = qi_dispatch_id q"
  shows "fold (\<lambda>q. save_queue_item (u q)) qs db = db\<lparr>td_queue := map (fold (resave u) qs) (td_queue db)\<rparr>"
  using assms(1)
proof (induction qs arbitrary: db)
  case (Cons q qs)
  have step: "save_queue_item (u q) db = db\<lparr>td_queue := map (resave u q) (td_queue db)\<rparr>"
    using Cons.prems assms(2)
    by (simp add: save_queue_item_def upsert_def update_where_def resave_def queue_row_of_def)
  have "\<forall>x \<in> set qs. has_row qr_dispatch_id (qi_dispatch_id x) (td_queue (save_queue_item (u q) db))"
    using Cons.prems step by (auto simp: has_row_iff image_image)
  then show ?case using Cons.IH [of "save_queue_item (u q) db"] step by (simp add: comp_def)
qed simp

section \<open>The items of a dead worker\<close>

definition failed_item :: "real \<Rightarrow> bool \<Rightarrow> queue_item \<Rightarrow> queue_item" where
  "failed_item now ambiguous q = q\<lparr>qi_status := crash_status ambiguous (qi_status q), qi_updated_at := now\<rparr>"

lemma steerable_iff: "steerable st \<longleftrightarrow> st = QT_PENDING \<or> handed_over st"
  by (auto simp: steerable_def handed_over_def)

lemma crash_status_final [simp]: "\<not> steerable (crash_status ambiguous st)"
  by (simp add: crash_status_def steerable_def)

lemma fail_items_saves:
  "snd (fail_items now ambiguous w items db) =
     fold (\<lambda>q. save_queue_item (failed_item now ambiguous q))
       (filter (\<lambda>q. qi_to_session_id q = w \<and> steerable (qi_status q)) items) db"
proof (induction items arbitrary: db)
  case (Cons q qs)
  have "snd (fail_items now ambiguous w (q # qs) db) =
      snd (fail_items now ambiguous w qs
        (if qi_to_session_id q = w \<and> steerable (qi_status q) then save_queue_item (failed_item now ambiguous q) db else db))"
    by (auto simp add: Let_def failed_item_def steerable_iff split: prod.split)
  then show ?case using Cons.IH by simp
qed simp

text \<open>A row of the team after the workers \<open>W\<close> have been found dead.\<close>

definition downgraded :: "string \<Rightarrow> string set \<Rightarrow> bool \<Rightarrow> queue_row \<Rightarrow> queue_row \<Rightarrow> bool" where
  "downgraded t W ambiguous r r' \<longleftrightarrow>
     (if qr_team_id r = t \<and> qr_to_session_id r \<in> W \<and> steerable (qr_status r)
      then qr_dispatch_id r' = qr_dispatch_id r \<and> qr_team_id r' = qr_team_id r \<and>
           qr_to_session_id r' = qr_to_session_id r \<and> qr_status r' = crash_status ambiguous (qr_status r)
      else r' = r)"

lemma downgraded_id: "downgraded t W a r r' \<Longrightarrow> qr_dispatch_id r' = qr_dispatch_id r"
  by (auto simp: downgraded_def split: if_splits)

lemma downgraded_refl: "downgraded t {} a r r"
  by (simp add: downgraded_def)

lemma downgraded_trans: "downgraded t W a r r' \<Longrightarrow> downgraded t W' a r' r'' \<Longrightarrow> downgraded t (W \<union> W') a r r''"
  by (cases "qr_team_id r = t \<and> qr_to_session_id r \<in> W \<and> steerable (qr_status r)") (auto simp: downgraded_def split: if_splits)

lemma fail_items_downgrade:
  assumes "list_queue_by_team t db = Inr items" "keys_distinct qr_dispatch_id (td_queue db)"
  shows "\<exists>rows. snd (fail_items now ambiguous w items db) = db\<lparr>td_queue := rows\<rparr> \<and>
    list_all2 (downgraded t {w} ambiguous) (td_queue db) rows"
proof -
  let ?qs = "filter (\<lambda>q. qi_to_session_id q = w \<and> steerable (qi_status q)) items"
  let ?g = "fold (resave (failed_item now ambiguous)) ?qs"
  have source: "\<exists>r \<in> set (td_queue db). qr_team_id r = t \<and> row_to_queue_item r = Inr q" if "q \<in> set items" for q
    using list_queue_by_team_ok [OF assms(1) that] .
  have "\<forall>q \<in> set ?qs. has_row qr_dispatch_id (qi_dispatch_id q) (td_queue db)"
    using source row_to_queue_itemD(1) by (force simp: has_row_iff)
  then have saved: "snd (fail_items now ambiguous w items db) = db\<lparr>td_queue := map ?g (td_queue db)\<rparr>"
    unfolding fail_items_saves by (rule save_items) (simp add: failed_item_def)
  have own: "row_to_queue_item r = Inr q" if q: "q \<in> set items" "qi_dispatch_id q = qr_dispatch_id r" "r \<in> set (td_queue db)" for q r
  proof -
    obtain r' where r': "r' \<in> set (td_queue db)" "row_to_queue_item r' = Inr q" using source [OF q(1)] by blast
    then have "qr_dispatch_id r' = qr_dispatch_id r" using row_to_queue_itemD(1) q by metis
    then show ?thesis using r' q(3) assms(2) by (auto simp: keys_distinct_def distinct_map inj_on_def)
  qed
  have "downgraded t {w} ambiguous r (?g r)" if r: "r \<in> set (td_queue db)" for r
  proof (cases "qr_team_id r = t \<and> qr_to_session_id r = w \<and> steerable (qr_status r)")
    case True
    obtain q where q: "q \<in> set items" "row_to_queue_item r = Inr q"
      using list_queue_by_team_complete [OF assms(1) r] True by blast
    have "q \<in> set ?qs" using q row_to_queue_itemD [OF q(2)] True by simp
    moreover have "qi_dispatch_id q = qr_dispatch_id r" using row_to_queue_itemD(1) [OF q(2)] .
    moreover have "\<forall>x \<in> set ?qs. qi_dispatch_id x = qr_dispatch_id r \<longrightarrow>
        qi_status (failed_item now ambiguous x) = crash_status ambiguous (qr_status r)"
      using own [OF _ _ r] row_to_queue_itemD(6) [of r] by (auto simp: failed_item_def)
    ultimately have "qr_status (?g r) = crash_status ambiguous (qr_status r)"
      by (intro resaves_status) auto
    then show ?thesis using True by (simp add: downgraded_def)
  next
    case False
    have "qi_dispatch_id q \<noteq> qr_dispatch_id r" if q: "q \<in> set ?qs" for q
    proof
      assume "qi_dispatch_id q = qr_dispatch_id r"
      then have row: "row_to_queue_item r = Inr q" using own [OF _ _ r] q by auto
      moreover have "qr_team_id r = t"
        using source [of q] q row_to_queue_itemD(2) [OF row] by (auto dest: row_to_queue_itemD(2))
      ultimately show False using False q by (auto dest: row_to_queue_itemD)
    qed
    then have "?g r = r" by (intro resaves_other) blast
    then show ?thesis using False by (auto simp: downgraded_def)
  qed
  then show ?thesis using saved
    by (intro exI [of _ "map ?g (td_queue db)"]) (simp add: list_all2_conv_all_nth)
qed

section \<open>A team\<close>

lemma downgraded_keys:
  "list_all2 (downgraded t W a) rows rows' \<Longrightarrow> map qr_dispatch_id rows' = map qr_dispatch_id rows"
  by (induction rows rows' rule: list_all2_induct) (auto dest: downgraded_id)

lemma downgraded_compose:
  assumes "list_all2 (downgraded t W a) xs ys" "list_all2 (downgraded t W' a) ys zs"
  shows "list_all2 (downgraded t (W \<union> W') a) xs zs"
  by (rule list_all2_trans [OF _ assms]) (blast intro: downgraded_trans)

text \<open>The sessions of the workers \<open>W\<close> are failed, the others are as they were.\<close>

definition sessions_failed :: "string set \<Rightarrow> session_row list \<Rightarrow> session_row list \<Rightarrow> bool" where
  "sessions_failed W rows rows' \<longleftrightarrow>
     (\<forall>w. if w \<in> W then map_option sr_status (row_at sr_session_id w rows') = Some WS_FAILED
          else row_at sr_session_id w rows' = row_at sr_session_id w rows)"

lemma reconcile_each_effect:
  assumes "reconcile_each h ps now a t ss rep db = (Inr rep', db')" "keys_distinct qr_dispatch_id (td_queue db)"
  shows "cp_dead rep' = cp_dead rep @ map se_session_id (filter (crashed h ps) ss) \<and>
    list_all2 (downgraded t (se_session_id ` set (filter (crashed h ps) ss)) a) (td_queue db) (td_queue db') \<and>
    sessions_failed (se_session_id ` set (filter (crashed h ps) ss)) (td_sessions db) (td_sessions db')"
  using assms
proof (induction ss arbitrary: rep db)
  case Nil
  then show ?case by (simp add: sessions_failed_def list_all2_conv_all_nth downgraded_refl)
next
  case (Cons s ss)
  show ?case
  proof (cases "crashed h ps s")
    case False
    then show ?thesis using Cons by simp
  next
    case True
    let ?s = "s\<lparr>se_status := WS_FAILED, se_updated_at := now\<rparr>"
    let ?db1 = "save_session ?s db"
    let ?W = "se_session_id ` set (filter (crashed h ps) ss)"
    have q1: "td_queue ?db1 = td_queue db" by (simp add: save_session_def)
    obtain items where items: "list_queue_by_team t ?db1 = Inr items"
      using Cons.prems(1) True by (auto simp: Let_def split: sum.splits)
    obtain as fs db2 where f: "fail_items now a (se_session_id s) items ?db1 = ((as, fs), db2)"
      by (metis prod_cases3 surj_pair)
    obtain rows where rows: "db2 = ?db1\<lparr>td_queue := rows\<rparr>"
        "list_all2 (downgraded t {se_session_id s} a) (td_queue db) rows"
      using fail_items_downgrade [OF items, of now a "se_session_id s"] Cons.prems(2) q1 f by auto
    have run: "reconcile_each h ps now a t ss
        \<lparr>cp_dead = cp_dead rep @ [se_session_id s], cp_ambiguous = cp_ambiguous rep @ as,
         cp_failed = cp_failed rep @ fs\<rparr> db2 = (Inr rep', db')"
      using Cons.prems(1) True items f by (simp add: Let_def)
    have "keys_distinct qr_dispatch_id (td_queue db2)"
      using Cons.prems(2) rows downgraded_keys [OF rows(2)] by (simp add: keys_distinct_def)
    note IH = Cons.IH [OF run this]
    have q: "list_all2 (downgraded t ({se_session_id s} \<union> ?W) a) (td_queue db) (td_queue db')"
      using downgraded_compose [OF rows(2)] IH rows(1) by simp
    have "td_sessions db2 = td_sessions ?db1" using rows(1) by simp
    then have row: "row_at sr_session_id w (td_sessions db2) =
        (if w = se_session_id s
         then Some (case row_at sr_session_id w (td_sessions db) of None \<Rightarrow> session_row_of ?s
                    | Some old \<Rightarrow> merge_session old (session_row_of ?s))
         else row_at sr_session_id w (td_sessions db))" for w
      by (simp add: save_session_def session_table.row_at_upsert) (simp add: session_row_of_def)
    have s: "sessions_failed ({se_session_id s} \<union> ?W) (td_sessions db) (td_sessions db')"
      unfolding sessions_failed_def
    proof
      fix w
      have "map_option sr_status (row_at sr_session_id w (td_sessions db2)) = Some WS_FAILED" if "w = se_session_id s"
        using row [of w] that by (auto simp: session_row_of_def merge_session_def split: option.split)
      then show "if w \<in> {se_session_id s} \<union> ?W
            then map_option sr_status (row_at sr_session_id w (td_sessions db')) = Some WS_FAILED
            else row_at sr_session_id w (td_sessions db') = row_at sr_session_id w (td_sessions db)"
        using IH row [of w] by (auto simp: sessions_failed_def split: if_splits)
    qed
    show ?thesis using IH q s True by simp
  qed
qed

text \<open>
  C35: A crash is never taken for success.  After a reconciliation of a team, the reported workers are
  exactly its workers that claimed to be active without a living process; their sessions are FAILED and
  no other session has changed; and every queue row is as it was, except that the pending, dispatched and
  running items of the reported workers are closed, as AMBIGUOUS where that was asked for and the item
  had been handed to the worker, and as FAILED otherwise.
\<close>

theorem crash_is_not_success:
  assumes "reconcile_team_after_crash h ps now t ambiguous db = (Inr rep, db')" "tables_ok db"
  shows "(\<exists>sessions. list_sessions_by_team t db = Inr sessions \<and>
      cp_dead rep = map se_session_id (filter (crashed h ps) sessions)) \<and>
    list_all2 (downgraded t (set (cp_dead rep)) ambiguous) (td_queue db) (td_queue db') \<and>
    sessions_failed (set (cp_dead rep)) (td_sessions db) (td_sessions db')"
proof -
  obtain sessions where s: "list_sessions_by_team t db = Inr sessions"
      "reconcile_each h ps now ambiguous t sessions \<lparr>cp_dead = [], cp_ambiguous = [], cp_failed = []\<rparr> db = (Inr rep, db')"
    using assms(1) by (auto simp: reconcile_team_after_crash_def split: sum.splits)
  have "keys_distinct qr_dispatch_id (td_queue db)" using assms(2) by (simp add: tables_ok_def)
  then show ?thesis using reconcile_each_effect [OF s(2)] s(1) by simp
qed

definition demo_interpreter :: python where
  "demo_interpreter = \<lparr>py_sha = (\<lambda>s. []), py_mac = (\<lambda>k s. []), py_fixed = (\<lambda>t. []), py_number = (\<lambda>s. Finite 0),
     py_literal = (\<lambda>t. ''0''), py_repr = (\<lambda>v. []), py_int = (\<lambda>v. None), py_float = (\<lambda>v. None)\<rparr>"

theorem crash_is_not_success_witness:
  "\<exists>rep db'. reconcile_team_after_crash demo_interpreter (\<lambda>_. None) 1 ''t'' True demo_running = (Inr rep, db') \<and>
     cp_dead rep = [''w''] \<and> map_option qr_status (queue_at ''d'' db') = Some QT_AMBIGUOUS"
proof -
  let ?s = "demo_worker\<lparr>se_status := WS_FAILED, se_updated_at := 1\<rparr>"
  let ?db = "save_session ?s demo_running"
  let ?q = "demo_item ''d'' QT_RUNNING"
  have "row_to_session (session_row_of demo_worker) = Inr demo_worker"
    by (intro row_to_session_of) (simp add: demo_worker_def new_worker_def good_config_def default_config_def)
  moreover have "td_sessions demo_running = [session_row_of demo_worker]" "sr_team_id (session_row_of demo_worker) = ''t''"
    by (simp_all add: demo_running_def session_row_of_def demo_worker_def new_worker_def)
  ultimately have s: "list_sessions_by_team ''t'' demo_running = Inr [demo_worker]"
    by (simp add: list_sessions_by_team_def)
  have c: "crashed demo_interpreter (\<lambda>_. None) demo_worker" and id: "se_session_id demo_worker = ''w''"
    by (simp_all add: crashed_def session_alive_def is_process_identically_alive_def demo_worker_def new_worker_def
        default_config_def split: option.split)
  have item: "row_to_queue_item (queue_row_of ?q) = Inr ?q"
    by (rule row_to_queue_item_of) (simp_all add: demo_item_def)
  have "td_queue ?db = [queue_row_of ?q]" by (simp add: save_session_def demo_running_def)
  then have "list_queue_by_team ''t'' ?db = Inr [?q]"
    using item by (simp add: list_queue_by_team_def queue_row_of_def demo_item_def)
  then obtain rep db' where run: "reconcile_team_after_crash demo_interpreter (\<lambda>_. None) 1 ''t'' True demo_running = (Inr rep, db')"
    using s c id by (simp add: reconcile_team_after_crash_def Let_def demo_item_def handed_over_def crash_status_def)
  have ok: "tables_ok demo_running"
    by (simp add: tables_ok_def demo_running_def empty_team_db_def keys_distinct_def)
  note outcome = crash_is_not_success [OF run ok]
  from outcome have dead: "cp_dead rep = [''w'']" using s c id by simp
  have "td_queue demo_running = [queue_row_of ?q]" by (simp add: demo_running_def)
  then obtain r where "td_queue db' = [r]" "downgraded ''t'' {''w''} True (queue_row_of ?q) r"
    using outcome dead by (auto simp: list_all2_Cons1)
  then show ?thesis using run dead
    by (auto simp: downgraded_def queue_row_of_def demo_item_def steerable_def crash_status_def handed_over_def queue_at_def)
qed

end
