(* ===== verification/TaskResume.thy ===== *)
theory TaskResume
  imports CrashRecovery VerifiedAuthority
begin

text \<open>
  \<open>src/subagentbridge/recovery/crash_recovery.py\<close>, \<open>resume_task_from_checkpoint\<close>: the steps of an
  interrupted task that its checkpoint does not prove are run again, after every command among them has
  been approved.  Python's dictionaries of steps are shared between the queue item and the list of steps
  that remain; here a remaining step is its position in the payload of the item.  Clock, files, git and
  the processes are the argument \<open>resume_env\<close>; the functions of the approval authority that the recovery
  calls are an \<open>approvals\<close> record, and both authorities of the bridge are instances of it.
\<close>

section \<open>The world around a resumption\<close>

text \<open>
  The size of an artifact is None where the file does not exist; git gives its output when it succeeds;
  \<open>re_look\<close> has the processes at the checks before the first step, \<open>re_dispatch\<close> during step \<open>k\<close>.
\<close>

record resume_env =
  re_now :: real
  re_look :: "nat \<Rightarrow> call_env"
  re_spawn :: spawn_env
  re_is_dir :: "string \<Rightarrow> bool"
  re_exists :: "string \<Rightarrow> bool"
  re_artifact :: "string \<Rightarrow> string \<Rightarrow> int option"
  re_git :: "string \<Rightarrow> exn + string option"
  re_dispatch :: "nat \<Rightarrow> call_env"

text \<open>What the recovery needs of an authority; the numbers tell its calls apart.\<close>

record ('a, 'b) approvals =
  ap_get :: "nat \<Rightarrow> string \<Rightarrow> 'a \<Rightarrow> (exn + 'b option) \<times> 'a"
  ap_state :: "'b \<Rightarrow> string"
  ap_action_id :: "'b \<Rightarrow> string"
  ap_for_context :: "'b \<Rightarrow> string \<Rightarrow> string \<Rightarrow> string list \<Rightarrow> string \<Rightarrow> bool"
  ap_consumed :: "nat \<Rightarrow> string \<Rightarrow> 'a \<Rightarrow> (exn + bool) \<times> 'a"
  ap_request :: "nat \<Rightarrow> string \<Rightarrow> string \<Rightarrow> string list \<Rightarrow> string \<Rightarrow> 'a \<Rightarrow> (exn + 'b) \<times> 'a"

definition put_item :: "queue_item \<Rightarrow> 'a controller \<Rightarrow> 'a controller" where
  "put_item item c = c\<lparr>ct_store := save_queue_item item (ct_store c)\<rparr>"

definition stamped :: "real \<Rightarrow> queue_status \<Rightarrow> queue_item \<Rightarrow> queue_item" where
  "stamped now st item = item\<lparr>qi_status := st, qi_updated_at := now\<rparr>"

definition blocked_answer :: "queue_item \<Rightarrow> string \<Rightarrow> (string \<times> json) list" where
  "blocked_answer item reason =
     [(''status'', JStr ''RECOVERY_BLOCKED''), (''dispatch_id'', JStr (qi_dispatch_id item)), (''reason'', JStr reason)]"

section \<open>Worker, worktree and checkpoint\<close>

text \<open>The session of a worker that can take a step; None where an attached worker cannot be resumed.\<close>

definition existing_session :: "string \<Rightarrow> 'a controller \<Rightarrow> exn + agent_session" where
  "existing_session w c =
     (case load_session w (ct_store c) of
        Inl e \<Rightarrow> Inl e
      | Inr None \<Rightarrow> raise KeyError ''worker session not found''
      | Inr (Some s) \<Rightarrow> ok s)"

definition obtain_worker ::
  "python \<Rightarrow> resume_env \<Rightarrow> string \<Rightarrow> 'a controller \<Rightarrow> (exn + agent_session option) \<times> 'a controller" where
  "obtain_worker h re w c =
     (if is_worker_dispatchable (re_look re 2) w c then (map_sum id Some (existing_session w c), c)
      else if has_attached_worker_ipc (re_look re 3) w c
      then (case resume_worker h (re_look re 4) w c of
          (Inl e, c1) \<Rightarrow> (Inl e, c1)
        | (Inr False, c1) \<Rightarrow> (ok None, c1)
        | (Inr True, c1) \<Rightarrow> (map_sum id Some (existing_session w c1), c1))
      else (case resume_worker_from_checkpoint h (re_spawn re) (re_look re 4) (re_is_dir re) True w c of
          (r, c1) \<Rightarrow> (map_sum id Some r, c1)))"

record binding =
  bd_worktree :: "string option"
  bd_commit :: "string option"
  bd_checkpoint :: "worker_checkpoint option"

definition at_worktree :: "resume_env \<Rightarrow> string option \<Rightarrow> bool" where
  "at_worktree re path \<longleftrightarrow> given path \<and> re_exists re (or_default path [])"

definition bound_worktree :: "resume_env \<Rightarrow> string \<Rightarrow> agent_session \<Rightarrow> team_db \<Rightarrow> string option" where
  "bound_worktree re w session db =
     (case load_worktree w db of
        None \<Rightarrow> wc_working_dir (se_config session)
      | Some wt \<Rightarrow> if re_exists re (wt_worktree_path wt) then Some (wt_worktree_path wt)
                   else wc_working_dir (se_config session))"

definition current_commit :: "resume_env \<Rightarrow> string option \<Rightarrow> exn + string option" where
  "current_commit re path =
     (if at_worktree re path then map_sum id (map_option py_strip) (re_git re (or_default path [])) else ok None)"

text \<open>A checkpoint counts only for this dispatch, task and team, at the commit the worktree is at.\<close>

definition valid_checkpoint :: "queue_item \<Rightarrow> agent_session \<Rightarrow> string option \<Rightarrow> worker_checkpoint \<Rightarrow> bool" where
  "valid_checkpoint item session commit cp \<longleftrightarrow>
     (let snap = dict_items (wp_context cp) in
      json_truthy (wp_context cp) \<and>
      json_get ''dispatch_id'' JNull snap = JStr (qi_dispatch_id item) \<and>
      json_get ''task_id'' JNull snap = JStr (qi_task_id item) \<and>
      wp_team_id cp = se_team_id session \<and>
      given commit \<and> json_get ''commit_hash'' JNull snap = JStr (or_default commit []))"

definition bind_task :: "resume_env \<Rightarrow> queue_item \<Rightarrow> agent_session \<Rightarrow> team_db \<Rightarrow> exn + binding" where
  "bind_task re item session db =
     (let path = bound_worktree re (qi_to_session_id item) session db in
      and_then (current_commit re path) (\<lambda>commit.
      and_then (load_latest_checkpoint (qi_to_session_id item) db) (\<lambda>cp.
        ok \<lparr>bd_worktree = path, bd_commit = commit,
            bd_checkpoint = (case cp of None \<Rightarrow> None
                             | Some k \<Rightarrow> if valid_checkpoint item session commit k then Some k else None)\<rparr>)))"

section \<open>Evidence\<close>

text \<open>Iteration over a value, and the dictionaries of a list whose \<open>get\<close> is called.\<close>

definition json_iter :: "json \<Rightarrow> exn + json list" where
  "json_iter v = (case v of
     JList xs \<Rightarrow> ok xs
   | JStr s \<Rightarrow> ok (map (\<lambda>c. JStr [c]) s)
   | JObj kvs \<Rightarrow> ok (map (JStr \<circ> fst) kvs)
   | _ \<Rightarrow> raise TypeError ''object is not iterable'')"

fun dicts :: "json list \<Rightarrow> exn + payload list" where
  "dicts [] = ok []"
| "dicts (x # xs) =
     (case x of
        JObj kvs \<Rightarrow> map_sum id ((#) kvs) (dicts xs)
      | _ \<Rightarrow> raise AttributeError ''object has no attribute get'')"

fun find_step :: "json \<Rightarrow> json list \<Rightarrow> exn + payload option" where
  "find_step name [] = ok None"
| "find_step name (x # xs) =
     (case x of
        JObj kvs \<Rightarrow> if json_get ''name'' JNull kvs = name then ok (Some kvs) else find_step name xs
      | _ \<Rightarrow> raise AttributeError ''object has no attribute get'')"

definition step_artifact :: "payload \<Rightarrow> json" where
  "step_artifact kvs = or_json (json_get ''artifact'' JNull kvs) (json_get ''expected_artifact'' JNull kvs)"

definition artifact_size :: "resume_env \<Rightarrow> string option \<Rightarrow> json \<Rightarrow> exn + int option" where
  "artifact_size re path v =
     (case v of
        JStr a \<Rightarrow> ok (re_artifact re (or_default path []) a)
      | _ \<Rightarrow> raise TypeError ''unsupported operand type(s) for /'')"

definition artifact_proved :: "resume_env \<Rightarrow> string option \<Rightarrow> payload option \<Rightarrow> exn + bool" where
  "artifact_proved re path step =
     (case step of
        None \<Rightarrow> ok True
      | Some kvs \<Rightarrow>
          if json_truthy (step_artifact kvs)
          then and_then (artifact_size re path (step_artifact kvs)) (\<lambda>size.
                 ok (case size of None \<Rightarrow> False | Some n \<Rightarrow> n > 0))
          else ok True)"

fun verified_steps :: "resume_env \<Rightarrow> string option \<Rightarrow> json \<Rightarrow> json list \<Rightarrow> exn + json list" where
  "verified_steps re path steps [] = ok []"
| "verified_steps re path steps (name # names) =
     and_then (json_iter (or_json steps (JList []))) (\<lambda>xs.
     and_then (find_step name xs) (\<lambda>step.
     and_then (artifact_proved re path step) (\<lambda>proved.
     and_then (verified_steps re path steps names) (\<lambda>done_names.
       ok (if proved then name # done_names else done_names)))))"

definition completed_before :: "resume_env \<Rightarrow> binding \<Rightarrow> json \<Rightarrow> exn + json list" where
  "completed_before re bd steps =
     (case bd_checkpoint bd of
        None \<Rightarrow> ok []
      | Some cp \<Rightarrow>
          and_then (json_iter (json_get ''completed_steps'' (JList []) (dict_items (wp_context cp)))) (\<lambda>names.
            if at_worktree re (bd_worktree bd) then verified_steps re (bd_worktree bd) steps names else ok []))"

fun existing_artifacts :: "resume_env \<Rightarrow> string option \<Rightarrow> payload list \<Rightarrow> exn + json list" where
  "existing_artifacts re path [] = ok []"
| "existing_artifacts re path (kvs # steps) =
     (if json_truthy (step_artifact kvs)
      then and_then (artifact_size re path (step_artifact kvs)) (\<lambda>size.
             map_sum id (if size = None then id else (#) (json_get ''name'' JNull kvs)) (existing_artifacts re path steps))
      else existing_artifacts re path steps)"

fun any_missing :: "resume_env \<Rightarrow> string option \<Rightarrow> json list \<Rightarrow> exn + bool" where
  "any_missing re path [] = ok False"
| "any_missing re path (a # as) =
     and_then (artifact_size re path a) (\<lambda>size.
       if size = None \<or> size = Some 0 then ok True else any_missing re path as)"

fun any_evidence :: "resume_env \<Rightarrow> string option \<Rightarrow> payload list \<Rightarrow> exn + bool" where
  "any_evidence re path [] = ok False"
| "any_evidence re path (kvs # steps) =
     (if json_truthy (step_artifact kvs)
      then and_then (artifact_size re path (step_artifact kvs)) (\<lambda>size.
             if size \<noteq> None then ok True else any_evidence re path steps)
      else any_evidence re path steps)"

definition evidence_missing :: "resume_env \<Rightarrow> string option \<Rightarrow> json \<Rightarrow> payload list \<Rightarrow> exn + bool" where
  "evidence_missing re path expected steps =
     (if json_truthy expected
      then (if given path then and_then (json_iter expected) (any_missing re path) else ok False)
      else if steps = [] then ok False
      else if given path then map_sum id Not (any_evidence re path steps)
      else ok True)"

section \<open>Approvals before effects\<close>

definition payload_steps :: "queue_item \<Rightarrow> json list" where
  "payload_steps item = (case json_get ''steps'' JNull (dict_items (qi_payload item)) of JList xs \<Rightarrow> xs | _ \<Rightarrow> [])"

text \<open>The dictionary that owns a command: a step of the item's payload, or the payload itself.\<close>

definition owner_of :: "nat option \<Rightarrow> queue_item \<Rightarrow> payload" where
  "owner_of pos item = dict_items (case pos of None \<Rightarrow> qi_payload item | Some i \<Rightarrow> payload_steps item ! i)"

definition put_owner :: "nat option \<Rightarrow> payload \<Rightarrow> queue_item \<Rightarrow> queue_item" where
  "put_owner pos kvs item =
     item\<lparr>qi_payload := JObj (case pos of
        None \<Rightarrow> kvs
      | Some i \<Rightarrow> AList.update ''steps'' (JList ((payload_steps item)[i := JObj kvs])) (dict_items (qi_payload item)))\<rparr>"

definition named_action ::
  "('a, 'b) approvals \<Rightarrow> nat \<Rightarrow> payload \<Rightarrow> 'a \<Rightarrow> (exn + 'b option) \<times> 'a" where
  "named_action ap k owner a =
     (let i = json_get ''approval_action_id'' JNull owner in
      if \<not> json_truthy i then (ok None, a)
      else case i of
        JStr s \<Rightarrow> ap_get ap k s a
      | JList _ \<Rightarrow> (raise TypeError ''unhashable type'', a)
      | JObj _ \<Rightarrow> (raise TypeError ''unhashable type'', a)
      | _ \<Rightarrow> (ok None, a))"

text \<open>A grant that is gone, for another context, or spent is not used again.\<close>

definition needs_request ::
  "('a, 'b) approvals \<Rightarrow> nat \<Rightarrow> string \<Rightarrow> string \<Rightarrow> string list \<Rightarrow> string \<Rightarrow> 'b option \<Rightarrow> 'a \<Rightarrow> (exn + bool) \<times> 'a" where
  "needs_request ap k w task_id command ws action a =
     (case action of
        None \<Rightarrow> (ok True, a)
      | Some x \<Rightarrow>
          if ap_state ap x \<in> {''EXPIRED'', ''CONSUMED''} \<or> \<not> ap_for_context ap x w task_id command ws
          then (ok True, a)
          else if ap_state ap x = ''APPROVED'' then ap_consumed ap k (ap_action_id ap x) a
          else (ok False, a))"

text \<open>The action of a command, and whether it is a new one.\<close>

definition command_action ::
  "('a, 'b) approvals \<Rightarrow> nat \<Rightarrow> string \<Rightarrow> string \<Rightarrow> string list \<Rightarrow> string \<Rightarrow> payload \<Rightarrow> 'a
   \<Rightarrow> (exn + 'b \<times> bool) \<times> 'a" where
  "command_action ap k w task_id command ws owner a =
     (case named_action ap k owner a of
        (Inl e, a1) \<Rightarrow> (Inl e, a1)
      | (Inr action, a1) \<Rightarrow>
          (case needs_request ap k w task_id command ws action a1 of
             (Inl e, a2) \<Rightarrow> (Inl e, a2)
           | (Inr True, a2) \<Rightarrow>
               (case ap_request ap k w task_id command ws a2 of
                  (Inl e, a3) \<Rightarrow> (Inl e, a3)
                | (Inr x, a3) \<Rightarrow> (ok (x, True), a3))
           | (Inr False, a2) \<Rightarrow> (ok (the action, False), a2)))"

definition owner_command :: "python \<Rightarrow> nat option \<Rightarrow> queue_item \<Rightarrow> string list" where
  "owner_command h pos item = requested_command h (json_get ''command'' JNull (owner_of pos item))"

text \<open>Left: the answer that ends the resumption; right: the actions that wait for a human.\<close>

fun check_approvals ::
  "python \<Rightarrow> ('a, 'b) approvals \<Rightarrow> real \<Rightarrow> nat \<Rightarrow> string \<Rightarrow> (string \<times> nat option) list \<Rightarrow> queue_item
   \<Rightarrow> (string \<times> string) list \<Rightarrow> 'a controller
   \<Rightarrow> (exn + payload + queue_item \<times> (string \<times> string) list) \<times> 'a controller" where
  "check_approvals h ap now k ws [] item pending c = (ok (Inr (item, pending)), c)"
| "check_approvals h ap now k ws ((task_id, pos) # cmds) item pending c =
     (case command_action ap k (qi_to_session_id item) task_id (owner_command h pos item) ws (owner_of pos item)
             (ct_authority c) of
        (Inl e, a) \<Rightarrow> (Inl e, c\<lparr>ct_authority := a\<rparr>)
      | (Inr (x, fresh), a) \<Rightarrow>
          let c1 = c\<lparr>ct_authority := a\<rparr>;
              item1 = (if fresh
                       then put_owner pos (AList.update ''approval_action_id'' (JStr (ap_action_id ap x)) (owner_of pos item)) item
                       else item)
          in if ap_state ap x = ''BLOCKED''
             then check_approvals h ap now (Suc k) ws cmds item1 (pending @ [(task_id, ap_action_id ap x)]) c1
             else if ap_state ap x \<noteq> ''APPROVED''
             then (ok (Inl [(''status'', JStr ''RECOVERY_BLOCKED''), (''reason'', JStr (''Human approval '' @ ap_state ap x)),
                            (''action_id'', JStr (ap_action_id ap x)), (''dispatch_id'', JStr (qi_dispatch_id item))]),
                   put_item (stamped now QT_DISPATCHED item1) c1)
             else check_approvals h ap now (Suc k) ws cmds item1 pending c1)"

definition awaiting_answer :: "queue_item \<Rightarrow> (string \<times> string) list \<Rightarrow> json list \<Rightarrow> payload" where
  "awaiting_answer item pending prior =
     [(''status'', JStr ''AWAITING_APPROVAL''), (''dispatch_id'', JStr (qi_dispatch_id item)),
      (''action_id'', JStr (snd (hd pending))),
      (''pending_actions'', JList (map (\<lambda>(t, i). JObj [(''task_id'', JStr t), (''action_id'', JStr i)]) pending)),
      (''completed_steps'', JList prior)]"

text \<open>\<open>preflight_command_approvals\<close>; no authority stands for one that is not the controller's.\<close>

definition preflight ::
  "python \<Rightarrow> ('a, 'b) approvals option \<Rightarrow> real \<Rightarrow> string \<Rightarrow> json list \<Rightarrow> (string \<times> nat option) list \<Rightarrow> queue_item
   \<Rightarrow> 'a controller \<Rightarrow> (exn + payload option \<times> queue_item) \<times> 'a controller" where
  "preflight h av now ws prior cmds item c =
     (if cmds = [] then (ok (None, item), c)
      else case av of
        None \<Rightarrow>
          let item1 = item\<lparr>qi_status := QT_DISPATCHED\<rparr> in
          (ok (Some (blocked_answer item ''Trusted attached human approval authority required''), item1), put_item item1 c)
      | Some ap \<Rightarrow>
          (case check_approvals h ap now 0 ws cmds item [] c of
             (Inl e, c1) \<Rightarrow> (Inl e, c1)
           | (Inr (Inl res), c1) \<Rightarrow> (ok (Some res, item), c1)
           | (Inr (Inr (item1, pending)), c1) \<Rightarrow>
               let item2 = stamped now (if pending = [] then QT_RUNNING else QT_DISPATCHED) item1 in
               (ok (if pending = [] then None else Some (awaiting_answer item2 pending prior), item2),
                put_item item2 c1)))"

section \<open>A workflow of several steps\<close>

text \<open>The positions of the steps that remain.\<close>

definition remaining_steps :: "json list \<Rightarrow> payload list \<Rightarrow> nat list" where
  "remaining_steps prior steps =
     filter (\<lambda>i. json_get ''name'' JNull (steps ! i) \<notin> set prior) [0..<length steps]"

definition step_name :: "int \<Rightarrow> payload \<Rightarrow> json" where
  "step_name n kvs = json_get ''name'' (JStr (''step_'' @ show_int n)) kvs"

definition step_task :: "python \<Rightarrow> queue_item \<Rightarrow> json \<Rightarrow> string" where
  "step_task h item name = qi_task_id item @ ''-'' @ py_str h name"

text \<open>The commands among the steps, by the task id that their approval is for.\<close>

fun command_tasks ::
  "python \<Rightarrow> queue_item \<Rightarrow> string list \<Rightarrow> int \<Rightarrow> nat list \<Rightarrow> exn + (string \<times> nat option) list" where
  "command_tasks h item seen n [] = ok []"
| "command_tasks h item seen n (i # is) =
     (let kvs = owner_of (Some i) item; name = py_str h (step_name n kvs) in
      if name \<in> set seen then raise ValueError ''Duplicate step name cannot safely bind approvals''
      else map_sum id (if map_of kvs ''command'' = None then id else (#) (step_task h item (JStr name), Some i))
             (command_tasks h item (name # seen) (n + 1) is))"

definition task_checkpoint ::
  "real \<Rightarrow> queue_item \<Rightarrow> agent_session \<Rightarrow> binding \<Rightarrow> string \<Rightarrow> int \<Rightarrow> int \<Rightarrow> json list \<Rightarrow> worker_checkpoint" where
  "task_checkpoint now item session bd name n tokens prior =
     \<lparr>wp_checkpoint_id = ''cp-'' @ qi_dispatch_id item @ ''-'' @ show_int n,
      wp_worker_id = qi_to_session_id item, wp_team_id = se_team_id session, wp_step_index = n,
      wp_state_summary = ''Completed '' @ name, wp_tokens_consumed = tokens,
      wp_context = JObj [(''dispatch_id'', JStr (qi_dispatch_id item)), (''task_id'', JStr (qi_task_id item)),
        (''completed_steps'', JList prior), (''worktree_path'', opt_text (bd_worktree bd)),
        (''commit_hash'', opt_text (bd_commit bd))],
      wp_created_at = now\<rparr>"

definition in_workspace :: "string option \<Rightarrow> payload \<Rightarrow> payload" where
  "in_workspace path kvs = (if given path then AList.update ''workspace_path'' (JStr (or_default path [])) kvs else kvs)"

definition note_completed :: "json list \<Rightarrow> queue_item \<Rightarrow> queue_item" where
  "note_completed prior item =
     item\<lparr>qi_payload := JObj (AList.update ''_unverified_completed_steps'' (JList prior) (dict_items (qi_payload item)))\<rparr>"

definition has_completed :: "payload \<Rightarrow> bool" where
  "has_completed res \<longleftrightarrow> has_field ''status'' ''COMPLETED'' res"

definition metered :: "python \<Rightarrow> payload \<Rightarrow> exn + int" where
  "metered h res =
     (case map_of res ''metered_tokens'' of
        None \<Rightarrow> ok 0
      | Some v \<Rightarrow> (case py_int h v of None \<Rightarrow> Inl (int_error v) | Some n \<Rightarrow> ok n))"

text \<open>The steps that are taken, in order; left: the answer of a step that failed.\<close>

record progress =
  pg_item :: queue_item
  pg_completed :: "json list"
  pg_tokens :: int
  pg_index :: int

fun run_steps ::
  "python \<Rightarrow> (nat \<Rightarrow> 'a issuer) \<Rightarrow> resume_env \<Rightarrow> agent_session \<Rightarrow> binding \<Rightarrow> nat \<Rightarrow> nat list \<Rightarrow> progress
   \<Rightarrow> 'a controller \<Rightarrow> (exn + payload + progress) \<times> 'a controller" where
  "run_steps h issue re session bd k [] pg c = (ok (Inr pg), c)"
| "run_steps h issue re session bd k (i # is) pg c =
     (let item = pg_item pg; kvs = owner_of (Some i) item; n = pg_index pg + 1; name = step_name n kvs in
      case dispatch_task_to_worker h (issue k) (re_dispatch re k) (qi_to_session_id item) (step_task h item name)
             (in_workspace (bd_worktree bd) kvs) c of
        (Inl e, c1) \<Rightarrow> (Inl e, c1)
      | (Inr res, c1) \<Rightarrow>
          if \<not> has_completed res
          then (ok (Inl [(''status'', JStr ''FAILED''), (''error'', json_get ''error'' (JStr ''Step execution failed'') res),
                         (''failed_step'', name), (''completed_steps'', JList (pg_completed pg))]),
                put_item (stamped (re_now re) QT_FAILED item) c1)
          else
            let prior = pg_completed pg @ [name];
                item1 = note_completed prior item;
                c2 = put_item item1 c1
            in (case metered h res of
                  Inl e \<Rightarrow> (Inl e, c2)
                | Inr m \<Rightarrow>
                    run_steps h issue re session bd (Suc k) is
                      \<lparr>pg_item = item1, pg_completed = prior, pg_tokens = pg_tokens pg + m, pg_index = n\<rparr>
                      (c2\<lparr>ct_store := save_checkpoint
                         (task_checkpoint (re_now re) item1 session bd (py_str h name) n (pg_tokens pg + m) prior)
                         (ct_store c2)\<rparr>)))"

definition classification :: "json list \<Rightarrow> string" where
  "classification uncheckpointed =
     (if uncheckpointed = [] then ''AT_LEAST_ONCE_RECOVERABLE'' else ''RECOVERABLE_AMBIGUITY_AT_LEAST_ONCE'')"

definition already_done_answer :: "json list \<Rightarrow> agent_session \<Rightarrow> string \<Rightarrow> payload" where
  "already_done_answer prior session cls =
     [(''status'', JStr ''COMPLETED''),
      (''summary'', JStr ''All steps already prior in checkpoint and verified against evidence''),
      (''completed_steps'', JList prior), (''skipped_steps'', JList prior),
      (''tokens_consumed'', JNum (show_int (wc_tokens_consumed (se_config session)))),
      (''execution_classification'', JStr cls)]"

definition workflow_answer :: "binding \<Rightarrow> payload list \<Rightarrow> nat list \<Rightarrow> progress \<Rightarrow> payload" where
  "workflow_answer bd steps is pg =
     (let name_of = (\<lambda>kvs. json_get ''name'' JNull kvs); run = map (\<lambda>i. name_of (steps ! i)) is in
      [(''status'', JStr ''COMPLETED''), (''dispatch_id'', JStr (qi_dispatch_id (pg_item pg))),
       (''task_id'', JStr (qi_task_id (pg_item pg))), (''completed_steps'', JList (pg_completed pg)),
       (''skipped_steps'', JList (filter (\<lambda>v. v \<notin> set run) (map name_of steps))),
       (''tokens_consumed'', JNum (show_int (pg_tokens pg))), (''worktree_path'', opt_text (bd_worktree bd))])"

text \<open>Left: every step is proved, with its classification; right: what was completed and what is run.\<close>

definition workflow_plan ::
  "resume_env \<Rightarrow> binding \<Rightarrow> json \<Rightarrow> payload list \<Rightarrow> json list \<Rightarrow> exn + string + json list \<times> nat list" where
  "workflow_plan re bd expected steps prior =
     (let is = remaining_steps prior steps in
      and_then (if at_worktree re (bd_worktree bd)
                then existing_artifacts re (bd_worktree bd) (map ((!) steps) is) else ok []) (\<lambda>uncheckpointed.
      if is \<noteq> [] then ok (Inr (prior, is))
      else and_then (evidence_missing re (bd_worktree bd) expected steps) (\<lambda>missing.
             ok (if missing then Inr ([], [0..<length steps]) else Inl (classification uncheckpointed)))))"

definition run_workflow ::
  "python \<Rightarrow> ('a, 'b) approvals option \<Rightarrow> (nat \<Rightarrow> 'a issuer) \<Rightarrow> resume_env \<Rightarrow> agent_session \<Rightarrow> binding
   \<Rightarrow> payload list \<Rightarrow> json list \<Rightarrow> nat list \<Rightarrow> queue_item \<Rightarrow> 'a controller \<Rightarrow> (exn + payload) \<times> 'a controller" where
  "run_workflow h av issue re session bd steps prior is item c =
     (case command_tasks h item [] 1 is of
        Inl e \<Rightarrow> (Inl e, c)
      | Inr cmds \<Rightarrow>
          (case preflight h av (re_now re) (or_default (bd_worktree bd) []) prior cmds item c of
             (Inl e, c1) \<Rightarrow> (Inl e, c1)
           | (Inr (Some res, item1), c1) \<Rightarrow> (ok res, c1)
           | (Inr (None, item1), c1) \<Rightarrow>
               let item2 = stamped (re_now re) QT_RUNNING item1;
                   pg = \<lparr>pg_item = item2, pg_completed = prior,
                         pg_tokens = (case bd_checkpoint bd of None \<Rightarrow> wc_tokens_consumed (se_config session)
                                      | Some cp \<Rightarrow> wp_tokens_consumed cp),
                         pg_index = (case bd_checkpoint bd of None \<Rightarrow> 0 | Some cp \<Rightarrow> wp_step_index cp)\<rparr>
               in (case run_steps h issue re session bd 0 is pg (put_item item2 c1) of
                     (Inl e, c2) \<Rightarrow> (Inl e, c2)
                   | (Inr (Inl res), c2) \<Rightarrow> (ok res, c2)
                   | (Inr (Inr pg'), c2) \<Rightarrow>
                       (ok (workflow_answer bd steps is pg'),
                        put_item (stamped (re_now re) QT_COMPLETED (pg_item pg')) c2))))"

definition resume_workflow ::
  "python \<Rightarrow> ('a, 'b) approvals option \<Rightarrow> (nat \<Rightarrow> 'a issuer) \<Rightarrow> resume_env \<Rightarrow> agent_session \<Rightarrow> binding
   \<Rightarrow> json list \<Rightarrow> json list \<Rightarrow> queue_item \<Rightarrow> 'a controller \<Rightarrow> (exn + payload) \<times> 'a controller" where
  "resume_workflow h av issue re session bd xs prior item c =
     (let dict = dict_items (qi_payload item); unverified = json_get ''_unverified_completed_steps'' JNull dict in
      case and_then (dicts xs) (\<lambda>steps.
             map_sum id (Pair steps)
               (workflow_plan re bd (json_get ''expected_artifacts'' (JList []) dict) steps prior)) of
        Inl e \<Rightarrow> (Inl e, c)
      | Inr (steps, Inl cls) \<Rightarrow>
          (ok (already_done_answer prior session cls), put_item (stamped (re_now re) QT_COMPLETED item) c)
      | Inr (steps, Inr (kept, is)) \<Rightarrow>
          if json_truthy unverified \<and> bd_checkpoint bd = None
          then (ok [(''status'', JStr ''RECOVERY_BLOCKED''),
                    (''reason'', JStr ''Ambiguous side effects require operator reconciliation''),
                    (''completed_steps'', unverified)],
                put_item (item\<lparr>qi_status := QT_DISPATCHED\<rparr>) c)
          else run_workflow h av issue re session bd steps kept is item c)"

section \<open>A single instruction or command\<close>

definition completed_proved :: "resume_env \<Rightarrow> binding \<Rightarrow> json \<Rightarrow> exn + bool" where
  "completed_proved re bd expected =
     (case bd_checkpoint bd of
        None \<Rightarrow> ok False
      | Some cp \<Rightarrow>
          let snap = dict_items (wp_context cp) in
          if \<not> json_truthy (json_get ''completed'' JNull snap) then ok False
          else if json_truthy expected
          then (if given (bd_worktree bd)
                then map_sum id Not (and_then (json_iter expected) (any_missing re (bd_worktree bd))) else ok True)
          else ok (json_truthy (json_get ''receipt_id'' JNull snap)))"

definition run_single ::
  "python \<Rightarrow> 'a issuer \<Rightarrow> resume_env \<Rightarrow> binding \<Rightarrow> queue_item \<Rightarrow> 'a controller \<Rightarrow> (exn + payload) \<times> 'a controller" where
  "run_single h issue re bd item c =
     (let item1 = stamped (re_now re) QT_RUNNING item in
      case dispatch_task_to_worker h issue (re_dispatch re 0) (qi_to_session_id item) (qi_task_id item)
             (in_workspace (bd_worktree bd) (dict_items (qi_payload item))) (put_item item1 c) of
        (Inl e, c1) \<Rightarrow> (Inl e, c1)
      | (Inr res, c1) \<Rightarrow>
          (ok res, put_item (stamped (re_now re) (if has_completed res then QT_COMPLETED else QT_FAILED) item1) c1))"

definition resume_single ::
  "python \<Rightarrow> ('a, 'b) approvals option \<Rightarrow> 'a issuer \<Rightarrow> resume_env \<Rightarrow> binding \<Rightarrow> json list \<Rightarrow> queue_item
   \<Rightarrow> 'a controller \<Rightarrow> (exn + payload) \<times> 'a controller" where
  "resume_single h av issue re bd prior item c =
     (let dict = dict_items (qi_payload item) in
      case completed_proved re bd (json_get ''expected_artifacts'' (JList []) dict) of
        Inl e \<Rightarrow> (Inl e, c)
      | Inr True \<Rightarrow>
          (ok [(''status'', JStr ''COMPLETED''),
               (''summary'', JStr ''Task was prior before crash and verified against evidence'')],
           put_item (stamped (re_now re) QT_COMPLETED item) c)
      | Inr False \<Rightarrow>
          if map_of dict ''command'' = None then run_single h issue re bd item c
          else (case preflight h av (re_now re) (or_default (bd_worktree bd) []) prior
                       [(qi_task_id item, None)] item c of
              (Inl e, c1) \<Rightarrow> (Inl e, c1)
            | (Inr (Some res, item1), c1) \<Rightarrow> (ok res, c1)
            | (Inr (None, item1), c1) \<Rightarrow> run_single h issue re bd item1 c1))"

section \<open>The resumption of a task\<close>

definition resume_bound ::
  "python \<Rightarrow> ('a, 'b) approvals option \<Rightarrow> (nat \<Rightarrow> 'a issuer) \<Rightarrow> resume_env \<Rightarrow> agent_session \<Rightarrow> queue_item
   \<Rightarrow> 'a controller \<Rightarrow> (exn + payload) \<times> 'a controller" where
  "resume_bound h av issue re session item c =
     (case bind_task re item session (ct_store c) of
        Inl e \<Rightarrow> (Inl e, c)
      | Inr bd \<Rightarrow>
          let steps = json_get ''steps'' JNull (dict_items (qi_payload item)) in
          (case completed_before re bd steps of
             Inl e \<Rightarrow> (Inl e, c)
           | Inr prior \<Rightarrow>
               (case steps of
                  JList xs \<Rightarrow> resume_workflow h av issue re session bd xs prior item c
                | _ \<Rightarrow> resume_single h av (issue 0) re bd prior item c)))"

text \<open>A living worker whose pipes this controller does not have is left alone.\<close>

definition orphaned :: "python \<Rightarrow> resume_env \<Rightarrow> string \<Rightarrow> 'a controller \<Rightarrow> exn + bool" where
  "orphaned h re w c =
     and_then (is_worker_alive h (re_look re 0) w c) (\<lambda>alive.
       ok (alive \<and> \<not> has_attached_worker_ipc (re_look re 1) w c))"

definition resume_marked ::
  "python \<Rightarrow> ('a, 'b) approvals option \<Rightarrow> (nat \<Rightarrow> 'a issuer) \<Rightarrow> resume_env \<Rightarrow> string
   \<Rightarrow> 'a controller \<Rightarrow> (exn + payload) \<times> 'a controller" where
  "resume_marked h av issue re dispatch_id c =
     (case mark_task_resuming (re_now re) dispatch_id (ct_store c) of
        (Inl e, db) \<Rightarrow> (Inl e, c\<lparr>ct_store := db\<rparr>)
      | (Inr item, db) \<Rightarrow>
          (case obtain_worker h re (qi_to_session_id item) (c\<lparr>ct_store := db\<rparr>) of
             (Inl e, c1) \<Rightarrow> (Inl e, c1)
           | (Inr None, c1) \<Rightarrow>
               (ok (blocked_answer item ''Attached worker is not safe to resume; outstanding result or operator reconciliation required''),
                put_item (stamped (re_now re) QT_DISPATCHED item) c1)
           | (Inr (Some session), c1) \<Rightarrow> resume_bound h av issue re session item c1))"

definition resume_task_from_checkpoint ::
  "python \<Rightarrow> ('a, 'b) approvals option \<Rightarrow> (nat \<Rightarrow> 'a issuer) \<Rightarrow> resume_env \<Rightarrow> string
   \<Rightarrow> 'a controller \<Rightarrow> (exn + payload) \<times> 'a controller" where
  "resume_task_from_checkpoint h av issue re dispatch_id c =
     (case load_queue_item dispatch_id (ct_store c) of
        Inl e \<Rightarrow> (Inl e, c)
      | Inr None \<Rightarrow> resume_marked h av issue re dispatch_id c
      | Inr (Some item) \<Rightarrow>
          (case orphaned h re (qi_to_session_id item) c of
             Inl e \<Rightarrow> (Inl e, c)
           | Inr True \<Rightarrow>
               (ok (blocked_answer item ''Worker PID is alive but this controller has no attached IPC; operator reconciliation required''), c)
           | Inr False \<Rightarrow> resume_marked h av issue re dispatch_id c))"

section \<open>The two authorities\<close>

fun state_text :: "broker_state \<Rightarrow> string" where
  "state_text broker_state.BLOCKED = ''BLOCKED''"
| "state_text broker_state.APPROVED = ''APPROVED''"
| "state_text broker_state.REJECTED = ''REJECTED''"
| "state_text broker_state.EXPIRED = ''EXPIRED''"

definition trusted_approvals ::
  "(string \<Rightarrow> string) \<Rightarrow> (nat \<Rightarrow> real) \<Rightarrow> (nat \<Rightarrow> string) \<Rightarrow> (authority, approval_action) approvals" where
  "trusted_approvals sha now token =
     \<lparr>ap_get = (\<lambda>k i a. case authority_get_action (now k) i a of (x, a') \<Rightarrow> (ok x, a')),
      ap_state = (\<lambda>x. state_text (aa_state x)), ap_action_id = aa_action_id,
      ap_for_context = is_action_for_context sha,
      ap_consumed = (\<lambda>k i a. (ok (is_action_consumed i a), a)),
      ap_request = (\<lambda>k w t cmd ws a. request_command_approval sha (token k) (now k) w t cmd ws a)\<rparr>"

text \<open>The verified authority has its boundary and the shared store as its state; \<open>reload\<close> is the clock of a reload.\<close>

definition verified_approvals ::
  "host \<Rightarrow> (nat \<Rightarrow> real) \<Rightarrow> (nat \<Rightarrow> real) \<Rightarrow> (nat \<Rightarrow> string) \<Rightarrow> (boundary \<times> op_store, operator_request) approvals" where
  "verified_approvals hst now reload nonce =
     \<lparr>ap_get = (\<lambda>k i (b, st). case va_get_action (now k) (reload k) i b st of (x, b', st') \<Rightarrow> (x, (b', st'))),
      ap_state = (\<lambda>x. op_state_value (rq_state x)), ap_action_id = rq_action_id,
      ap_for_context = va_is_action_for_context hst,
      ap_consumed = (\<lambda>k i (b, st). case va_is_action_consumed (now k) (reload k) i b st of (x, b', st') \<Rightarrow> (x, (b', st'))),
      ap_request = (\<lambda>k w t cmd ws (b, st).
        case va_request_command_approval hst (now k) (nonce k) w t cmd ws b st of (x, b', st') \<Rightarrow> (x, (b', st')))\<rparr>"

end
