(* ===== verification/TaskResumeFacts.thy ===== *)
theory TaskResumeFacts
  imports TaskResume TeamManagerFacts WorkerEndToEnd
begin

text \<open>
  What a resumption promises: it has the approval of every command before the first step is sent, it says
  COMPLETED only when every step that remained was sent to the worker and answered, and it leaves a
  finished task alone.
\<close>

section \<open>Approvals\<close>

text \<open>
  The commands were approved, each in its context, and no approval was spent, when they were looked at one
  after the other from the authority's state \<open>a\<close> on.
\<close>

fun all_approved ::
  "python \<Rightarrow> ('a, 'b) approvals \<Rightarrow> string \<Rightarrow> queue_item \<Rightarrow> nat \<Rightarrow> (string \<times> nat option) list \<Rightarrow> 'a \<Rightarrow> bool" where
  "all_approved h ap ws item k [] a = True"
| "all_approved h ap ws item k ((task_id, pos) # cmds) a =
     (case named_action ap k (owner_of pos item) a of
        (Inr (Some x), a1) \<Rightarrow>
          ap_state ap x = ''APPROVED'' \<and>
          ap_for_context ap x (qi_to_session_id item) task_id (owner_command h pos item) ws \<and>
          (case ap_consumed ap k (ap_action_id ap x) a1 of
             (Inr False, a2) \<Rightarrow> all_approved h ap ws item (Suc k) cmds a2
           | _ \<Rightarrow> False)
      | _ \<Rightarrow> False)"

lemma put_item_log [simp]: "ct_log (put_item item c) = ct_log c"
  by (simp add: put_item_def)

lemma check_approvals_log: "ct_log (snd (check_approvals h ap now k ws cmds item pending c)) = ct_log c"
proof (induction cmds arbitrary: k item pending c)
  case (Cons x cmds)
  then show ?case by (cases x) (simp add: Let_def split: prod.split sum.split)
qed simp

lemma preflight_log: "ct_log (snd (preflight h av now ws prior cmds item c)) = ct_log c"
proof (cases av)
  case (Some ap)
  then show ?thesis using check_approvals_log [of h ap now 0 ws cmds item "[]" c]
    by (auto simp: preflight_def Let_def split: prod.split sum.split)
qed (simp add: preflight_def Let_def)

lemma check_approvals_pending:
  "check_approvals h ap now k ws cmds item pending c = (Inr (Inr (item', pending')), c') \<Longrightarrow> set pending \<subseteq> set pending'"
proof (induction cmds arbitrary: k item pending c)
  case (Cons x cmds)
  show ?case
  proof (cases x)
    case (Pair t pos)
    show ?thesis using Cons.prems Cons.IH unfolding Pair
      by (fastforce simp: Let_def split: prod.splits sum.splits if_splits)
  qed
qed simp

text \<open>An authority whose new requests wait for a human.\<close>

locale recovery_authority =
  fixes ap :: "('a, 'b) approvals"
  assumes requests_wait: "ap_request ap k w t cmd ws a = (Inr x, a') \<Longrightarrow> ap_state ap x = ''BLOCKED''"
begin

lemma command_action_approved:
  assumes "command_action ap k w t cmd ws owner a = (Inr (x, fresh), a')" "ap_state ap x = ''APPROVED''"
  shows "\<not> fresh \<and> (\<exists>a1. named_action ap k owner a = (Inr (Some x), a1) \<and> ap_for_context ap x w t cmd ws \<and>
    ap_consumed ap k (ap_action_id ap x) a1 = (Inr False, a'))"
proof -
  obtain action a1 where f: "named_action ap k owner a = (Inr action, a1)"
    using assms(1) by (auto simp: command_action_def split: prod.splits sum.splits)
  obtain need a2 where n: "needs_request ap k w t cmd ws action a1 = (Inr need, a2)"
    using assms(1) f by (auto simp: command_action_def split: prod.splits sum.splits)
  have "\<not> need"
  proof
    assume need
    then obtain y where "ap_request ap k w t cmd ws a2 = (Inr y, a')" "x = y"
      using assms(1) f n by (auto simp: command_action_def split: prod.splits sum.splits)
    then show False using requests_wait assms(2) by force
  qed
  then have new: "\<not> fresh" "x = the action" "a' = a2" using assms(1) f n by (auto simp: command_action_def)
  obtain y where y: "action = Some y" using n \<open>\<not> need\<close> by (auto simp: needs_request_def split: option.splits)
  then have "ap_for_context ap y w t cmd ws" "ap_consumed ap k (ap_action_id ap y) a1 = (Inr False, a2)"
    using n \<open>\<not> need\<close> assms(2) new(2) by (auto simp: needs_request_def split: if_splits)
  then show ?thesis using f y new by simp
qed

lemma check_approvals_approved:
  "check_approvals h ap now k ws cmds item [] c = (Inr (Inr (item', [])), c') \<Longrightarrow>
   item' = item \<and> all_approved h ap ws item k cmds (ct_authority c)"
proof (induction cmds arbitrary: k c)
  case (Cons x cmds)
  obtain t pos where x: "x = (t, pos)" by (cases x)
  obtain y fresh a where y: "command_action ap k (qi_to_session_id item) t (owner_command h pos item) ws
      (owner_of pos item) (ct_authority c) = (Inr (y, fresh), a)"
    using Cons.prems unfolding x by (auto split: prod.splits sum.splits)
  have "ap_state ap y = ''APPROVED''"
  proof (rule ccontr)
    assume "ap_state ap y \<noteq> ''APPROVED''"
    then show False using Cons.prems y check_approvals_pending unfolding x
      by (fastforce simp: Let_def split: if_splits)
  qed
  note ok = command_action_approved [OF y this]
  then have "check_approvals h ap now (Suc k) ws cmds item [] (c\<lparr>ct_authority := a\<rparr>) = (Inr (Inr (item', [])), c')"
    using Cons.prems y \<open>ap_state ap y = ''APPROVED''\<close> unfolding x by (simp add: Let_def)
  then have rest: "item' = item \<and> all_approved h ap ws item (Suc k) cmds a" using Cons.IH by fastforce
  show ?case using rest ok \<open>ap_state ap y = ''APPROVED''\<close> unfolding x by auto
qed simp

lemma preflight_approved:
  assumes "preflight h (Some ap) now ws prior cmds item c = (Inr (None, item'), c')"
  shows "item' \<in> {item, stamped now QT_RUNNING item} \<and> all_approved h ap ws item 0 cmds (ct_authority c)"
proof (cases "cmds = []")
  case True
  then show ?thesis using assms by (simp add: preflight_def)
next
  case False
  obtain item1 c1 where r: "check_approvals h ap now 0 ws cmds item [] c = (Inr (Inr (item1, [])), c1)"
      "item' = stamped now QT_RUNNING item1"
    using assms False by (auto simp: preflight_def Let_def split: prod.splits sum.splits if_splits)
  then show ?thesis using check_approvals_approved [OF r(1)] by simp
qed

end

section \<open>The two authorities\<close>

interpretation trusted_recovery: recovery_authority "trusted_approvals sha now token" for sha now token
proof
  fix k w t cmd ws a x a'
  assume "ap_request (trusted_approvals sha now token) k w t cmd ws a = (Inr x, a')"
  then show "ap_state (trusted_approvals sha now token) x = ''BLOCKED''"
    by (auto simp: trusted_approvals_def request_command_approval_def create_action_def Let_def split: if_splits)
qed

interpretation verified_recovery: recovery_authority "verified_approvals hst now reload nonce" for hst now reload nonce
proof
  fix k w t cmd ws a x a'
  assume "ap_request (verified_approvals hst now reload nonce) k w t cmd ws a = (Inr x, a')"
  then have "\<exists>ttl. x = new_request hst (now k) (nonce k) w t cmd ws None ttl"
    by (auto simp: verified_approvals_def va_request_command_approval_def create_request_def Let_def
        split: if_splits prod.splits sum.splits)
  then show "ap_state (verified_approvals hst now reload nonce) x = ''BLOCKED''"
    by (auto simp: verified_approvals_def new_request_def Let_def)
qed

section \<open>Every step\<close>

lemma attach_ticket_log: "attach_ticket h issue w t r payload c = (res, c1) \<Longrightarrow> ct_log c1 = ct_log c"
  by (auto simp: attach_ticket_def Let_def split: option.splits sum.splits prod.splits if_splits)

lemma update_session_log: "update_session w now f c = Inr c' \<Longrightarrow> ct_log c' = ct_log c"
  by (auto simp: update_session_def split: sum.splits option.splits)

lemma settle_log: "ct_log (snd (settle h env w res c)) = ct_log c"
proof -
  have rec: "ct_log (with_record w f c) = ct_log c" for f
    by (simp add: with_record_def put_record_def split: option.split)
  have save: "ct_log (snd (finish c r (map_sum id (release w) (update_session w n f c)))) = ct_log c" for c r n f
    by (cases "update_session w n f c") (simp_all add: finish_def release_def update_session_log)
  have "ct_log (release w c) = ct_log c" by (simp add: release_def)
  then show ?thesis by (simp add: settle_def Let_def save rec split: option.split)
qed

lemma receive_log: "receive env w p c = (l, c') \<Longrightarrow> ct_log c' = ct_log c"
  by (auto simp: receive_def split: option.splits prod.splits)

lemma await_log: "ct_log (snd (await_result h env w t late c)) = ct_log c"
  by (auto simp: await_result_def settle_log split: option.split prod.split dest: receive_log)

text \<open>A step that the worker completed was sent to it, with its ticket.\<close>

definition task_sent ::
  "python \<Rightarrow> string \<Rightarrow> 'a issuer \<times> string \<times> payload \<Rightarrow> ipc \<Rightarrow> bool" where
  "task_sent h w job e \<longleftrightarrow>
     (case job of (issue, t, payload) \<Rightarrow>
        \<exists>r p a. e = Written w (line_of (task_message t p)) \<and> ticketed h issue w t r payload p a)"

lemma dispatch_completed:
  assumes "dispatch_task_to_worker h issue env w t payload c = (Inr res, c')" "has_completed res"
  shows "\<exists>e. ct_log c' = ct_log c @ [e] \<and> task_sent h w (issue, t, payload) e"
proof -
  have bad: "\<not> has_completed (answer ''DENIED'' i x)" "\<not> has_completed (denied_answer i x y)" "\<not> has_completed (ipc_error x)"
    for i x y
    by (simp_all add: has_completed_def has_field_def answer_def denied_answer_def ipc_error_def json_get_def)
  obtain pid reader r where t: "running_child env w c = Some pid" "ct_readers c w = Some reader" "record_of w c = Some r"
      "rc_status r \<notin> {WS_PAUSED, WS_INTERRUPTED}" "w \<notin> ct_busy c"
    using assms bad by (auto simp: dispatch_task_to_worker_def split: option.splits if_splits)
  obtain ans c1 where a: "attach_ticket h issue w t r payload c = (ans, c1)"
    by (cases "attach_ticket h issue w t r payload c")
  obtain p where p: "ans = Inr (Inr p)" "\<not> unavailable (rc_status r)" "ce_pipe env"
      "await_result h env w t (late_answer t) (write_message w (task_message t p) (claim w t c1)) = (Inr res, c')"
    using assms bad t a by (auto simp: dispatch_task_to_worker_def split: sum.splits if_splits)
  have "ct_log c' = ct_log (write_message w (task_message t p) (claim w t c1))"
    using await_log p(4) by (metis snd_conv)
  then have "ct_log c' = ct_log c @ [Written w (line_of (task_message t p))]"
    using attach_ticket_log [OF a] by (simp add: write_message_def claim_def line_of_def)
  then show ?thesis using attach_ticket_sends a p(1) unfolding task_sent_def by blast
qed

text \<open>The tasks of the steps: number of the call, issuer, task id and payload.\<close>

fun step_jobs ::
  "python \<Rightarrow> (nat \<Rightarrow> 'a issuer) \<Rightarrow> binding \<Rightarrow> queue_item \<Rightarrow> nat \<Rightarrow> int \<Rightarrow> nat list \<Rightarrow> ('a issuer \<times> string \<times> payload) list" where
  "step_jobs h issue bd item k n [] = []"
| "step_jobs h issue bd item k n (i # is) =
     (issue k, step_task h item (step_name (n + 1) (owner_of (Some i) item)),
      in_workspace (bd_worktree bd) (owner_of (Some i) item))
     # step_jobs h issue bd item (Suc k) (n + 1) is"

lemma owner_of_noted [simp]: "owner_of (Some i) (note_completed names item) = owner_of (Some i) item"
proof -
  have "map_of (AList.update k v d) ''steps'' = map_of d ''steps''" if "k \<noteq> ''steps''" for k v and d :: payload
    using that by (simp add: update_conv')
  then show ?thesis
    by (simp add: owner_of_def payload_steps_def note_completed_def json_get_def dict_items_def)
qed

lemma noted_fields [simp]:
  "qi_task_id (note_completed names item) = qi_task_id item"
  "qi_to_session_id (note_completed names item) = qi_to_session_id item"
  by (simp_all add: note_completed_def)

lemma step_jobs_noted [simp]: "step_jobs h issue bd (note_completed names item) k n is = step_jobs h issue bd item k n is"
  by (induction "is" arbitrary: k n) (simp_all add: step_task_def)

lemma step_jobs_stamped [simp]:
  "step_jobs h issue bd (stamped now st item) k n is = step_jobs h issue bd item k n is"
  "qi_to_session_id (stamped now st item) = qi_to_session_id item"
proof -
  have owner: "owner_of (Some i) (stamped now st item) = owner_of (Some i) item" for i
    by (simp add: owner_of_def payload_steps_def stamped_def)
  show "step_jobs h issue bd (stamped now st item) k n is = step_jobs h issue bd item k n is"
    by (induction "is" arbitrary: k n) (simp_all add: owner, simp add: step_task_def stamped_def)
qed (simp add: stamped_def)

lemma run_steps_sends:
  assumes "run_steps h issue re session bd k is pg c = (Inr (Inr pg'), c')"
  shows "\<exists>es. ct_log c' = ct_log c @ es \<and>
    list_all2 (task_sent h (qi_to_session_id (pg_item pg))) (step_jobs h issue bd (pg_item pg) k (pg_index pg) is) es"
  using assms
proof (induction "is" arbitrary: k pg c)
  case (Cons i "is")
  let ?item = "pg_item pg"
  let ?kvs = "owner_of (Some i) ?item"
  let ?name = "step_name (pg_index pg + 1) ?kvs"
  obtain res c1 where d: "dispatch_task_to_worker h (issue k) (re_dispatch re k) (qi_to_session_id ?item)
      (step_task h ?item ?name) (in_workspace (bd_worktree bd) ?kvs) c = (Inr res, c1)" "has_completed res"
    using Cons.prems by (auto simp: Let_def split: prod.splits sum.splits if_splits)
  obtain e where e: "ct_log c1 = ct_log c @ [e]" "task_sent h (qi_to_session_id ?item)
      (issue k, step_task h ?item ?name, in_workspace (bd_worktree bd) ?kvs) e"
    using dispatch_completed [OF d] by blast
  let ?item1 = "note_completed (pg_completed pg @ [?name]) ?item"
  obtain m db where r: "run_steps h issue re session bd (Suc k) is
      \<lparr>pg_item = ?item1, pg_completed = pg_completed pg @ [?name], pg_tokens = pg_tokens pg + m, pg_index = pg_index pg + 1\<rparr>
      ((put_item ?item1 c1)\<lparr>ct_store := db\<rparr>) = (Inr (Inr pg'), c')"
    using Cons.prems d by (auto simp: Let_def split: sum.splits)
  obtain es where "ct_log c' = ct_log c1 @ es"
      "list_all2 (task_sent h (qi_to_session_id ?item)) (step_jobs h issue bd ?item (Suc k) (pg_index pg + 1) is) es"
    using Cons.IH [OF r] by auto
  then show ?case using e by (intro exI [of _ "e # es"]) simp
qed simp

definition first_index :: "binding \<Rightarrow> int" where
  "first_index bd = (case bd_checkpoint bd of None \<Rightarrow> 0 | Some cp \<Rightarrow> wp_step_index cp)"

lemma check_approvals_stops:
  "check_approvals h ap now k ws cmds item pending c = (Inr (Inl res), c') \<Longrightarrow> \<not> has_completed res"
proof (induction cmds arbitrary: k item pending c)
  case (Cons x cmds)
  show ?case
  proof (cases x)
    case (Pair t pos)
    show ?thesis using Cons.prems Cons.IH unfolding Pair
      by (fastforce simp: Let_def has_completed_def has_field_def json_get_def split: prod.splits sum.splits if_splits)
  qed
qed simp

lemma preflight_stops:
  "preflight h av now ws prior cmds item c = (Inr (Some res, item'), c') \<Longrightarrow> \<not> has_completed res"
  by (auto simp: preflight_def Let_def blocked_answer_def awaiting_answer_def has_completed_def has_field_def json_get_def
      split: option.splits prod.splits sum.splits if_splits
      dest: check_approvals_stops [unfolded has_completed_def has_field_def json_get_def])

lemma run_steps_stops:
  "run_steps h issue re session bd k is pg c = (Inr (Inl res), c') \<Longrightarrow> \<not> has_completed res"
  by (induction "is" arbitrary: k pg c)
    (fastforce simp: Let_def has_completed_def has_field_def json_get_def split: prod.splits sum.splits if_splits)+

context recovery_authority
begin

lemma workflow_sends_all:
  assumes "run_workflow h (Some ap) issue re session bd steps prior is item c = (Inr res, c')" "has_completed res"
  shows "\<exists>es. ct_log c' = ct_log c @ es \<and>
    list_all2 (task_sent h (qi_to_session_id item)) (step_jobs h issue bd item 0 (first_index bd) is) es"
proof -
  obtain cmds where cmds: "command_tasks h item [] 1 is = Inr cmds"
    using assms by (auto simp: run_workflow_def split: sum.splits)
  obtain item1 c1 where p: "preflight h (Some ap) (re_now re) (or_default (bd_worktree bd) []) prior cmds item c = (Inr (None, item1), c1)"
    using assms cmds preflight_stops
    by (auto simp: run_workflow_def split: sum.splits prod.splits option.splits) blast
  let ?item2 = "stamped (re_now re) QT_RUNNING item1"
  let ?pg = "\<lparr>pg_item = ?item2, pg_completed = prior,
      pg_tokens = (case bd_checkpoint bd of None \<Rightarrow> wc_tokens_consumed (se_config session) | Some cp \<Rightarrow> wp_tokens_consumed cp),
      pg_index = first_index bd\<rparr>"
  obtain pg' c2 where r: "run_steps h issue re session bd 0 is ?pg (put_item ?item2 c1) = (Inr (Inr pg'), c2)"
      "ct_log c' = ct_log c2"
    using assms cmds p run_steps_stops
    by (auto simp: run_workflow_def Let_def first_index_def split: sum.splits prod.splits) blast
  have "ct_log c1 = ct_log c" using preflight_log p by (metis snd_conv)
  moreover have "item1 \<in> {item, stamped (re_now re) QT_RUNNING item}" using preflight_approved [OF p] by blast
  then have "qi_to_session_id ?item2 = qi_to_session_id item"
      "step_jobs h issue bd ?item2 0 (first_index bd) is = step_jobs h issue bd item 0 (first_index bd) is"
    by auto
  ultimately show ?thesis using run_steps_sends [OF r(1)] r(2) by simp
qed

end

text \<open>
  C36: COMPLETED means that the work was done.  When a workflow is answered with COMPLETED, what was
  written to the workers is one task message for each step that remained, in order, under the task id of
  the step and with the payload of the step in the task's worktree (and, for a command, the ticket that was
  issued for it), and nothing else.
\<close>

theorem completed_workflow_sent_every_step:
  assumes "run_workflow h (Some (trusted_approvals sha now token)) issue re session bd steps prior is item c = (Inr res, c')"
    and "has_completed res"
  shows "\<exists>es. ct_log c' = ct_log c @ es \<and>
    list_all2 (task_sent h (qi_to_session_id item)) (step_jobs h issue bd item 0 (first_index bd) is) es"
  using assms by (rule trusted_recovery.workflow_sends_all)

definition demo_result :: string where
  "demo_result = ''{\"type\":\"RESULT\",\"task_id\":\"t-a\",\"status\":\"COMPLETED\"}''"

definition demo_step_env :: call_env where
  "demo_step_env = demo_env\<lparr>ce_arrived := [Some demo_result], ce_in_time := 1\<rparr>"

definition demo_resume_env :: resume_env where
  "demo_resume_env = \<lparr>re_now = 0, re_look = (\<lambda>k. demo_env), re_spawn = demo_spawn, re_is_dir = (\<lambda>p. False),
     re_exists = (\<lambda>p. False), re_artifact = (\<lambda>p a. None), re_git = (\<lambda>p. ok None), re_dispatch = (\<lambda>k. demo_step_env)\<rparr>"

definition demo_workflow :: queue_item where
  "demo_workflow = (demo_item ''d'' QT_RUNNING)\<lparr>qi_to_session_id := ''w'', qi_task_id := ''t'',
     qi_payload := JObj [(''steps'', JList [JObj [(''name'', JStr ''a'')]])]\<rparr>"

definition demo_binding :: binding where
  "demo_binding = \<lparr>bd_worktree = None, bd_commit = None, bd_checkpoint = None\<rparr>"

lemma demo_reply:
  "reply_of demo_result = Some [(''type'', JStr ''RESULT''), (''task_id'', JStr ''t-a''), (''status'', JStr ''COMPLETED'')]"
  by code_simp

lemma demo_step_dispatched:
  "\<exists>c'. dispatch_task_to_worker demo_py issue demo_step_env ''w'' ''t-a'' [(''name'', JStr ''a'')] (demo_run\<lparr>ct_store := db\<rparr>) =
     (Inr [(''type'', JStr ''RESULT''), (''task_id'', JStr ''t-a''), (''status'', JStr ''COMPLETED'')], c')"
proof -
  have s: "rc_status (spawned_record demo_env demo_spawn (default_config ''w'' ''team'') ''/ws'' 5 0 default_policy) = WS_IDLE"
    by (simp add: spawned_record_def)
  have env: "ce_pipe demo_step_env" "ce_in_time demo_step_env = 1" "ce_arrived demo_step_env = [Some demo_result]"
      "ce_poll demo_step_env 5 = None"
    by (simp_all add: demo_step_env_def demo_env_def)
  have task: "is_task_result demo_result ''t-a''"
    by (simp add: is_task_result_def demo_reply has_field_def json_get_def)
  show ?thesis
    using demo_run_state
    by (simp add: dispatch_task_to_worker_def running_child_def record_of_def s env attach_ticket_def unavailable_def
        await_result_def receive_def write_message_def claim_def new_reader_def readline_matching_def task
        demo_reply settle_def del: dumps.simps)
qed

theorem completed_workflow_sent_every_step_witness:
  "\<exists>res c'. run_workflow demo_py (Some (trusted_approvals TrustedAuthority.demo_hash (\<lambda>k. 0) (\<lambda>k. [])))
       (\<lambda>k. trusted_issue TrustedAuthority.demo_hash demo_mac demo_fmt (20, 21)) demo_resume_env TeamManagerFacts.demo_worker demo_binding
       [[(''name'', JStr ''a'')]] [] [0] demo_workflow demo_run = (Inr res, c') \<and> has_completed res \<and>
     length (ct_log c') = length (ct_log demo_run) + 1"
proof -
  let ?issue = "\<lambda>k::nat. trusted_issue TrustedAuthority.demo_hash demo_mac demo_fmt (20, 21)"
  let ?run = "run_workflow demo_py (Some (trusted_approvals TrustedAuthority.demo_hash (\<lambda>k. 0) (\<lambda>k. []))) ?issue demo_resume_env TeamManagerFacts.demo_worker
      demo_binding [[(''name'', JStr ''a'')]] [] [0] demo_workflow demo_run"
  have o: "owner_of (Some 0) demo_workflow = [(''name'', JStr ''a'')]"
    by (simp add: owner_of_def payload_steps_def demo_workflow_def json_get_def dict_items_def)
  have os: "owner_of (Some 0) (stamped 0 QT_RUNNING demo_workflow) = [(''name'', JStr ''a'')]"
    by (simp add: owner_of_def payload_steps_def demo_workflow_def json_get_def dict_items_def stamped_def)
  have f: "qi_task_id demo_workflow = ''t''" "qi_to_session_id demo_workflow = ''w''" by (simp_all add: demo_workflow_def)
  obtain c1 where d: "dispatch_task_to_worker demo_py (?issue 0) demo_step_env ''w'' ''t-a'' [(''name'', JStr ''a'')]
      (put_item (stamped 0 QT_RUNNING demo_workflow) demo_run) =
      (Inr [(''type'', JStr ''RESULT''), (''task_id'', JStr ''t-a''), (''status'', JStr ''COMPLETED'')], c1)"
    using demo_step_dispatched unfolding put_item_def by metis
  have t: "step_task demo_py (stamped 0 QT_RUNNING demo_workflow) (JStr ''a'') = ''t-a''"
    by (simp add: step_task_def py_str_def f stamped_def)
  obtain res c' where run: "?run = (Inr res, c')" "has_completed res"
    by (simp add: run_workflow_def o os preflight_def demo_binding_def demo_resume_env_def Let_def step_name_def json_get_def t f
        in_workspace_def given_def d has_completed_def has_field_def metered_def workflow_answer_def py_str_def)
  have "step_jobs demo_py ?issue demo_binding demo_workflow 0 (first_index demo_binding) [0] \<noteq> []" by simp
  then obtain es where "ct_log c' = ct_log demo_run @ es" "length es = 1"
    using completed_workflow_sent_every_step [OF run] by (auto dest!: list_all2_lengthD)
  then show ?thesis using run by auto
qed

section \<open>Approvals before effects\<close>

text \<open>
  What a resumption is going to send, found without any effect: the positions of the steps that remain,
  or no position for a task that is a single instruction; the tasks and payloads in order, and the
  commands among them under the task ids that they are sent with.
\<close>

definition planned_positions :: "resume_env \<Rightarrow> binding \<Rightarrow> queue_item \<Rightarrow> exn + nat option list" where
  "planned_positions re bd item =
     (let dict = dict_items (qi_payload item); steps = json_get ''steps'' JNull dict in
      case steps of
        JList xs \<Rightarrow>
          and_then (completed_before re bd steps) (\<lambda>prior.
          and_then (dicts xs) (\<lambda>kvs.
          and_then (workflow_plan re bd (json_get ''expected_artifacts'' (JList []) dict) kvs prior) (\<lambda>plan.
            ok (case plan of Inl _ \<Rightarrow> [] | Inr (kept, is) \<Rightarrow> map Some is))))
      | _ \<Rightarrow> ok [None])"

definition position_task :: "python \<Rightarrow> queue_item \<Rightarrow> int \<Rightarrow> nat option \<Rightarrow> string" where
  "position_task h item n pos =
     (case pos of None \<Rightarrow> qi_task_id item | Some i \<Rightarrow> step_task h item (step_name n (owner_of pos item)))"

fun planned_jobs ::
  "python \<Rightarrow> (nat \<Rightarrow> 'a issuer) \<Rightarrow> binding \<Rightarrow> queue_item \<Rightarrow> nat \<Rightarrow> int \<Rightarrow> nat option list
   \<Rightarrow> ('a issuer \<times> string \<times> payload) list" where
  "planned_jobs h issue bd item k n [] = []"
| "planned_jobs h issue bd item k n (pos # ps) =
     (issue k, position_task h item (n + 1) pos, in_workspace (bd_worktree bd) (owner_of pos item))
     # planned_jobs h issue bd item (Suc k) (n + 1) ps"

fun sent_commands :: "python \<Rightarrow> queue_item \<Rightarrow> int \<Rightarrow> nat option list \<Rightarrow> (string \<times> nat option) list" where
  "sent_commands h item n [] = []"
| "sent_commands h item n (pos # ps) =
     (if map_of (owner_of pos item) ''command'' = None then id else (#) (position_task h item (n + 1) pos, pos))
       (sent_commands h item (n + 1) ps)"

text \<open>
  An approval is looked up under the id of the task that is sent, except for a step without a name
  after a checkpoint: it is numbered from 1 for its approval and from the checkpoint when it is sent.
\<close>

definition approved_as :: "binding \<Rightarrow> queue_item \<Rightarrow> string \<times> nat option \<Rightarrow> string \<times> nat option \<Rightarrow> bool" where
  "approved_as bd item asked_for sent_as \<longleftrightarrow> snd asked_for = snd sent_as \<and>
     (fst asked_for = fst sent_as \<or> first_index bd \<noteq> 0 \<and> map_of (owner_of (snd sent_as) item) ''name'' = None)"

text \<open>
  Whatever a resumption makes the controller write is, after lines that start no task, the tasks of the
  plan, in order and from the first one on; and if one of them is written, every command of the plan had
  its unspent approval, for the item and worktree that are resumed, when the authority was asked at the
  beginning of the call.
\<close>

definition approved_first ::
  "python \<Rightarrow> ('a, 'b) approvals \<Rightarrow> (nat \<Rightarrow> 'a issuer) \<Rightarrow> resume_env \<Rightarrow> string \<Rightarrow> 'a controller \<Rightarrow> bool" where
  "approved_first h ap issue re d c \<longleftrightarrow>
     (\<exists>early es. ct_log (snd (resume_task_from_checkpoint h (Some ap) issue re d c)) = ct_log c @ early @ es \<and>
        list_all quiet early \<and>
        (es = [] \<or>
         (\<exists>item db session c1 bd ps cmds.
            mark_task_resuming (re_now re) d (ct_store c) = (Inr item, db) \<and>
            obtain_worker h re (qi_to_session_id item) (c\<lparr>ct_store := db\<rparr>) = (Inr (Some session), c1) \<and>
            bind_task re item session (ct_store c1) = Inr bd \<and> planned_positions re bd item = Inr ps \<and>
            list_all2 (task_sent h (qi_to_session_id item))
              (take (length es) (planned_jobs h issue bd item 0 (first_index bd) ps)) es \<and>
            all_approved h ap (or_default (bd_worktree bd) []) item 0 cmds (ct_authority c) \<and>
            list_all2 (approved_as bd item) cmds (sent_commands h item (first_index bd) ps))))"

lemma dispatch_sends:
  "\<exists>es. ct_log (snd (dispatch_task_to_worker h issue env w t payload c)) = ct_log c @ es \<and>
     (es = [] \<or> (\<exists>e. es = [e] \<and> task_sent h w (issue, t, payload) e))"
proof (cases "ct_log (snd (dispatch_task_to_worker h issue env w t payload c)) = ct_log c")
  case False
  obtain ans r c1 where a: "attach_ticket h issue w t r payload c = (Inr (Inr ans), c1)"
      "ct_log (snd (dispatch_task_to_worker h issue env w t payload c)) =
       ct_log (write_message w (task_message t ans) (claim w t c1))"
    using False by (auto simp: dispatch_task_to_worker_def await_log release_def claim_def
        split: option.splits prod.splits sum.splits if_splits dest: attach_ticket_log)
  then have "ct_log (snd (dispatch_task_to_worker h issue env w t payload c)) =
      ct_log c @ [Written w (line_of (task_message t ans))]"
    using attach_ticket_log [OF a(1)] by (simp add: write_message_def claim_def line_of_def)
  then show ?thesis using attach_ticket_sends [OF a(1)] unfolding task_sent_def by blast
qed simp

lemma run_steps_sent:
  "\<exists>es. ct_log (snd (run_steps h issue re session bd k is pg c)) = ct_log c @ es \<and>
    list_all2 (task_sent h (qi_to_session_id (pg_item pg)))
      (take (length es) (step_jobs h issue bd (pg_item pg) k (pg_index pg) is)) es"
proof (induction "is" arbitrary: k pg c)
  case (Cons i "is")
  let ?item = "pg_item pg"
  let ?kvs = "owner_of (Some i) ?item"
  let ?name = "step_name (pg_index pg + 1) ?kvs"
  let ?w = "qi_to_session_id ?item"
  obtain r c1 where d: "dispatch_task_to_worker h (issue k) (re_dispatch re k) ?w
      (step_task h ?item ?name) (in_workspace (bd_worktree bd) ?kvs) c = (r, c1)" by fastforce
  obtain es where es: "ct_log c1 = ct_log c @ es" "es = [] \<or> (\<exists>e. es = [e] \<and> task_sent h ?w
      (issue k, step_task h ?item ?name, in_workspace (bd_worktree bd) ?kvs) e)"
    using dispatch_sends d by (metis snd_conv)
  have stop: ?case if "ct_log (snd (run_steps h issue re session bd k (i # is) pg c)) = ct_log c1"
    using that es by (intro exI [of _ es]) auto
  show ?case
  proof (cases "\<exists>res. r = Inr res \<and> has_completed res \<and> is_ok (metered h res)")
    case False
    then show ?thesis using d
      by (intro stop) (auto simp: Let_def split: sum.split)
  next
    case True
    then obtain res m where m: "r = Inr res" "has_completed res" "metered h res = Inr m"
      by (auto simp: is_ok_iff)
    obtain e where e: "ct_log c1 = ct_log c @ [e]" "task_sent h ?w
        (issue k, step_task h ?item ?name, in_workspace (bd_worktree bd) ?kvs) e"
      using dispatch_completed d m by blast
    let ?item1 = "note_completed (pg_completed pg @ [?name]) ?item"
    let ?pg = "\<lparr>pg_item = ?item1, pg_completed = pg_completed pg @ [?name], pg_tokens = pg_tokens pg + m,
        pg_index = pg_index pg + 1\<rparr>"
    obtain db where r: "run_steps h issue re session bd k (i # is) pg c =
        run_steps h issue re session bd (Suc k) is ?pg ((put_item ?item1 c1)\<lparr>ct_store := db\<rparr>)"
      using d m by (auto simp: Let_def)
    obtain fs where "ct_log (snd (run_steps h issue re session bd k (i # is) pg c)) = ct_log c1 @ fs"
        "list_all2 (task_sent h ?w)
           (take (length fs) (step_jobs h issue bd ?item (Suc k) (pg_index pg + 1) is)) fs"
      unfolding r using Cons.IH [of "Suc k" ?pg "(put_item ?item1 c1)\<lparr>ct_store := db\<rparr>"] by auto
    then show ?thesis using e by (intro exI [of _ "e # fs"]) simp
  qed
qed simp

lemma planned_jobs_steps: "planned_jobs h issue bd item k n (map Some is) = step_jobs h issue bd item k n is"
  by (induction "is" arbitrary: k n) (simp_all add: position_task_def)

lemma command_tasks_sent:
  assumes "command_tasks h item seen (m + 1) is = Inr cmds" "n = m \<or> first_index bd \<noteq> 0"
  shows "list_all2 (approved_as bd item) cmds (sent_commands h item n (map Some is))"
  using assms
proof (induction "is" arbitrary: seen m n cmds)
  case (Cons i "is")
  let ?kvs = "owner_of (Some i) item"
  let ?name = "py_str h (step_name (m + 1) ?kvs)"
  obtain rest where rest: "command_tasks h item (?name # seen) (m + 1 + 1) is = Inr rest"
      "cmds = (if map_of ?kvs ''command'' = None then id else (#) (step_task h item (JStr ?name), Some i)) rest"
    using Cons.prems(1) by (auto simp: Let_def map_sum_def split: if_splits sum.splits)
  have "approved_as bd item (step_task h item (JStr ?name), Some i) (position_task h item (n + 1) (Some i), Some i)"
    using Cons.prems(2) by (cases "map_of ?kvs ''name''")
      (auto simp: approved_as_def position_task_def step_task_def step_name_def json_get_def py_str_def)
  moreover have "list_all2 (approved_as bd item) rest (sent_commands h item (n + 1) (map Some is))"
    using Cons.IH [OF rest(1)] Cons.prems(2) by simp
  ultimately show ?case using rest(2) by simp
qed simp

context recovery_authority
begin

lemma workflow_sent:
  "\<exists>es. ct_log (snd (run_workflow h (Some ap) issue re session bd steps prior is item c)) = ct_log c @ es \<and>
     (es = [] \<or> (\<exists>cmds. command_tasks h item [] 1 is = Inr cmds \<and>
        all_approved h ap (or_default (bd_worktree bd) []) item 0 cmds (ct_authority c) \<and>
        list_all2 (task_sent h (qi_to_session_id item))
          (take (length es) (step_jobs h issue bd item 0 (first_index bd) is)) es))"
proof (cases "\<exists>cmds item1 c1. command_tasks h item [] 1 is = Inr cmds \<and>
    preflight h (Some ap) (re_now re) (or_default (bd_worktree bd) []) prior cmds item c = (Inr (None, item1), c1)")
  case False
  then have "ct_log (snd (run_workflow h (Some ap) issue re session bd steps prior is item c)) = ct_log c"
    using preflight_log [of h "Some ap" "re_now re" "or_default (bd_worktree bd) []" prior _ item c]
    by (auto simp: run_workflow_def split: sum.split prod.split option.split) (metis snd_conv)+
  then show ?thesis by (intro exI [of _ "[]"]) simp
next
  case True
  then obtain cmds item1 c1 where cmds: "command_tasks h item [] 1 is = Inr cmds"
      and p: "preflight h (Some ap) (re_now re) (or_default (bd_worktree bd) []) prior cmds item c = (Inr (None, item1), c1)"
    by blast
  let ?item2 = "stamped (re_now re) QT_RUNNING item1"
  let ?pg = "\<lparr>pg_item = ?item2, pg_completed = prior,
      pg_tokens = (case bd_checkpoint bd of None \<Rightarrow> wc_tokens_consumed (se_config session) | Some cp \<Rightarrow> wp_tokens_consumed cp),
      pg_index = first_index bd\<rparr>"
  have log: "ct_log (snd (run_workflow h (Some ap) issue re session bd steps prior is item c)) =
      ct_log (snd (run_steps h issue re session bd 0 is ?pg (put_item ?item2 c1)))"
    using cmds p by (simp add: run_workflow_def Let_def first_index_def split: sum.split prod.split)
  have "ct_log c1 = ct_log c" using preflight_log p by (metis snd_conv)
  moreover have "item1 \<in> {item, stamped (re_now re) QT_RUNNING item}" using preflight_approved [OF p] by blast
  then have "qi_to_session_id ?item2 = qi_to_session_id item"
      "step_jobs h issue bd ?item2 0 (first_index bd) is = step_jobs h issue bd item 0 (first_index bd) is"
    by auto
  ultimately obtain es where "ct_log (snd (run_workflow h (Some ap) issue re session bd steps prior is item c)) = ct_log c @ es"
      "list_all2 (task_sent h (qi_to_session_id item))
         (take (length es) (step_jobs h issue bd item 0 (first_index bd) is)) es"
    using run_steps_sent [of h issue re session bd 0 "is" ?pg "put_item ?item2 c1"] log by auto
  then show ?thesis using cmds preflight_approved [OF p] by blast
qed

lemma resume_workflow_sent:
  assumes "json_get ''steps'' JNull (dict_items (qi_payload item)) = JList xs"
    and "completed_before re bd (JList xs) = Inr prior"
  shows "\<exists>es. ct_log (snd (resume_workflow h (Some ap) issue re session bd xs prior item c)) = ct_log c @ es \<and>
     (es = [] \<or> (\<exists>ps cmds. planned_positions re bd item = Inr ps \<and>
        list_all2 (task_sent h (qi_to_session_id item))
          (take (length es) (planned_jobs h issue bd item 0 (first_index bd) ps)) es \<and>
        all_approved h ap (or_default (bd_worktree bd) []) item 0 cmds (ct_authority c) \<and>
        list_all2 (approved_as bd item) cmds (sent_commands h item (first_index bd) ps)))"
proof -
  let ?run = "\<lambda>steps kept is. run_workflow h (Some ap) issue re session bd steps kept is item c"
  show ?thesis
  proof (cases "ct_log (snd (resume_workflow h (Some ap) issue re session bd xs prior item c)) = ct_log c")
    case True
    then show ?thesis by (intro exI [of _ "[]"]) simp
  next
    case False
    then obtain steps kept "is" where run: "dicts xs = Inr steps"
        "workflow_plan re bd (json_get ''expected_artifacts'' (JList []) (dict_items (qi_payload item))) steps prior = Inr (Inr (kept, is))"
        "resume_workflow h (Some ap) issue re session bd xs prior item c = ?run steps kept is"
      by (auto simp: resume_workflow_def Let_def and_then_def map_sum_def split: sum.splits if_splits)
    have ps: "planned_positions re bd item = Inr (map Some is)"
      using assms run(1,2) by (simp add: planned_positions_def)
    obtain es where es: "ct_log (snd (?run steps kept is)) = ct_log c @ es"
        "es = [] \<or> (\<exists>cmds. command_tasks h item [] 1 is = Inr cmds \<and>
           all_approved h ap (or_default (bd_worktree bd) []) item 0 cmds (ct_authority c) \<and>
           list_all2 (task_sent h (qi_to_session_id item))
             (take (length es) (step_jobs h issue bd item 0 (first_index bd) is)) es)"
      using workflow_sent by blast
    have "list_all2 (approved_as bd item) cmds (sent_commands h item (first_index bd) (map Some is))"
      if "command_tasks h item [] 1 is = Inr cmds" for cmds
      using command_tasks_sent [of h item "[]" 0 "is" cmds "first_index bd" bd] that by auto
    then show ?thesis using es ps unfolding run(3) by (metis planned_jobs_steps)
  qed
qed

lemma single_sent:
  "\<exists>es. ct_log (snd (run_single h issue re bd item c)) = ct_log c @ es \<and>
     (es = [] \<or> (\<exists>e. es = [e] \<and> task_sent h (qi_to_session_id item)
        (issue, qi_task_id item, in_workspace (bd_worktree bd) (dict_items (qi_payload item))) e))"
proof -
  let ?c = "put_item (stamped (re_now re) QT_RUNNING item) c"
  have "ct_log (snd (run_single h issue re bd item c)) =
      ct_log (snd (dispatch_task_to_worker h issue (re_dispatch re 0) (qi_to_session_id item) (qi_task_id item)
        (in_workspace (bd_worktree bd) (dict_items (qi_payload item))) ?c))"
    by (simp add: run_single_def Let_def split: prod.split sum.split)
  then show ?thesis
    using dispatch_sends [of h issue "re_dispatch re 0" "qi_to_session_id item" "qi_task_id item" _ ?c] by simp
qed

lemma resume_single_sent:
  assumes "\<And>xs. json_get ''steps'' JNull (dict_items (qi_payload item)) \<noteq> JList xs"
  shows "\<exists>es. ct_log (snd (resume_single h (Some ap) (issue 0) re bd prior item c)) = ct_log c @ es \<and>
     (es = [] \<or> (\<exists>ps cmds. planned_positions re bd item = Inr ps \<and>
        list_all2 (task_sent h (qi_to_session_id item))
          (take (length es) (planned_jobs h issue bd item 0 (first_index bd) ps)) es \<and>
        all_approved h ap (or_default (bd_worktree bd) []) item 0 cmds (ct_authority c) \<and>
        list_all2 (approved_as bd item) cmds (sent_commands h item (first_index bd) ps)))"
proof -
  let ?run = "resume_single h (Some ap) (issue 0) re bd prior item c"
  let ?ws = "or_default (bd_worktree bd) []"
  let ?cmds = "if map_of (dict_items (qi_payload item)) ''command'' = None then [] else [(qi_task_id item, None)]"
  have ps: "planned_positions re bd item = Inr [None]"
    using assms by (simp add: planned_positions_def Let_def split: json.split)
  have cmds: "list_all2 (approved_as bd item) ?cmds (sent_commands h item (first_index bd) [None])"
    by (simp add: approved_as_def position_task_def owner_of_def)
  have sent: ?thesis
    if run: "ct_log (snd ?run) = ct_log (snd (run_single h (issue 0) re bd item1 c1))" "ct_log c1 = ct_log c"
      and item1: "item1 \<in> {item, stamped (re_now re) QT_RUNNING item}"
      and ok: "all_approved h ap ?ws item 0 ?cmds (ct_authority c)" for item1 c1
  proof -
    have same: "qi_to_session_id item1 = qi_to_session_id item" "qi_task_id item1 = qi_task_id item"
        "qi_payload item1 = qi_payload item" using item1 by (auto simp: stamped_def)
    obtain es where es: "ct_log (snd ?run) = ct_log c @ es" "es = [] \<or> (\<exists>e. es = [e] \<and> task_sent h (qi_to_session_id item)
        (issue 0, qi_task_id item, in_workspace (bd_worktree bd) (dict_items (qi_payload item))) e)"
      using single_sent [of h "issue 0" re bd item1 c1] run same by auto
    have "list_all2 (task_sent h (qi_to_session_id item))
        (take (length es) (planned_jobs h issue bd item 0 (first_index bd) [None])) es" if "es \<noteq> []"
      using es(2) that by (auto simp: position_task_def owner_of_def)
    then show ?thesis using es(1) ps cmds ok by blast
  qed
  have none: ?thesis if "ct_log (snd ?run) = ct_log c" using that by (intro exI [of _ "[]"]) simp
  show ?thesis
  proof (cases "completed_proved re bd (json_get ''expected_artifacts'' (JList []) (dict_items (qi_payload item))) = Inr False")
    case False
    then show ?thesis by (intro none) (auto simp: resume_single_def Let_def split: sum.splits bool.splits)
  next
    case todo: True
    show ?thesis
    proof (cases "map_of (dict_items (qi_payload item)) ''command''")
      case None
      then show ?thesis using todo by (intro sent [of item c]) (simp_all add: resume_single_def Let_def)
    next
      case (Some v)
      obtain r c1 where p: "preflight h (Some ap) (re_now re) ?ws prior [(qi_task_id item, None)] item c = (r, c1)"
        by fastforce
      have log: "ct_log c1 = ct_log c" using preflight_log p by (metis snd_conv)
      show ?thesis
      proof (cases "\<exists>item1. r = Inr (None, item1)")
        case True
        then obtain item1 where r: "r = Inr (None, item1)" by blast
        show ?thesis
          by (rule sent [of item1 c1])
            (use Some todo p r log preflight_approved [OF p [unfolded r]] in \<open>simp_all add: resume_single_def Let_def\<close>)
      next
        case False
        then show ?thesis using Some todo p log
          by (intro none) (auto simp: resume_single_def Let_def split: sum.splits option.splits)
      qed
    qed
  qed
qed

lemma changes_obtain_worker:
  assumes "obtain_worker h re w c = (r, c1)"
  shows "ct_authority c1 = ct_authority c \<and> (\<exists>es. ct_log c1 = ct_log c @ es \<and> list_all quiet es)"
proof -
  have guarded: "\<exists>F. changes F c (snd (resume_worker h (re_look re 4) w c))"
    unfolding resume_worker_def using changes_guarded by blast
  have "\<exists>F. changes F c (snd (resume_worker_from_checkpoint h (re_spawn re) (re_look re 4) (re_is_dir re) True w c))"
  proof -
    have spawn: "\<exists>F. changes F c (snd (spawn_worker h (re_spawn re) (re_look re 4) config path c))" for config path
      using changes_spawn by blast
    have "\<exists>F. changes F c ((snd (spawn_worker h (re_spawn re) (re_look re 4) config path c))\<lparr>ct_store := db\<rparr>)"
      for config path db using spawn changes_after changes_store by blast
    then show ?thesis using spawn changes_refl [of c]
      by (auto simp: resume_worker_from_checkpoint_def Let_def split: sum.split option.split prod.split) (metis snd_conv)+
  qed
  then have "\<exists>F. changes F c c1"
    using assms guarded changes_refl [of c]
    by (auto simp: obtain_worker_def split: if_splits prod.splits sum.splits bool.splits)
  then show ?thesis by (auto simp: changes_def)
qed

lemma resume_approved_first: "approved_first h ap issue re d c"
proof -
  let ?all = "resume_task_from_checkpoint h (Some ap) issue re d c"
  have none: ?thesis if "ct_log (snd ?all) = ct_log c @ early" "list_all quiet early" for early
    using that unfolding approved_first_def by (intro exI [of _ early] exI [of _ "[]"]) simp
  show ?thesis
  proof (cases "?all = resume_marked h (Some ap) issue re d c")
    case False
    then show ?thesis
      by (intro none [of "[]"]) (auto simp: resume_task_from_checkpoint_def split: sum.splits option.splits bool.splits)
  next
    case marked: True
    obtain m db where m: "mark_task_resuming (re_now re) d (ct_store c) = (m, db)" by fastforce
    show ?thesis
    proof (cases m)
      case (Inl e)
      then show ?thesis using marked m by (intro none [of "[]"]) (simp_all add: resume_marked_def)
    next
      case item: (Inr item)
      obtain r c1 where w: "obtain_worker h re (qi_to_session_id item) (c\<lparr>ct_store := db\<rparr>) = (r, c1)" by fastforce
      obtain early where early: "ct_log c1 = ct_log c @ early" "list_all quiet early" "ct_authority c1 = ct_authority c"
        using changes_obtain_worker [OF w] by auto
      show ?thesis
      proof (cases "\<exists>session bd prior. r = Inr (Some session) \<and> bind_task re item session (ct_store c1) = Inr bd \<and>
          completed_before re bd (json_get ''steps'' JNull (dict_items (qi_payload item))) = Inr prior")
        case False
        then have "ct_log (snd ?all) = ct_log c1" using marked m item w
          by (auto simp: resume_marked_def resume_bound_def Let_def split: sum.splits option.splits)
        then show ?thesis using none early by simp
      next
        case True
        then obtain session bd prior where r: "r = Inr (Some session)" "bind_task re item session (ct_store c1) = Inr bd"
            and prior: "completed_before re bd (json_get ''steps'' JNull (dict_items (qi_payload item))) = Inr prior"
          by blast
        have all: "?all = resume_bound h (Some ap) issue re session item c1"
          using marked m item w r(1) by (simp add: resume_marked_def)
        have "\<exists>es. ct_log (snd ?all) = ct_log c1 @ es \<and>
           (es = [] \<or> (\<exists>ps cmds. planned_positions re bd item = Inr ps \<and>
              list_all2 (task_sent h (qi_to_session_id item))
                (take (length es) (planned_jobs h issue bd item 0 (first_index bd) ps)) es \<and>
              all_approved h ap (or_default (bd_worktree bd) []) item 0 cmds (ct_authority c1) \<and>
              list_all2 (approved_as bd item) cmds (sent_commands h item (first_index bd) ps)))"
        proof (cases "\<exists>xs. json_get ''steps'' JNull (dict_items (qi_payload item)) = JList xs")
          case True
          then obtain xs where xs: "json_get ''steps'' JNull (dict_items (qi_payload item)) = JList xs" by blast
          then have "?all = resume_workflow h (Some ap) issue re session bd xs prior item c1"
            using all r(2) prior by (simp add: resume_bound_def)
          then show ?thesis using resume_workflow_sent [OF xs prior [unfolded xs]] by simp
        next
          case False
          then have "?all = resume_single h (Some ap) (issue 0) re bd prior item c1"
            using all r(2) prior by (auto simp: resume_bound_def Let_def split: json.splits)
          then show ?thesis using resume_single_sent [of item h issue re bd prior c1] False by simp
        qed
        then obtain es where "ct_log (snd ?all) = ct_log c @ early @ es"
            "es = [] \<or> (\<exists>ps cmds. planned_positions re bd item = Inr ps \<and>
              list_all2 (task_sent h (qi_to_session_id item))
                (take (length es) (planned_jobs h issue bd item 0 (first_index bd) ps)) es \<and>
              all_approved h ap (or_default (bd_worktree bd) []) item 0 cmds (ct_authority c) \<and>
              list_all2 (approved_as bd item) cmds (sent_commands h item (first_index bd) ps))"
          using early by auto
        then show ?thesis using early(2) m item w r unfolding approved_first_def by blast
      qed
    qed
  qed
qed

end

text \<open>
  C34: Approvals before effects.  Whatever a resumption of a task writes to a worker is, after lines that
  start no task, the tasks of its plan in order, each with the ticket that was issued for it; and before
  the first of them is written, the authority has confirmed, for every command of the plan, an approval of
  that very command for this worker, the task id that it is sent with and the worktree, that a human had
  granted and that was not spent.  One kind of step is looked up under another id: a step without a name
  after a checkpoint.  This holds with either authority.
\<close>

theorem commands_approved_first:
  "approved_first h (trusted_approvals sha now token) issue re d c \<and>
   approved_first h (verified_approvals hst now' reload nonce) issue' re d c'"
  by (intro conjI trusted_recovery.resume_approved_first verified_recovery.resume_approved_first)

section \<open>Finished tasks\<close>

lemma mark_refused:
  assumes "load_queue_item d db = Inr (Some item)" "qi_status item \<in> {QT_RUNNING, QT_COMPLETED, QT_CANCELLED}"
  shows "mark_task_resuming now d db =
    (raise RuntimeError (if qi_status item = QT_RUNNING then ''Concurrent resume rejected: task is already RUNNING''
       else if qi_status item = QT_COMPLETED then ''Duplicate resume rejected: task is already COMPLETED''
       else ''Resume rejected: task is CANCELLED''), db)"
proof -
  obtain r where "queue_at d db = Some r" "row_to_queue_item r = Inr item"
    using assms(1) by (rule load_queue_itemD)
  moreover have "qi_status item = qr_status r" using row_to_queue_itemD(6) [OF calculation(2)] .
  ultimately show ?thesis using assms(2) by (auto simp: mark_task_resuming_def)
qed

text \<open>
  C37: A task that runs, is completed or is cancelled is not resumed.  The call changes nothing, neither
  the store nor a process.  Its answer depends on the worker first: an error in finding out whether it is
  alive is passed on; a worker that is alive without pipes to this controller makes the answer
  RECOVERY_BLOCKED; otherwise the error of the task's status is raised.
\<close>

theorem finished_task_is_not_resumed:
  assumes "load_queue_item d (ct_store c) = Inr (Some item)"
    and "qi_status item \<in> {QT_RUNNING, QT_COMPLETED, QT_CANCELLED}"
  shows "resume_task_from_checkpoint h av issue re d c =
    (case orphaned h re (qi_to_session_id item) c of
       Inl e \<Rightarrow> Inl e
     | Inr True \<Rightarrow> ok (blocked_answer item ''Worker PID is alive but this controller has no attached IPC; operator reconciliation required'')
     | Inr False \<Rightarrow> raise RuntimeError
         (if qi_status item = QT_RUNNING then ''Concurrent resume rejected: task is already RUNNING''
          else if qi_status item = QT_COMPLETED then ''Duplicate resume rejected: task is already COMPLETED''
          else ''Resume rejected: task is CANCELLED''), c)"
  by (simp add: resume_task_from_checkpoint_def assms(1) resume_marked_def mark_refused [OF assms]
      split: sum.split bool.split)

theorem finished_task_is_not_resumed_witness:
  "snd (resume_task_from_checkpoint demo_py None (\<lambda>k. trusted_issue TrustedAuthority.demo_hash demo_mac demo_fmt (20, 21)) demo_resume_env ''d''
      (mk_controller demo_running (mk_authority demo_broker) None)) =
    mk_controller demo_running (mk_authority demo_broker) None"
proof -
  have "load_queue_item ''d'' (ct_store (mk_controller demo_running (mk_authority demo_broker) None)) =
      Inr (Some (demo_item ''d'' QT_RUNNING))"
    using demo_load_item by (simp add: mk_controller_def)
  moreover have "qi_status (demo_item ''d'' QT_RUNNING) \<in> {QT_RUNNING, QT_COMPLETED, QT_CANCELLED}"
    by (simp add: demo_item_def)
  ultimately show ?thesis by (subst finished_task_is_not_resumed) (assumption+, rule snd_conv)
qed

text \<open>
  An error before the first step keeps the claim of the resumption: the item stays RUNNING, and every later
  resumption is refused as concurrent.
\<close>

lemma failed_preparation_keeps_claim:
  assumes "command_tasks h item [] 1 is = Inl e"
    and "load_queue_item d (ct_store c) = Inr (Some q)" "qi_status q = QT_RUNNING"
  shows "run_workflow h av issue re session bd steps prior is item c = (Inl e, c) \<and>
    resume_marked h av' issue' re' d c = (raise RuntimeError ''Concurrent resume rejected: task is already RUNNING'', c)"
  using assms mark_refused [OF assms(2)] by (simp add: run_workflow_def resume_marked_def)

end
