(* ===== verification/Spec2Isabelle.thy ===== *)
theory Spec2Isabelle
  imports Coordinator MessageBus Classification DispatchTracker VerifiedAuthority Migration
    WorkerEndToEnd CrashRecoveryFacts TaskResumeFacts
begin

text \<open>
  SubagentBridge supervises coding agents: a lead plans tasks, workers execute them in processes of
  their own, a QA principal reviews, a human approves commands, and everything is recorded in SQLite.
  This library models the Python code under \<open>src/subagentbridge\<close> and proves what makes it correct.

  Conventions.  A call that may raise returns \<open>exn + 'a\<close>; a method returns that result and the
  object's new state; \<open>raise\<close> and \<open>ok\<close> are the two injections.  A dictionary is a map, or a list of
  rows or pairs where order matters; a SQLite table is the list of its rows in insertion order.
  Clock readings, random tokens, SHA-256, HMAC, the rendering of floats and the file system are
  arguments, so a theorem holds for all of them; where collision freedom is needed, the theorem
  exhibits the collision.  Python strings are lists of code points below 256.  Python integers are
  \<open>int\<close>; the code has no fixed-width integers.

  Theories and the code they model.

  \<^item> \<open>Prelude\<close>: exceptions, strings, keyed tables; the interfaces \<open>upsert_table\<close> (an \<open>INSERT ... ON
    CONFLICT\<close>), \<open>invariant_machine\<close>, \<open>monotone_machine\<close> and \<open>single_use_authority\<close> (what is granted
    once is spent), each interpreted by the components that provide it.
  \<^item> \<open>Contracts\<close>, \<open>Registry\<close>, \<open>Engine\<close>, \<open>DispatchTracker\<close>: \<open>domain/contracts.py\<close>, \<open>registry.py\<close>,
    \<open>engine.py\<close>, \<open>dispatch.py\<close>.  Identities, receipts and verdicts; the life of one task; a verified
    task has the provenance it claims.
  \<^item> \<open>Budget\<close>, \<open>TaskDag\<close>: \<open>planner/budget.py\<close>.  The in-memory and the SQLite ledger, the second
    refining the first; the depth-first search of a plan, which ends, decides cycles and returns a
    topological order.  Its measure counts unvisited nodes and stacked edges, so no fuel is needed.
  \<^item> \<open>QaGate\<close>: \<open>qa/test_pins.py\<close>, \<open>qa/adjudication.py\<close>.  Test paths, pins on disk, the evidence gate.
  \<^item> \<open>Coordinator\<close>: \<open>team/coordinator.py\<close>, over the engine, the registries, the gate and the ledger.
  \<^item> \<open>Json\<close>, \<open>AuditLedger\<close>, \<open>MessageBus\<close>: \<open>storage/audit_ledger.py\<close>, \<open>messaging/bus.py\<close>.  JSON texts
    with a reader that inverts the writer; the hash-chained ledger; messages as ledger events.
  \<^item> \<open>Classification\<close>: \<open>policy/classification.py\<close>.
  \<^item> \<open>Broker\<close>, \<open>TrustedAuthority\<close>, \<open>OperatorBoundary\<close>, \<open>VerifiedAuthority\<close>: \<open>approval/\<close>.  Human approval
    in memory and, for several supervisors, on a shared table; execution tickets.
  \<^item> \<open>TeamContracts\<close>, \<open>TeamStore\<close>, \<open>TeamFacts\<close>, \<open>Migration\<close>: \<open>domain/team_contracts.py\<close>,
    \<open>storage/team_store.py\<close>.  The team database, what its transactions keep, the schema migration.
  \<^item> \<open>TeamManager\<close>, \<open>TeamManagerFacts\<close>: \<open>team/team_manager.py\<close>.  What leads and workers call; the manager
    refines its store; handoffs need their evidence.

  \<^item> \<open>HarnessAdapters\<close>: \<open>runners/harness_adapters.py\<close>.  What the adapters of the agents declare, validate
    and answer.
  \<^item> \<open>WorkerRuntime\<close>, \<open>WorkerRuntimeFacts\<close>: \<open>execution/worker_runtime_entrypoint.py\<close>.  The message loop of a
    worker; it runs a command only for a ticket that verifies and was not used.
  \<^item> \<open>WorkerIsolation\<close>: \<open>execution/worker_isolation.py\<close>.  Under which identity and environment it is launched.
  \<^item> \<open>WorkerProcess\<close>, \<open>WorkerProcessFacts\<close>: \<open>execution/worker_process.py\<close>.  The controller of the worker
    processes as a machine of calls over the operating system it sees; claims, tickets, lost results.
  \<^item> \<open>WorkerEndToEnd\<close>: controller, pipe and worker together, with the interface \<open>ticket_issuer\<close> that both
    authorities provide: what a worker executes was approved by a human.
  \<^item> \<open>CrashRecovery\<close>, \<open>CrashRecoveryFacts\<close>, \<open>TaskResume\<close>, \<open>TaskResumeFacts\<close>: \<open>recovery/\<close>.  Reconciliation of a
    team after a crash; the resumption of a task from its checkpoint, over the interface
    \<open>recovery_authority\<close> that both authorities provide.

  Not modelled: connection handling, WAL checkpoints and byte backups of SQLite files; locks (every
  method is one atomic step); the HTTP client of \<open>models/nine_router.py\<close>; the handles of Windows
  jobs; the request routing of \<open>server.py\<close> and the start-up of \<open>manager.py\<close> and \<open>composition.py\<close>, which
  only connect the parts above to sockets and files; git worktrees on disk; the agent interface
  \<open>runners/base.py\<close>, which has no implementation here.
\<close>

end
